(* ===== verification/Prelude.thy ===== *)
theory Prelude
  imports Main "HOL-Library.AList"
begin

text \<open>
  Shared vocabulary of the development: the types that stand for the JavaScript values the
  bots pass around, the few library functions of the language the sources use
  (\<open>??\<close>, \<open>String.prototype.toLowerCase\<close>, template literals over integers,
  \<open>Map\<close> with its insertion order), and the lemmas on them that several components use.

  \<^item> An address, a hash or a token is a \<^typ>\<open>string\<close>, compared as the code compares it.
  \<^item> A \<open>bigint\<close> is an \<^typ>\<open>int\<close>; a \<open>number\<close> that the code only uses as an
    integer (a nonce, a block height, a millisecond stamp) is an \<^typ>\<open>int\<close> as well.
  \<^item> \<open>undefined\<close> and \<open>null\<close> are \<^const>\<open>None\<close>.
  \<^item> A JavaScript \<open>Map\<close> whose order is observed is an association list updated with
    \<^const>\<open>AList.update\<close>, which, as the language does, overwrites in place and appends a
    new key at the end. A \<open>Map\<close> that is only looked up is a partial function.
  \<^item> A promise that may reject is a value of \<open>string + 'a\<close>, \<^const>\<open>Inl\<close> the error.
\<close>

named_theorems ledger \<open>accounting equations of the risk gate's token ledger\<close>
named_theorems gate_frame \<open>fields an operation of the risk gate leaves alone\<close>
named_theorems row_simps \<open>lookups in the intent table after an operation\<close>

type_synonym address = string
type_synonym hex = string
type_synonym millis = int
type_synonym 'a outcome = "string + 'a"

section \<open>Nullish coalescing\<close>

definition or_else :: "'a option \<Rightarrow> 'a option \<Rightarrow> 'a option" where
  "or_else a b = (case a of None \<Rightarrow> b | Some _ \<Rightarrow> a)"

lemma or_else_simps [simp]:
  "or_else None b = b"
  "or_else (Some x) b = Some x"
  "or_else a None = a"
  by (auto simp: or_else_def split: option.splits)

definition or_default :: "'a option \<Rightarrow> 'a \<Rightarrow> 'a" where
  "or_default a d = (case a of None \<Rightarrow> d | Some x \<Rightarrow> x)"

lemma or_default_simps [simp]:
  "or_default None d = d"
  "or_default (Some x) d = x"
  by (simp_all add: or_default_def)

section \<open>Joining texts\<close>

text \<open>\<open>xs.join(sep)\<close>.\<close>

fun join :: "string \<Rightarrow> string list \<Rightarrow> string" where
  "join sep [] = ''''"
| "join sep [s] = s"
| "join sep (s # t # ts) = s @ sep @ join sep (t # ts)"

section \<open>Promises that may reject\<close>

text \<open>\<open>await\<close>: the rest of the function runs on the value, a rejection ends it.\<close>

definition await :: "'a outcome \<Rightarrow> ('a \<Rightarrow> 'b outcome) \<Rightarrow> 'b outcome" where
  "await p f = (case p of Inl e \<Rightarrow> Inl e | Inr x \<Rightarrow> f x)"

lemma await_simps [simp]:
  "await (Inl e) f = Inl e"
  "await (Inr x) f = f x"
  by (simp_all add: await_def)

lemma await_eq_Inr: "await p f = Inr y \<longleftrightarrow> (\<exists>x. p = Inr x \<and> f x = Inr y)"
  by (cases p) auto

lemma await_InrE:
  assumes "await p f = Inr y"
  obtains x where "p = Inr x" "f x = Inr y"
  using assms by (auto simp: await_eq_Inr)

text \<open>\<open>Promise.all\<close> over reads: the values in order, or the first rejection.\<close>

fun await_all :: "('a \<Rightarrow> 'b outcome) \<Rightarrow> 'a list \<Rightarrow> 'b list outcome" where
  "await_all f [] = Inr []"
| "await_all f (x # xs) = await (f x) (\<lambda>y. await (await_all f xs) (\<lambda>ys. Inr (y # ys)))"

lemma await_all_ok: "(\<And>x. x \<in> set xs \<Longrightarrow> \<exists>y. f x = Inr y) \<Longrightarrow> \<exists>ys. await_all f xs = Inr ys"
  by (induction xs) (fastforce simp: await_eq_Inr)+

lemma await_all_Inr:
  "await_all f xs = Inr ys \<longleftrightarrow> length ys = length xs \<and> (\<forall>i < length xs. f (xs ! i) = Inr (ys ! i))"
proof (induction xs arbitrary: ys)
  case (Cons x xs)
  show ?case
    by (cases ys) (auto simp: await_eq_Inr Cons.IH nth_Cons' all_conj_distrib less_Suc_eq_0_disj
        split: nat.splits)
qed auto

section \<open>Strings\<close>

text \<open>
  \<open>toLowerCase\<close> on ASCII text, which is all the code applies it to (hex addresses and
  ids): a capital letter differs from the small one in bit 5 only.
\<close>

definition lower_char :: "char \<Rightarrow> char" where
  "lower_char c =
     (if (65::nat) \<le> of_char c \<and> of_char c \<le> (90::nat)
      then (case c of Char b0 b1 b2 b3 b4 b5 b6 b7 \<Rightarrow> Char b0 b1 b2 b3 b4 True b6 b7)
      else c)"

definition to_lower :: "string \<Rightarrow> string" where
  "to_lower s = map lower_char s"

text \<open>\<open>isAddressEqual\<close>.\<close>

definition same_address :: "string \<Rightarrow> string \<Rightarrow> bool" where
  "same_address a b = (to_lower a = to_lower b)"

lemma of_lower_char:
  assumes "(65::nat) \<le> of_char c" "of_char c \<le> (90::nat)"
  shows "of_char (lower_char c) = (of_char c + 32 :: nat)"
proof (cases c)
  case (Char b0 b1 b2 b3 b4 b5 b6 b7)
  let ?low = "of_bool b0 + 2 * of_bool b1 + 4 * of_bool b2 + 8 * of_bool b3 + 16 * of_bool b4 :: nat"
  have low: "?low \<le> 31" by simp
  have n: "of_char c = ?low + 32 * of_bool b5 + 64 * of_bool b6 + (128 * of_bool b7 :: nat)"
    by (simp add: Char)
  with assms low have "\<not> b5" "b6" "\<not> b7" by (cases b5; cases b6; cases b7; simp)+
  then show ?thesis using assms n by (simp add: lower_char_def Char)
qed

lemma lower_char_idem [simp]: "lower_char (lower_char c) = lower_char c"
  by (cases "(65::nat) \<le> of_char c \<and> of_char c \<le> (90::nat)")
    (use of_lower_char [of c] in \<open>auto simp: lower_char_def\<close>)

lemma to_lower_Nil [simp]: "to_lower [] = []"
  by (simp add: to_lower_def)

lemma to_lower_idem [simp]: "to_lower (to_lower s) = to_lower s"
  by (simp add: to_lower_def)

lemma to_lower_append [simp]: "to_lower (s @ t) = to_lower s @ to_lower t"
  by (simp add: to_lower_def)

lemma lower_char_eq_iff_punct:
  assumes "of_char d < (65::nat) \<or> (122::nat) < of_char d"
  shows "lower_char c = d \<longleftrightarrow> c = d"
proof (cases "(65::nat) \<le> of_char c \<and> of_char c \<le> (90::nat)")
  case True
  then have "of_char (lower_char c) = (of_char c + 32 :: nat)" by (simp add: of_lower_char)
  with True assms show ?thesis by auto
next
  case False
  then show ?thesis by (auto simp: lower_char_def)
qed

lemma punct_notin_to_lower:
  assumes "of_char d < (65::nat) \<or> (122::nat) < of_char d"
  shows "d \<in> set (to_lower s) \<longleftrightarrow> d \<in> set s"
proof -
  have "d \<in> set (to_lower s) \<longleftrightarrow> (\<exists>c \<in> set s. lower_char c = d)"
    by (auto simp: to_lower_def)
  then show ?thesis
    by (simp add: lower_char_eq_iff_punct [OF assms])
qed

text \<open>An integer inside a template literal: its decimal digits.\<close>

definition digit_char :: "nat \<Rightarrow> char" where
  "digit_char n = ''0123456789'' ! (n mod 10)"

fun show_nat :: "nat \<Rightarrow> string" where
  "show_nat n = (if n < 10 then [digit_char n] else show_nat (n div 10) @ [digit_char n])"

declare show_nat.simps [simp del]

definition show_int :: "int \<Rightarrow> string" where
  "show_int i = (if i < 0 then CHR ''-'' # show_nat (nat (- i)) else show_nat (nat i))"

lemma digit_char_cases:
  "digit_char n \<in> set ''0123456789''"
proof -
  have "n mod 10 < length ''0123456789''" by simp
  then show ?thesis unfolding digit_char_def by (rule nth_mem)
qed

lemma digit_char_inj: "digit_char m = digit_char n \<Longrightarrow> m mod 10 = n mod 10"
proof -
  assume eq: "digit_char m = digit_char n"
  have d: "distinct ''0123456789''" by simp
  have "m mod 10 < length ''0123456789''" "n mod 10 < length ''0123456789''" by simp_all
  with d eq show ?thesis unfolding digit_char_def by (simp only: nth_eq_iff_index_eq)
qed

lemma show_nat_digits: "set (show_nat n) \<subseteq> set ''0123456789''"
proof (induction n rule: show_nat.induct)
  case (1 n)
  then show ?case
    using digit_char_cases [of n] by (subst show_nat.simps) auto
qed

lemma show_nat_not_Nil [simp]: "show_nat n \<noteq> []"
  by (subst show_nat.simps) simp

lemma show_nat_inj: "show_nat m = show_nat n \<Longrightarrow> m = n"
proof (induction m arbitrary: n rule: show_nat.induct)
  case (1 m)
  have last: "last (show_nat k) = digit_char k" for k
    by (subst show_nat.simps) simp
  have butlast: "butlast (show_nat k) = (if k < 10 then [] else show_nat (k div 10))" for k
    by (subst show_nat.simps) simp
  from "1.prems" have d: "m mod 10 = n mod 10"
    by (metis last digit_char_inj)
  from "1.prems" have b: "butlast (show_nat m) = butlast (show_nat n)" by simp
  have "m div 10 = n div 10"
  proof (cases "m < 10")
    case True
    with b have "n < 10"
      by (cases "n < 10") (simp_all add: butlast, metis show_nat_not_Nil)
    with True show ?thesis by simp
  next
    case False
    with b have "\<not> n < 10"
      by (cases "n < 10") (simp_all add: butlast)
    with False b have "show_nat (m div 10) = show_nat (n div 10)" by (simp add: butlast)
    with False show ?thesis by (rule "1.IH")
  qed
  with d show ?case by (metis div_mult_mod_eq)
qed

lemma dash_notin_show_nat: "CHR ''-'' \<notin> set (show_nat n)"
  using show_nat_digits [of n] by (auto dest!: subsetD)

lemma show_int_inj: "show_int i = show_int j \<Longrightarrow> i = j"
proof -
  assume eq: "show_int i = show_int j"
  have dash: "CHR ''-'' \<in> set (show_int k) \<longleftrightarrow> k < 0" for k
    using dash_notin_show_nat by (simp add: show_int_def)
  from eq have "i < 0 \<longleftrightarrow> j < 0" by (metis dash)
  with eq show ?thesis
    by (cases "i < 0") (auto simp: show_int_def dest!: show_nat_inj)
qed

lemma show_int_no_punct:
  "CHR '':'' \<notin> set (show_int i)" "CHR ''|'' \<notin> set (show_int i)"
  using show_nat_digits by (auto simp: show_int_def dest!: subsetD)

text \<open>Fields joined by a separator they do not contain can be told apart.\<close>

lemma separator_inj:
  assumes "c \<notin> set xs" "c \<notin> set ys"
  shows "xs @ c # zs = ys @ c # ws \<longleftrightarrow> xs = ys \<and> zs = ws"
  using assms by (auto simp: append_eq_append_conv2 Cons_eq_append_conv append_eq_Cons_conv)

section \<open>Counters in a partial map: \<open>m.get(k) ?? 0n\<close>\<close>

definition mget :: "('k \<rightharpoonup> int) \<Rightarrow> 'k \<Rightarrow> int" where
  "mget m k = or_default (m k) 0"

lemma mget_simps [simp]:
  "mget Map.empty k = 0"
  "mget (m(k \<mapsto> v)) k' = (if k' = k then v else mget m k')"
  by (simp_all add: mget_def)

section \<open>Ordered maps\<close>

abbreviation alist_set :: "'k \<Rightarrow> 'v \<Rightarrow> ('k \<times> 'v) list \<Rightarrow> ('k \<times> 'v) list" where
  "alist_set k v m \<equiv> AList.update k v m"

abbreviation alist_delete :: "'k \<Rightarrow> ('k \<times> 'v) list \<Rightarrow> ('k \<times> 'v) list" where
  "alist_delete k m \<equiv> AList.delete k m"

text \<open>The keys keep their order: an existing key its place, a new one the end.\<close>

lemma keys_alist_set:
  "map fst (alist_set k v m) = (if k \<in> fst ` set m then map fst m else map fst m @ [k])"
  by (induction m) auto

lemma distinct_alist_set: "distinct (map fst m) \<Longrightarrow> distinct (map fst (alist_set k v m))"
  by (simp add: distinct_update)

lemma map_of_alist_set [row_simps]:
  "map_of (alist_set k v m) k' = (if k' = k then Some v else map_of m k')"
  by (simp add: update_conv')

lemma set_alist_set_distinct:
  assumes "distinct (map fst m)"
  shows "set (alist_set k v m) = insert (k, v) {p \<in> set m. fst p \<noteq> k}"
  using assms by (induction m) (auto simp: image_iff)

section \<open>Sums over lists\<close>

lemma sum_list_list_update:
  fixes f :: "'a \<Rightarrow> int"
  assumes "i < length xs"
  shows "sum_list (map f (xs[i := x])) = sum_list (map f xs) - f (xs ! i) + f x"
  using assms
proof (induction xs arbitrary: i)
  case Nil
  then show ?case by simp
next
  case (Cons y ys)
  then show ?case by (cases i) auto
qed

lemma sum_list_nonneg_int:
  fixes f :: "'a \<Rightarrow> int"
  assumes "\<And>x. x \<in> set xs \<Longrightarrow> 0 \<le> f x"
  shows "0 \<le> sum_list (map f xs)"
  using assms by (induction xs) auto

text \<open>Sums over an ordered map, of a function of key and value.\<close>

lemma sum_list_alist_set_new:
  fixes f :: "'k \<times> 'v \<Rightarrow> int"
  assumes "map_of m k = None"
  shows "sum_list (map f (alist_set k v m)) = sum_list (map f m) + f (k, v)"
  using assms by (induction m) (auto split: if_splits)

lemma sum_list_alist_set_old:
  fixes f :: "'k \<times> 'v \<Rightarrow> int"
  assumes "distinct (map fst m)" "map_of m k = Some w"
  shows "sum_list (map f (alist_set k v m)) = sum_list (map f m) - f (k, w) + f (k, v)"
  using assms by (induction m) (auto split: if_splits)

lemma sum_list_alist_skip:
  fixes f :: "'k \<times> 'v \<Rightarrow> int"
  shows "sum_list (map f (alist_delete k m)) = sum_list (map (\<lambda>p. if fst p = k then 0 else f p) m)"
  by (induction m) auto

lemma sum_list_alist_delete:
  fixes f :: "'k \<times> 'v \<Rightarrow> int"
  assumes "distinct (map fst m)" "map_of m k = Some w"
  shows "sum_list (map f (alist_delete k m)) = sum_list (map f m) - f (k, w)"
  using assms
proof (induction m)
  case Nil
  then show ?case by simp
next
  case (Cons p m)
  show ?case
  proof (cases "fst p = k")
    case True
    with Cons.prems have "k \<notin> fst ` set m" by auto
    then have "alist_delete k m = m" by simp
    with True Cons.prems show ?thesis by (cases p) simp
  next
    case False
    with Cons.prems have "map_of m k = Some w" by (cases p) (auto split: if_splits)
    with Cons False show ?thesis by (cases p) simp
  qed
qed

end
