(* ===== verification/RiskGate.thy ===== *)
theory RiskGate
  imports Prelude
begin

text \<open>
  The risk gate, \<open>packages/risk/src/gate.ts\<close> with the types of \<open>types.ts\<close>.

  The gate is a closure over mutable variables and maps; here they are the fields of the
  record \<open>gate\<close>. A \<open>RiskSlot\<close> is a closure over the spend it reserved and a \<open>settled\<close>
  flag; here it is an entry of \<open>g_slots\<close>, and settling it is an operation on its index.
  Alerts sent through \<open>config.onEvent\<close> are appended to \<open>g_events\<close>.
\<close>

section \<open>Types of the port\<close>

datatype risk_state = RUNNING | HALTED

text \<open>
  A wire value that was cast, not parsed: an integral \<open>number\<close>, or anything else that
  \<open>JSON.stringify\<close> can print.
\<close>

datatype wire_value = WireInt int | WireOther string

definition is_safe_integer :: "wire_value \<Rightarrow> bool" where
  "is_safe_integer v = (case v of WireInt n \<Rightarrow> \<bar>n\<bar> \<le> 2 ^ 53 - 1 | WireOther _ \<Rightarrow> False)"

definition json_text :: "wire_value \<Rightarrow> string" where
  "json_text v = (case v of WireInt n \<Rightarrow> show_int n | WireOther s \<Rightarrow> s)"

datatype accounting = AccGate | AccCaller

record token_account =
  ta_owner :: address
  ta_token :: address

record token_spend = token_account +
  ts_amount :: int
  ts_accounting :: "accounting option"

record risk_action =
  ra_kind :: string
  ra_subject :: string
  ra_expectedProfit :: "int option"
  ra_dataTimestampMs :: "wire_value option"
  ra_spend :: "token_spend list option"

record action_outcome =
  ao_ok :: bool
  ao_abandoned :: bool
  ao_contended :: bool
  ao_unresolved :: bool
  ao_spent :: bool
  ao_spendUnknown :: bool
  ao_txHash :: "hex option"
  ao_minedAtBlock :: "int option"

text \<open>The outcome literals of the callers: every flag they leave out is \<open>undefined\<close>.\<close>

definition outcome :: "bool \<Rightarrow> action_outcome" where
  "outcome ok = \<lparr>ao_ok = ok, ao_abandoned = False, ao_contended = False,
     ao_unresolved = False, ao_spent = False, ao_spendUnknown = False,
     ao_txHash = None, ao_minedAtBlock = None\<rparr>"

record risk_config =
  rc_maxConsecutiveFailures :: "nat option"
  rc_minProfit :: "int option"
  rc_maxDataStalenessMs :: "int option"
  rc_maxInFlight :: "int option"
  rc_expectedCodeHashes :: "(address \<times> hex) list option"
  rc_startHalted :: bool

datatype risk_event = EvHalted string | EvResumed

section \<open>State of the gate\<close>

type_synonym ledger_key = string

record hold =
  h_entries :: "(ledger_key \<times> int) list"
  h_minedAtBlock :: "int option"

record slot =
  sl_spend :: "token_spend list"
  sl_settled :: bool

record gate =
  g_state :: risk_state
  g_haltReason :: string
  g_failures :: nat
  g_inFlight :: int
  g_codeHashHalt :: bool
  g_codeHashHaltSeq :: nat
  g_everVerified :: bool
  g_available :: "ledger_key \<rightharpoonup> int"
  g_spentSinceRefresh :: "ledger_key \<rightharpoonup> int"
  g_reserved :: "ledger_key \<rightharpoonup> int"
  g_snapshotBlock :: "ledger_key \<rightharpoonup> int"
  g_holds :: "(hex \<times> hold) list"
  g_slots :: "slot list"
  g_events :: "risk_event list"

definition MAX_SOURCE_CLOCK_SKEW_MS :: int where
  "MAX_SOURCE_CLOCK_SKEW_MS = 30000"

definition create_gate :: "risk_config \<Rightarrow> gate" where
  "create_gate cfg = \<lparr>
     g_state = (if rc_startHalted cfg then HALTED else RUNNING),
     g_haltReason = (if rc_startHalted cfg then ''started halted (kill-switch)'' else ''''),
     g_failures = 0, g_inFlight = 0, g_codeHashHalt = False, g_codeHashHaltSeq = 0,
     g_everVerified = False, g_available = Map.empty, g_spentSinceRefresh = Map.empty,
     g_reserved = Map.empty, g_snapshotBlock = Map.empty, g_holds = [], g_slots = [],
     g_events = []\<rparr>"

section \<open>The token ledger\<close>

definition ledger_key :: "('a token_account_scheme) \<Rightarrow> ledger_key" where
  "ledger_key a = to_lower (ta_owner a) @ ''|'' @ to_lower (ta_token a)"

definition entries_for :: "(ledger_key \<times> int) list \<Rightarrow> ledger_key \<Rightarrow> int" where
  "entries_for es k = sum_list (map snd (filter (\<lambda>e. fst e = k) es))"

definition held_for :: "gate \<Rightarrow> ledger_key \<Rightarrow> int" where
  "held_for g k = sum_list (map (\<lambda>h. entries_for (h_entries (snd h)) k) (g_holds g))"

definition capacity :: "gate \<Rightarrow> ledger_key \<Rightarrow> int" where
  "capacity g k = mget (g_available g) k - held_for g k
     - mget (g_spentSinceRefresh g) k - mget (g_reserved g) k"

text \<open>A read older than the newest one accepted for the account is ignored.\<close>

definition set_available ::
  "('a token_account_scheme) \<Rightarrow> int \<Rightarrow> int option \<Rightarrow> gate \<Rightarrow> gate" where
  "set_available account amount block g =
     (let k = ledger_key account;
          stale = (case block of None \<Rightarrow> False
                   | Some b \<Rightarrow> (case g_snapshotBlock g k of None \<Rightarrow> False
                               | Some newest \<Rightarrow> b < newest))
      in if stale then g
         else g\<lparr>g_snapshotBlock := (case block of None \<Rightarrow> g_snapshotBlock g
                                    | Some b \<Rightarrow> (g_snapshotBlock g)(k \<mapsto> b)),
                g_available := (g_available g)(k \<mapsto> amount),
                g_spentSinceRefresh := (g_spentSinceRefresh g)(k \<mapsto> 0)\<rparr>)"

definition outflows :: "gate \<Rightarrow> (hex \<times> int option) list" where
  "outflows g = map (\<lambda>(h, x). (h, h_minedAtBlock x)) (g_holds g)"

definition reserved_for :: "gate \<Rightarrow> ('a token_account_scheme) \<Rightarrow> int" where
  "reserved_for g account = mget (g_reserved g) (ledger_key account)"

fun retire_holds :: "ledger_key set \<Rightarrow> hex list \<Rightarrow> (hex \<times> hold) list \<Rightarrow> (hex \<times> hold) list" where
  "retire_holds refreshed [] hs = hs"
| "retire_holds refreshed (tx # txs) hs =
     retire_holds refreshed txs
       (case map_of hs tx of
          None \<Rightarrow> hs
        | Some h \<Rightarrow>
            (let es = filter (\<lambda>e. fst e \<notin> refreshed) (h_entries h)
             in if es = [] then alist_delete tx hs
                else alist_set tx (h\<lparr>h_entries := es\<rparr>) hs))"

fun publish :: "('a token_account_scheme \<times> int) list \<Rightarrow> int \<Rightarrow> gate \<Rightarrow> gate" where
  "publish [] block g = g"
| "publish ((account, amount) # bs) block g =
     publish bs block (set_available account amount (Some block) g)"

definition apply_snapshot ::
  "('a token_account_scheme \<times> int) list \<Rightarrow> int \<Rightarrow> hex list \<Rightarrow> gate \<Rightarrow> gate" where
  "apply_snapshot balances block settled g =
     publish balances block
       (g\<lparr>g_holds := retire_holds (set (map (ledger_key \<circ> fst) balances)) settled (g_holds g)\<rparr>)"

section \<open>Halting and resuming\<close>

definition emit :: "risk_event \<Rightarrow> gate \<Rightarrow> gate" where
  "emit ev g = g\<lparr>g_events := g_events g @ [ev]\<rparr>"

definition halt_with :: "string \<Rightarrow> bool \<Rightarrow> gate \<Rightarrow> gate" where
  "halt_with reason from_code_hash g =
     (let was_running = (g_state g = RUNNING);
          g1 = g\<lparr>g_state := HALTED, g_haltReason := reason\<rparr>;
          g2 = (if from_code_hash
                then g1\<lparr>g_codeHashHalt := True, g_codeHashHaltSeq := Suc (g_codeHashHaltSeq g1)\<rparr>
                else g1)
      in if was_running then emit (EvHalted reason) g2 else g2)"

definition halt :: "string \<Rightarrow> gate \<Rightarrow> gate" where
  "halt reason g = halt_with reason False g"

definition resume :: "gate \<Rightarrow> bool \<times> gate" where
  "resume g =
     (if g_codeHashHalt g then (False, g)
      else let was_halted = (g_state g = HALTED);
               g1 = g\<lparr>g_state := RUNNING, g_haltReason := '''', g_failures := 0\<rparr>
           in (True, if was_halted then emit EvResumed g1 else g1))"

section \<open>Judging an action\<close>

datatype block_reason =
    BlockedHalted string
  | BlockedExposure int int
  | BlockedNoBalance address address
  | BlockedInsufficient address address int int
  | BlockedProfit string
  | BlockedNoStamp string
  | BlockedBadStamp string wire_value
  | BlockedStale string
  | BlockedFuture string int

definition reason_text :: "block_reason \<Rightarrow> string" where
  "reason_text r = (case r of
     BlockedHalted why \<Rightarrow> ''halted ('' @ why @ '')''
   | BlockedExposure n m \<Rightarrow>
       ''exposure cap reached ('' @ show_int n @ ''/'' @ show_int m @ '' in flight)''
   | BlockedNoBalance owner token \<Rightarrow>
       ''no known balance for '' @ token @ '' held by '' @ owner
   | BlockedInsufficient owner token needs spendable \<Rightarrow>
       ''insufficient '' @ token @ '' held by '' @ owner @ '': needs '' @ show_int needs
         @ '', '' @ show_int spendable @ '' spendable''
   | BlockedProfit subject \<Rightarrow> ''below profit floor for '' @ subject
   | BlockedNoStamp subject \<Rightarrow> ''missing source timestamp for '' @ subject
   | BlockedBadStamp subject stamp \<Rightarrow>
       ''unusable source timestamp for '' @ subject @ '': '' @ json_text stamp
   | BlockedStale subject \<Rightarrow> ''stale source data for '' @ subject
   | BlockedFuture subject lead \<Rightarrow>
       ''source timestamp for '' @ subject @ '' is '' @ show_int lead
         @ ''ms in the future; its clock and ours disagree, so its age cannot be judged'')"

fun check_spend :: "gate \<Rightarrow> token_spend list \<Rightarrow> block_reason option" where
  "check_spend g [] = None"
| "check_spend g (sp # sps) =
     (let k = ledger_key sp in
      if g_available g k = None then Some (BlockedNoBalance (ta_owner sp) (ta_token sp))
      else if ts_amount sp > capacity g k
      then Some (BlockedInsufficient (ta_owner sp) (ta_token sp) (ts_amount sp) (capacity g k))
      else check_spend g sps)"

definition check_profit :: "risk_config \<Rightarrow> risk_action \<Rightarrow> block_reason option" where
  "check_profit cfg action =
     (case (rc_minProfit cfg, ra_expectedProfit action) of
        (Some floor, Some profit) \<Rightarrow>
          if profit < floor then Some (BlockedProfit (ra_subject action)) else None
      | _ \<Rightarrow> None)"

definition check_freshness :: "risk_config \<Rightarrow> millis \<Rightarrow> risk_action \<Rightarrow> block_reason option" where
  "check_freshness cfg now action =
     (case rc_maxDataStalenessMs cfg of
        None \<Rightarrow> None
      | Some bound \<Rightarrow>
          (case ra_dataTimestampMs action of
             None \<Rightarrow> Some (BlockedNoStamp (ra_subject action))
           | Some stamp \<Rightarrow>
               (case stamp of
                  WireInt t \<Rightarrow>
                    if \<not> is_safe_integer stamp
                    then Some (BlockedBadStamp (ra_subject action) stamp)
                    else let age = now - t in
                      if age > bound then Some (BlockedStale (ra_subject action))
                      else if - age > MAX_SOURCE_CLOCK_SKEW_MS
                      then Some (BlockedFuture (ra_subject action) (- age))
                      else None
                | WireOther _ \<Rightarrow> Some (BlockedBadStamp (ra_subject action) stamp))))"

definition action_spend :: "risk_action \<Rightarrow> token_spend list" where
  "action_spend action = or_default (ra_spend action) []"

definition evaluate :: "risk_config \<Rightarrow> millis \<Rightarrow> risk_action \<Rightarrow> gate \<Rightarrow> block_reason option" where
  "evaluate cfg now action g =
     (if g_state g = HALTED then Some (BlockedHalted (g_haltReason g))
      else case (case rc_maxInFlight cfg of
                   None \<Rightarrow> None
                 | Some m \<Rightarrow> if g_inFlight g \<ge> m then Some (BlockedExposure (g_inFlight g) m) else None) of
        Some r \<Rightarrow> Some r
      | None \<Rightarrow> (case check_spend g (action_spend action) of
          Some r \<Rightarrow> Some r
        | None \<Rightarrow> (case check_profit cfg action of
            Some r \<Rightarrow> Some r
          | None \<Rightarrow> check_freshness cfg now action)))"

section \<open>Slots\<close>

text \<open>A blocked slot reserved nothing; an allowed one is the index of its entry.\<close>

datatype slot_ref = SlotBlocked block_reason | SlotOpen nat

fun reserve_all :: "token_spend list \<Rightarrow> (ledger_key \<rightharpoonup> int) \<Rightarrow> (ledger_key \<rightharpoonup> int)" where
  "reserve_all [] m = m"
| "reserve_all (sp # sps) m =
     reserve_all sps (m(ledger_key sp \<mapsto> mget m (ledger_key sp) + ts_amount sp))"

definition open_slot :: "risk_config \<Rightarrow> millis \<Rightarrow> risk_action \<Rightarrow> gate \<Rightarrow> slot_ref \<times> gate" where
  "open_slot cfg now action g =
     (case evaluate cfg now action g of
        Some r \<Rightarrow> (SlotBlocked r, g)
      | None \<Rightarrow>
          (SlotOpen (length (g_slots g)),
           g\<lparr>g_inFlight := g_inFlight g + 1,
             g_reserved := reserve_all (action_spend action) (g_reserved g),
             g_slots := g_slots g @ [\<lparr>sl_spend = action_spend action, sl_settled = False\<rparr>]\<rparr>))"

definition counts_as_spent :: "action_outcome \<Rightarrow> bool" where
  "counts_as_spent o' \<longleftrightarrow> ao_ok o' \<or> ao_unresolved o' \<or> ao_spent o' \<or> ao_spendUnknown o'"

definition hold_hash :: "action_outcome \<Rightarrow> hex option" where
  "hold_hash o' = (if counts_as_spent o' then ao_txHash o' else None)"

text \<open>
  One pass over the declared spend of the slot: release each reservation, and send each
  counted outflow either to the aggregate or to the entries of a hold.
\<close>

fun settle_entries ::
  "action_outcome \<Rightarrow> token_spend list \<Rightarrow> gate \<times> (ledger_key \<times> int) list
     \<Rightarrow> gate \<times> (ledger_key \<times> int) list" where
  "settle_entries o' [] acc = acc"
| "settle_entries o' (sp # sps) (g, es) =
     (let k = ledger_key sp;
          g1 = g\<lparr>g_reserved := (g_reserved g)(k \<mapsto> mget (g_reserved g) k - ts_amount sp)\<rparr>
      in settle_entries o' sps
        (if \<not> counts_as_spent o' then (g1, es)
         else if ts_accounting sp = Some AccCaller then (g1, es)
         else if hold_hash o' = None
         then (g1\<lparr>g_spentSinceRefresh :=
                 (g_spentSinceRefresh g1)(k \<mapsto> mget (g_spentSinceRefresh g1) k + ts_amount sp)\<rparr>, es)
         else (g1, es @ [(k, ts_amount sp)])))"

definition add_hold :: "action_outcome \<Rightarrow> (ledger_key \<times> int) list \<Rightarrow> gate \<Rightarrow> gate" where
  "add_hold o' es g =
     (case hold_hash o' of
        None \<Rightarrow> g
      | Some tx \<Rightarrow>
          if es = [] then g
          else (case map_of (g_holds g) tx of
                  None \<Rightarrow> g\<lparr>g_holds := alist_set tx
                            \<lparr>h_entries = es, h_minedAtBlock = ao_minedAtBlock o'\<rparr> (g_holds g)\<rparr>
                | Some existing \<Rightarrow>
                    if h_minedAtBlock existing = None \<and> ao_minedAtBlock o' \<noteq> None
                    then g\<lparr>g_holds := alist_set tx
                            (existing\<lparr>h_minedAtBlock := ao_minedAtBlock o'\<rparr>) (g_holds g)\<rparr>
                    else g))"

definition breaker_exempt :: "action_outcome \<Rightarrow> bool" where
  "breaker_exempt o' \<longleftrightarrow> ao_abandoned o' \<or> ao_contended o' \<or> ao_unresolved o'"

definition release :: "risk_config \<Rightarrow> action_outcome \<Rightarrow> gate \<Rightarrow> gate" where
  "release cfg o' g =
     (let g1 = g\<lparr>g_inFlight := g_inFlight g - 1\<rparr> in
      if breaker_exempt o' then g1
      else if ao_ok o' then g1\<lparr>g_failures := 0\<rparr>
      else let g2 = g1\<lparr>g_failures := Suc (g_failures g1)\<rparr> in
        (case rc_maxConsecutiveFailures cfg of
           None \<Rightarrow> g2
         | Some m \<Rightarrow> if m \<noteq> 0 \<and> g_failures g2 \<ge> m
                    then halt (show_nat (g_failures g2) @ '' consecutive failures'') g2
                    else g2))"

definition settle :: "risk_config \<Rightarrow> nat \<Rightarrow> action_outcome \<Rightarrow> gate \<Rightarrow> gate" where
  "settle cfg i o' g =
     (if i < length (g_slots g) \<and> \<not> sl_settled (g_slots g ! i)
      then let g0 = g\<lparr>g_slots := (g_slots g)[i := (g_slots g ! i)\<lparr>sl_settled := True\<rparr>]\<rparr>;
               (g1, es) = settle_entries o' (sl_spend (g_slots g ! i)) (g0, [])
           in release cfg o' (add_hold o' es g1)
      else g)"

definition settle_ref :: "risk_config \<Rightarrow> slot_ref \<Rightarrow> action_outcome \<Rightarrow> gate \<Rightarrow> gate" where
  "settle_ref cfg r o' g = (case r of SlotBlocked _ \<Rightarrow> g | SlotOpen i \<Rightarrow> settle cfg i o' g)"

text \<open>\<open>guard.ts\<close>, \<open>settleUnfinished\<close>: the backstop of a \<open>finally\<close>.\<close>

fun settle_unfinished :: "risk_config \<Rightarrow> slot_ref list \<Rightarrow> gate \<Rightarrow> gate" where
  "settle_unfinished cfg [] g = g"
| "settle_unfinished cfg (s # ss) g =
     settle_unfinished cfg ss
       (settle_ref cfg s ((outcome False)\<lparr>ao_abandoned := True\<rparr>) g)"

section \<open>Code-hash verification\<close>

text \<open>
  \<open>verifyCode\<close> awaits its reads, so other operations run between its start, which records
  \<open>codeHashHaltSeq\<close>, and its end, which judges the results: \<open>Promise.allSettled\<close> over
  the pinned addresses, in their order.
\<close>

datatype code_read = CodeHash hex | NoCode | ReadFailed string

definition judge_read :: "address \<Rightarrow> hex \<Rightarrow> code_read \<Rightarrow> string option" where
  "judge_read addr want r = (case r of
     ReadFailed _ \<Rightarrow> None
   | NoCode \<Rightarrow> Some (''no code at '' @ addr @ '' (expected '' @ want @ '')'')
   | CodeHash got \<Rightarrow>
       if to_lower got \<noteq> to_lower want
       then Some (''code hash mismatch at '' @ addr @ '': got '' @ got @ '', expected '' @ want)
       else None)"

fun first_compromise :: "((address \<times> hex) \<times> code_read) list \<Rightarrow> string option" where
  "first_compromise [] = None"
| "first_compromise (((addr, want), r) # rest) =
     (case judge_read addr want r of Some why \<Rightarrow> Some why | None \<Rightarrow> first_compromise rest)"

fun first_failure :: "code_read list \<Rightarrow> string option" where
  "first_failure [] = None"
| "first_failure (ReadFailed e # rest) = Some e"
| "first_failure (_ # rest) = first_failure rest"

text \<open>The second component is what the promise rejects with, if it does.\<close>

definition verify_code ::
  "risk_config \<Rightarrow> nat \<Rightarrow> (address \<Rightarrow> code_read) \<Rightarrow> gate \<Rightarrow> gate \<times> string option" where
  "verify_code cfg seq read g =
     (case rc_expectedCodeHashes cfg of
        None \<Rightarrow> (g, None)
      | Some expected \<Rightarrow>
          (let results = map (\<lambda>e. read (fst e)) expected in
           case first_compromise (zip expected results) of
             Some why \<Rightarrow> (halt_with why True g, None)
           | None \<Rightarrow>
               (case first_failure results of
                  Some e \<Rightarrow>
                    (if g_everVerified g then g
                     else halt_with
                       ''pinned contract bytecode has never been verified (probe failed)'' True g,
                     Some e)
                | None \<Rightarrow>
                    ((if g_codeHashHaltSeq g = seq then g\<lparr>g_codeHashHalt := False\<rparr> else g)
                       \<lparr>g_everVerified := True\<rparr>, None))))"

end
