(* ===== verification/RiskLedger.thy ===== *)
theory RiskLedger
  imports RiskGate
begin

text \<open>
  The token ledger and the slots of the risk gate: what each operation does to the reserved,
  held and spendable amounts, the invariant that ties the counters to the open slots, and the
  properties that follow for every reachable gate.
\<close>

section \<open>Totals over a declared spend\<close>

definition spend_total :: "token_spend list \<Rightarrow> ledger_key \<Rightarrow> int" where
  "spend_total sps k = sum_list (map ts_amount (filter (\<lambda>sp. ledger_key sp = k) sps))"

text \<open>The part the gate keeps counting itself once the slot settles.\<close>

definition gate_entries :: "token_spend list \<Rightarrow> (ledger_key \<times> int) list" where
  "gate_entries sps = map (\<lambda>sp. (ledger_key sp, ts_amount sp))
     (filter (\<lambda>sp. ts_accounting sp \<noteq> Some AccCaller) sps)"

definition gate_total :: "token_spend list \<Rightarrow> ledger_key \<Rightarrow> int" where
  "gate_total sps k = entries_for (gate_entries sps) k"

definition open_total :: "slot list \<Rightarrow> ledger_key \<Rightarrow> int" where
  "open_total ss k = sum_list (map (\<lambda>s. if sl_settled s then 0 else spend_total (sl_spend s) k) ss)"

definition open_count :: "slot list \<Rightarrow> int" where
  "open_count ss = sum_list (map (\<lambda>s. if sl_settled s then 0 else 1) ss)"

lemma spend_total_simps [simp]:
  "spend_total [] k = 0"
  "spend_total (sp # sps) k = (if ledger_key sp = k then ts_amount sp else 0) + spend_total sps k"
  by (simp_all add: spend_total_def)

lemma entries_for_simps [simp]:
  "entries_for [] k = 0"
  "entries_for (e # es) k = (if fst e = k then snd e else 0) + entries_for es k"
  "entries_for (es @ fs) k = entries_for es k + entries_for fs k"
  by (simp_all add: entries_for_def)

lemma gate_entries_simps [simp]:
  "gate_entries [] = []"
  "gate_entries (sp # sps) =
     (if ts_accounting sp = Some AccCaller then gate_entries sps
      else (ledger_key sp, ts_amount sp) # gate_entries sps)"
  by (simp_all add: gate_entries_def)

lemma gate_total_Nil [simp]: "gate_total [] k = 0"
  by (simp add: gate_total_def)

lemma gate_total_Cons [simp]:
  "gate_total (sp # sps) k =
     (if ts_accounting sp \<noteq> Some AccCaller \<and> ledger_key sp = k then ts_amount sp else 0)
       + gate_total sps k"
  by (simp add: gate_total_def)

lemma gate_total_bounds:
  assumes "\<And>sp. sp \<in> set sps \<Longrightarrow> 0 \<le> ts_amount sp"
  shows "0 \<le> gate_total sps k" "gate_total sps k \<le> spend_total sps k"
  using assms by (induction sps) (auto intro: add_increasing)

lemma spend_total_nonneg:
  assumes "\<And>sp. sp \<in> set sps \<Longrightarrow> 0 \<le> ts_amount sp"
  shows "0 \<le> spend_total sps k"
  using assms by (induction sps) auto

lemma open_total_simps [simp]:
  "open_total [] k = 0"
  "open_total (ss @ [s]) k = open_total ss k + (if sl_settled s then 0 else spend_total (sl_spend s) k)"
  by (simp_all add: open_total_def)

lemma open_count_simps [simp]:
  "open_count [] = 0"
  "open_count (ss @ [s]) = open_count ss + (if sl_settled s then 0 else 1)"
  by (simp_all add: open_count_def)

lemma open_settle_update:
  assumes "i < length ss" "\<not> sl_settled (ss ! i)"
  shows "open_total (ss[i := (ss ! i)\<lparr>sl_settled := True\<rparr>]) k =
           open_total ss k - spend_total (sl_spend (ss ! i)) k"
    and "open_count (ss[i := (ss ! i)\<lparr>sl_settled := True\<rparr>]) = open_count ss - 1"
  using assms by (simp_all add: open_total_def open_count_def sum_list_list_update)

section \<open>What each operation does to the ledger\<close>

lemma mget_reserve_all [ledger]: "mget (reserve_all sps m) k = mget m k + spend_total sps k"
  by (induction sps arbitrary: m) auto

lemma settle_entries_eq:
  "\<exists>r s. settle_entries o' sps (g, es) =
      (g\<lparr>g_reserved := r, g_spentSinceRefresh := s\<rparr>,
       es @ (if counts_as_spent o' \<and> hold_hash o' \<noteq> None then gate_entries sps else []))
    \<and> (\<forall>k. mget r k = mget (g_reserved g) k - spend_total sps k)
    \<and> (\<forall>k. mget s k = mget (g_spentSinceRefresh g) k +
          (if counts_as_spent o' \<and> hold_hash o' = None then gate_total sps k else 0))"
proof (induction sps arbitrary: g es)
  case Nil
  have "g = g\<lparr>g_reserved := g_reserved g, g_spentSinceRefresh := g_spentSinceRefresh g\<rparr>"
    by simp
  then show ?case by (intro exI [of _ "g_reserved g"] exI [of _ "g_spentSinceRefresh g"]) simp
next
  case (Cons sp sps)
  let ?k = "ledger_key sp"
  define g1 where "g1 = g\<lparr>g_reserved := (g_reserved g)(?k \<mapsto> mget (g_reserved g) ?k - ts_amount sp)\<rparr>"
  define g2 where "g2 = (if counts_as_spent o' \<and> ts_accounting sp \<noteq> Some AccCaller \<and> hold_hash o' = None
     then g1\<lparr>g_spentSinceRefresh := (g_spentSinceRefresh g1)(?k \<mapsto> mget (g_spentSinceRefresh g1) ?k + ts_amount sp)\<rparr>
     else g1)"
  define es2 where "es2 = (if counts_as_spent o' \<and> ts_accounting sp \<noteq> Some AccCaller \<and> hold_hash o' \<noteq> None
     then es @ [(?k, ts_amount sp)] else es)"
  have step: "settle_entries o' (sp # sps) (g, es) = settle_entries o' sps (g2, es2)"
    by (simp add: g1_def g2_def es2_def Let_def)
  obtain r s where rs: "settle_entries o' sps (g2, es2) =
      (g2\<lparr>g_reserved := r, g_spentSinceRefresh := s\<rparr>,
       es2 @ (if counts_as_spent o' \<and> hold_hash o' \<noteq> None then gate_entries sps else []))"
    "\<forall>k. mget r k = mget (g_reserved g2) k - spend_total sps k"
    "\<forall>k. mget s k = mget (g_spentSinceRefresh g2) k +
          (if counts_as_spent o' \<and> hold_hash o' = None then gate_total sps k else 0)"
    using Cons.IH [of g2 es2] by blast
  show ?case
    by (rule exI [of _ r], rule exI [of _ s], unfold step rs(1))
      (use rs(2,3) in \<open>auto simp: g2_def g1_def es2_def\<close>)
qed

text \<open>The gate after the first half of a settlement, before the hold and the breaker.\<close>

definition kept_total :: "action_outcome \<Rightarrow> token_spend list \<Rightarrow> gate \<Rightarrow> ledger_key \<Rightarrow> int" where
  "kept_total o' sps g k =
     (if \<not> counts_as_spent o' then 0
      else case hold_hash o' of
             None \<Rightarrow> gate_total sps k
           | Some tx \<Rightarrow> if map_of (g_holds g) tx = None then gate_total sps k else 0)"

lemma held_for_add_hold:
  assumes "distinct (map fst (g_holds g))"
  shows "held_for (add_hold o' es g) k = held_for g k +
    (case hold_hash o' of None \<Rightarrow> 0
     | Some tx \<Rightarrow> if map_of (g_holds g) tx = None then entries_for es k else 0)"
  using assms
  by (auto simp: add_hold_def held_for_def
      sum_list_alist_set_new [where f = "\<lambda>h. entries_for (h_entries (snd h)) k"]
      sum_list_alist_set_old [where f = "\<lambda>h. entries_for (h_entries (snd h)) k"]
      split: option.splits)

lemma add_hold_frame [gate_frame]:
  "g_state (add_hold o' es g) = g_state g"
  "g_haltReason (add_hold o' es g) = g_haltReason g"
  "g_failures (add_hold o' es g) = g_failures g"
  "g_inFlight (add_hold o' es g) = g_inFlight g"
  "g_codeHashHalt (add_hold o' es g) = g_codeHashHalt g"
  "g_codeHashHaltSeq (add_hold o' es g) = g_codeHashHaltSeq g"
  "g_everVerified (add_hold o' es g) = g_everVerified g"
  "g_available (add_hold o' es g) = g_available g"
  "g_spentSinceRefresh (add_hold o' es g) = g_spentSinceRefresh g"
  "g_reserved (add_hold o' es g) = g_reserved g"
  "g_snapshotBlock (add_hold o' es g) = g_snapshotBlock g"
  "g_slots (add_hold o' es g) = g_slots g"
  "g_events (add_hold o' es g) = g_events g"
  by (simp_all add: add_hold_def split: option.split)

lemma halt_with_frame [gate_frame]:
  "g_inFlight (halt_with r b g) = g_inFlight g"
  "g_failures (halt_with r b g) = g_failures g"
  "g_everVerified (halt_with r b g) = g_everVerified g"
  "g_available (halt_with r b g) = g_available g"
  "g_spentSinceRefresh (halt_with r b g) = g_spentSinceRefresh g"
  "g_reserved (halt_with r b g) = g_reserved g"
  "g_snapshotBlock (halt_with r b g) = g_snapshotBlock g"
  "g_holds (halt_with r b g) = g_holds g"
  "g_slots (halt_with r b g) = g_slots g"
  "g_state (halt_with r b g) = HALTED"
  "g_codeHashHalt (halt_with r b g) = (b \<or> g_codeHashHalt g)"
  "g_haltReason (halt_with r b g) = r"
  "g_codeHashHaltSeq (halt_with r b g) =
     (if b then Suc (g_codeHashHaltSeq g) else g_codeHashHaltSeq g)"
  by (simp_all add: halt_with_def emit_def Let_def)

lemma halt_frame [gate_frame]:
  "g_inFlight (halt r g) = g_inFlight g"
  "g_failures (halt r g) = g_failures g"
  "g_everVerified (halt r g) = g_everVerified g"
  "g_available (halt r g) = g_available g"
  "g_spentSinceRefresh (halt r g) = g_spentSinceRefresh g"
  "g_reserved (halt r g) = g_reserved g"
  "g_snapshotBlock (halt r g) = g_snapshotBlock g"
  "g_holds (halt r g) = g_holds g"
  "g_slots (halt r g) = g_slots g"
  "g_state (halt r g) = HALTED"
  "g_codeHashHalt (halt r g) = g_codeHashHalt g"
  "g_codeHashHaltSeq (halt r g) = g_codeHashHaltSeq g"
  by (simp_all add: halt_def gate_frame)

lemma release_frame [gate_frame]:
  "g_inFlight (release cfg o' g) = g_inFlight g - 1"
  "g_everVerified (release cfg o' g) = g_everVerified g"
  "g_available (release cfg o' g) = g_available g"
  "g_spentSinceRefresh (release cfg o' g) = g_spentSinceRefresh g"
  "g_reserved (release cfg o' g) = g_reserved g"
  "g_snapshotBlock (release cfg o' g) = g_snapshotBlock g"
  "g_holds (release cfg o' g) = g_holds g"
  "g_slots (release cfg o' g) = g_slots g"
  "g_codeHashHalt (release cfg o' g) = g_codeHashHalt g"
  "g_codeHashHaltSeq (release cfg o' g) = g_codeHashHaltSeq g"
  by (simp_all add: release_def Let_def gate_frame split: option.split)

lemma held_for_cong: "g_holds g = g_holds g' \<Longrightarrow> held_for g k = held_for g' k"
  by (simp add: held_for_def)

text \<open>A settlement as one equation per ledger field.\<close>

lemma settle_ledger:
  assumes i: "i < length (g_slots g)" "\<not> sl_settled (g_slots g ! i)"
    and d: "distinct (map fst (g_holds g))"
  shows "g_available (settle cfg i o' g) = g_available g"
    and "g_snapshotBlock (settle cfg i o' g) = g_snapshotBlock g"
    and "g_inFlight (settle cfg i o' g) = g_inFlight g - 1"
    and "g_slots (settle cfg i o' g) = (g_slots g)[i := (g_slots g ! i)\<lparr>sl_settled := True\<rparr>]"
    and "mget (g_reserved (settle cfg i o' g)) k =
           mget (g_reserved g) k - spend_total (sl_spend (g_slots g ! i)) k"
    and "held_for (settle cfg i o' g) k + mget (g_spentSinceRefresh (settle cfg i o' g)) k =
           held_for g k + mget (g_spentSinceRefresh g) k
             + kept_total o' (sl_spend (g_slots g ! i)) g k"
proof -
  let ?sp = "sl_spend (g_slots g ! i)"
  let ?g0 = "g\<lparr>g_slots := (g_slots g)[i := (g_slots g ! i)\<lparr>sl_settled := True\<rparr>]\<rparr>"
  let ?es = "if counts_as_spent o' \<and> hold_hash o' \<noteq> None then gate_entries ?sp else []"
  obtain r s where rs: "settle_entries o' ?sp (?g0, []) =
      (?g0\<lparr>g_reserved := r, g_spentSinceRefresh := s\<rparr>, ?es)"
    "\<And>k. mget r k = mget (g_reserved g) k - spend_total ?sp k"
    "\<And>k. mget s k = mget (g_spentSinceRefresh g) k +
          (if counts_as_spent o' \<and> hold_hash o' = None then gate_total ?sp k else 0)"
    using settle_entries_eq [of o' ?sp ?g0 "[]"] by auto
  let ?g1 = "?g0\<lparr>g_reserved := r, g_spentSinceRefresh := s\<rparr>"
  have eq: "settle cfg i o' g = release cfg o' (add_hold o' ?es ?g1)"
    using i rs(1) by (simp add: settle_def Let_def)
  have held: "held_for (settle cfg i o' g) k = held_for g k +
     (case hold_hash o' of None \<Rightarrow> 0
      | Some tx \<Rightarrow> if map_of (g_holds g) tx = None then entries_for ?es k else 0)" for k
  proof -
    have "held_for (settle cfg i o' g) k = held_for (add_hold o' ?es ?g1) k"
      unfolding eq by (rule held_for_cong) (simp add: gate_frame)
    also have "\<dots> = held_for ?g1 k + (case hold_hash o' of None \<Rightarrow> 0
      | Some tx \<Rightarrow> if map_of (g_holds ?g1) tx = None then entries_for ?es k else 0)"
      by (rule held_for_add_hold) (simp add: d)
    also have "held_for ?g1 k = held_for g k" by (rule held_for_cong) simp
    finally show ?thesis by (simp split: option.split)
  qed
  show "g_available (settle cfg i o' g) = g_available g"
    "g_snapshotBlock (settle cfg i o' g) = g_snapshotBlock g"
    "g_inFlight (settle cfg i o' g) = g_inFlight g - 1"
    "g_slots (settle cfg i o' g) = (g_slots g)[i := (g_slots g ! i)\<lparr>sl_settled := True\<rparr>]"
    "mget (g_reserved (settle cfg i o' g)) k = mget (g_reserved g) k - spend_total ?sp k"
    by (simp_all add: eq gate_frame rs(2))
  have sp: "mget (g_spentSinceRefresh (settle cfg i o' g)) k = mget s k"
    by (simp add: eq gate_frame)
  have "hold_hash o' \<noteq> None \<Longrightarrow> counts_as_spent o'"
    by (simp add: hold_hash_def split: if_splits)
  then show "held_for (settle cfg i o' g) k + mget (g_spentSinceRefresh (settle cfg i o' g)) k =
      held_for g k + mget (g_spentSinceRefresh g) k + kept_total o' ?sp g k"
    by (auto simp: held sp rs(3) kept_total_def gate_total_def split: option.splits)
qed

lemma settle_settled:
  "\<not> (i < length (g_slots g) \<and> \<not> sl_settled (g_slots g ! i)) \<Longrightarrow> settle cfg i o' g = g"
  by (auto simp: settle_def)

lemma open_slot_cases:
  "open_slot cfg now action g =
     (case evaluate cfg now action g of
        Some r \<Rightarrow> (SlotBlocked r, g)
      | None \<Rightarrow> (SlotOpen (length (g_slots g)), snd (open_slot cfg now action g)))"
  by (simp add: open_slot_def split: option.splits)

lemma open_slot_allowed:
  assumes "fst (open_slot cfg now action g) = SlotOpen i"
  shows "evaluate cfg now action g = None" "i = length (g_slots g)"
    and "snd (open_slot cfg now action g) =
      g\<lparr>g_inFlight := g_inFlight g + 1,
        g_reserved := reserve_all (action_spend action) (g_reserved g),
        g_slots := g_slots g @ [\<lparr>sl_spend = action_spend action, sl_settled = False\<rparr>]\<rparr>"
  using assms by (auto simp: open_slot_def split: option.splits)

lemma open_slot_blocked:
  assumes "fst (open_slot cfg now action g) = SlotBlocked r"
  shows "evaluate cfg now action g = Some r" "snd (open_slot cfg now action g) = g"
  using assms by (auto simp: open_slot_def split: option.splits)

lemma evaluate_NoneD:
  assumes "evaluate cfg now action g = None"
  shows "g_state g = RUNNING"
    and "rc_maxInFlight cfg = Some m \<Longrightarrow> g_inFlight g < m"
    and "check_spend g (action_spend action) = None"
    and "check_profit cfg action = None"
    and "check_freshness cfg now action = None"
  using assms by (cases "g_state g"; auto simp: evaluate_def split: option.splits if_splits)+

lemma check_spend_NoneD:
  assumes "check_spend g sps = None" "sp \<in> set sps"
  shows "g_available g (ledger_key sp) \<noteq> None" "ts_amount sp \<le> capacity g (ledger_key sp)"
  using assms by (induction sps) (auto simp: Let_def split: if_splits)

lemma set_available_frame [gate_frame]:
  "g_inFlight (set_available a n b g) = g_inFlight g"
  "g_failures (set_available a n b g) = g_failures g"
  "g_everVerified (set_available a n b g) = g_everVerified g"
  "g_reserved (set_available a n b g) = g_reserved g"
  "g_holds (set_available a n b g) = g_holds g"
  "g_slots (set_available a n b g) = g_slots g"
  "g_state (set_available a n b g) = g_state g"
  "g_codeHashHalt (set_available a n b g) = g_codeHashHalt g"
  "g_codeHashHaltSeq (set_available a n b g) = g_codeHashHaltSeq g"
  "g_haltReason (set_available a n b g) = g_haltReason g"
  "ledger_key a \<noteq> k \<Longrightarrow> g_available (set_available a n b g) k = g_available g k"
  "ledger_key a \<noteq> k \<Longrightarrow> g_spentSinceRefresh (set_available a n b g) k = g_spentSinceRefresh g k"
  by (simp_all add: set_available_def Let_def)

lemma publish_frame [gate_frame]:
  "g_inFlight (publish bs b g) = g_inFlight g"
  "g_failures (publish bs b g) = g_failures g"
  "g_everVerified (publish bs b g) = g_everVerified g"
  "g_reserved (publish bs b g) = g_reserved g"
  "g_holds (publish bs b g) = g_holds g"
  "g_slots (publish bs b g) = g_slots g"
  "g_state (publish bs b g) = g_state g"
  "g_codeHashHalt (publish bs b g) = g_codeHashHalt g"
  "g_codeHashHaltSeq (publish bs b g) = g_codeHashHaltSeq g"
  "g_haltReason (publish bs b g) = g_haltReason g"
  "k \<notin> ledger_key ` fst ` set bs \<Longrightarrow> g_available (publish bs b g) k = g_available g k"
  "k \<notin> ledger_key ` fst ` set bs \<Longrightarrow>
     g_spentSinceRefresh (publish bs b g) k = g_spentSinceRefresh g k"
  by (induction bs b g rule: publish.induct) (auto simp: gate_frame)

lemma apply_snapshot_frame [gate_frame]:
  "g_inFlight (apply_snapshot bs b txs g) = g_inFlight g"
  "g_failures (apply_snapshot bs b txs g) = g_failures g"
  "g_everVerified (apply_snapshot bs b txs g) = g_everVerified g"
  "g_reserved (apply_snapshot bs b txs g) = g_reserved g"
  "g_slots (apply_snapshot bs b txs g) = g_slots g"
  "g_state (apply_snapshot bs b txs g) = g_state g"
  "g_codeHashHalt (apply_snapshot bs b txs g) = g_codeHashHalt g"
  "g_codeHashHaltSeq (apply_snapshot bs b txs g) = g_codeHashHaltSeq g"
  "g_haltReason (apply_snapshot bs b txs g) = g_haltReason g"
  "g_holds (apply_snapshot bs b txs g) =
     retire_holds (ledger_key ` fst ` set bs) txs (g_holds g)"
  by (simp_all add: apply_snapshot_def gate_frame image_comp)

lemma resume_frame [gate_frame]:
  "g_inFlight (snd (resume g)) = g_inFlight g"
  "g_everVerified (snd (resume g)) = g_everVerified g"
  "g_available (snd (resume g)) = g_available g"
  "g_spentSinceRefresh (snd (resume g)) = g_spentSinceRefresh g"
  "g_reserved (snd (resume g)) = g_reserved g"
  "g_snapshotBlock (snd (resume g)) = g_snapshotBlock g"
  "g_holds (snd (resume g)) = g_holds g"
  "g_slots (snd (resume g)) = g_slots g"
  "g_codeHashHalt (snd (resume g)) = g_codeHashHalt g"
  "g_codeHashHaltSeq (snd (resume g)) = g_codeHashHaltSeq g"
  by (simp_all add: resume_def emit_def Let_def)

lemma verify_code_frame [gate_frame]:
  "g_inFlight (fst (verify_code cfg q rd g)) = g_inFlight g"
  "g_failures (fst (verify_code cfg q rd g)) = g_failures g"
  "g_available (fst (verify_code cfg q rd g)) = g_available g"
  "g_spentSinceRefresh (fst (verify_code cfg q rd g)) = g_spentSinceRefresh g"
  "g_reserved (fst (verify_code cfg q rd g)) = g_reserved g"
  "g_snapshotBlock (fst (verify_code cfg q rd g)) = g_snapshotBlock g"
  "g_holds (fst (verify_code cfg q rd g)) = g_holds g"
  "g_slots (fst (verify_code cfg q rd g)) = g_slots g"
  by (simp_all add: verify_code_def Let_def gate_frame split: option.split)

end
