(* ===== verification/RiskRuns.thy ===== *)
theory RiskRuns
  imports RiskLedger
begin

text \<open>
  Runs of the risk gate. Two engines, the kill switch and the code-hash guard call one gate
  in any order, so a run is any list of operations and a reachable gate is what any such run
  leaves. The invariant of the ledger holds in every reachable gate; the exposure cap, the
  slot accounting and the absence of overdraws follow from it.
\<close>

section \<open>Operations, steps and reachable gates\<close>

datatype gate_op =
    OpOpen millis risk_action
  | OpSettle nat action_outcome
  | OpHalt string
  | OpResume
  | OpSetAvailable token_account int "int option"
  | OpSnapshot "(token_account \<times> int) list" int "hex list"
  | OpVerify nat "address \<Rightarrow> code_read"

fun gate_step :: "risk_config \<Rightarrow> gate_op \<Rightarrow> gate \<Rightarrow> gate" where
  "gate_step cfg (OpOpen now action) g = snd (open_slot cfg now action g)"
| "gate_step cfg (OpSettle i o') g = settle cfg i o' g"
| "gate_step cfg (OpHalt why) g = halt why g"
| "gate_step cfg OpResume g = snd (resume g)"
| "gate_step cfg (OpSetAvailable a n b) g = set_available a n b g"
| "gate_step cfg (OpSnapshot bs b txs) g = apply_snapshot bs b txs g"
| "gate_step cfg (OpVerify seq rd) g = fst (verify_code cfg seq rd g)"

fun gate_run :: "risk_config \<Rightarrow> gate_op list \<Rightarrow> gate \<Rightarrow> gate" where
  "gate_run cfg [] g = g"
| "gate_run cfg (op # ops) g = gate_run cfg ops (gate_step cfg op g)"

lemma gate_run_append [simp]:
  "gate_run cfg (xs @ ys) g = gate_run cfg ys (gate_run cfg xs g)"
  by (induction xs arbitrary: g) auto

section \<open>The ledger invariant\<close>

definition ledger_ok :: "gate \<Rightarrow> bool" where
  "ledger_ok g \<longleftrightarrow> g_inFlight g = open_count (g_slots g)
     \<and> (\<forall>k. mget (g_reserved g) k = open_total (g_slots g) k)
     \<and> distinct (map fst (g_holds g))"

lemma ledger_okD:
  assumes "ledger_ok g"
  shows "g_inFlight g = open_count (g_slots g)"
    and "mget (g_reserved g) k = open_total (g_slots g) k"
    and "distinct (map fst (g_holds g))"
  using assms by (simp_all add: ledger_ok_def)

lemma ledger_ok_cong:
  assumes "ledger_ok g" "g_inFlight g' = g_inFlight g" "g_slots g' = g_slots g"
    "g_reserved g' = g_reserved g" "distinct (map fst (g_holds g'))"
  shows "ledger_ok g'"
  using assms by (simp add: ledger_ok_def)

lemma ledger_ok_create: "ledger_ok (create_gate cfg)"
  by (simp add: ledger_ok_def create_gate_def)

lemma ledger_ok_open: "ledger_ok g \<Longrightarrow> ledger_ok (snd (open_slot cfg now action g))"
  by (auto simp: ledger_ok_def open_slot_def ledger split: option.split)

lemma distinct_add_hold:
  "distinct (map fst (g_holds g)) \<Longrightarrow> distinct (map fst (g_holds (add_hold o' es g)))"
  by (auto simp: add_hold_def distinct_alist_set split: option.split)

lemma settle_holds:
  "\<exists>es. g_holds (settle cfg i o' g) = g_holds g \<or>
     g_holds (settle cfg i o' g) = g_holds (add_hold o' es g)"
proof (cases "i < length (g_slots g) \<and> \<not> sl_settled (g_slots g ! i)")
  case True
  let ?g0 = "g\<lparr>g_slots := (g_slots g)[i := (g_slots g ! i)\<lparr>sl_settled := True\<rparr>]\<rparr>"
  obtain r s es where rs: "settle_entries o' (sl_spend (g_slots g ! i)) (?g0, []) =
      (?g0\<lparr>g_reserved := r, g_spentSinceRefresh := s\<rparr>, es)"
    using settle_entries_eq [of o' "sl_spend (g_slots g ! i)" ?g0 "[]"] by blast
  have "g_holds (settle cfg i o' g) = g_holds (add_hold o' es g)"
    using True rs by (auto simp: settle_def Let_def gate_frame add_hold_def split: option.split)
  then show ?thesis by blast
next
  case False
  then show ?thesis by (auto simp: settle_settled)
qed

lemma ledger_ok_settle:
  assumes "ledger_ok g"
  shows "ledger_ok (settle cfg i o' g)"
proof (cases "i < length (g_slots g) \<and> \<not> sl_settled (g_slots g ! i)")
  case True
  note L = settle_ledger [OF conjunct1 [OF True] conjunct2 [OF True] ledger_okD(3) [OF assms]]
  have "distinct (map fst (g_holds (settle cfg i o' g)))"
    using settle_holds [of cfg i o' g] ledger_okD(3) [OF assms] distinct_add_hold by metis
  then show ?thesis
    using assms True by (simp add: ledger_ok_def L open_settle_update)
next
  case False
  with assms show ?thesis by (simp add: settle_settled)
qed

lemma distinct_retire_holds:
  "distinct (map fst hs) \<Longrightarrow> distinct (map fst (retire_holds R txs hs))"
  by (induction R txs hs rule: retire_holds.induct)
    (auto simp: Let_def distinct_alist_set distinct_delete split: option.split)

lemma ledger_ok_step: "ledger_ok g \<Longrightarrow> ledger_ok (gate_step cfg op g)"
proof -
  assume g: "ledger_ok g"
  note keep = ledger_ok_cong [OF g] and D = ledger_okD(3) [OF g]
  show ?thesis
    by (cases op)
      (simp_all add: ledger_ok_open [OF g] ledger_ok_settle [OF g],
       (rule keep; simp add: gate_frame distinct_retire_holds D)+)
qed

lemma gate_run_ledger_ok: "ledger_ok g \<Longrightarrow> ledger_ok (gate_run cfg ops g)"
  by (induction ops arbitrary: g) (auto simp: ledger_ok_step)

section \<open>Held outflows\<close>

lemma entries_for_filter:
  "entries_for (filter (\<lambda>e. fst e \<notin> R) es) k = (if k \<in> R then 0 else entries_for es k)"
  by (induction es) auto

definition retired :: "ledger_key set \<Rightarrow> hold \<Rightarrow> hold option" where
  "retired R h = (let es = filter (\<lambda>e. fst e \<notin> R) (h_entries h)
     in if es = [] then None else Some (h\<lparr>h_entries := es\<rparr>))"

lemma retired_twice: "retired R h = Some h' \<Longrightarrow> retired R h' = Some h'"
  by (auto simp: retired_def Let_def split: if_splits)

lemma map_of_retire_holds:
  assumes "distinct (map fst hs)"
  shows "map_of (retire_holds R txs hs) tx =
    (if tx \<in> set txs then Option.bind (map_of hs tx) (retired R) else map_of hs tx)"
  using assms
proof (induction R txs hs rule: retire_holds.induct)
  case (1 R hs)
  then show ?case by simp
next
  case (2 R t txs hs)
  define hs' where "hs' = (case map_of hs t of None \<Rightarrow> hs
    | Some h \<Rightarrow> (let es = filter (\<lambda>e. fst e \<notin> R) (h_entries h)
        in if es = [] then alist_delete t hs else alist_set t (h\<lparr>h_entries := es\<rparr>) hs))"
  have d: "distinct (map fst hs')"
    using "2.prems" unfolding hs'_def
    by (auto simp: Let_def distinct_alist_set distinct_delete split: option.split)
  have m: "map_of hs' x = (if x = t then Option.bind (map_of hs x) (retired R) else map_of hs x)" for x
    using "2.prems" unfolding hs'_def
    by (auto simp: Let_def retired_def row_simps delete_conv' split: option.split)
  have "map_of (retire_holds R (t # txs) hs) tx =
      (if tx \<in> set txs then Option.bind (map_of hs' tx) (retired R) else map_of hs' tx)"
    using "2.IH" d by (simp add: hs'_def)
  then show ?case
    by (cases "map_of hs tx"; cases "retired R (the (map_of hs tx))")
      (auto simp: m dest: retired_twice)
qed

text \<open>
  Summed over one ledger key: a snapshot that refreshed the key drops the transactions it
  settled, one that did not leaves every entry of the key.
\<close>

lemma held_retire_step:
  fixes F :: "hex \<times> hold \<Rightarrow> int"
  assumes "distinct (map fst hs)" "map_of hs t = Some h"
  shows "sum_list (map F (let es = filter (\<lambda>e. fst e \<notin> R) (h_entries h)
        in if es = [] then alist_delete t hs else alist_set t (h\<lparr>h_entries := es\<rparr>) hs)) =
     sum_list (map F hs) - F (t, h) +
       (let es = filter (\<lambda>e. fst e \<notin> R) (h_entries h)
        in if es = [] then 0 else F (t, h\<lparr>h_entries := es\<rparr>))"
  using sum_list_alist_delete [OF assms, of F] sum_list_alist_set_old [OF assms, of F]
  by (simp add: Let_def)

lemma held_for_retire:
  assumes "distinct (map fst hs)"
  shows "sum_list (map (\<lambda>h. entries_for (h_entries (snd h)) k) (retire_holds R txs hs)) =
         sum_list (map (\<lambda>h. if k \<in> R \<and> fst h \<in> set txs then 0
                             else entries_for (h_entries (snd h)) k) hs)"
  using assms
proof (induction R txs hs rule: retire_holds.induct)
  case (1 R hs)
  then show ?case by simp
next
  case (2 R t txs hs)
  let ?F = "\<lambda>ts h. if k \<in> R \<and> fst h \<in> set ts then 0 else entries_for (h_entries (snd h)) k"
  show ?case
  proof (cases "map_of hs t")
    case None
    then have "h \<in> set hs \<Longrightarrow> fst h \<noteq> t" for h by (auto simp: map_of_eq_None_iff)
    then have "sum_list (map (?F txs) hs) = sum_list (map (?F (t # txs)) hs)"
      by (intro arg_cong [of _ _ sum_list] map_cong refl) simp
    with 2 None show ?thesis by simp
  next
    case (Some h)
    let ?es = "filter (\<lambda>e. fst e \<notin> R) (h_entries h)"
    let ?hs = "let es = ?es in if es = [] then alist_delete t hs
      else alist_set t (h\<lparr>h_entries := es\<rparr>) hs"
    have e: "entries_for ?es k = (if k \<in> R then 0 else entries_for (h_entries h) k)"
      by (rule entries_for_filter)
    have d: "distinct (map fst ?hs)"
      using "2.prems" by (simp add: Let_def distinct_alist_set distinct_delete)
    have "sum_list (map (\<lambda>h. entries_for (h_entries (snd h)) k) (retire_holds R (t # txs) hs)) =
        sum_list (map (?F txs) ?hs)"
      using "2.IH" Some d by simp
    also have "\<dots> = sum_list (map (?F txs) hs) - ?F txs (t, h)
        + (if k \<in> R then 0 else entries_for (h_entries h) k)"
      using e unfolding held_retire_step [OF "2.prems" Some] by (auto simp: Let_def)
    also have "\<dots> = sum_list (map (?F (t # txs)) hs)"
    proof (cases "k \<in> R")
      case True
      have "map (?F (t # txs)) hs = map (\<lambda>p. if fst p = t then 0 else ?F txs p) hs"
        using True by auto
      then show ?thesis
        using True sum_list_alist_delete [OF "2.prems" Some, of "?F txs"]
        by (simp only: sum_list_alist_skip) simp
    qed simp
    finally show ?thesis .
  qed
qed

section \<open>Capacity\<close>

lemma capacity_cong:
  assumes "mget (g_available g') k = mget (g_available g) k"
    "held_for g' k + mget (g_spentSinceRefresh g') k = held_for g k + mget (g_spentSinceRefresh g) k"
    "mget (g_reserved g') k = mget (g_reserved g) k"
  shows "capacity g' k = capacity g k"
  using assms by (simp add: capacity_def)

lemma capacity_frame [gate_frame]:
  "capacity (halt why g) k = capacity g k"
  "capacity (snd (resume g)) k = capacity g k"
  "capacity (fst (verify_code cfg seq rd g)) k = capacity g k"
  by (rule capacity_cong; simp add: gate_frame held_for_def)+

lemma capacity_set_available_other [gate_frame]:
  "ledger_key a \<noteq> k \<Longrightarrow> capacity (set_available a n b g) k = capacity g k"
  by (rule capacity_cong) (simp_all add: gate_frame held_for_def mget_def)

lemma capacity_apply_snapshot_other:
  assumes "distinct (map fst (g_holds g))" "k \<notin> ledger_key ` fst ` set bs"
  shows "capacity (apply_snapshot bs b txs g) k = capacity g k"
proof (rule capacity_cong)
  have "held_for (apply_snapshot bs b txs g) k = held_for g k"
    using assms by (simp add: held_for_def gate_frame held_for_retire)
  then show "held_for (apply_snapshot bs b txs g) k + mget (g_spentSinceRefresh (apply_snapshot bs b txs g)) k =
      held_for g k + mget (g_spentSinceRefresh g) k"
    using assms by (simp add: apply_snapshot_def gate_frame mget_def image_comp)
qed (use assms in \<open>simp_all add: apply_snapshot_def gate_frame mget_def image_comp\<close>)

lemma capacity_open:
  assumes "fst (open_slot cfg now action g) = SlotOpen i"
  shows "capacity (snd (open_slot cfg now action g)) k =
         capacity g k - spend_total (action_spend action) k"
  unfolding open_slot_allowed(3) [OF assms]
  by (simp add: capacity_def held_for_def ledger)

lemma capacity_settle:
  assumes "i < length (g_slots g)" "\<not> sl_settled (g_slots g ! i)" "distinct (map fst (g_holds g))"
  shows "capacity (settle cfg i o' g) k = capacity g k
    + spend_total (sl_spend (g_slots g ! i)) k - kept_total o' (sl_spend (g_slots g ! i)) g k"
  using settle_ledger(6) [OF assms, of cfg o' k]
  by (simp add: capacity_def settle_ledger(1,5) [OF assms])

section \<open>No overdraw\<close>

text \<open>
  The operations that cannot overdraw a key: an action that declares the key at most once
  and no negative amount, and a snapshot of other accounts. (A snapshot of the key itself may
  report any balance.)
\<close>

definition spend_wf :: "token_spend list \<Rightarrow> bool" where
  "spend_wf sps \<longleftrightarrow> (\<forall>sp \<in> set sps. 0 \<le> ts_amount sp) \<and> distinct (map ledger_key sps)"

fun careful :: "ledger_key \<Rightarrow> gate_op \<Rightarrow> bool" where
  "careful k (OpOpen now action) = spend_wf (action_spend action)"
| "careful k (OpSetAvailable a n b) = (ledger_key a \<noteq> k)"
| "careful k (OpSnapshot bs b txs) = (k \<notin> ledger_key ` fst ` set bs)"
| "careful k _ = True"

lemma spend_total_wf:
  assumes "spend_wf sps" "check_spend g sps = None" "0 \<le> capacity g k"
  shows "spend_total sps k \<le> capacity g k"
proof (cases "\<exists>sp \<in> set sps. ledger_key sp = k")
  case True
  then obtain sp where sp: "sp \<in> set sps" "ledger_key sp = k" by auto
  from assms(1) sp have "spend_total sps k = ts_amount sp"
  proof (induction sps)
    case (Cons x xs)
    have none: "k \<notin> ledger_key ` set ys \<Longrightarrow> spend_total ys k = 0" for ys
      by (induction ys) auto
    show ?case
    proof (cases "x = sp")
      case True
      with Cons.prems show ?thesis by (auto simp: spend_wf_def none)
    next
      case False
      with Cons have "ledger_key x \<noteq> k" by (auto simp: spend_wf_def)
      with False Cons show ?thesis by (auto simp: spend_wf_def)
    qed
  qed simp
  with sp check_spend_NoneD(2) [OF assms(2) sp(1)] show ?thesis by simp
next
  case False
  then have "spend_total sps k = 0" by (induction sps) auto
  with assms(3) show ?thesis by simp
qed

definition slots_nonneg :: "gate \<Rightarrow> bool" where
  "slots_nonneg g \<longleftrightarrow> (\<forall>s \<in> set (g_slots g). \<forall>sp \<in> set (sl_spend s). 0 \<le> ts_amount sp)"

lemma kept_le_spend:
  assumes "\<And>sp. sp \<in> set sps \<Longrightarrow> 0 \<le> ts_amount sp"
  shows "kept_total o' sps g k \<le> spend_total sps k" "0 \<le> kept_total o' sps g k"
  using gate_total_bounds [of sps k] spend_total_nonneg [of sps k] assms
  by (auto simp: kept_total_def split: option.split)

lemma slots_nonneg_settle: "slots_nonneg g \<Longrightarrow> slots_nonneg (settle cfg i o' g)"
proof (cases "i < length (g_slots g) \<and> \<not> sl_settled (g_slots g ! i)")
  case True
  assume g: "slots_nonneg g"
  have "g_slots (settle cfg i o' g) = (g_slots g)[i := (g_slots g ! i)\<lparr>sl_settled := True\<rparr>]"
    using True settle_entries_eq [of o' "sl_spend (g_slots g ! i)"
      "g\<lparr>g_slots := (g_slots g)[i := (g_slots g ! i)\<lparr>sl_settled := True\<rparr>]\<rparr>" "[]"]
    by (auto simp: settle_def Let_def gate_frame)
  with True g show ?thesis
    by (auto simp: slots_nonneg_def dest!: set_update_subset_insert [THEN subsetD] nth_mem)
qed (auto simp: settle_settled)

definition solvent :: "ledger_key \<Rightarrow> gate \<Rightarrow> bool" where
  "solvent k g \<longleftrightarrow> 0 \<le> capacity g k \<and> slots_nonneg g \<and> ledger_ok g"

lemma solvent_open:
  assumes "solvent k g" "spend_wf (action_spend action)"
  shows "solvent k (snd (open_slot cfg now action g))"
proof (cases "fst (open_slot cfg now action g)")
  case (SlotBlocked r)
  with assms show ?thesis by (simp add: open_slot_blocked)
next
  case (SlotOpen i)
  have "spend_total (action_spend action) k \<le> capacity g k"
    using assms evaluate_NoneD(3) [OF open_slot_allowed(1) [OF SlotOpen]]
    by (auto simp: solvent_def intro: spend_total_wf)
  moreover have "slots_nonneg (snd (open_slot cfg now action g))"
    using assms by (auto simp: open_slot_allowed(3) [OF SlotOpen] slots_nonneg_def solvent_def spend_wf_def)
  ultimately show ?thesis
    using assms by (simp add: solvent_def capacity_open [OF SlotOpen] ledger_ok_open)
qed

lemma solvent_settle:
  assumes "solvent k g"
  shows "solvent k (settle cfg i o' g)"
proof (cases "i < length (g_slots g) \<and> \<not> sl_settled (g_slots g ! i)")
  case True
  then have "kept_total o' (sl_spend (g_slots g ! i)) g k \<le> spend_total (sl_spend (g_slots g ! i)) k"
    using assms by (intro kept_le_spend) (auto simp: solvent_def slots_nonneg_def)
  with True assms show ?thesis
    by (simp add: solvent_def capacity_settle ledger_okD(3) ledger_ok_settle slots_nonneg_settle)
qed (use assms in \<open>simp add: settle_settled\<close>)

lemma solvent_step:
  assumes "solvent k g" "careful k op"
  shows "solvent k (gate_step cfg op g)"
proof -
  have frame: "solvent k g'" if "g' = gate_step cfg op g" "capacity g' k = capacity g k"
    "g_slots g' = g_slots g" for g'
    using that assms ledger_ok_step [of g cfg op] by (simp add: solvent_def slots_nonneg_def)
  show ?thesis
  proof (cases op)
    case (OpSnapshot bs b txs)
    with assms show ?thesis
      by (intro frame) (auto simp: solvent_def gate_frame ledger_okD(3)
        intro!: capacity_apply_snapshot_other)
  qed (use assms in \<open>auto simp: solvent_open solvent_settle gate_frame intro!: frame\<close>)
qed

lemma solvent_run:
  "solvent k g \<Longrightarrow> list_all (careful k) ops \<Longrightarrow> solvent k (gate_run cfg ops g)"
  by (induction ops arbitrary: g) (auto simp: solvent_step)

section \<open>Slots and holds over a run\<close>

lemma settle_slots:
  "g_slots (settle cfg i o' g) =
     (if i < length (g_slots g) then (g_slots g)[i := (g_slots g ! i)\<lparr>sl_settled := True\<rparr>] else g_slots g)"
proof (cases "i < length (g_slots g) \<and> \<not> sl_settled (g_slots g ! i)")
  case True
  then show ?thesis
    using settle_entries_eq [of o' "sl_spend (g_slots g ! i)"
      "g\<lparr>g_slots := (g_slots g)[i := (g_slots g ! i)\<lparr>sl_settled := True\<rparr>]\<rparr>" "[]"]
    by (auto simp: settle_def Let_def gate_frame)
next
  case False
  have "s\<lparr>sl_settled := True\<rparr> = s" if "sl_settled s" for s :: slot
    using that by (cases s) simp
  with False have "i < length (g_slots g) \<Longrightarrow>
      (g_slots g)[i := (g_slots g ! i)\<lparr>sl_settled := True\<rparr>] = g_slots g"
    by (metis list_update_id)
  with False show ?thesis by (simp add: settle_settled)
qed

lemma open_slot_slots:
  "\<exists>ss. g_slots (snd (open_slot cfg now action g)) = g_slots g @ ss"
  by (simp add: open_slot_def split: option.split)

lemma gate_step_settled:
  assumes "i < length (g_slots g)" "sl_settled (g_slots g ! i)"
  shows "i < length (g_slots (gate_step cfg op g)) \<and> sl_settled (g_slots (gate_step cfg op g) ! i)"
proof (cases op)
  case (OpOpen now action)
  with assms open_slot_slots [of cfg now action g] show ?thesis by (auto simp: nth_append)
qed (use assms in \<open>simp_all add: gate_frame settle_slots nth_list_update\<close>)

lemma gate_run_settled:
  "i < length (g_slots g) \<Longrightarrow> sl_settled (g_slots g ! i) \<Longrightarrow>
     sl_settled (g_slots (gate_run cfg ops g) ! i)"
  by (induction ops arbitrary: g) (use gate_step_settled in auto)

lemma map_of_add_hold:
  "map_of (g_holds (add_hold o' es g)) tx = Some h \<Longrightarrow> map_of (g_holds g) tx = Some h' \<Longrightarrow>
     h_entries h = h_entries h'"
  by (auto simp: add_hold_def row_simps split: option.splits if_splits)

lemma settle_keeps_hold:
  assumes "map_of (g_holds g) tx = Some h"
  shows "\<exists>h'. map_of (g_holds (settle cfg i o' g)) tx = Some h' \<and> h_entries h' = h_entries h"
proof -
  obtain es where "g_holds (settle cfg i o' g) = g_holds g \<or>
      g_holds (settle cfg i o' g) = g_holds (add_hold o' es g)"
    using settle_holds by blast
  moreover have "map_of (g_holds (add_hold o' es g)) tx \<noteq> None"
    using assms by (auto simp: add_hold_def row_simps split: option.split)
  ultimately show ?thesis
    using assms map_of_add_hold by (auto intro: map_of_add_hold)
qed

text \<open>Whether a transaction holds an outflow of a key, and the snapshots that may drop it.\<close>

definition holds_entry :: "gate \<Rightarrow> hex \<Rightarrow> ledger_key \<times> int \<Rightarrow> bool" where
  "holds_entry g tx e = (case map_of (g_holds g) tx of None \<Rightarrow> False | Some h \<Rightarrow> e \<in> set (h_entries h))"

fun retires :: "hex \<Rightarrow> ledger_key \<Rightarrow> gate_op \<Rightarrow> bool" where
  "retires tx k (OpSnapshot bs b txs) = (tx \<in> set txs \<and> k \<in> ledger_key ` fst ` set bs)"
| "retires tx k _ = False"

lemma holds_entry_step:
  assumes "ledger_ok g" "holds_entry g tx e" "\<not> retires tx (fst e) op"
  shows "holds_entry (gate_step cfg op g) tx e"
proof (cases op)
  case (OpSettle i o')
  with assms settle_keeps_hold [of g tx _ cfg i o'] show ?thesis
    by (fastforce simp: holds_entry_def split: option.splits)
next
  case (OpSnapshot bs b txs)
  with assms show ?thesis
    by (auto simp: holds_entry_def gate_frame map_of_retire_holds ledger_okD(3) retired_def Let_def
        filter_empty_conv split: option.splits)
next
  case (OpOpen now action)
  with assms show ?thesis by (auto simp: holds_entry_def open_slot_def split: option.splits)
qed (use assms in \<open>simp_all add: holds_entry_def gate_frame\<close>)

lemma holds_entry_run:
  assumes "ledger_ok g" "holds_entry g tx e" "list_all (\<lambda>op. \<not> retires tx (fst e) op) ops"
  shows "holds_entry (gate_run cfg ops g) tx e"
  using assms by (induction ops arbitrary: g) (auto simp: ledger_ok_step holds_entry_step)

section \<open>Publishing a snapshot\<close>

lemma publish_key:
  assumes "distinct (map (ledger_key \<circ> fst) bs)" "(a, amount) \<in> set bs"
    "\<forall>newest. g_snapshotBlock g (ledger_key a) = Some newest \<longrightarrow> newest \<le> block"
  shows "g_available (publish bs block g) (ledger_key a) = Some amount
    \<and> g_spentSinceRefresh (publish bs block g) (ledger_key a) = Some 0"
  using assms
proof (induction bs block g rule: publish.induct)
  case (2 account n bs block g)
  show ?case
  proof (cases "(a, amount) \<in> set bs")
    case True
    with "2.prems"(1) have "ledger_key account \<noteq> ledger_key a" by force
    then have "g_snapshotBlock (set_available account n (Some block) g) (ledger_key a)
        = g_snapshotBlock g (ledger_key a)"
      by (simp add: set_available_def Let_def)
    with 2 True show ?thesis by simp
  next
    case False
    with "2.prems" have a: "account = a" "n = amount" by auto
    with "2.prems"(1) have "ledger_key a \<notin> ledger_key ` fst ` set bs"
      by (auto simp: image_comp)
    with a "2.prems"(3) show ?thesis
      by (auto simp: gate_frame set_available_def Let_def split: option.split)
  qed
qed simp

lemma capacity_snapshot:
  assumes "distinct (map fst (g_holds g))" "distinct (map (ledger_key \<circ> fst) bs)"
    "(a, amount) \<in> set bs"
    "\<forall>newest. g_snapshotBlock g (ledger_key a) = Some newest \<longrightarrow> newest \<le> block"
  shows "capacity (apply_snapshot bs block txs g) (ledger_key a) =
    amount - sum_list (map (\<lambda>h. entries_for (h_entries (snd h)) (ledger_key a))
        (filter (\<lambda>h. fst h \<notin> set txs) (g_holds g)))
      - reserved_for g a"
proof -
  let ?g = "g\<lparr>g_holds := retire_holds (set (map (ledger_key \<circ> fst) bs)) txs (g_holds g)\<rparr>"
  let ?k = "ledger_key a"
  have k: "?k \<in> ledger_key ` fst ` set bs" using assms(3) by force
  have p: "mget (g_available (apply_snapshot bs block txs g)) ?k = amount"
    "mget (g_spentSinceRefresh (apply_snapshot bs block txs g)) ?k = 0"
    using publish_key [of bs a amount ?g block] assms(2-4)
    by (simp_all add: apply_snapshot_def mget_def)
  have "sum_list (map (\<lambda>h. if fst h \<in> set txs then 0 else F h) hs) =
      sum_list (map F (filter (\<lambda>h. fst h \<notin> set txs) hs))" for F :: "hex \<times> hold \<Rightarrow> int" and hs
    by (induction hs) auto
  then have "held_for (apply_snapshot bs block txs g) ?k =
      sum_list (map (\<lambda>h. entries_for (h_entries (snd h)) ?k)
        (filter (\<lambda>h. fst h \<notin> set txs) (g_holds g)))"
    using assms(1) k by (simp add: held_for_def gate_frame held_for_retire)
  then show ?thesis
    by (simp add: capacity_def p gate_frame reserved_for_def)
qed

section \<open>Properties of the ledger\<close>

text \<open>A token, its holder, and actions that spend it: the inputs of the examples below.\<close>

definition ex_cfg :: risk_config where
  "ex_cfg = \<lparr>rc_maxConsecutiveFailures = Some 2, rc_minProfit = Some 5,
     rc_maxDataStalenessMs = Some 1000, rc_maxInFlight = Some 2,
     rc_expectedCodeHashes = Some [(''0xpool'', ''0xAA'')], rc_startHalted = False\<rparr>"

definition ex_account :: token_account where
  "ex_account = \<lparr>ta_owner = ''0xBot'', ta_token = ''0xWBTC''\<rparr>"

definition ex_action :: "int \<Rightarrow> risk_action" where
  "ex_action amount = \<lparr>ra_kind = ''liquidation'', ra_subject = ''0xpos'',
     ra_expectedProfit = Some 9, ra_dataTimestampMs = Some (WireInt 5000),
     ra_spend = Some [\<lparr>ta_owner = ''0xBOT'', ta_token = ''0xwbtc'', ts_amount = amount,
       ts_accounting = None\<rparr>]\<rparr>"

definition ex_key :: ledger_key where
  "ex_key = ''0xbot|0xwbtc''"

lemma ex_key_simps [simp]:
  "ledger_key ex_account = ex_key"
  "ledger_key \<lparr>ta_owner = ''0xBOT'', ta_token = ''0xwbtc'', ts_amount = n, ts_accounting = c\<rparr> = ex_key"
  by (simp_all add: ledger_key_def ex_account_def ex_key_def to_lower_def lower_char_def)

lemma ex_cfg_simps [simp]:
  "rc_maxConsecutiveFailures ex_cfg = Some 2" "rc_minProfit ex_cfg = Some 5"
  "rc_maxDataStalenessMs ex_cfg = Some 1000" "rc_maxInFlight ex_cfg = Some 2"
  "rc_expectedCodeHashes ex_cfg = Some [(''0xpool'', ''0xAA'')]" "\<not> rc_startHalted ex_cfg"
  by (simp_all add: ex_cfg_def)

text \<open>C2: whatever the engines, the kill switch and the guards do to the gate, and in whatever
  order, its count of actions in flight is the number of slots not settled yet, and the amount
  it reserves for an account is the sum of what those slots declared for it.\<close>

theorem slot_accounting:
  "g_inFlight (gate_run cfg ops (create_gate cfg)) =
     int (length (filter (\<lambda>s. \<not> sl_settled s) (g_slots (gate_run cfg ops (create_gate cfg)))))
   \<and> reserved_for (gate_run cfg ops (create_gate cfg)) a =
     sum_list (map (\<lambda>s. spend_total (sl_spend s) (ledger_key a))
       (filter (\<lambda>s. \<not> sl_settled s) (g_slots (gate_run cfg ops (create_gate cfg)))))"
proof -
  have "open_count ss = int (length (filter (\<lambda>s. \<not> sl_settled s) ss))" for ss
    by (induction ss) (simp_all add: open_count_def)
  moreover have "open_total ss k =
      sum_list (map (\<lambda>s. spend_total (sl_spend s) k) (filter (\<lambda>s. \<not> sl_settled s) ss))" for ss k
    by (induction ss) (simp_all add: open_total_def)
  ultimately show ?thesis
    using ledger_okD [OF gate_run_ledger_ok [OF ledger_ok_create]] by (simp add: reserved_for_def)
qed

lemma in_flight_step:
  assumes "ledger_ok g" "rc_maxInFlight cfg = Some m" "g_inFlight g \<le> m"
  shows "g_inFlight (gate_step cfg op g) \<le> m"
proof (cases op)
  case (OpOpen now action)
  show ?thesis
  proof (cases "fst (open_slot cfg now action g)")
    case (SlotOpen i)
    note allowed = open_slot_allowed [OF SlotOpen]
    from evaluate_NoneD(2) [OF allowed(1) assms(2)] show ?thesis
      by (simp add: OpOpen allowed(3))
  qed (use assms OpOpen in \<open>simp add: open_slot_blocked\<close>)
next
  case (OpSettle i o')
  with assms show ?thesis
    by (cases "i < length (g_slots g) \<and> \<not> sl_settled (g_slots g ! i)")
      (simp_all add: settle_settled settle_ledger(3) ledger_okD(3))
qed (use assms in \<open>simp_all add: gate_frame\<close>)

lemma in_flight_run:
  "ledger_ok g \<Longrightarrow> rc_maxInFlight cfg = Some m \<Longrightarrow> g_inFlight g \<le> m \<Longrightarrow>
     g_inFlight (gate_run cfg ops g) \<le> m"
  by (induction ops arbitrary: g) (auto simp: in_flight_step ledger_ok_step)

text \<open>With a cap on in-flight actions configured, no interleaving of the engines ever has
  more than that many slots open.\<close>

theorem exposure_cap:
  assumes "rc_maxInFlight cfg = Some m" "0 \<le> m"
  shows "int (length (filter (\<lambda>s. \<not> sl_settled s) (g_slots (gate_run cfg ops (create_gate cfg))))) \<le> m"
proof -
  have "g_inFlight (gate_run cfg ops (create_gate cfg)) \<le> m"
    by (rule in_flight_run [OF ledger_ok_create assms(1)]) (simp add: create_gate_def assms(2))
  moreover have "open_count ss = int (length (filter (\<lambda>s. \<not> sl_settled s) ss))" for ss
    by (induction ss) (simp_all add: open_count_def)
  ultimately show ?thesis
    using ledger_okD(1) [OF gate_run_ledger_ok [OF ledger_ok_create]] by simp
qed

theorem exposure_cap_witness:
  "int (length (filter (\<lambda>s. \<not> sl_settled s) (g_slots (gate_run ex_cfg
     [OpSetAvailable ex_account 100 (Some 7), OpOpen 5100 (ex_action 10), OpOpen 5100 (ex_action 10),
      OpOpen 5100 (ex_action 10)] (create_gate ex_cfg))))) \<le> 2"
  by (rule exposure_cap) simp_all

fun opens_wf :: "gate_op \<Rightarrow> bool" where
  "opens_wf (OpOpen now action) = spend_wf (action_spend action)"
| "opens_wf _ = True"

lemma slots_nonneg_step: "slots_nonneg g \<Longrightarrow> opens_wf op \<Longrightarrow> slots_nonneg (gate_step cfg op g)"
proof (cases op)
  case (OpOpen now action)
  assume "slots_nonneg g" "opens_wf op"
  with OpOpen show ?thesis
    by (auto simp: slots_nonneg_def open_slot_def spend_wf_def split: option.split)
qed (simp_all add: slots_nonneg_settle, simp_all add: slots_nonneg_def gate_frame)

lemma slots_nonneg_create: "slots_nonneg (create_gate cfg)"
  by (simp add: slots_nonneg_def create_gate_def)

lemma slots_nonneg_run:
  "slots_nonneg g \<Longrightarrow> list_all opens_wf ops \<Longrightarrow> slots_nonneg (gate_run cfg ops g)"
  by (induction ops arbitrary: g) (auto simp: slots_nonneg_step)


lemmas gate_eval = gate_run.simps gate_step.simps create_gate_def open_slot_def evaluate_def
  set_available_def capacity_def held_for_def action_spend_def check_profit_def check_freshness_def
  is_safe_integer_def MAX_SOURCE_CLOCK_SKEW_MS_def Let_def

lemma ex_action_simps [simp]:
  "ra_subject (ex_action n) = ''0xpos''" "ra_expectedProfit (ex_action n) = Some 9"
  "ra_dataTimestampMs (ex_action n) = Some (WireInt 5000)"
  "ra_spend (ex_action n) = Some [\<lparr>ta_owner = ''0xBOT'', ta_token = ''0xwbtc'',
     ts_amount = n, ts_accounting = None\<rparr>]"
  by (simp_all add: ex_action_def)


text \<open>The condition that an action names an account once is needed: each entry is compared with the whole
  capacity, so two entries of six pass against a balance of ten.\<close>

lemma repeated_entry_overdraws:
  "capacity (gate_run ex_cfg [OpSetAvailable ex_account 10 (Some 7),
     OpOpen 5100 ((ex_action 6)\<lparr>ra_spend := map_option (\<lambda>es. es @ es) (ra_spend (ex_action 6))\<rparr>)] (create_gate ex_cfg)) ex_key
   = - 2"
  by code_simp

text \<open>Settling a slot gives its reservation back and keeps counting exactly what the outcome
  may have moved: nothing when the outcome moved nothing or the caller keeps the account, the
  declared amount of the gate's own entries otherwise, once per transaction.\<close>

theorem settle_capacity:
  assumes "i < length (g_slots (gate_run cfg ops (create_gate cfg)))"
    and "\<not> sl_settled (g_slots (gate_run cfg ops (create_gate cfg)) ! i)"
  shows "capacity (settle cfg i o' (gate_run cfg ops (create_gate cfg))) k =
    capacity (gate_run cfg ops (create_gate cfg)) k
      + spend_total (sl_spend (g_slots (gate_run cfg ops (create_gate cfg)) ! i)) k
      - (if \<not> (ao_ok o' \<or> ao_unresolved o' \<or> ao_spent o' \<or> ao_spendUnknown o') then 0
         else if (\<exists>tx. ao_txHash o' = Some tx
                \<and> map_of (g_holds (gate_run cfg ops (create_gate cfg))) tx \<noteq> None) then 0
         else gate_total (sl_spend (g_slots (gate_run cfg ops (create_gate cfg)) ! i)) k)"
  using capacity_settle [OF assms ledger_okD(3) [OF gate_run_ledger_ok [OF ledger_ok_create]], of cfg o' k]
  by (auto simp: kept_total_def hold_hash_def counts_as_spent_def split: option.split)

theorem settle_capacity_witness:
  "capacity (settle ex_cfg 0 (outcome True) (gate_run ex_cfg
     [OpSetAvailable ex_account 10 (Some 7), OpOpen 5100 (ex_action 6)] (create_gate ex_cfg))) ex_key = 4"
  using settle_capacity [of 0 ex_cfg
    "[OpSetAvailable ex_account 10 (Some 7), OpOpen 5100 (ex_action 6)]" "outcome True" ex_key]
  by (simp add: gate_eval outcome_def)

text \<open>The first settlement of a slot is the only one that counts. Whatever runs between, a
  second settlement, with any outcome, changes nothing.\<close>

theorem settle_once:
  assumes "i < length (g_slots g)"
  shows "settle cfg i o2 (gate_run cfg ops (settle cfg i o1 g)) =
         gate_run cfg ops (settle cfg i o1 g)"
proof -
  have "sl_settled (g_slots (settle cfg i o1 g) ! i)" "i < length (g_slots (settle cfg i o1 g))"
    using assms by (simp_all add: settle_slots)
  then have "sl_settled (g_slots (gate_run cfg ops (settle cfg i o1 g)) ! i)"
    by (intro gate_run_settled)
  then show ?thesis by (simp add: settle_def)
qed

theorem settle_once_witness:
  "settle ex_cfg 0 (outcome False) (gate_run ex_cfg [OpResume] (settle ex_cfg 0 (outcome True)
     (gate_run ex_cfg [OpSetAvailable ex_account 10 None, OpOpen 5100 (ex_action 6)] (create_gate ex_cfg)))) =
   gate_run ex_cfg [OpResume] (settle ex_cfg 0 (outcome True)
     (gate_run ex_cfg [OpSetAvailable ex_account 10 None, OpOpen 5100 (ex_action 6)] (create_gate ex_cfg)))"
  by (rule settle_once) (simp add: gate_eval)

text \<open>An outflow recorded against a transaction is counted until a snapshot that read the
  account names the transaction as settled. No other operation, and no snapshot that names other
  transactions or reads other accounts, drops it.\<close>

theorem held_outflow_kept:
  assumes "holds_entry (gate_run cfg before (create_gate cfg)) tx e"
    and "list_all (\<lambda>op. \<not> retires tx (fst e) op) after"
  shows "holds_entry (gate_run cfg (before @ after) (create_gate cfg)) tx e"
  using holds_entry_run [OF gate_run_ledger_ok [OF ledger_ok_create] assms] by simp

theorem held_outflow_kept_witness:
  "holds_entry (gate_run ex_cfg ([OpSetAvailable ex_account 10 (Some 7), OpOpen 5100 (ex_action 6),
       OpSettle 0 ((outcome True)\<lparr>ao_txHash := Some ''0xt''\<rparr>)]
     @ [OpSetAvailable ex_account 10 (Some 8), OpSnapshot [(ex_account, 4)] 9 [''0xother'']])
     (create_gate ex_cfg)) ''0xt'' (ex_key, 6)"
  by (rule held_outflow_kept)
    (simp_all add: gate_eval holds_entry_def settle_def counts_as_spent_def hold_hash_def outcome_def
      add_hold_def release_def breaker_exempt_def)

text \<open>A snapshot that is not older than the one in force makes the capacity of each account it
  read exactly its balance, less the outflows of the transactions it does not name as settled,
  less the open reservations: nothing is subtracted twice and nothing pending is forgotten.\<close>

theorem snapshot_capacity:
  assumes "distinct (map (ledger_key \<circ> fst) bs)" "(a, amount) \<in> set bs"
    and "\<forall>newest. g_snapshotBlock (gate_run cfg ops (create_gate cfg)) (ledger_key a) = Some newest
           \<longrightarrow> newest \<le> block"
  shows "capacity (apply_snapshot bs block txs (gate_run cfg ops (create_gate cfg))) (ledger_key a) =
    amount - sum_list (map (\<lambda>h. entries_for (h_entries (snd h)) (ledger_key a))
        (filter (\<lambda>h. fst h \<notin> set txs) (g_holds (gate_run cfg ops (create_gate cfg)))))
      - reserved_for (gate_run cfg ops (create_gate cfg)) a"
  by (rule capacity_snapshot [OF ledger_okD(3) [OF gate_run_ledger_ok [OF ledger_ok_create]] assms])

theorem snapshot_capacity_witness:
  "capacity (apply_snapshot [(ex_account, 50)] 8 [''0xt''] (gate_run ex_cfg
     [OpSetAvailable ex_account 60 (Some 7), OpOpen 5100 (ex_action 6),
      OpSettle 0 ((outcome True)\<lparr>ao_txHash := Some ''0xt''\<rparr>), OpOpen 5100 (ex_action 8)]
     (create_gate ex_cfg))) ex_key = 42"
  using snapshot_capacity [of "[(ex_account, 50)]" ex_account 50 ex_cfg
     "[OpSetAvailable ex_account 60 (Some 7), OpOpen 5100 (ex_action 6),
      OpSettle 0 ((outcome True)\<lparr>ao_txHash := Some ''0xt''\<rparr>), OpOpen 5100 (ex_action 8)]" 8 "[''0xt'']"]
  by (simp add: gate_eval settle_def counts_as_spent_def hold_hash_def outcome_def reserved_for_def
      add_hold_def release_def breaker_exempt_def)

end
