(* ===== verification/RiskHalting.thy ===== *)
theory RiskHalting
  imports RiskRuns
begin

text \<open>
  Halting: who may stop the bots, who may start them again, and what an action must satisfy to
  be let through. Bytecode verification awaits its reads, so it is two steps of the system:
  its start, which takes the halt sequence number, and its end, with the reads and that number.
  Between the two any other operation may run.
\<close>

section \<open>The system with its verification passes\<close>

inductive risk_step :: "risk_config \<Rightarrow> gate \<times> nat list \<Rightarrow> gate \<times> nat list \<Rightarrow> bool"
  for cfg where
  step_op: "(\<And>seq rd. op \<noteq> OpVerify seq rd) \<Longrightarrow> risk_step cfg (g, ps) (gate_step cfg op g, ps)"
| step_verify_start: "risk_step cfg (g, ps) (g, ps @ [g_codeHashHaltSeq g])"
| step_verify_end: "i < length ps \<Longrightarrow>
     risk_step cfg (g, ps) (fst (verify_code cfg (ps ! i) rd g), take i ps @ drop (Suc i) ps)"

inductive risk_reach :: "risk_config \<Rightarrow> gate \<times> nat list \<Rightarrow> bool" for cfg where
  reach_create: "risk_reach cfg (create_gate cfg, [])"
| reach_step: "risk_reach cfg s \<Longrightarrow> risk_step cfg s s' \<Longrightarrow> risk_reach cfg s'"

inductive_cases risk_stepE: "risk_step cfg (g, ps) s'"

section \<open>The halting invariant\<close>

definition breaker_ok :: "risk_config \<Rightarrow> gate \<Rightarrow> bool" where
  "breaker_ok cfg g \<longleftrightarrow> (case rc_maxConsecutiveFailures cfg of None \<Rightarrow> True
     | Some m \<Rightarrow> m \<noteq> 0 \<and> m \<le> g_failures g \<longrightarrow> g_state g = HALTED)"

definition halting_ok :: "risk_config \<Rightarrow> gate \<Rightarrow> bool" where
  "halting_ok cfg g \<longleftrightarrow> (g_codeHashHalt g \<longrightarrow> g_state g = HALTED) \<and> breaker_ok cfg g"

lemma halting_ok_create: "halting_ok cfg (create_gate cfg)"
  by (auto simp: halting_ok_def breaker_ok_def create_gate_def split: option.split)

lemma halting_ok_cong:
  assumes "halting_ok cfg g" "g_state g' = g_state g" "g_failures g' = g_failures g"
    "g_codeHashHalt g' = g_codeHashHalt g"
  shows "halting_ok cfg g'"
  using assms by (simp add: halting_ok_def breaker_ok_def split: option.splits)

lemma release_state:
  "g_state (release cfg o' g) = HALTED \<or> g_state (release cfg o' g) = g_state g"
  by (simp add: release_def Let_def gate_frame split: option.split)

lemma halting_ok_release: "halting_ok cfg g \<Longrightarrow> halting_ok cfg (release cfg o' g)"
  by (auto simp: halting_ok_def breaker_ok_def release_def Let_def gate_frame split: option.splits)

lemma settle_release:
  assumes "i < length (g_slots g)" "\<not> sl_settled (g_slots g ! i)"
  shows "\<exists>g'. settle cfg i o' g = release cfg o' g' \<and> g_state g' = g_state g
    \<and> g_failures g' = g_failures g \<and> g_codeHashHalt g' = g_codeHashHalt g
    \<and> g_codeHashHaltSeq g' = g_codeHashHaltSeq g \<and> g_events g' = g_events g"
proof -
  let ?g0 = "g\<lparr>g_slots := (g_slots g)[i := (g_slots g ! i)\<lparr>sl_settled := True\<rparr>]\<rparr>"
  obtain r s es where "settle_entries o' (sl_spend (g_slots g ! i)) (?g0, []) =
      (?g0\<lparr>g_reserved := r, g_spentSinceRefresh := s\<rparr>, es)"
    using settle_entries_eq [of o' "sl_spend (g_slots g ! i)" ?g0 "[]"] by blast
  then show ?thesis
    using assms
    by (intro exI [of _ "add_hold o' es (?g0\<lparr>g_reserved := r, g_spentSinceRefresh := s\<rparr>)"])
      (simp add: settle_def Let_def gate_frame)
qed

lemma halting_ok_settle:
  assumes "halting_ok cfg g"
  shows "halting_ok cfg (settle cfg i o' g)"
proof (cases "i < length (g_slots g) \<and> \<not> sl_settled (g_slots g ! i)")
  case True
  then obtain g' where "settle cfg i o' g = release cfg o' g'" "g_state g' = g_state g"
    "g_failures g' = g_failures g" "g_codeHashHalt g' = g_codeHashHalt g"
    using settle_release by blast
  with assms show ?thesis by (metis halting_ok_cong halting_ok_release)
qed (use assms in \<open>simp add: settle_settled\<close>)

lemma halting_ok_halt: "halting_ok cfg (halt_with why b g)"
  by (simp add: halting_ok_def breaker_ok_def gate_frame split: option.split)

lemma halting_ok_resume: "halting_ok cfg g \<Longrightarrow> halting_ok cfg (snd (resume g))"
  by (auto simp: halting_ok_def breaker_ok_def resume_def emit_def Let_def split: option.splits)

lemma halting_ok_verify: "halting_ok cfg g \<Longrightarrow> halting_ok cfg (fst (verify_code cfg seq rd g))"
  using halting_ok_halt [of cfg _ True g]
  by (auto simp: verify_code_def Let_def halting_ok_def breaker_ok_def split: option.splits)

lemma halting_ok_step: "halting_ok cfg g \<Longrightarrow> halting_ok cfg (gate_step cfg op g)"
proof -
  assume g: "halting_ok cfg g"
  note keep = halting_ok_cong [OF g]
  show ?thesis
  proof (cases op)
    case (OpOpen now action)
    then show ?thesis by (auto simp: open_slot_def g split: option.split intro!: keep)
  qed (simp_all add: halting_ok_settle [OF g] halt_def halting_ok_halt halting_ok_resume [OF g]
      halting_ok_verify [OF g], (rule keep; simp add: gate_frame)+)
qed

lemma halting_ok_run: "halting_ok cfg g \<Longrightarrow> halting_ok cfg (gate_run cfg ops g)"
  by (induction ops arbitrary: g) (auto simp: halting_ok_step)

section \<open>Sequence numbers\<close>

lemma seq_verify: "g_codeHashHaltSeq g \<le> g_codeHashHaltSeq (fst (verify_code cfg seq rd g))"
  by (auto simp: verify_code_def Let_def gate_frame split: option.split)

lemma seq_settle: "g_codeHashHaltSeq (settle cfg i o' g) = g_codeHashHaltSeq g"
proof (cases "i < length (g_slots g) \<and> \<not> sl_settled (g_slots g ! i)")
  case True
  then obtain g' where "settle cfg i o' g = release cfg o' g'"
    "g_codeHashHaltSeq g' = g_codeHashHaltSeq g"
    using settle_release by blast
  then show ?thesis by (simp add: gate_frame)
qed (simp add: settle_settled)

lemma seq_step: "g_codeHashHaltSeq g \<le> g_codeHashHaltSeq (gate_step cfg op g)"
proof (cases op)
  case (OpOpen now action)
  then show ?thesis by (simp add: open_slot_def split: option.split)
qed (simp_all add: gate_frame seq_settle seq_verify)

lemma reach_pending:
  assumes "risk_reach cfg s"
  shows "case s of (g, ps) \<Rightarrow> halting_ok cfg g \<and> (\<forall>seq \<in> set ps. seq \<le> g_codeHashHaltSeq g)"
  using assms
proof (induction rule: risk_reach.induct)
  case reach_create
  then show ?case by (simp add: halting_ok_create)
next
  case (reach_step s s')
  from reach_step.hyps(2) reach_step.IH show ?case
  proof (cases rule: risk_step.cases)
    case (step_op op g ps)
    with reach_step.IH seq_step [of g cfg op] show ?thesis
      by (auto simp: halting_ok_step intro: le_trans)
  next
    case (step_verify_start g ps)
    with reach_step.IH show ?thesis by auto
  next
    case (step_verify_end i ps g rd)
    with reach_step.IH seq_verify [of g cfg "ps ! i" rd] show ?thesis
      by (auto simp: halting_ok_verify dest!: in_set_takeD in_set_dropD intro: le_trans)
  qed
qed

section \<open>Bytecode mismatches\<close>

definition mismatched :: "risk_config \<Rightarrow> (address \<Rightarrow> code_read) \<Rightarrow> bool" where
  "mismatched cfg rd \<longleftrightarrow> (\<exists>(addr, want) \<in> set (or_default (rc_expectedCodeHashes cfg) []).
     case rd addr of ReadFailed _ \<Rightarrow> False | NoCode \<Rightarrow> True
     | CodeHash got \<Rightarrow> to_lower got \<noteq> to_lower want)"

definition probe_failed :: "risk_config \<Rightarrow> (address \<Rightarrow> code_read) \<Rightarrow> bool" where
  "probe_failed cfg rd \<longleftrightarrow> (\<exists>(addr, want) \<in> set (or_default (rc_expectedCodeHashes cfg) []).
     case rd addr of ReadFailed _ \<Rightarrow> True | _ \<Rightarrow> False)"

lemma first_compromise_None:
  "first_compromise (zip es (map (\<lambda>e. rd (fst e)) es)) = None \<longleftrightarrow>
     (\<forall>(addr, want) \<in> set es. judge_read addr want (rd addr) = None)"
  by (induction es) (auto split: option.splits)

lemma first_failure_None:
  "first_failure (map (\<lambda>e. rd (fst e)) es) = None \<longleftrightarrow>
     (\<forall>(addr, want) \<in> set es. \<forall>e. rd addr \<noteq> ReadFailed e)"
proof (induction es)
  case (Cons e es)
  then show ?case by (cases "rd (fst e)") (auto split: prod.splits)
qed simp

lemma judge_read_None:
  "judge_read addr want r = None \<longleftrightarrow>
     (case r of ReadFailed _ \<Rightarrow> True | NoCode \<Rightarrow> False
      | CodeHash got \<Rightarrow> to_lower got = to_lower want)"
  by (simp add: judge_read_def split: code_read.split)

lemma mismatched_iff:
  assumes "rc_expectedCodeHashes cfg = Some es"
  shows "mismatched cfg rd \<longleftrightarrow> first_compromise (zip es (map (\<lambda>e. rd (fst e)) es)) \<noteq> None"
    and "probe_failed cfg rd \<longleftrightarrow> first_failure (map (\<lambda>e. rd (fst e)) es) \<noteq> None"
proof -
  have c: "(case r of ReadFailed _ \<Rightarrow> True | NoCode \<Rightarrow> False | CodeHash got \<Rightarrow> to_lower got = w)
      = (\<not> (case r of ReadFailed _ \<Rightarrow> False | NoCode \<Rightarrow> True | CodeHash got \<Rightarrow> to_lower got \<noteq> w))"
    for r w by (simp split: code_read.split)
  show "mismatched cfg rd \<longleftrightarrow> first_compromise (zip es (map (\<lambda>e. rd (fst e)) es)) \<noteq> None"
    unfolding mismatched_def first_compromise_None judge_read_None c assms by auto
  have f: "(case r of ReadFailed _ \<Rightarrow> True | _ \<Rightarrow> False) = (\<exists>e. r = ReadFailed e)" for r
    by (simp split: code_read.split)
  show "probe_failed cfg rd \<longleftrightarrow> first_failure (map (\<lambda>e. rd (fst e)) es) \<noteq> None"
    unfolding probe_failed_def f first_failure_None assms by fastforce
qed

lemma verify_unpinned:
  "rc_expectedCodeHashes cfg = None \<Longrightarrow> verify_code cfg seq rd g = (g, None)"
  by (simp add: verify_code_def)

lemma verify_mismatched:
  assumes "mismatched cfg rd"
  shows "\<exists>why. verify_code cfg seq rd g = (halt_with why True g, None)"
proof -
  obtain es where es: "rc_expectedCodeHashes cfg = Some es"
    using assms by (cases "rc_expectedCodeHashes cfg") (auto simp: mismatched_def)
  with assms mismatched_iff(1) [OF es] show ?thesis
    by (auto simp: verify_code_def Let_def)
qed

lemma verify_failed:
  assumes "\<not> mismatched cfg rd" "probe_failed cfg rd"
  shows "\<exists>e. snd (verify_code cfg seq rd g) = Some e
    \<and> fst (verify_code cfg seq rd g) = (if g_everVerified g then g
        else halt_with ''pinned contract bytecode has never been verified (probe failed)'' True g)"
proof -
  obtain es where es: "rc_expectedCodeHashes cfg = Some es"
    using assms(2) by (cases "rc_expectedCodeHashes cfg") (auto simp: probe_failed_def)
  with assms mismatched_iff [OF es] show ?thesis
    by (auto simp: verify_code_def Let_def)
qed

lemma verify_clean:
  assumes "rc_expectedCodeHashes cfg \<noteq> None" "\<not> mismatched cfg rd" "\<not> probe_failed cfg rd"
  shows "verify_code cfg seq rd g =
    ((if g_codeHashHaltSeq g = seq then g\<lparr>g_codeHashHalt := False\<rparr> else g)\<lparr>g_everVerified := True\<rparr>, None)"
proof -
  obtain es where es: "rc_expectedCodeHashes cfg = Some es" using assms(1) by auto
  with assms mismatched_iff [OF es] show ?thesis
    by (auto simp: verify_code_def Let_def)
qed

section \<open>A bytecode halt is sticky\<close>

text \<open>The passes that may lift a halt whose number is \<open>n\<close>: clean, and started after it.\<close>

fun may_lift :: "risk_config \<Rightarrow> nat \<Rightarrow> gate_op \<Rightarrow> bool" where
  "may_lift cfg n (OpVerify seq rd) = (n \<le> seq \<and> \<not> mismatched cfg rd \<and> \<not> probe_failed cfg rd)"
| "may_lift cfg n _ = False"

definition locked :: "nat \<Rightarrow> gate \<Rightarrow> bool" where
  "locked n g \<longleftrightarrow> g_codeHashHalt g \<and> g_state g = HALTED \<and> n \<le> g_codeHashHaltSeq g"

lemma locked_cong:
  "locked n g \<Longrightarrow> g_codeHashHalt g' = g_codeHashHalt g \<Longrightarrow> g_state g' = g_state g \<Longrightarrow>
     g_codeHashHaltSeq g' = g_codeHashHaltSeq g \<Longrightarrow> locked n g'"
  by (simp add: locked_def)

lemma locked_release: "locked n g \<Longrightarrow> locked n (release cfg o' g)"
  using release_state [of cfg o' g] by (auto simp: locked_def gate_frame)

lemma locked_settle: "locked n g \<Longrightarrow> locked n (settle cfg i o' g)"
proof (cases "i < length (g_slots g) \<and> \<not> sl_settled (g_slots g ! i)")
  case True
  assume g: "locked n g"
  from True obtain g' where "settle cfg i o' g = release cfg o' g'" "g_state g' = g_state g"
    "g_codeHashHalt g' = g_codeHashHalt g" "g_codeHashHaltSeq g' = g_codeHashHaltSeq g"
    using settle_release by blast
  with g show ?thesis by (metis locked_cong locked_release)
qed (simp add: settle_settled)

lemma locked_verify:
  assumes "locked n g" "\<not> may_lift cfg n (OpVerify seq rd)"
  shows "locked n (fst (verify_code cfg seq rd g))"
proof -
  consider "rc_expectedCodeHashes cfg = None" | "mismatched cfg rd"
    | "\<not> mismatched cfg rd" "probe_failed cfg rd"
    | "rc_expectedCodeHashes cfg \<noteq> None" "\<not> mismatched cfg rd" "\<not> probe_failed cfg rd" "seq < n"
    using assms(2) by fastforce
  then show ?thesis
  proof cases
    case 2
    then obtain why where "verify_code cfg seq rd g = (halt_with why True g, None)"
      using verify_mismatched by blast
    with assms(1) show ?thesis by (simp add: locked_def gate_frame)
  next
    case 3
    then obtain e where "fst (verify_code cfg seq rd g) = (if g_everVerified g then g
        else halt_with ''pinned contract bytecode has never been verified (probe failed)'' True g)"
      using verify_failed by blast
    with assms(1) show ?thesis by (simp add: locked_def gate_frame)
  next
    case 4
    then show ?thesis
      using assms(1) by (simp add: verify_clean locked_def)
  qed (use assms in \<open>simp add: verify_unpinned\<close>)
qed

lemma locked_step:
  assumes "locked n g" "\<not> may_lift cfg n op"
  shows "locked n (gate_step cfg op g)"
proof -
  note keep = locked_cong [OF assms(1)]
  show ?thesis
  proof (cases op)
    case (OpOpen now action)
    then show ?thesis by (auto simp: open_slot_def assms(1) split: option.split intro!: keep)
  next
    case (OpVerify seq rd)
    with assms show ?thesis by (simp add: locked_verify)
  next
    case OpResume
    with assms(1) show ?thesis by (simp add: locked_def resume_def)
  next
    case (OpHalt why)
    with assms(1) show ?thesis by (simp add: locked_def gate_frame)
  qed (simp_all add: locked_settle [OF assms(1)], (rule keep; simp add: gate_frame)+)
qed

lemma locked_run:
  "locked n g \<Longrightarrow> list_all (\<lambda>op. \<not> may_lift cfg n op) ops \<Longrightarrow> locked n (gate_run cfg ops g)"
  by (induction ops arbitrary: g) (auto simp: locked_step)

lemma locked_blocks:
  assumes "locked n g"
  shows "open_slot cfg now action g = (SlotBlocked (BlockedHalted (g_haltReason g)), g)"
    and "resume g = (False, g)"
  using assms by (simp_all add: locked_def open_slot_def evaluate_def resume_def)

text \<open>C4: once a verification has found a pinned contract changed, no action is let through and no
  operator can resume, whatever else runs, until a verification that began after the finding reads
  every pinned contract and finds it right.\<close>

theorem codehash_halt_sticky:
  assumes "mismatched cfg rd"
    and "list_all (\<lambda>op. \<not> may_lift cfg (Suc (g_codeHashHaltSeq g)) op) ops"
  shows "(\<exists>why. fst (open_slot cfg now action (gate_run cfg (OpVerify seq rd # ops) g)) =
      SlotBlocked (BlockedHalted why))
    \<and> resume (gate_run cfg (OpVerify seq rd # ops) g) =
      (False, gate_run cfg (OpVerify seq rd # ops) g)"
proof -
  obtain why where "verify_code cfg seq rd g = (halt_with why True g, None)"
    using verify_mismatched [OF assms(1)] by blast
  then have "locked (Suc (g_codeHashHaltSeq g)) (gate_step cfg (OpVerify seq rd) g)"
    by (simp add: locked_def gate_frame)
  from locked_run [OF this assms(2)] show ?thesis
    by (simp add: locked_blocks)
qed

theorem codehash_halt_sticky_witness:
  "fst (resume (gate_run ex_cfg (OpVerify 0 (\<lambda>_. CodeHash ''0xBB'') #
      [OpResume, OpVerify 0 (\<lambda>_. CodeHash ''0xaa'')]) (create_gate ex_cfg))) = False"
  using codehash_halt_sticky [of ex_cfg "\<lambda>_. CodeHash ''0xBB''" "create_gate ex_cfg"
      "[OpResume, OpVerify 0 (\<lambda>_. CodeHash ''0xaa'')]" 0 "ex_action 1" 0]
  by (simp add: mismatched_def to_lower_def lower_char_def create_gate_def del: gate_run.simps)

text \<open>A verification pass that was already running when another one found a mismatch cannot
  lift the halt, even if its own reads are all clean: reachable pending passes always carry an
  older sequence number than the halt.\<close>

theorem overlapping_pass_cannot_lift:
  assumes "risk_reach cfg (g, ps)" "seq \<in> set ps" "mismatched cfg rd"
  shows "g_codeHashHalt (fst (verify_code cfg seq rd2 (fst (verify_code cfg seq1 rd g))))
    \<and> g_state (fst (verify_code cfg seq rd2 (fst (verify_code cfg seq1 rd g)))) = HALTED"
proof -
  from reach_pending [OF assms(1)] assms(2) have seq: "seq \<le> g_codeHashHaltSeq g" by auto
  obtain why where "verify_code cfg seq1 rd g = (halt_with why True g, None)"
    using verify_mismatched [OF assms(3)] by blast
  then have "locked (Suc (g_codeHashHaltSeq g)) (fst (verify_code cfg seq1 rd g))"
    by (simp add: locked_def gate_frame)
  then have "locked (Suc (g_codeHashHaltSeq g))
      (fst (verify_code cfg seq rd2 (fst (verify_code cfg seq1 rd g))))"
    by (rule locked_verify) (use seq in simp)
  then show ?thesis by (simp add: locked_def)
qed

theorem overlapping_pass_cannot_lift_witness:
  "g_codeHashHalt (fst (verify_code ex_cfg 0 (\<lambda>_. CodeHash ''0xaa'')
     (fst (verify_code ex_cfg 0 (\<lambda>_. NoCode) (create_gate ex_cfg)))))"
proof -
  have "risk_step ex_cfg (create_gate ex_cfg, [])
      (create_gate ex_cfg, [] @ [g_codeHashHaltSeq (create_gate ex_cfg)])"
    by (rule step_verify_start)
  then have "risk_reach ex_cfg (create_gate ex_cfg, [0])"
    using risk_reach.intros [of ex_cfg] by (simp add: create_gate_def)
  then show ?thesis
    using overlapping_pass_cannot_lift [of ex_cfg "create_gate ex_cfg" "[0]" 0 "\<lambda>_. NoCode"]
    by (simp add: mismatched_def)
qed

text \<open>What one verification concludes. A changed or missing contract halts and outranks a
  failed read; a failed read alone rejects, and halts only while the contracts have never been
  verified; a clean pass records that they were and lifts a bytecode halt it did not overlap.\<close>

theorem verify_verdict:
  "(mismatched cfg rd \<longrightarrow> snd (verify_code cfg seq rd g) = None
      \<and> g_state (fst (verify_code cfg seq rd g)) = HALTED
      \<and> g_codeHashHalt (fst (verify_code cfg seq rd g)))
   \<and> (\<not> mismatched cfg rd \<and> probe_failed cfg rd \<longrightarrow> snd (verify_code cfg seq rd g) \<noteq> None
      \<and> g_everVerified (fst (verify_code cfg seq rd g)) = g_everVerified g
      \<and> (if g_everVerified g then fst (verify_code cfg seq rd g) = g
         else g_state (fst (verify_code cfg seq rd g)) = HALTED
            \<and> g_codeHashHalt (fst (verify_code cfg seq rd g))))
   \<and> (rc_expectedCodeHashes cfg \<noteq> None \<and> \<not> mismatched cfg rd \<and> \<not> probe_failed cfg rd \<longrightarrow>
      snd (verify_code cfg seq rd g) = None \<and> g_everVerified (fst (verify_code cfg seq rd g))
      \<and> g_state (fst (verify_code cfg seq rd g)) = g_state g
      \<and> g_codeHashHalt (fst (verify_code cfg seq rd g)) =
          (g_codeHashHalt g \<and> seq \<noteq> g_codeHashHaltSeq g))"
proof (intro conjI impI)
  assume "mismatched cfg rd"
  then obtain why where "verify_code cfg seq rd g = (halt_with why True g, None)"
    using verify_mismatched by blast
  then show "snd (verify_code cfg seq rd g) = None"
    "g_state (fst (verify_code cfg seq rd g)) = HALTED"
    "g_codeHashHalt (fst (verify_code cfg seq rd g))"
    by (simp_all add: gate_frame)
next
  assume "\<not> mismatched cfg rd \<and> probe_failed cfg rd"
  then obtain e where e: "snd (verify_code cfg seq rd g) = Some e"
    "fst (verify_code cfg seq rd g) = (if g_everVerified g then g
        else halt_with ''pinned contract bytecode has never been verified (probe failed)'' True g)"
    using verify_failed by blast
  then show "snd (verify_code cfg seq rd g) \<noteq> None"
    "g_everVerified (fst (verify_code cfg seq rd g)) = g_everVerified g"
    "if g_everVerified g then fst (verify_code cfg seq rd g) = g
     else g_state (fst (verify_code cfg seq rd g)) = HALTED
        \<and> g_codeHashHalt (fst (verify_code cfg seq rd g))"
    by (simp_all add: gate_frame)
qed (auto simp: verify_clean)

theorem verify_verdict_witness:
  "snd (verify_code ex_cfg 0 (\<lambda>_. ReadFailed ''timeout'') (create_gate ex_cfg)) \<noteq> None
   \<and> g_codeHashHalt (fst (verify_code ex_cfg 0 (\<lambda>_. ReadFailed ''timeout'') (create_gate ex_cfg)))"
  using verify_verdict [of ex_cfg "\<lambda>_. ReadFailed ''timeout''" 0 "create_gate ex_cfg"]
  by (simp add: mismatched_def probe_failed_def create_gate_def)

section \<open>The failure breaker and admission\<close>

lemma settle_failures:
  assumes "i < length (g_slots g)" "\<not> sl_settled (g_slots g ! i)"
  shows "g_failures (settle cfg i o' g) =
    (if breaker_exempt o' then g_failures g else if ao_ok o' then 0 else Suc (g_failures g))"
proof -
  obtain g' where "settle cfg i o' g = release cfg o' g'" "g_failures g' = g_failures g"
    using settle_release [OF assms] by blast
  then show ?thesis by (simp add: release_def Let_def gate_frame split: option.split)
qed

text \<open>C3: the breaker. In every gate a run can leave, as many consecutive failures as the limit
  means halted; settling an open slot counts a failure only when the action was sent and
  failed, starts over on a success, and leaves the count alone for an outcome that says nothing
  about the strategy (abandoned, contended or unresolved).\<close>

theorem breaker_trips:
  assumes "rc_maxConsecutiveFailures cfg = Some m" "m \<noteq> 0"
    and "g = gate_run cfg ops (create_gate cfg)"
    and "i < length (g_slots g)" "\<not> sl_settled (g_slots g ! i)"
  shows "(m \<le> g_failures g \<longrightarrow> g_state g = HALTED)
    \<and> (\<not> ao_ok o' \<and> \<not> ao_abandoned o' \<and> \<not> ao_contended o' \<and> \<not> ao_unresolved o'
         \<and> m \<le> Suc (g_failures g) \<longrightarrow> g_state (settle cfg i o' g) = HALTED)
    \<and> g_failures (settle cfg i o' g) =
       (if ao_abandoned o' \<or> ao_contended o' \<or> ao_unresolved o' then g_failures g
        else if ao_ok o' then 0 else Suc (g_failures g))"
proof -
  have h: "halting_ok cfg (gate_run cfg ops' (create_gate cfg))" for ops'
    by (rule halting_ok_run [OF halting_ok_create])
  have s: "gate_run cfg (ops @ [OpSettle i o']) (create_gate cfg) = settle cfg i o' g"
    by (simp add: assms(3))
  show ?thesis
    using h [of ops] h [of "ops @ [OpSettle i o']"] settle_failures [OF assms(4,5), of cfg o']
      assms(1,2) assms(3) [symmetric]
    unfolding s by (auto simp: halting_ok_def breaker_ok_def breaker_exempt_def)
qed

theorem breaker_trips_witness:
  "g_state (settle ex_cfg 1 (outcome False) (gate_run ex_cfg
     [OpSetAvailable ex_account 10 (Some 7), OpOpen 5100 (ex_action 6), OpSettle 0 (outcome False),
      OpOpen 5100 (ex_action 6)] (create_gate ex_cfg))) = HALTED"
  using breaker_trips [of ex_cfg 2 _ "[OpSetAvailable ex_account 10 (Some 7), OpOpen 5100 (ex_action 6),
      OpSettle 0 (outcome False), OpOpen 5100 (ex_action 6)]" 1 "outcome False", OF _ _ refl]
  by (simp add: gate_eval settle_def counts_as_spent_def hold_hash_def outcome_def
      add_hold_def release_def breaker_exempt_def)

lemma check_spend_None:
  "check_spend g sps = None \<longleftrightarrow> (\<forall>sp \<in> set sps. g_available g (ledger_key sp) \<noteq> None
     \<and> ts_amount sp \<le> capacity g (ledger_key sp))"
  by (induction sps) (auto simp: Let_def)

lemma check_freshness_None:
  "check_freshness cfg now action = None \<longleftrightarrow>
     (\<forall>bound. rc_maxDataStalenessMs cfg = Some bound \<longrightarrow>
       (\<exists>t. ra_dataTimestampMs action = Some (WireInt t) \<and> \<bar>t\<bar> \<le> 2 ^ 53 - 1
          \<and> now - bound \<le> t \<and> t \<le> now + 30000))"
  by (auto simp: check_freshness_def is_safe_integer_def MAX_SOURCE_CLOCK_SKEW_MS_def Let_def
      split: option.split wire_value.split)

text \<open>Admission, in full. A slot opens exactly when the gate is running, fewer actions than
  the cap are in flight, every declared spend has a known balance and fits its spendable capacity,
  the expected profit reaches the floor, and the source data carries a usable stamp, at most the
  configured age old and at most the tolerated clock skew ahead. An open slot is new, counts as one
  action in flight and takes its declared spend from the capacity.\<close>

theorem admission_iff:
  "((\<exists>i. fst (open_slot cfg now action g) = SlotOpen i) \<longleftrightarrow>
     g_state g = RUNNING
     \<and> (case rc_maxInFlight cfg of None \<Rightarrow> True | Some m \<Rightarrow> g_inFlight g < m)
     \<and> (\<forall>sp \<in> set (action_spend action). g_available g (ledger_key sp) \<noteq> None
          \<and> ts_amount sp \<le> capacity g (ledger_key sp))
     \<and> (\<forall>floor profit. rc_minProfit cfg = Some floor \<and> ra_expectedProfit action = Some profit
          \<longrightarrow> floor \<le> profit)
     \<and> (\<forall>bound. rc_maxDataStalenessMs cfg = Some bound \<longrightarrow>
          (\<exists>t. ra_dataTimestampMs action = Some (WireInt t) \<and> \<bar>t\<bar> \<le> 2 ^ 53 - 1
             \<and> now - bound \<le> t \<and> t \<le> now + 30000)))
   \<and> (\<forall>i. fst (open_slot cfg now action g) = SlotOpen i \<longrightarrow>
       i = length (g_slots g)
       \<and> g_inFlight (snd (open_slot cfg now action g)) = g_inFlight g + 1
       \<and> (\<forall>k. capacity (snd (open_slot cfg now action g)) k =
             capacity g k - spend_total (action_spend action) k))"
proof -
  have "(\<exists>i. fst (open_slot cfg now action g) = SlotOpen i) \<longleftrightarrow> evaluate cfg now action g = None"
    by (simp add: open_slot_def split: option.split)
  also have "\<dots> \<longleftrightarrow> g_state g = RUNNING
     \<and> (case rc_maxInFlight cfg of None \<Rightarrow> True | Some m \<Rightarrow> g_inFlight g < m)
     \<and> check_spend g (action_spend action) = None
     \<and> check_profit cfg action = None \<and> check_freshness cfg now action = None"
    by (cases "g_state g") (auto simp: evaluate_def split: option.split)
  also have "check_profit cfg action = None \<longleftrightarrow>
      (\<forall>floor profit. rc_minProfit cfg = Some floor \<and> ra_expectedProfit action = Some profit
          \<longrightarrow> floor \<le> profit)"
    by (auto simp: check_profit_def split: option.split)
  finally show ?thesis
    unfolding check_spend_None check_freshness_None
    using capacity_open [of cfg now action g] open_slot_allowed(2,3) [of cfg now action g]
    by simp
qed

theorem admission_iff_witness:
  "fst (open_slot ex_cfg 5100 (ex_action 6)
     (gate_run ex_cfg [OpSetAvailable ex_account 10 None] (create_gate ex_cfg))) = SlotOpen 0"
  using admission_iff [of ex_cfg 5100 "ex_action 6"
    "gate_run ex_cfg [OpSetAvailable ex_account 10 None] (create_gate ex_cfg)"]
  by (simp add: gate_eval)

end
