(* ===== verification/JsNumbers.thy ===== *)
theory JsNumbers
  imports Prelude
begin

text \<open>
  What the language itself does with text the program reads as a value: \<open>trim\<close>, \<open>Number.parseInt\<close>
  in base ten, and \<open>BigInt\<close> of a string. Text is ASCII here, as it is wherever the code uses these.
\<close>

section \<open>White space\<close>

text \<open>White space for \<open>trim\<close> within the first 256 code points.\<close>

definition is_space :: "char \<Rightarrow> bool" where
  "is_space c \<longleftrightarrow> (of_char c :: nat) \<in> {9, 10, 11, 12, 13, 32, 160}"

definition trim :: "string \<Rightarrow> string" where
  "trim s = rev (dropWhile is_space (rev (dropWhile is_space s)))"

lemma trim_subset: "set (trim s) \<subseteq> set s"
  unfolding trim_def by (auto dest!: set_dropWhileD)

lemma dropWhile_none: "\<forall>c \<in> set s. \<not> P c \<Longrightarrow> dropWhile P s = s"
  by (cases s) auto

lemma trim_id: "\<forall>c \<in> set s. \<not> is_space c \<Longrightarrow> trim s = s"
  by (simp add: trim_def dropWhile_none)

section \<open>Digits\<close>

definition digit_value :: "char \<Rightarrow> int" where
  "digit_value c = of_char c - 48"

definition is_digit_char :: "char \<Rightarrow> bool" where
  "is_digit_char c = (c \<in> set ''0123456789'')"

definition digits_value :: "string \<Rightarrow> int" where
  "digits_value s = fold (\<lambda>c n. n * 10 + digit_value c) s 0"

text \<open>\<open>Number.parseInt(s, 10)\<close> on text without surrounding space: an optional sign and the longest run of
  digits, \<open>None\<close> (NaN) if there is none.\<close>

definition parse_int :: "string \<Rightarrow> int option" where
  "parse_int s =
     (let (sign, rest) = (case s of c # cs \<Rightarrow> if c = CHR ''-'' then (-1, cs) else if c = CHR ''+'' then (1, cs) else (1, s)
                          | [] \<Rightarrow> (1, s));
          ds = takeWhile is_digit_char rest
      in if ds = [] then None else Some (sign * digits_value ds))"

text \<open>The value of a digit in the bases of a \<open>BigInt\<close> literal; 99 for a character that is none.\<close>

definition radix_digit :: "char \<Rightarrow> int" where
  "radix_digit c = (let n = of_char c :: int in
     if 48 \<le> n \<and> n \<le> 57 then n - 48
     else if 97 \<le> n \<and> n \<le> 102 then n - 87
     else if 65 \<le> n \<and> n \<le> 70 then n - 55
     else 99)"

definition radix_text :: "int \<Rightarrow> string \<Rightarrow> int option" where
  "radix_text b s = (if s \<noteq> [] \<and> list_all (\<lambda>c. radix_digit c < b) s
     then Some (fold (\<lambda>c n. n * b + radix_digit c) s 0) else None)"

text \<open>\<open>StringToBigInt\<close>: blank text is zero, \<open>0x\<close>, \<open>0o\<close> and \<open>0b\<close> prefixes take no sign.\<close>

fun big_int_literal :: "string \<Rightarrow> int option" where
  "big_int_literal [] = Some 0"
| "big_int_literal (c # cs) =
     (if c = CHR ''-'' then map_option uminus (radix_text 10 cs)
      else if c = CHR ''+'' then radix_text 10 cs
      else if c = CHR ''0'' \<and> cs \<noteq> [] \<and> hd cs \<in> {CHR ''x'', CHR ''X''} then radix_text 16 (tl cs)
      else if c = CHR ''0'' \<and> cs \<noteq> [] \<and> hd cs \<in> {CHR ''o'', CHR ''O''} then radix_text 8 (tl cs)
      else if c = CHR ''0'' \<and> cs \<noteq> [] \<and> hd cs \<in> {CHR ''b'', CHR ''B''} then radix_text 2 (tl cs)
      else radix_text 10 (c # cs))"

definition big_int :: "string \<Rightarrow> int outcome" where
  "big_int s = (case big_int_literal (trim s) of
     None \<Rightarrow> Inl (''SyntaxError: Cannot convert '' @ s @ '' to a BigInt'') | Some n \<Rightarrow> Inr n)"

text \<open>\<open>Number(s)\<close> where the code asks for an integer: \<open>Some n\<close> if \<open>Number.isInteger(Number(s))\<close>, with its
  value. Decimal literals have an optional sign, fraction and exponent. The value is exact: a double agrees on which texts of up to 15 significant digits are
  integers; a longer fraction may round to one. Beyond the largest double the value is \<open>Infinity\<close>, no
  integer.\<close>

definition exponent_text :: "string \<Rightarrow> int option" where
  "exponent_text s = (case s of [] \<Rightarrow> None
     | c # cs \<Rightarrow> if c = CHR ''-'' then map_option uminus (radix_text 10 cs)
                else if c = CHR ''+'' then radix_text 10 cs else radix_text 10 s)"

definition decimal_text :: "string \<Rightarrow> (int \<times> int) option" where
  "decimal_text s =
     (let mantissa = takeWhile (\<lambda>c. c \<notin> {CHR ''e'', CHR ''E''}) s; rest = drop (length mantissa) s;
          ip = takeWhile (\<lambda>c. c \<noteq> CHR ''.'') mantissa; fp = drop (Suc (length ip)) mantissa
      in case (radix_text 10 (ip @ fp), if rest = [] then Some 0 else exponent_text (tl rest)) of
           (Some n, Some e) \<Rightarrow> Some (n, e - int (length fp)) | _ \<Rightarrow> None)"

definition scaled_integer :: "int \<times> int \<Rightarrow> int option" where
  "scaled_integer = (\<lambda>(n, e).
     if n = 0 then Some 0
     else if e \<ge> 0 then (if e > 309 then None else Some (n * 10 ^ nat e))
     else if - e > int (length (show_int n)) then None
     else if n mod 10 ^ nat (- e) = 0 then Some (n div 10 ^ nat (- e)) else None)"

definition number_integer :: "string \<Rightarrow> int option" where
  "number_integer s =
     (let t = trim s;
          v = (case t of [] \<Rightarrow> Some 0
            | c # cs \<Rightarrow>
                if c = CHR ''-'' then Option.bind (decimal_text cs) (map_option uminus \<circ> scaled_integer)
                else if c = CHR ''+'' then Option.bind (decimal_text cs) scaled_integer
                else if c = CHR ''0'' \<and> cs \<noteq> [] \<and> hd cs \<in> set ''xXoObB'' then big_int_literal t
                else Option.bind (decimal_text t) scaled_integer)
      in case v of Some n \<Rightarrow> if \<bar>n\<bar> < 2 ^ 1024 - 2 ^ 970 then Some n else None | None \<Rightarrow> None)"

section \<open>Printing and reading back\<close>

lemma digit_chars:
  assumes "c \<in> set ''0123456789''"
  shows "radix_digit c = of_char c - 48" "0 \<le> radix_digit c" "radix_digit c < 10" "\<not> is_space c"
    "c \<noteq> CHR ''-''" "c \<noteq> CHR ''+''" "c \<noteq> CHR ''x''" "c \<noteq> CHR ''X''"
    "c \<noteq> CHR ''o''" "c \<noteq> CHR ''O''" "c \<noteq> CHR ''b''" "c \<noteq> CHR ''B''"
  using assms by (auto simp: radix_digit_def is_space_def Let_def)

lemma radix_digit_char: "radix_digit (digit_char n) = int (n mod 10)"
proof -
  have all: "\<forall>k \<in> set [0..<10]. radix_digit (digit_char k) = int k" by code_simp
  have "n mod 10 \<in> set [0..<10]" by simp
  with all have "radix_digit (digit_char (n mod 10)) = int (n mod 10)" by blast
  then show ?thesis by (simp add: digit_char_def)
qed

lemma show_nat_value: "fold (\<lambda>c n. n * 10 + radix_digit c) (show_nat k) 0 = int k"
proof (induction k rule: show_nat.induct)
  case (1 k)
  show ?case
  proof (cases "k < 10")
    case True
    then show ?thesis by (subst show_nat.simps) (simp add: radix_digit_char)
  next
    case False
    then have "fold (\<lambda>c n. n * 10 + radix_digit c) (show_nat k) 0 = int (k div 10) * 10 + int (k mod 10)"
      by (subst show_nat.simps) (simp add: radix_digit_char 1)
    then show ?thesis by (simp add: zdiv_int zmod_int)
  qed
qed

lemma radix_text_show_nat: "radix_text 10 (show_nat k) = Some (int k)"
  using show_nat_digits [of k] digit_chars(3)
  by (auto simp: radix_text_def show_nat_value list_all_iff subset_iff)

lemma big_int_literal_digits:
  assumes "ds \<noteq> []" "set ds \<subseteq> set ''0123456789''"
  shows "big_int_literal ds = radix_text 10 ds"
proof (cases ds)
  case (Cons c cs)
  have c: "c \<noteq> CHR ''-''" "c \<noteq> CHR ''+''"
    using assms(2) digit_chars(5,6) unfolding Cons by auto
  have h: "cs = [] \<or> hd cs \<in> set ''0123456789''"
    using assms(2) unfolding Cons by (cases cs) auto
  have "hd cs \<notin> {CHR ''x'', CHR ''X''}" "hd cs \<notin> {CHR ''o'', CHR ''O''}" "hd cs \<notin> {CHR ''b'', CHR ''B''}"
    if "cs \<noteq> []"
    using digit_chars(7-12) [of "hd cs"] h that by blast+
  then show ?thesis using c unfolding Cons by auto
qed (use assms in simp)

text \<open>A printed integer reads back as itself.\<close>

lemma trim_show_int [simp]: "trim (show_int i) = show_int i"
proof -
  have sp: "\<forall>c \<in> set (show_nat k). \<not> is_space c" for k
    using show_nat_digits digit_chars(4) by blast
  have dash: "\<not> is_space (CHR ''-'')" by (simp add: is_space_def)
  show ?thesis by (rule trim_id) (auto simp: show_int_def dash sp [rule_format])
qed

lemma big_int_show_int [simp]: "big_int (show_int i) = Inr i"
proof -
  have "big_int_literal (show_int i) = Some i"
    using big_int_literal_digits [OF show_nat_not_Nil show_nat_digits, of "nat i"]
    by (auto simp: show_int_def radix_text_show_nat)
  then show ?thesis by (simp add: big_int_def)
qed

lemma decimal_text_show_nat: "decimal_text (show_nat k) = Some (int k, 0)"
proof -
  have "c \<noteq> CHR ''e'' \<and> c \<noteq> CHR ''E'' \<and> c \<noteq> CHR ''.''" if "c \<in> set (show_nat k)" for c
    using show_nat_digits [of k] that by auto
  then have whole: "takeWhile (\<lambda>c. c \<noteq> CHR ''e'' \<and> c \<noteq> CHR ''E'') (show_nat k) = show_nat k"
    "takeWhile (\<lambda>c. c \<noteq> CHR ''.'') (show_nat k) = show_nat k"
    by (simp_all add: takeWhile_eq_all_conv)
  show ?thesis by (simp add: decimal_text_def Let_def whole radix_text_show_nat)
qed

lemma number_integer_show_int:
  assumes small: "\<bar>n\<bar> < 2 ^ 1024 - 2 ^ 970"
  shows "number_integer (show_int n) = Some n"
proof -
  have first: "\<exists>c cs. show_nat k = c # cs \<and> c \<noteq> CHR ''-'' \<and> c \<noteq> CHR ''+'' \<and> (cs = [] \<or> hd cs \<notin> set ''xXoObB'')" for k
  proof (cases "show_nat k")
    case (Cons c cs)
    then have "set (c # cs) \<subseteq> set ''0123456789''" using show_nat_digits [of k] by metis
    then have d: "c \<in> set ''0123456789''" "cs = [] \<or> hd cs \<in> set ''0123456789''" by (cases cs; simp)+
    have "x \<notin> set ''xXoObB''" if "x \<in> set ''0123456789''" for x using digit_chars(7-12) [OF that] by simp
    with d Cons digit_chars(5,6) [OF d(1)] show ?thesis by blast
  qed simp
  show ?thesis
  proof (cases "n < 0")
    case True
    then show ?thesis using small trim_show_int [of n]
      by (simp add: number_integer_def Let_def show_int_def decimal_text_show_nat scaled_integer_def)
  next
    case False
    obtain c cs where "show_nat (nat n) = c # cs" "c \<noteq> CHR ''-''" "c \<noteq> CHR ''+''" "cs = [] \<or> hd cs \<notin> set ''xXoObB''"
      using first by blast
    then show ?thesis using False small trim_show_int [of n] decimal_text_show_nat [of "nat n"]
      by (auto simp: number_integer_def Let_def show_int_def scaled_integer_def)
  qed
qed

end
