(* ===== verification/RiskControl.thy ===== *)
theory RiskControl
  imports RiskHalting JsNumbers
begin

text \<open>
  The remote kill switch, \<open>packages/risk/src/control.ts\<close>, behind the request handler of
  \<open>controlServer.ts\<close>. The WHATWG parser of the Node library is the parameter \<open>parse_url\<close>: it
  returns the normalised path and the query lookup of a request target, or \<^const>\<open>None\<close> when it
  throws. Nothing is assumed of it, which is the point of the literal-path check below.
  Lines passed to \<open>onEvent\<close> are the third component of a handled request.
\<close>

record request =
  rq_method :: string
  rq_url :: "string option"
  rq_authorization :: "string option"

datatype reply_body =
    BodyUnauthorized
  | BodyMethodNotAllowed
  | BodyBadRequest
  | BodyNotFound
  | BodyStatus risk_state int string bool
  | BodyState risk_state
  | BodyHalted risk_state string
  | BodyRefused risk_state string

type_synonym reply = "nat \<times> reply_body"
type_synonym query = "string \<Rightarrow> string option"

section \<open>Token and reason\<close>

text \<open>
  \<open>resolveControlToken\<close>: no reference configured leaves the switch unmounted, a blank secret
  refuses to boot.
\<close>

definition resolve_control_token ::
  "string option \<Rightarrow> (string \<Rightarrow> string outcome) \<Rightarrow> string option outcome" where
  "resolve_control_token tokenRef getSecret =
     (if or_default tokenRef '''' = '''' then Inr None
      else case getSecret (the tokenRef) of
             Inl e \<Rightarrow> Inl e
           | Inr token \<Rightarrow>
               if token = '''' then Inl ''[risk] RISK_CONTROL_TOKEN_REF resolved to an empty token''
               else Inr (Some token))"

definition token_matches :: "string \<Rightarrow> string \<Rightarrow> bool" where
  "token_matches provided expected =
     (if length provided \<noteq> length expected then False
      else list_all2 (=) provided expected)"

definition bearer :: string where
  "bearer = ''Bearer ''"

definition authorize :: "request \<Rightarrow> string \<Rightarrow> bool" where
  "authorize req expected =
     (case rq_authorization req of
        None \<Rightarrow> False
      | Some header \<Rightarrow>
          if take (length bearer) header \<noteq> bearer then False
          else token_matches (drop (length bearer) header) expected)"

definition is_control_char :: "char \<Rightarrow> bool" where
  "is_control_char c \<longleftrightarrow> (of_char c :: nat) \<le> 31 \<or> (of_char c :: nat) = 127"

definition sanitize_reason :: "string \<Rightarrow> string" where
  "sanitize_reason raw =
     take 200 (trim (map (\<lambda>c. if is_control_char c then CHR '' '' else c) raw))"

section \<open>The routes\<close>

definition raw_path :: "request \<Rightarrow> string" where
  "raw_path req =
     takeWhile (\<lambda>c. c \<noteq> CHR ''?'')
       (case rq_url req of None \<Rightarrow> ''/'' | Some u \<Rightarrow> if u = '''' then ''/'' else u)"

definition halt_reason_of :: "query \<Rightarrow> string" where
  "halt_reason_of q =
     (case q ''reason'' of
        None \<Rightarrow> ''manual halt via control endpoint''
      | Some supplied \<Rightarrow>
          if supplied = '''' \<or> sanitize_reason supplied = ''''
          then ''manual halt via control endpoint'' else sanitize_reason supplied)"

definition control_route ::
  "string \<Rightarrow> request \<Rightarrow> string \<Rightarrow> query \<Rightarrow> gate \<Rightarrow> reply option \<times> gate \<times> string list" where
  "control_route token req pathname q g =
     (if pathname \<noteq> ''/halt'' \<and> pathname \<noteq> ''/resume'' \<and> pathname \<noteq> ''/status'' then (None, g, [])
      else if raw_path req \<noteq> pathname then (None, g, [])
      else if \<not> authorize req token
      then (Some (401, BodyUnauthorized), g,
            [''Rejected unauthenticated '' @ rq_method req @ '' '' @ pathname])
      else if pathname = ''/status''
      then (if rq_method req \<noteq> ''GET'' then (Some (405, BodyMethodNotAllowed), g, [])
            else (Some (200, BodyStatus (g_state g) (g_inFlight g) (g_haltReason g) (g_everVerified g)),
                  g, []))
      else if rq_method req \<noteq> ''POST'' then (Some (405, BodyMethodNotAllowed), g, [])
      else if pathname = ''/halt''
      then (let reason = halt_reason_of q; g' = halt reason g
            in (Some (200, BodyHalted (g_state g') reason), g', [''HALTED: '' @ reason]))
      else (let (resumed, g') = resume g
            in if \<not> resumed
               then (Some (409, BodyRefused (g_state g') (g_haltReason g')), g',
                     [''Refused RESUME: '' @ g_haltReason g'])
               else (Some (200, BodyState (g_state g')), g', [''RESUMED via control endpoint''])))"

definition control_serve ::
  "(string \<Rightarrow> (string \<times> query) option) \<Rightarrow> string \<Rightarrow> request \<Rightarrow> gate \<Rightarrow> reply \<times> gate \<times> string list" where
  "control_serve parse_url token req g =
     (case parse_url (case rq_url req of None \<Rightarrow> ''/'' | Some u \<Rightarrow> if u = '''' then ''/'' else u) of
        None \<Rightarrow> ((400, BodyBadRequest), g, [])
      | Some (pathname, q) \<Rightarrow>
          (case control_route token req pathname q g of
             (Some r, g', log) \<Rightarrow> (r, g', log)
           | (None, g', log) \<Rightarrow> ((404, BodyNotFound), g', log)))"

section \<open>Properties of the kill switch\<close>

lemma token_matches_eq: "token_matches a b \<longleftrightarrow> a = b"
  by (auto simp: token_matches_def list.rel_eq)

lemma authorize_iff: "authorize req token \<longleftrightarrow> rq_authorization req = Some (bearer @ token)"
proof (cases "rq_authorization req")
  case (Some header)
  have "take (length bearer) header = bearer \<and> drop (length bearer) header = token
      \<longleftrightarrow> header = bearer @ token"
    by (metis append_eq_conv_conj)
  with Some show ?thesis by (auto simp: authorize_def token_matches_eq)
qed (simp add: authorize_def)

lemma sanitize_reason_safe:
  "length (sanitize_reason s) \<le> 200" "\<forall>c \<in> set (sanitize_reason s). \<not> is_control_char c"
proof -
  show "length (sanitize_reason s) \<le> 200" by (simp add: sanitize_reason_def)
  have "set (sanitize_reason s) \<subseteq> set (map (\<lambda>c. if is_control_char c then CHR '' '' else c) s)"
    unfolding sanitize_reason_def using trim_subset set_take_subset by (meson subset_trans)
  moreover have "\<not> is_control_char (CHR '' '')" by (simp add: is_control_char_def)
  ultimately show "\<forall>c \<in> set (sanitize_reason s). \<not> is_control_char c"
    by (auto split: if_splits)
qed

lemma halt_reason_safe:
  "length (halt_reason_of q) \<le> 200" "\<forall>c \<in> set (halt_reason_of q). \<not> is_control_char c"
  "halt_reason_of q \<noteq> ''''"
  using sanitize_reason_safe
  by (auto simp: halt_reason_of_def is_control_char_def split: option.split)

text \<open>Who can touch the gate from outside. Whatever the URL parser makes of the target, a
  request changes the gate only when it carries exactly the bearer token, is a POST, and names
  \<open>/halt\<close> or \<open>/resume\<close> literally; any other request is answered without effect.\<close>

theorem control_requires_token:
  "fst (snd (control_serve parse_url token req g)) = g
   \<or> (rq_authorization req = Some (''Bearer '' @ token) \<and> rq_method req = ''POST''
      \<and> raw_path req \<in> {''/halt'', ''/resume''})"
  by (auto simp: control_serve_def control_route_def Let_def authorize_iff bearer_def
      split: option.split prod.split)

text \<open>What the two commands do. An authorised halt always halts, with a reason that has no
  control character and at most 200 characters; an authorised resume runs the bot again exactly
  when no bytecode halt stands, and otherwise reports a conflict and changes nothing.\<close>

theorem control_commands:
  assumes "rq_authorization req = Some (''Bearer '' @ token)" "rq_method req = ''POST''"
    and "parse_url (the (rq_url req)) = Some (raw_path req, q)" "rq_url req \<noteq> None" "rq_url req \<noteq> Some ''''"
  shows "(raw_path req = ''/halt'' \<longrightarrow>
      (\<exists>reason g' log. control_serve parse_url token req g = ((200, BodyHalted HALTED reason), g', log)
         \<and> g_state g' = HALTED \<and> g_haltReason g' = reason \<and> g_codeHashHalt g' = g_codeHashHalt g
         \<and> reason \<noteq> '''' \<and> length reason \<le> 200 \<and> (\<forall>c \<in> set reason. \<not> is_control_char c)))
    \<and> (raw_path req = ''/resume'' \<longrightarrow>
      (if g_codeHashHalt g
       then fst (control_serve parse_url token req g) = (409, BodyRefused (g_state g) (g_haltReason g))
          \<and> fst (snd (control_serve parse_url token req g)) = g
       else fst (control_serve parse_url token req g) = (200, BodyState RUNNING)
          \<and> g_state (fst (snd (control_serve parse_url token req g))) = RUNNING
          \<and> g_failures (fst (snd (control_serve parse_url token req g))) = 0
          \<and> g_inFlight (fst (snd (control_serve parse_url token req g))) = g_inFlight g))"
proof -
  have auth: "authorize req token" using assms(1) by (simp add: authorize_iff bearer_def)
  obtain u where u: "rq_url req = Some u" "u \<noteq> ''''" using assms(4,5) by auto
  have serve: "control_serve parse_url token req g =
     (case control_route token req (raw_path req) q g of
        (Some r, g', log) \<Rightarrow> (r, g', log) | (None, g', log) \<Rightarrow> ((404, BodyNotFound), g', log))"
    using assms(3) u by (simp add: control_serve_def)
  show ?thesis
    unfolding serve
    using auth assms(2) halt_reason_safe [of q]
    by (auto simp: control_route_def Let_def gate_frame halt_def resume_def emit_def)
qed

definition ex_request :: "string \<Rightarrow> request" where
  "ex_request u = \<lparr>rq_method = ''POST'', rq_url = Some u, rq_authorization = Some ''Bearer s3cret''\<rparr>"

theorem control_commands_witness:
  "fst (control_serve (\<lambda>u. Some (u, \<lambda>_. None)) ''s3cret'' (ex_request ''/resume'')
      (halt ''drill'' (create_gate ex_cfg))) = (200, BodyState RUNNING)"
  using control_commands [of "ex_request ''/resume''" "''s3cret''" "\<lambda>u. Some (u, \<lambda>_. None)"
      "\<lambda>_. None" "halt ''drill'' (create_gate ex_cfg)"]
  by (simp add: ex_request_def raw_path_def gate_frame create_gate_def)

end
