(* ===== verification/IntentStore.thy ===== *)
theory IntentStore
  imports Prelude
begin

text \<open>
  The intent store, \<open>packages/persistence/src\<close>: the row type and the status sets of
  \<open>types.ts\<close>, the idempotency key of \<open>utils.ts\<close>, the in-memory store of \<open>memory.ts\<close>, and the
  port itself as a record of operations, which the crash-safety layer takes as an argument.

  An operation takes the clock value it reads. The copies the store hands out (\<open>clone\<close>) are the
  values themselves: nothing here is mutated through a reference.
\<close>

section \<open>Rows\<close>

record proposed_tx =
  pt_chainId :: int
  pt_to :: address
  pt_data :: hex
  pt_value :: string
  pt_gasLimit :: "string option"

record safe_tx_params =
  sp_safeNonce :: int
  sp_operation :: int
  sp_safeTxGas :: string
  sp_baseGas :: string
  sp_gasPrice :: string
  sp_gasToken :: address
  sp_refundReceiver :: address

record safe_execution = safe_tx_params +
  se_safeVersion :: string
  se_safeTxHash :: hex

record safe_envelope = safe_execution +
  en_claimBlock :: int

datatype intent_status =
  Proposed | Claimed | Pending | Submitted | Confirmed | Failed | Superseded | Expired

definition LIVE_FOR_DEDUP :: "intent_status list" where
  "LIVE_FOR_DEDUP = [Proposed, Claimed, Pending, Submitted]"

definition IN_FLIGHT_ON_CHAIN :: "intent_status list" where
  "IN_FLIGHT_ON_CHAIN = [Pending, Submitted]"

definition AWAITING_OPERATOR :: "intent_status list" where
  "AWAITING_OPERATOR = [Proposed, Claimed]"

definition TERMINAL :: "intent_status list" where
  "TERMINAL = [Confirmed, Failed, Superseded, Expired]"

lemmas status_sets = LIVE_FOR_DEDUP_def IN_FLIGHT_ON_CHAIN_def AWAITING_OPERATOR_def TERMINAL_def

lemma live_iff_not_terminal: "s \<in> set LIVE_FOR_DEDUP \<longleftrightarrow> s \<notin> set TERMINAL"
  by (cases s) (simp_all add: status_sets)

lemma live_split: "set LIVE_FOR_DEDUP = set IN_FLIGHT_ON_CHAIN \<union> set AWAITING_OPERATOR"
  by (auto simp: status_sets)

record intent_input =
  ii_chainId :: int
  ii_target :: address
  ii_action :: string
  ii_subject :: string

record tx_intent = intent_input +
  ti_id :: string
  ti_status :: intent_status
  ti_nonce :: "int option"
  ti_txHash :: "hex option"
  ti_error :: "string option"
  ti_relayMaxBlock :: "int option"
  ti_payload :: "proposed_tx option"
  ti_payloadHash :: "hex option"
  ti_safeEnvelope :: "safe_envelope option"
  ti_createdAt :: millis
  ti_updatedAt :: millis

definition is_broadcast :: "tx_intent \<Rightarrow> bool" where
  "is_broadcast i \<longleftrightarrow> ti_txHash i \<noteq> None"

definition is_safe :: "tx_intent \<Rightarrow> bool" where
  "is_safe i \<longleftrightarrow> is_broadcast i \<and> ti_safeEnvelope i \<noteq> None"

definition is_signed :: "tx_intent \<Rightarrow> bool" where
  "is_signed i \<longleftrightarrow> is_broadcast i \<and> ti_nonce i \<noteq> None"

record expectation =
  ex_updatedAt :: "millis option"
  ex_txHash :: "hex option"
  ex_status :: "intent_status list option"

record transition_meta =
  tm_nonce :: "int option"
  tm_txHash :: "hex option"
  tm_error :: "string option"
  tm_relayMaxBlock :: "int option"

definition no_expectation :: expectation where
  "no_expectation = \<lparr>ex_updatedAt = None, ex_txHash = None, ex_status = None\<rparr>"

definition no_meta :: transition_meta where
  "no_meta = \<lparr>tm_nonce = None, tm_txHash = None, tm_error = None, tm_relayMaxBlock = None\<rparr>"

datatype record_result = Recorded string millis | Refused tx_intent

datatype claim_failure = NotFound | NotProposed | HashMismatch

datatype claim_result = ClaimOk tx_intent | ClaimRefused claim_failure "tx_intent option"

section \<open>Keys\<close>

definition idempotency_key :: "('a intent_input_scheme) \<Rightarrow> string" where
  "idempotency_key i = show_int (ii_chainId i) @ '':'' @ to_lower (ii_target i) @ '':''
     @ ii_action i @ '':'' @ to_lower (ii_subject i)"

definition assert_proposal_chain :: "intent_input \<Rightarrow> proposed_tx \<Rightarrow> unit outcome" where
  "assert_proposal_chain i p =
     (if ii_chainId i \<noteq> pt_chainId p
      then Inl (''proposal chain mismatch: intent is for chain '' @ show_int (ii_chainId i)
             @ '' but its payload targets '' @ show_int (pt_chainId p))
      else Inr ())"

section \<open>The in-memory store\<close>

record mem_store =
  ms_rows :: "(string \<times> tx_intent) list"
  ms_bound :: "string option"

definition mem_empty :: mem_store where
  "mem_empty = \<lparr>ms_rows = [], ms_bound = None\<rparr>"

definition max_horizon :: "int option \<Rightarrow> int option \<Rightarrow> int option" where
  "max_horizon current new =
     (case new of None \<Rightarrow> current
      | Some n \<Rightarrow> Some (case current of None \<Rightarrow> n | Some c \<Rightarrow> max c n))"

definition is_live :: "intent_status \<Rightarrow> bool" where
  "is_live s \<longleftrightarrow> s \<in> set LIVE_FOR_DEDUP"

definition mem_lookup :: "mem_store \<Rightarrow> string \<Rightarrow> tx_intent option" where
  "mem_lookup db i = map_of (ms_rows db) i"

definition mem_put :: "string \<Rightarrow> tx_intent \<Rightarrow> mem_store \<Rightarrow> mem_store" where
  "mem_put i row db = db\<lparr>ms_rows := alist_set i row (ms_rows db)\<rparr>"

definition fresh_row ::
  "millis \<Rightarrow> millis \<Rightarrow> intent_input \<Rightarrow> intent_status \<Rightarrow> proposed_tx option \<Rightarrow> hex option \<Rightarrow> tx_intent" where
  "fresh_row created now inp status payload hash =
     \<lparr>ii_chainId = ii_chainId inp, ii_target = ii_target inp, ii_action = ii_action inp,
      ii_subject = ii_subject inp, ti_id = idempotency_key inp, ti_status = status,
      ti_nonce = None, ti_txHash = None, ti_error = None, ti_relayMaxBlock = None,
      ti_payload = payload, ti_payloadHash = hash, ti_safeEnvelope = None,
      ti_createdAt = created, ti_updatedAt = now\<rparr>"

definition mem_record ::
  "millis \<Rightarrow> intent_input \<Rightarrow> intent_status \<Rightarrow> proposed_tx option \<Rightarrow> hex option \<Rightarrow> mem_store
     \<Rightarrow> record_result \<times> mem_store" where
  "mem_record now inp status payload hash db =
     (let i = idempotency_key inp; existing = mem_lookup db i in
      if (case existing of None \<Rightarrow> False | Some row \<Rightarrow> is_live (ti_status row))
      then (Refused (the existing), db)
      else (Recorded i now,
            mem_put i (fresh_row (or_default (map_option ti_createdAt existing) now) now inp status
              payload hash) db))"

definition mem_recordIntent :: "millis \<Rightarrow> intent_input \<Rightarrow> mem_store \<Rightarrow> record_result \<times> mem_store" where
  "mem_recordIntent now inp db = mem_record now inp Pending None None db"

definition mem_propose ::
  "millis \<Rightarrow> intent_input \<Rightarrow> proposed_tx \<Rightarrow> hex \<Rightarrow> mem_store \<Rightarrow> record_result outcome \<times> mem_store" where
  "mem_propose now inp payload hash db =
     (case assert_proposal_chain inp payload of
        Inl e \<Rightarrow> (Inl e, db)
      | Inr _ \<Rightarrow> (let (r, db') = mem_record now inp Proposed (Some payload) (Some hash) db
                 in (Inr r, db')))"

definition is_proposal :: "string option \<Rightarrow> tx_intent \<Rightarrow> bool" where
  "is_proposal action r \<longleftrightarrow> ti_status r \<in> set AWAITING_OPERATOR \<and> ti_payloadHash r \<noteq> None
     \<and> (case action of None \<Rightarrow> True | Some a \<Rightarrow> ii_action r = a)"

definition mem_proposals :: "string option \<Rightarrow> mem_store \<Rightarrow> tx_intent list" where
  "mem_proposals action db =
     sort_key ti_createdAt (filter (is_proposal action) (map snd (ms_rows db)))"

definition mem_claimProposal ::
  "millis \<Rightarrow> string \<Rightarrow> hex \<Rightarrow> safe_envelope option \<Rightarrow> mem_store \<Rightarrow> claim_result \<times> mem_store" where
  "mem_claimProposal now i expected envelope db =
     (case mem_lookup db i of
        None \<Rightarrow> (ClaimRefused NotFound None, db)
      | Some row \<Rightarrow>
          if ti_status row \<noteq> Proposed then (ClaimRefused NotProposed (Some row), db)
          else if ti_payloadHash row \<noteq> Some expected then (ClaimRefused HashMismatch (Some row), db)
          else let updated = row\<lparr>ti_status := Claimed, ti_safeEnvelope := envelope, ti_updatedAt := now\<rparr>
               in (ClaimOk updated, mem_put i updated db))"

definition mem_markBroadcast ::
  "millis \<Rightarrow> string \<Rightarrow> hex \<Rightarrow> hex \<Rightarrow> mem_store \<Rightarrow> bool \<times> mem_store" where
  "mem_markBroadcast now i tx expected db =
     (case mem_lookup db i of
        None \<Rightarrow> (False, db)
      | Some row \<Rightarrow>
          if ti_status row \<noteq> Claimed \<or> ti_txHash row \<noteq> None then (False, db)
          else if ti_payloadHash row \<noteq> Some expected then (False, db)
          else (True, mem_put i
            (row\<lparr>ti_status := Submitted, ti_txHash := Some tx, ti_updatedAt := now\<rparr>) db))"

definition mem_release :: "millis \<Rightarrow> string \<Rightarrow> hex \<Rightarrow> mem_store \<Rightarrow> bool \<times> mem_store" where
  "mem_release now i expected db =
     (case mem_lookup db i of
        None \<Rightarrow> (False, db)
      | Some row \<Rightarrow>
          if ti_status row \<noteq> Claimed \<or> ti_payloadHash row \<noteq> Some expected then (False, db)
          else (True, mem_put i (row\<lparr>ti_status := Proposed, ti_updatedAt := now\<rparr>) db))"

definition mem_fail :: "millis \<Rightarrow> string \<Rightarrow> string option \<Rightarrow> mem_store \<Rightarrow> bool \<times> mem_store" where
  "mem_fail now i err db =
     (case mem_lookup db i of
        None \<Rightarrow> (False, db)
      | Some row \<Rightarrow>
          if ti_status row \<notin> {Proposed, Claimed, Pending, Submitted} then (False, db)
          else (True, mem_put i
            (row\<lparr>ti_status := Failed, ti_error := or_else err (ti_error row), ti_updatedAt := now\<rparr>) db))"

definition mem_supersede :: "millis \<Rightarrow> string \<Rightarrow> mem_store \<Rightarrow> bool \<times> mem_store" where
  "mem_supersede now i db =
     (case mem_lookup db i of
        None \<Rightarrow> (False, db)
      | Some row \<Rightarrow>
          if ti_status row \<noteq> Proposed \<or> ti_safeEnvelope row \<noteq> None then (False, db)
          else (True, mem_put i (row\<lparr>ti_status := Superseded, ti_updatedAt := now\<rparr>) db))"

definition sweeps :: "millis \<Rightarrow> string option \<Rightarrow> tx_intent \<Rightarrow> bool" where
  "sweeps cutoff action row \<longleftrightarrow> ti_status row = Proposed \<and> ti_safeEnvelope row = None
     \<and> \<not> (case action of None \<Rightarrow> False | Some a \<Rightarrow> ii_action row \<noteq> a)
     \<and> \<not> ti_updatedAt row > cutoff"

fun sweep_rows ::
  "millis \<Rightarrow> millis \<Rightarrow> string option \<Rightarrow> (string \<times> tx_intent) list \<Rightarrow> nat \<times> (string \<times> tx_intent) list" where
  "sweep_rows now cutoff action [] = (0, [])"
| "sweep_rows now cutoff action ((i, row) # rows) =
     (let (n, rest) = sweep_rows now cutoff action rows
      in if sweeps cutoff action row
         then (Suc n, (i, row\<lparr>ti_status := Expired, ti_updatedAt := now\<rparr>) # rest)
         else (n, (i, row) # rest))"

definition mem_expireProposals :: "millis \<Rightarrow> int \<Rightarrow> string option \<Rightarrow> mem_store \<Rightarrow> nat \<times> mem_store" where
  "mem_expireProposals now ttl action db =
     (let (n, rows) = sweep_rows now (now - ttl) action (ms_rows db)
      in (n, db\<lparr>ms_rows := rows\<rparr>))"

definition expected_holds :: "expectation \<Rightarrow> tx_intent \<Rightarrow> bool" where
  "expected_holds expect row \<longleftrightarrow>
     (case ex_updatedAt expect of None \<Rightarrow> True | Some t \<Rightarrow> ti_updatedAt row = t)
     \<and> (case ex_txHash expect of None \<Rightarrow> True | Some h \<Rightarrow> ti_txHash row = Some h)
     \<and> (case ex_status expect of None \<Rightarrow> True | Some ss \<Rightarrow> ti_status row \<in> set ss)"

definition moved :: "millis \<Rightarrow> intent_status \<Rightarrow> transition_meta \<Rightarrow> tx_intent \<Rightarrow> tx_intent" where
  "moved now to meta row = row\<lparr>ti_status := to,
     ti_nonce := or_else (tm_nonce meta) (ti_nonce row),
     ti_txHash := or_else (tm_txHash meta) (ti_txHash row),
     ti_error := or_else (tm_error meta) (ti_error row),
     ti_relayMaxBlock := max_horizon (ti_relayMaxBlock row) (tm_relayMaxBlock meta),
     ti_updatedAt := now\<rparr>"

definition mem_transition ::
  "millis \<Rightarrow> string \<Rightarrow> intent_status \<Rightarrow> transition_meta \<Rightarrow> expectation \<Rightarrow> mem_store \<Rightarrow> bool \<times> mem_store" where
  "mem_transition now i to meta expect db =
     (case mem_lookup db i of
        None \<Rightarrow> (False, db)
      | Some row \<Rightarrow> if \<not> expected_holds expect row then (False, db)
                    else (True, mem_put i (moved now to meta row) db))"

definition identity_text :: "int \<Rightarrow> address \<Rightarrow> string" where
  "identity_text chain addr = show_int chain @ '':'' @ to_lower addr"

definition mem_bind :: "int \<Rightarrow> address \<Rightarrow> mem_store \<Rightarrow> unit outcome \<times> mem_store" where
  "mem_bind chain addr db =
     (let new = identity_text chain addr; bound = or_default (ms_bound db) new;
          db' = db\<lparr>ms_bound := Some bound\<rparr>
      in if bound \<noteq> new
         then (Inl (''store is bound to '' @ bound @ '', but this process executes as '' @ new
                 @ '' -- one store belongs to one account''), db')
         else (Inr (), db'))"

definition mem_reconcile :: "mem_store \<Rightarrow> tx_intent list" where
  "mem_reconcile db = filter (\<lambda>r. ti_status r \<in> set IN_FLIGHT_ON_CHAIN) (map snd (ms_rows db))"

section \<open>The port\<close>

text \<open>\<open>StateStore\<close>: the operations a client of the store is given.\<close>

record 'db store_ops =
  so_lookup :: "'db \<Rightarrow> string \<Rightarrow> tx_intent option"
  so_recordIntent :: "millis \<Rightarrow> intent_input \<Rightarrow> 'db \<Rightarrow> record_result \<times> 'db"
  so_propose :: "millis \<Rightarrow> intent_input \<Rightarrow> proposed_tx \<Rightarrow> hex \<Rightarrow> 'db \<Rightarrow> record_result outcome \<times> 'db"
  so_proposals :: "string option \<Rightarrow> 'db \<Rightarrow> tx_intent list"
  so_claimProposal :: "millis \<Rightarrow> string \<Rightarrow> hex \<Rightarrow> safe_envelope option \<Rightarrow> 'db \<Rightarrow> claim_result \<times> 'db"
  so_markBroadcast :: "millis \<Rightarrow> string \<Rightarrow> hex \<Rightarrow> hex \<Rightarrow> 'db \<Rightarrow> bool \<times> 'db"
  so_release :: "millis \<Rightarrow> string \<Rightarrow> hex \<Rightarrow> 'db \<Rightarrow> bool \<times> 'db"
  so_fail :: "millis \<Rightarrow> string \<Rightarrow> string option \<Rightarrow> 'db \<Rightarrow> bool \<times> 'db"
  so_supersede :: "millis \<Rightarrow> string \<Rightarrow> 'db \<Rightarrow> bool \<times> 'db"
  so_expireProposals :: "millis \<Rightarrow> int \<Rightarrow> string option \<Rightarrow> 'db \<Rightarrow> nat \<times> 'db"
  so_transition :: "millis \<Rightarrow> string \<Rightarrow> intent_status \<Rightarrow> transition_meta \<Rightarrow> expectation \<Rightarrow> 'db
     \<Rightarrow> bool \<times> 'db"
  so_bind :: "int \<Rightarrow> address \<Rightarrow> 'db \<Rightarrow> unit outcome \<times> 'db"
  so_reconcile :: "'db \<Rightarrow> tx_intent list"

definition mem_ops :: "mem_store store_ops" where
  "mem_ops = \<lparr>so_lookup = mem_lookup, so_recordIntent = mem_recordIntent, so_propose = mem_propose,
     so_proposals = mem_proposals, so_claimProposal = mem_claimProposal,
     so_markBroadcast = mem_markBroadcast, so_release = mem_release, so_fail = mem_fail,
     so_supersede = mem_supersede, so_expireProposals = mem_expireProposals,
     so_transition = mem_transition, so_bind = mem_bind, so_reconcile = mem_reconcile\<rparr>"

end
