(* ===== verification/StoreRuns.thy ===== *)
theory StoreRuns
  imports IntentStore
begin

text \<open>
  What an intent store promises, independent of the backend. Every call is one \<open>store_op\<close>;
  its effect on the table is a function of the single row it concerns (\<open>row_effect\<close>), and the
  locale \<open>intent_table\<close> says that a backend has exactly this effect. The memory store is
  interpreted here, the SQL store in its own theory; both inherit the lemmas of the locale. The
  parameter \<open>stored\<close> is the identity a backend stores for an action: the memory store takes the
  caller's spelling every time, the SQL store lower-cases the target and keeps what the first
  attempt on the row wrote.
\<close>

section \<open>Calls\<close>

datatype store_op =
    DoRecord intent_input
  | DoPropose intent_input proposed_tx hex
  | DoClaim string hex "safe_envelope option"
  | DoMark string hex hex
  | DoRelease string hex
  | DoFail string "string option"
  | DoSupersede string
  | DoExpire int "string option"
  | DoTransition string intent_status transition_meta expectation

datatype store_result =
    ResRecord record_result
  | ResError string
  | ResClaim claim_result
  | ResBool bool
  | ResCount nat

fun store_apply :: "'db store_ops \<Rightarrow> millis \<Rightarrow> store_op \<Rightarrow> 'db \<Rightarrow> store_result \<times> 'db" where
  "store_apply ops now (DoRecord inp) db =
     (let (r, db') = so_recordIntent ops now inp db in (ResRecord r, db'))"
| "store_apply ops now (DoPropose inp p h) db =
     (case so_propose ops now inp p h db of
        (Inl e, db') \<Rightarrow> (ResError e, db') | (Inr r, db') \<Rightarrow> (ResRecord r, db'))"
| "store_apply ops now (DoClaim i h e) db =
     (let (r, db') = so_claimProposal ops now i h e db in (ResClaim r, db'))"
| "store_apply ops now (DoMark i tx h) db =
     (let (r, db') = so_markBroadcast ops now i tx h db in (ResBool r, db'))"
| "store_apply ops now (DoRelease i h) db =
     (let (r, db') = so_release ops now i h db in (ResBool r, db'))"
| "store_apply ops now (DoFail i e) db =
     (let (r, db') = so_fail ops now i e db in (ResBool r, db'))"
| "store_apply ops now (DoSupersede i) db =
     (let (r, db') = so_supersede ops now i db in (ResBool r, db'))"
| "store_apply ops now (DoExpire ttl a) db =
     (let (n, db') = so_expireProposals ops now ttl a db in (ResCount n, db'))"
| "store_apply ops now (DoTransition i to m e) db =
     (let (r, db') = so_transition ops now i to m e db in (ResBool r, db'))"

fun store_run :: "'db store_ops \<Rightarrow> (millis \<times> store_op) list \<Rightarrow> 'db \<Rightarrow> 'db" where
  "store_run ops [] db = db"
| "store_run ops ((now, op) # rest) db = store_run ops rest (snd (store_apply ops now op db))"

lemma store_run_append [simp]:
  "store_run ops (xs @ ys) db = store_run ops ys (store_run ops xs db)"
  by (induction ops xs db rule: store_run.induct) auto

section \<open>The effect of a call on one row\<close>

type_synonym stored_identity = "tx_intent option \<Rightarrow> intent_input \<Rightarrow> intent_input"

definition revive ::
  "stored_identity \<Rightarrow> millis \<Rightarrow> intent_input \<Rightarrow> intent_status \<Rightarrow> proposed_tx option \<Rightarrow> hex option
     \<Rightarrow> tx_intent option \<Rightarrow> tx_intent option" where
  "revive stored now inp status payload hash row =
     (case row of
        None \<Rightarrow> Some (fresh_row now now (stored row inp) status payload hash)
      | Some r \<Rightarrow> if is_live (ti_status r) then Some r
                 else Some (fresh_row (ti_createdAt r) now (stored row inp) status payload hash))"

fun touch :: "millis \<Rightarrow> store_op \<Rightarrow> tx_intent \<Rightarrow> tx_intent" where
  "touch now (DoClaim i h e) r =
     (if ti_status r = Proposed \<and> ti_payloadHash r = Some h
      then r\<lparr>ti_status := Claimed, ti_safeEnvelope := e, ti_updatedAt := now\<rparr> else r)"
| "touch now (DoMark i tx h) r =
     (if ti_status r = Claimed \<and> ti_txHash r = None \<and> ti_payloadHash r = Some h
      then r\<lparr>ti_status := Submitted, ti_txHash := Some tx, ti_updatedAt := now\<rparr> else r)"
| "touch now (DoRelease i h) r =
     (if ti_status r = Claimed \<and> ti_payloadHash r = Some h
      then r\<lparr>ti_status := Proposed, ti_updatedAt := now\<rparr> else r)"
| "touch now (DoFail i e) r =
     (if ti_status r \<in> {Proposed, Claimed, Pending, Submitted}
      then r\<lparr>ti_status := Failed, ti_error := or_else e (ti_error r), ti_updatedAt := now\<rparr> else r)"
| "touch now (DoSupersede i) r =
     (if ti_status r = Proposed \<and> ti_safeEnvelope r = None
      then r\<lparr>ti_status := Superseded, ti_updatedAt := now\<rparr> else r)"
| "touch now (DoExpire ttl a) r =
     (if sweeps (now - ttl) a r then r\<lparr>ti_status := Expired, ti_updatedAt := now\<rparr> else r)"
| "touch now (DoTransition i to m e) r = (if expected_holds e r then moved now to m r else r)"
| "touch now _ r = r"

fun concerns :: "store_op \<Rightarrow> string \<Rightarrow> bool" where
  "concerns (DoRecord inp) k = (idempotency_key inp = k)"
| "concerns (DoPropose inp p h) k = (idempotency_key inp = k \<and> ii_chainId inp = pt_chainId p)"
| "concerns (DoClaim i h e) k = (i = k)"
| "concerns (DoMark i tx h) k = (i = k)"
| "concerns (DoRelease i h) k = (i = k)"
| "concerns (DoFail i e) k = (i = k)"
| "concerns (DoSupersede i) k = (i = k)"
| "concerns (DoExpire ttl a) k = True"
| "concerns (DoTransition i to m e) k = (i = k)"

fun row_effect ::
  "stored_identity \<Rightarrow> millis \<Rightarrow> store_op \<Rightarrow> string \<Rightarrow> tx_intent option \<Rightarrow> tx_intent option" where
  "row_effect stored now (DoRecord inp) k row =
     (if concerns (DoRecord inp) k then revive stored now inp Pending None None row else row)"
| "row_effect stored now (DoPropose inp p h) k row =
     (if concerns (DoPropose inp p h) k then revive stored now inp Proposed (Some p) (Some h) row else row)"
| "row_effect stored now op k row = (if concerns op k then map_option (touch now op) row else row)"

lemma row_effect_other: "\<not> concerns op k \<Longrightarrow> row_effect stored now op k row = row"
  by (cases op) auto

text \<open>The answer a call gives, from the row it concerns.\<close>

definition record_answer ::
  "millis \<Rightarrow> intent_input \<Rightarrow> (string \<Rightarrow> tx_intent option) \<Rightarrow> store_result" where
  "record_answer now inp t =
     (let k = idempotency_key inp in
      ResRecord (case t k of None \<Rightarrow> Recorded k now
        | Some r \<Rightarrow> if is_live (ti_status r) then Refused r else Recorded k now))"

fun row_result :: "millis \<Rightarrow> store_op \<Rightarrow> (string \<Rightarrow> tx_intent option) \<Rightarrow> store_result option" where
  "row_result now (DoRecord inp) t = Some (record_answer now inp t)"
| "row_result now (DoPropose inp p h) t =
     (case assert_proposal_chain inp p of
        Inl e \<Rightarrow> Some (ResError e)
      | Inr _ \<Rightarrow> Some (record_answer now inp t))"
| "row_result now (DoClaim i h e) t =
     Some (ResClaim (case t i of None \<Rightarrow> ClaimRefused NotFound None
       | Some r \<Rightarrow> if ti_status r \<noteq> Proposed then ClaimRefused NotProposed (Some r)
                  else if ti_payloadHash r \<noteq> Some h then ClaimRefused HashMismatch (Some r)
                  else ClaimOk (touch now (DoClaim i h e) r)))"
| "row_result now (DoMark i tx h) t =
     Some (ResBool (case t i of None \<Rightarrow> False
       | Some r \<Rightarrow> ti_status r = Claimed \<and> ti_txHash r = None \<and> ti_payloadHash r = Some h))"
| "row_result now (DoRelease i h) t =
     Some (ResBool (case t i of None \<Rightarrow> False
       | Some r \<Rightarrow> ti_status r = Claimed \<and> ti_payloadHash r = Some h))"
| "row_result now (DoFail i e) t =
     Some (ResBool (case t i of None \<Rightarrow> False
       | Some r \<Rightarrow> ti_status r \<in> {Proposed, Claimed, Pending, Submitted}))"
| "row_result now (DoSupersede i) t =
     Some (ResBool (case t i of None \<Rightarrow> False
       | Some r \<Rightarrow> ti_status r = Proposed \<and> ti_safeEnvelope r = None))"
| "row_result now (DoTransition i to m e) t =
     Some (ResBool (case t i of None \<Rightarrow> False | Some r \<Rightarrow> expected_holds e r))"
| "row_result now (DoExpire ttl a) t = None"

section \<open>The contract of a backend\<close>

locale intent_table =
  fixes ops :: "'db store_ops"
    and wf :: "'db \<Rightarrow> bool"
    and stored :: stored_identity
  assumes stored_key: "(case row of None \<Rightarrow> True | Some r \<Rightarrow> idempotency_key r = idempotency_key inp) \<Longrightarrow>
      idempotency_key (stored row inp) = idempotency_key inp"
    and wf_apply: "wf db \<Longrightarrow> wf (snd (store_apply ops now op db))"
    and apply_effect: "wf db \<Longrightarrow>
      so_lookup ops (snd (store_apply ops now op db)) k = row_effect stored now op k (so_lookup ops db k)"
    and apply_result: "wf db \<Longrightarrow> row_result now op (so_lookup ops db) = Some res \<Longrightarrow>
      fst (store_apply ops now op db) = res"
    and reconcile_set: "wf db \<Longrightarrow>
      set (so_reconcile ops db) = {r. \<exists>k. so_lookup ops db k = Some r
        \<and> ti_status r \<in> set IN_FLIGHT_ON_CHAIN}"
    and reconcile_distinct: "wf db \<Longrightarrow> distinct (map ti_id (so_reconcile ops db))"
    and lookup_key: "wf db \<Longrightarrow> so_lookup ops db k = Some r \<Longrightarrow> ti_id r = k \<and> idempotency_key r = k"

fun row_run :: "stored_identity \<Rightarrow> (millis \<times> store_op) list \<Rightarrow> string \<Rightarrow> tx_intent option \<Rightarrow> tx_intent option" where
  "row_run stored [] k row = row"
| "row_run stored ((now, op) # rest) k row = row_run stored rest k (row_effect stored now op k row)"

subsection \<open>Rows over a run\<close>

text \<open>The calls an operator or a reconciler makes on one id: all that may move a live row on.\<close>

fun moves :: "string \<Rightarrow> store_op \<Rightarrow> bool" where
  "moves k (DoMark i tx h) = (i = k)"
| "moves k (DoRelease i h) = (i = k)"
| "moves k (DoFail i e) = (i = k)"
| "moves k (DoTransition i to m e) = (i = k)"
| "moves k _ = False"

lemma claimed_row_run:
  assumes "ti_status r = Claimed" "list_all (\<lambda>(now, op). \<not> moves k op) ops"
  shows "row_run stored ops k (Some r) = Some r"
  using assms(2)
proof (induction ops)
  case (Cons o' ops)
  obtain now op where o': "o' = (now, op)" by force
  have "row_effect stored now op k (Some r) = Some r"
    using Cons.prems assms(1) unfolding o'
    by (cases op) (auto simp: revive_def is_live_def status_sets sweeps_def)
  with Cons o' show ?case by simp
qed simp

text \<open>The calls that end the present attempt on an id, and those that replace its envelope.\<close>

fun ends :: "string \<Rightarrow> store_op \<Rightarrow> bool" where
  "ends k (DoFail i e) = (i = k)"
| "ends k (DoTransition i to m e) = (i = k \<and> to \<in> set TERMINAL)"
| "ends k _ = False"

lemma envelope_row_run:
  assumes "is_live (ti_status r)" "ti_safeEnvelope r = Some env"
    "list_all (\<lambda>(now, op). \<not> ends k op \<and> (\<forall>h e. op \<noteq> DoClaim k h e)) ops"
  shows "\<exists>r'. row_run stored ops k (Some r) = Some r' \<and> is_live (ti_status r')
    \<and> ti_safeEnvelope r' = Some env"
  using assms
proof (induction ops arbitrary: r)
  case (Cons o' ops)
  obtain now op where o': "o' = (now, op)" by force
  have "\<exists>r1. row_effect stored now op k (Some r) = Some r1 \<and> is_live (ti_status r1)
    \<and> ti_safeEnvelope r1 = Some env"
  proof (cases op)
    case (DoTransition i to m e)
    with Cons.prems show ?thesis
      unfolding o' by (auto simp: moved_def is_live_def live_iff_not_terminal)
  qed (use Cons.prems in \<open>auto simp: o' revive_def is_live_def status_sets sweeps_def\<close>)
  with Cons.IH Cons.prems o' show ?case by fastforce
qed auto

lemma in_flight_row_run:
  assumes "ti_status r \<in> set IN_FLIGHT_ON_CHAIN" "list_all (\<lambda>(now, op). \<not> moves k op) ops"
  shows "row_run stored ops k (Some r) = Some r"
  using assms(2)
proof (induction ops)
  case (Cons o' ops)
  obtain now op where o': "o' = (now, op)" by force
  have "row_effect stored now op k (Some r) = Some r"
    using Cons.prems assms(1) unfolding o'
    by (cases op) (auto simp: revive_def is_live_def status_sets sweeps_def)
  with Cons o' show ?case by simp
qed simp

lemma touch_stamp: "touch now op r = r \<or> ti_updatedAt (touch now op r) = now"
  by (cases op) (auto simp: moved_def)

lemma row_run_stamp:
  assumes "list_all (\<lambda>(now, op). ti_updatedAt r < now) ops"
  shows "\<exists>r'. row_run stored ops k (Some r) = Some r' \<and> (r' = r \<or> ti_updatedAt r < ti_updatedAt r')"
proof -
  have step: "\<exists>r1. row_effect stored now op k (Some r0) = Some r1 \<and> (r1 = r0 \<or> ti_updatedAt r1 = now)"
    for now op r0
    using touch_stamp [of now op r0]
    by (cases op) (auto simp: revive_def fresh_row_def)
  have "\<exists>r'. row_run stored ops k (Some r0) = Some r' \<and> (r' = r \<or> ti_updatedAt r < ti_updatedAt r')"
    if "r0 = r \<or> ti_updatedAt r < ti_updatedAt r0" for r0
    using assms that
  proof (induction ops arbitrary: r0)
    case (Cons o' ops)
    obtain now op where o': "o' = (now, op)" by force
    obtain r1 where r1: "row_effect stored now op k (Some r0) = Some r1" "r1 = r0 \<or> ti_updatedAt r1 = now"
      using step by blast
    with Cons.prems o' have "r1 = r \<or> ti_updatedAt r < ti_updatedAt r1" by auto
    with Cons.IH Cons.prems r1 o' show ?case by auto
  qed auto
  then show ?thesis by blast
qed

subsection \<open>What every backend inherits\<close>

context intent_table begin

lemma run_wf: "wf db \<Longrightarrow> wf (store_run ops cs db)"
  by (induction cs arbitrary: db) (auto simp: wf_apply)

lemma run_lookup:
  "wf db \<Longrightarrow> so_lookup ops (store_run ops cs db) k = row_run stored cs k (so_lookup ops db k)"
  by (induction cs arbitrary: db) (auto simp: wf_apply apply_effect)

lemma claimed_kept:
  assumes "wf db" "so_lookup ops db k = Some r" "ti_status r = Claimed"
    and "list_all (\<lambda>(now, op). \<not> moves k op) cs"
  shows "so_lookup ops (store_run ops cs db) k = Some r"
  using assms by (simp add: run_lookup claimed_row_run)

lemma envelope_kept:
  assumes "wf db" "so_lookup ops db k = Some r" "is_live (ti_status r)" "ti_safeEnvelope r = Some env"
    and "list_all (\<lambda>(now, op). \<not> ends k op \<and> (\<forall>h e. op \<noteq> DoClaim k h e)) cs"
  shows "\<exists>r'. so_lookup ops (store_run ops cs db) k = Some r' \<and> is_live (ti_status r')
    \<and> ti_safeEnvelope r' = Some env"
  using assms envelope_row_run [OF assms(3-5)] by (simp add: run_lookup)

lemma record_lookup:
  assumes "wf db" "fst (store_apply ops now (DoRecord inp) db) = ResRecord (Recorded k t)"
  shows "k = idempotency_key inp" "t = now"
    and "\<exists>r. so_lookup ops (snd (store_apply ops now (DoRecord inp) db)) k = Some r
      \<and> ti_status r = Pending \<and> ti_updatedAt r = now \<and> ti_txHash r = None \<and> ti_nonce r = None"
proof -
  have ans: "record_answer now inp (so_lookup ops db) = ResRecord (Recorded k t)"
    using apply_result [OF assms(1), of now "DoRecord inp"] assms(2) by simp
  then show k: "k = idempotency_key inp" and "t = now"
    by (auto simp: record_answer_def Let_def split: option.splits if_splits)
  from ans have "case so_lookup ops db k of None \<Rightarrow> True | Some r \<Rightarrow> \<not> is_live (ti_status r)"
    by (auto simp: record_answer_def Let_def split: option.splits if_splits)
  then show "\<exists>r. so_lookup ops (snd (store_apply ops now (DoRecord inp) db)) k = Some r
      \<and> ti_status r = Pending \<and> ti_updatedAt r = now \<and> ti_txHash r = None \<and> ti_nonce r = None"
    unfolding apply_effect [OF assms(1)] by (auto simp: k revive_def fresh_row_def split: option.splits)
qed

lemma second_record_refused:
  assumes "wf db" "fst (store_apply ops now (DoRecord inp) db) = ResRecord (Recorded k t)"
    and "list_all (\<lambda>(now, op). \<not> moves k op) cs"
    and "idempotency_key inp' = k"
  shows "\<exists>r. fst (store_apply ops now' (DoRecord inp')
      (store_run ops cs (snd (store_apply ops now (DoRecord inp) db)))) = ResRecord (Refused r)
    \<and> ti_status r = Pending \<and> ti_updatedAt r = now"
proof -
  let ?db = "snd (store_apply ops now (DoRecord inp) db)"
  have wf': "wf ?db" using assms(1) by (rule wf_apply)
  obtain r where r: "so_lookup ops ?db k = Some r" "ti_status r = Pending" "ti_updatedAt r = now"
    using record_lookup(3) [OF assms(1,2)] by blast
  then have "so_lookup ops (store_run ops cs ?db) k = Some r"
    using assms(3) wf' by (simp add: run_lookup in_flight_row_run status_sets)
  with r show ?thesis
    using assms(4) apply_result [OF run_wf [OF wf', of cs], of now' "DoRecord inp'"]
    by (simp add: record_answer_def is_live_def status_sets del: store_apply.simps)
qed

lemma stale_stamp:
  assumes "wf db" "so_lookup ops db k = Some r"
    and "list_all (\<lambda>(now, op). ti_updatedAt r < now) cs"
    and "so_lookup ops (store_run ops cs db) k \<noteq> Some r"
    and "ex_updatedAt e = Some (ti_updatedAt r)"
  shows "fst (store_apply ops now (DoTransition k to m e) (store_run ops cs db)) = ResBool False
    \<and> so_lookup ops (snd (store_apply ops now (DoTransition k to m e) (store_run ops cs db))) i =
       so_lookup ops (store_run ops cs db) i"
proof -
  obtain r' where r': "so_lookup ops (store_run ops cs db) k = Some r'" "r' \<noteq> r"
    "ti_updatedAt r < ti_updatedAt r'"
    using row_run_stamp [OF assms(3), of stored k] assms(1,2,4) by (auto simp: run_lookup)
  then have "\<not> expected_holds e r'" using assms(5) by (simp add: expected_holds_def)
  with r' show ?thesis
    using apply_result [OF run_wf [OF assms(1), of cs], of now "DoTransition k to m e"]
    unfolding apply_effect [OF run_wf [OF assms(1)]]
    by (cases "so_lookup ops (store_run ops cs db) i") (auto simp del: store_apply.simps)
qed

end

section \<open>The memory store meets it\<close>

definition mem_wf :: "mem_store \<Rightarrow> bool" where
  "mem_wf db \<longleftrightarrow> distinct (map fst (ms_rows db))
     \<and> (\<forall>(i, r) \<in> set (ms_rows db). ti_id r = i \<and> idempotency_key r = i)"

lemma idempotency_key_updates [simp]:
  "idempotency_key (fresh_row c n inp s p h) = idempotency_key inp"
  "idempotency_key (moved now to m r) = idempotency_key r"
  "idempotency_key (r\<lparr>ti_status := s\<rparr>) = idempotency_key r"
  "idempotency_key (r\<lparr>ti_updatedAt := u\<rparr>) = idempotency_key r"
  "idempotency_key (r\<lparr>ti_txHash := x\<rparr>) = idempotency_key r"
  "idempotency_key (r\<lparr>ti_error := e\<rparr>) = idempotency_key r"
  "idempotency_key (r\<lparr>ti_safeEnvelope := v\<rparr>) = idempotency_key r"
  by (simp_all add: idempotency_key_def fresh_row_def moved_def)

lemma ti_id_updates [simp]:
  "ti_id (fresh_row c n inp s p h) = idempotency_key inp"
  "ti_id (moved now to m r) = ti_id r"
  by (simp_all add: fresh_row_def moved_def)

lemma touch_id [simp]: "ti_id (touch now op r) = ti_id r"
  by (cases op) auto

lemma touch_key [simp]: "idempotency_key (touch now op r) = idempotency_key r"
  by (cases op) auto

lemma mem_lookup_put [row_simps]:
  "mem_lookup (mem_put i r db) k = (if k = i then Some r else mem_lookup db k)"
  by (simp add: mem_lookup_def mem_put_def row_simps)

lemma mem_wf_put: "mem_wf db \<Longrightarrow> ti_id r = i \<Longrightarrow> idempotency_key r = i \<Longrightarrow> mem_wf (mem_put i r db)"
  by (auto simp: mem_wf_def mem_put_def distinct_alist_set set_alist_set_distinct)

lemma mem_wf_lookup:
  "mem_wf db \<Longrightarrow> mem_lookup db k = Some r \<Longrightarrow> ti_id r = k \<and> idempotency_key r = k"
  by (auto simp: mem_wf_def mem_lookup_def dest!: map_of_SomeD)

lemma sweep_rows_map:
  "snd (sweep_rows now cutoff a rows) =
     map (\<lambda>(i, r). (i, if sweeps cutoff a r then r\<lparr>ti_status := Expired, ti_updatedAt := now\<rparr> else r)) rows"
  "fst (sweep_rows now cutoff a rows) = length (filter (\<lambda>(i, r). sweeps cutoff a r) rows)"
  by (induction now cutoff a rows rule: sweep_rows.induct) (auto simp: split_beta Let_def)

lemma mem_expire_rows:
  "ms_rows (snd (mem_expireProposals now ttl a db)) =
     map (\<lambda>(i, r). (i, touch now (DoExpire ttl a) r)) (ms_rows db)"
  by (simp add: mem_expireProposals_def split_beta Let_def sweep_rows_map)

lemma mem_wf_row: "mem_wf db \<Longrightarrow> mem_lookup db k = Some r \<Longrightarrow> mem_wf (mem_put k (touch now op r) db)"
  using mem_wf_lookup by (intro mem_wf_put) auto

lemma mem_apply_effect:
  assumes "mem_wf db"
  shows "mem_wf (snd (store_apply mem_ops now op db))
    \<and> mem_lookup (snd (store_apply mem_ops now op db)) k = row_effect (\<lambda>_ inp. inp) now op k (mem_lookup db k)"
proof (cases op)
  case (DoExpire ttl a)
  have "mem_wf (snd (mem_expireProposals now ttl a db))"
    using assms by (auto simp: mem_wf_def mem_expire_rows comp_def split_beta)
  moreover have "mem_lookup (snd (mem_expireProposals now ttl a db)) k =
      map_option (touch now (DoExpire ttl a)) (mem_lookup db k)"
    by (simp only: mem_lookup_def mem_expire_rows map_of_map comp_def)
  ultimately show ?thesis
    by (simp add: DoExpire mem_ops_def split_beta)
next
  case (DoRecord inp)
  then show ?thesis
    using assms
    by (auto simp: mem_ops_def mem_recordIntent_def mem_record_def Let_def revive_def 
        row_simps mem_wf_put split: option.splits)
next
  case (DoPropose inp p h)
  then show ?thesis
    using assms
    by (auto simp: mem_ops_def mem_propose_def mem_record_def assert_proposal_chain_def Let_def
        revive_def  row_simps mem_wf_put split: option.splits)
next
  case (DoClaim i h e)
  then show ?thesis
    using assms mem_wf_row [OF assms, of i _ now op]
    by (auto simp: mem_ops_def mem_claimProposal_def Let_def row_simps split: option.splits)
next
  case (DoMark i tx h)
  then show ?thesis
    using assms mem_wf_row [OF assms, of i _ now op]
    by (auto simp: mem_ops_def mem_markBroadcast_def Let_def row_simps split: option.splits)
next
  case (DoRelease i h)
  then show ?thesis
    using assms mem_wf_row [OF assms, of i _ now op]
    by (auto simp: mem_ops_def mem_release_def Let_def row_simps split: option.splits)
next
  case (DoFail i e)
  then show ?thesis
    using assms mem_wf_row [OF assms, of i _ now op]
    by (auto simp: mem_ops_def mem_fail_def Let_def row_simps split: option.splits)
next
  case (DoSupersede i)
  then show ?thesis
    using assms mem_wf_row [OF assms, of i _ now op]
    by (auto simp: mem_ops_def mem_supersede_def Let_def row_simps split: option.splits)
next
  case (DoTransition i to m e)
  then show ?thesis
    using assms mem_wf_row [OF assms, of i _ now op]
    by (auto simp: mem_ops_def mem_transition_def Let_def row_simps split: option.splits)
qed

lemma mem_apply_result:
  "row_result now op (mem_lookup db) = Some r \<Longrightarrow> fst (store_apply mem_ops now op db) = r"
  by (cases op)
    (auto simp: mem_ops_def mem_recordIntent_def mem_propose_def mem_record_def mem_claimProposal_def
      mem_markBroadcast_def mem_release_def mem_fail_def mem_supersede_def mem_transition_def
      assert_proposal_chain_def record_answer_def Let_def split: option.splits if_splits)

lemma mem_reconcile_set:
  "mem_wf db \<Longrightarrow> set (mem_reconcile db) =
     {r. \<exists>k. mem_lookup db k = Some r \<and> ti_status r \<in> set IN_FLIGHT_ON_CHAIN}"
  by (force simp: mem_wf_def mem_reconcile_def mem_lookup_def dest: map_of_SomeD)

lemma mem_reconcile_distinct:
  assumes "mem_wf db"
  shows "distinct (map ti_id (mem_reconcile db))"
proof -
  have "map ti_id (map snd (ms_rows db)) = map fst (ms_rows db)"
    using assms by (auto simp: mem_wf_def)
  with assms have "distinct (map ti_id (map snd (ms_rows db)))"
    unfolding mem_wf_def by metis
  then show ?thesis unfolding mem_reconcile_def by (rule distinct_map_filter)
qed

interpretation mem: intent_table mem_ops mem_wf "\<lambda>_ inp. inp"
  by unfold_locales
    (use mem_apply_effect mem_apply_result mem_reconcile_set mem_wf_lookup mem_reconcile_distinct in
      \<open>simp_all add: mem_ops_def\<close>)

end
