(* ===== verification/PgStore.thy ===== *)
theory PgStore
  imports StoreRuns
begin

text \<open>
  The durable store, \<open>packages/persistence/src/postgres.ts\<close>: its statements over a table of rows.
  A statement is an update or a selection with its WHERE clause as a predicate; a NULL column
  is \<^const>\<open>None\<close>, so an equality with a parameter is false on it, as in SQL. The table is a list
  with the primary key distinct; no result below depends on its order except through ORDER BY.
  The schema creation and the reading of rows are in \<open>PgRows\<close>; the driver and the connection pool are not
  modelled: a query that rejects changes nothing here.
\<close>

section \<open>Tables and statements\<close>

record pg_db =
  pg_rows :: "tx_intent list"
  pg_owner :: "(int \<times> address) option"

definition pg_empty :: pg_db where
  "pg_empty = \<lparr>pg_rows = [], pg_owner = None\<rparr>"

definition pg_select :: "(tx_intent \<Rightarrow> bool) \<Rightarrow> pg_db \<Rightarrow> tx_intent list" where
  "pg_select cond db = filter cond (pg_rows db)"

text \<open>An UPDATE returns the rows it wrote (RETURNING), whose number is the row count.\<close>

definition pg_update ::
  "(tx_intent \<Rightarrow> bool) \<Rightarrow> (tx_intent \<Rightarrow> tx_intent) \<Rightarrow> pg_db \<Rightarrow> tx_intent list \<times> pg_db" where
  "pg_update cond change db =
     (map change (filter cond (pg_rows db)),
      db\<lparr>pg_rows := map (\<lambda>r. if cond r then change r else r) (pg_rows db)\<rparr>)"

definition sql_in :: "intent_status \<Rightarrow> intent_status list \<Rightarrow> bool" where
  "sql_in s ss \<longleftrightarrow> s \<in> set ss"

text \<open>\<open>GREATEST\<close> ignores NULLs.\<close>

definition sql_greatest :: "int option \<Rightarrow> int option \<Rightarrow> int option" where
  "sql_greatest a b = (case a of None \<Rightarrow> b | Some x \<Rightarrow> (case b of None \<Rightarrow> Some x | Some y \<Rightarrow> Some (max x y)))"

section \<open>The operations\<close>

definition pg_lookup :: "pg_db \<Rightarrow> string \<Rightarrow> tx_intent option" where
  "pg_lookup db i = (case pg_select (\<lambda>r. ti_id r = i) db of [] \<Rightarrow> None | r # _ \<Rightarrow> Some r)"

text \<open>The INSERT: a new row, or on a conflict the SET clause on a row in a terminal status.\<close>

definition pg_upsert ::
  "millis \<Rightarrow> intent_input \<Rightarrow> intent_status \<Rightarrow> proposed_tx option \<Rightarrow> hex option \<Rightarrow> pg_db
     \<Rightarrow> tx_intent list \<times> pg_db" where
  "pg_upsert now inp status payload hash db =
     (let i = idempotency_key inp in
      if pg_select (\<lambda>r. ti_id r = i) db = []
      then let row = \<lparr>ii_chainId = ii_chainId inp, ii_target = to_lower (ii_target inp),
              ii_action = ii_action inp, ii_subject = ii_subject inp, ti_id = i,
              ti_status = status, ti_nonce = None, ti_txHash = None, ti_error = None,
              ti_relayMaxBlock = None, ti_payload = payload, ti_payloadHash = hash,
              ti_safeEnvelope = None, ti_createdAt = now, ti_updatedAt = now\<rparr>
           in ([row], db\<lparr>pg_rows := pg_rows db @ [row]\<rparr>)
      else pg_update (\<lambda>r. ti_id r = i \<and> sql_in (ti_status r) TERMINAL)
             (\<lambda>r. r\<lparr>ti_status := status, ti_nonce := None, ti_txHash := None, ti_error := None,
                ti_payload := payload, ti_payloadHash := hash, ti_safeEnvelope := None,
                ti_relayMaxBlock := None, ti_updatedAt := now\<rparr>) db)"

definition pg_record ::
  "millis \<Rightarrow> intent_input \<Rightarrow> intent_status \<Rightarrow> proposed_tx option \<Rightarrow> hex option \<Rightarrow> pg_db
     \<Rightarrow> record_result \<times> pg_db" where
  "pg_record now inp status payload hash db =
     (let (rows, db') = pg_upsert now inp status payload hash db in
      if rows \<noteq> [] then (Recorded (idempotency_key inp) now, db')
      else (Refused (hd (pg_select (\<lambda>r. ti_id r = idempotency_key inp) db')), db'))"

definition pg_recordIntent :: "millis \<Rightarrow> intent_input \<Rightarrow> pg_db \<Rightarrow> record_result \<times> pg_db" where
  "pg_recordIntent now inp db = pg_record now inp Pending None None db"

definition pg_propose ::
  "millis \<Rightarrow> intent_input \<Rightarrow> proposed_tx \<Rightarrow> hex \<Rightarrow> pg_db \<Rightarrow> record_result outcome \<times> pg_db" where
  "pg_propose now inp payload hash db =
     (case assert_proposal_chain inp payload of
        Inl e \<Rightarrow> (Inl e, db)
      | Inr _ \<Rightarrow> (let (r, db') = pg_record now inp Proposed (Some payload) (Some hash) db
                 in (Inr r, db')))"

definition pg_proposals :: "string option \<Rightarrow> pg_db \<Rightarrow> tx_intent list" where
  "pg_proposals action db = sort_key ti_createdAt
     (pg_select (\<lambda>r. sql_in (ti_status r) AWAITING_OPERATOR \<and> ti_payloadHash r \<noteq> None
        \<and> (action = None \<or> action = Some (ii_action r))) db)"

definition pg_claimProposal ::
  "millis \<Rightarrow> string \<Rightarrow> hex \<Rightarrow> safe_envelope option \<Rightarrow> pg_db \<Rightarrow> claim_result \<times> pg_db" where
  "pg_claimProposal now i expected envelope db =
     (let (rows, db') = pg_update
            (\<lambda>r. ti_id r = i \<and> ti_status r = Proposed \<and> ti_payloadHash r = Some expected)
            (\<lambda>r. r\<lparr>ti_status := Claimed, ti_safeEnvelope := envelope, ti_updatedAt := now\<rparr>) db
      in case rows of
           r # _ \<Rightarrow> (ClaimOk r, db')
         | [] \<Rightarrow> (case pg_select (\<lambda>r. ti_id r = i) db' of
               [] \<Rightarrow> (ClaimRefused NotFound None, db')
             | r # _ \<Rightarrow> (ClaimRefused (if ti_status r = Proposed then HashMismatch else NotProposed)
                          (Some r), db')))"

definition pg_markBroadcast :: "millis \<Rightarrow> string \<Rightarrow> hex \<Rightarrow> hex \<Rightarrow> pg_db \<Rightarrow> bool \<times> pg_db" where
  "pg_markBroadcast now i tx expected db =
     (let (rows, db') = pg_update
            (\<lambda>r. ti_id r = i \<and> ti_status r = Claimed \<and> ti_txHash r = None
               \<and> ti_payloadHash r = Some expected)
            (\<lambda>r. r\<lparr>ti_status := Submitted, ti_txHash := Some tx, ti_updatedAt := now\<rparr>) db
      in (length rows > 0, db'))"

definition pg_release :: "millis \<Rightarrow> string \<Rightarrow> hex \<Rightarrow> pg_db \<Rightarrow> bool \<times> pg_db" where
  "pg_release now i expected db =
     (let (rows, db') = pg_update
            (\<lambda>r. ti_id r = i \<and> ti_status r = Claimed \<and> ti_payloadHash r = Some expected)
            (\<lambda>r. r\<lparr>ti_status := Proposed, ti_updatedAt := now\<rparr>) db
      in (length rows > 0, db'))"

definition pg_fail :: "millis \<Rightarrow> string \<Rightarrow> string option \<Rightarrow> pg_db \<Rightarrow> bool \<times> pg_db" where
  "pg_fail now i err db =
     (let (rows, db') = pg_update
            (\<lambda>r. ti_id r = i \<and> ti_status r \<in> {Proposed, Claimed, Pending, Submitted})
            (\<lambda>r. r\<lparr>ti_status := Failed, ti_error := or_else err (ti_error r), ti_updatedAt := now\<rparr>) db
      in (length rows > 0, db'))"

definition pg_supersede :: "millis \<Rightarrow> string \<Rightarrow> pg_db \<Rightarrow> bool \<times> pg_db" where
  "pg_supersede now i db =
     (let (rows, db') = pg_update
            (\<lambda>r. ti_id r = i \<and> ti_status r = Proposed \<and> ti_safeEnvelope r = None)
            (\<lambda>r. r\<lparr>ti_status := Superseded, ti_updatedAt := now\<rparr>) db
      in (length rows > 0, db'))"

definition pg_expireProposals :: "millis \<Rightarrow> int \<Rightarrow> string option \<Rightarrow> pg_db \<Rightarrow> nat \<times> pg_db" where
  "pg_expireProposals now ttl action db =
     (let (rows, db') = pg_update
            (\<lambda>r. ti_status r = Proposed \<and> ti_safeEnvelope r = None \<and> ti_updatedAt r \<le> now - ttl
               \<and> (action = None \<or> action = Some (ii_action r)))
            (\<lambda>r. r\<lparr>ti_status := Expired, ti_updatedAt := now\<rparr>) db
      in (length rows, db'))"

definition pg_transition ::
  "millis \<Rightarrow> string \<Rightarrow> intent_status \<Rightarrow> transition_meta \<Rightarrow> expectation \<Rightarrow> pg_db \<Rightarrow> bool \<times> pg_db" where
  "pg_transition now i to meta expect db =
     (let (rows, db') = pg_update
            (\<lambda>r. ti_id r = i
               \<and> (ex_txHash expect = None \<or> ti_txHash r \<noteq> None \<and> ti_txHash r = ex_txHash expect)
               \<and> (ex_status expect = None \<or> sql_in (ti_status r) (the (ex_status expect)))
               \<and> (ex_updatedAt expect = None \<or> ex_updatedAt expect = Some (ti_updatedAt r)))
            (\<lambda>r. r\<lparr>ti_status := to,
               ti_nonce := or_else (tm_nonce meta) (ti_nonce r),
               ti_txHash := or_else (tm_txHash meta) (ti_txHash r),
               ti_error := or_else (tm_error meta) (ti_error r),
               ti_relayMaxBlock := sql_greatest (ti_relayMaxBlock r) (tm_relayMaxBlock meta),
               ti_updatedAt := now\<rparr>) db
      in (length rows > 0, db'))"

definition pg_bind :: "int \<Rightarrow> address \<Rightarrow> pg_db \<Rightarrow> unit outcome \<times> pg_db" where
  "pg_bind chain addr db =
     (let db' = db\<lparr>pg_owner := or_else (pg_owner db) (Some (chain, to_lower addr))\<rparr>
      in case pg_owner db' of
           None \<Rightarrow> (Inr (), db')
         | Some (held_chain, held_addr) \<Rightarrow>
             if held_chain \<noteq> chain \<or> held_addr \<noteq> to_lower addr
             then (Inl (''persistence schema is bound to '' @ show_int held_chain @ '':'' @ held_addr
                     @ '', but this process executes as '' @ show_int chain @ '':'' @ to_lower addr), db')
             else (Inr (), db'))"

definition pg_reconcile :: "pg_db \<Rightarrow> tx_intent list" where
  "pg_reconcile db = sort_key ti_createdAt (pg_select (\<lambda>r. sql_in (ti_status r) IN_FLIGHT_ON_CHAIN) db)"

definition pg_ops :: "pg_db store_ops" where
  "pg_ops = \<lparr>so_lookup = pg_lookup, so_recordIntent = pg_recordIntent, so_propose = pg_propose,
     so_proposals = pg_proposals, so_claimProposal = pg_claimProposal,
     so_markBroadcast = pg_markBroadcast, so_release = pg_release, so_fail = pg_fail,
     so_supersede = pg_supersede, so_expireProposals = pg_expireProposals,
     so_transition = pg_transition, so_bind = pg_bind, so_reconcile = pg_reconcile\<rparr>"

section \<open>Statements on a table with a primary key\<close>

definition pg_wf :: "pg_db \<Rightarrow> bool" where
  "pg_wf db \<longleftrightarrow> distinct (map ti_id (pg_rows db)) \<and> (\<forall>r \<in> set (pg_rows db). idempotency_key r = ti_id r)"

definition pg_stored :: stored_identity where
  "pg_stored row inp = (case row of
     None \<Rightarrow> inp\<lparr>ii_target := to_lower (ii_target inp)\<rparr>
   | Some r \<Rightarrow> \<lparr>ii_chainId = ii_chainId r, ii_target = ii_target r, ii_action = ii_action r,
       ii_subject = ii_subject r\<rparr>)"

lemma pg_lookup_Some:
  assumes "pg_wf db"
  shows "pg_lookup db k = Some r \<longleftrightarrow> r \<in> set (pg_rows db) \<and> ti_id r = k"
proof -
  have "distinct (map ti_id rs) \<Longrightarrow> (case filter (\<lambda>r. ti_id r = k) rs of [] \<Rightarrow> None | r # _ \<Rightarrow> Some r) = Some r
      \<longleftrightarrow> r \<in> set rs \<and> ti_id r = k" for rs
    by (induction rs) (auto split: list.splits)
  with assms show ?thesis by (simp add: pg_lookup_def pg_select_def pg_wf_def)
qed

lemma pg_lookup_cong:
  assumes "pg_wf db" "pg_wf db'" "\<And>r. r \<in> set (pg_rows db') \<and> ti_id r = k \<longleftrightarrow> Some r = x"
  shows "pg_lookup db' k = x"
  using assms pg_lookup_Some [OF assms(2), of k] by (cases x; cases "pg_lookup db' k") auto

lemma pg_select_id:
  assumes "pg_wf db"
  shows "pg_select (\<lambda>r. ti_id r = k) db = (case pg_lookup db k of None \<Rightarrow> [] | Some r \<Rightarrow> [r])"
proof -
  have "distinct (map ti_id rs) \<Longrightarrow> length (filter (\<lambda>r. ti_id r = k) rs) \<le> 1" for rs :: "tx_intent list"
  proof (induction rs)
    case (Cons a rs)
    then have "ti_id a = k \<Longrightarrow> filter (\<lambda>r. ti_id r = k) rs = []"
      by (auto simp: filter_empty_conv image_iff)
    with Cons show ?case by auto
  qed simp
  then have "length (pg_select (\<lambda>r. ti_id r = k) db) \<le> 1"
    using assms by (simp add: pg_select_def pg_wf_def)
  then show ?thesis
    by (cases "pg_select (\<lambda>r. ti_id r = k) db") (simp_all add: pg_lookup_def)
qed

lemma pg_update_lookup:
  assumes "pg_wf db" "\<And>r. ti_id (change r) = ti_id r" "\<And>r. idempotency_key (change r) = idempotency_key r"
  shows "pg_wf (snd (pg_update cond change db))"
    and "pg_lookup (snd (pg_update cond change db)) k =
      map_option (\<lambda>r. if cond r then change r else r) (pg_lookup db k)"
proof -
  let ?f = "\<lambda>r. if cond r then change r else r"
  have ids: "ti_id (?f r) = ti_id r" "idempotency_key (?f r) = idempotency_key r" for r
    using assms(2,3) by auto
  have "ti_id \<circ> ?f = ti_id" using ids by (intro ext) simp
  then have "map ti_id (map ?f rs) = map ti_id rs" for rs by simp
  moreover have "\<forall>r \<in> set (map ?f (pg_rows db)). idempotency_key r = ti_id r"
    using ids assms(1) unfolding pg_wf_def set_map ball_simps by metis
  ultimately show wf: "pg_wf (snd (pg_update cond change db))"
    using assms(1) unfolding pg_wf_def pg_update_def by (simp del: map_map set_map)
  have mem: "r' \<in> set (pg_rows (snd (pg_update cond change db))) \<longleftrightarrow>
      (\<exists>r \<in> set (pg_rows db). r' = ?f r)" for r'
    by (auto simp: pg_update_def)
  show "pg_lookup (snd (pg_update cond change db)) k = map_option ?f (pg_lookup db k)"
  proof (cases "pg_lookup db k")
    case None
    then have "r \<in> set (pg_rows db) \<Longrightarrow> ti_id r \<noteq> k" for r
      using pg_lookup_Some [OF assms(1), of k r] by auto
    then have "pg_lookup (snd (pg_update cond change db)) k \<noteq> Some r'" for r'
      unfolding pg_lookup_Some [OF wf] mem using ids(1) by metis
    with None show ?thesis by (metis not_Some_eq option.map_disc_iff)
  next
    case (Some r)
    then have r: "r \<in> set (pg_rows db)" "ti_id r = k"
      using pg_lookup_Some [OF assms(1), of k r] by auto
    then have "?f r \<in> set (pg_rows (snd (pg_update cond change db)))"
      unfolding mem by (intro bexI [of _ r] refl)
    moreover have "ti_id (?f r) = k" unfolding ids(1) by (rule r(2))
    ultimately have "pg_lookup (snd (pg_update cond change db)) k = Some (?f r)"
      unfolding pg_lookup_Some [OF wf] by blast
    then show ?thesis unfolding Some by simp
  qed
qed

text \<open>An UPDATE whose WHERE names one id writes at most that row.\<close>

lemma pg_update_one:
  assumes "pg_wf db" "\<And>r. cond r \<Longrightarrow> ti_id r = i"
  shows "fst (pg_update cond change db) =
    (case pg_lookup db i of None \<Rightarrow> [] | Some r \<Rightarrow> if cond r then [change r] else [])"
proof -
  have "filter cond (pg_rows db) = filter cond (pg_select (\<lambda>r. ti_id r = i) db)"
    using assms(2) by (auto simp: pg_select_def intro: filter_cong)
  also have "\<dots> = (case pg_lookup db i of None \<Rightarrow> [] | Some r \<Rightarrow> if cond r then [r] else [])"
    unfolding pg_select_id [OF assms(1)] by (simp split: option.split)
  finally show ?thesis by (simp add: pg_update_def split: option.split)
qed

section \<open>The SQL store meets the contract\<close>

lemma sql_greatest_eq: "sql_greatest a b = max_horizon a b"
  by (simp add: sql_greatest_def max_horizon_def split: option.split)

lemma sql_set_clause [simp]:
  "r\<lparr>ti_status := s, ti_nonce := n, ti_txHash := x, ti_error := e, ti_relayMaxBlock := m,
     ti_updatedAt := u\<rparr> = \<lparr>ii_chainId = ii_chainId r, ii_target = ii_target r, ii_action = ii_action r,
     ii_subject = ii_subject r, ti_id = ti_id r, ti_status = s, ti_nonce = n, ti_txHash = x,
     ti_error = e, ti_relayMaxBlock = m, ti_payload = ti_payload r,
     ti_payloadHash = ti_payloadHash r, ti_safeEnvelope = ti_safeEnvelope r,
     ti_createdAt = ti_createdAt r, ti_updatedAt = u\<rparr>"
  by (cases r) simp

lemma idempotency_key_target [simp]:
  "idempotency_key (inp\<lparr>ii_target := to_lower (ii_target inp)\<rparr>) = idempotency_key inp"
  by (simp add: idempotency_key_def)

lemma idempotency_key_more:
  "idempotency_key \<lparr>ii_chainId = ii_chainId r, ii_target = ii_target r, ii_action = ii_action r,
     ii_subject = ii_subject r, \<dots> = m\<rparr> = idempotency_key r"
  by (simp add: idempotency_key_def)

lemma is_live_terminal: "sql_in s TERMINAL \<longleftrightarrow> \<not> is_live s"
  by (simp add: sql_in_def is_live_def live_iff_not_terminal)

text \<open>The SET clause of the INSERT, on a conflicting row.\<close>

definition pg_revived ::
  "millis \<Rightarrow> intent_status \<Rightarrow> proposed_tx option \<Rightarrow> hex option \<Rightarrow> tx_intent \<Rightarrow> tx_intent" where
  "pg_revived now status payload hash r = r\<lparr>ti_status := status, ti_nonce := None, ti_txHash := None,
     ti_error := None, ti_payload := payload, ti_payloadHash := hash, ti_safeEnvelope := None,
     ti_relayMaxBlock := None, ti_updatedAt := now\<rparr>"

lemma pg_revived_keys [simp]:
  "ti_id (pg_revived now s p h r) = ti_id r"
  "idempotency_key (pg_revived now s p h r) = idempotency_key r"
  by (simp_all add: pg_revived_def idempotency_key_def)

lemma pg_revived_fresh:
  assumes "idempotency_key r = ti_id r"
  shows "pg_revived now s p h r = fresh_row (ti_createdAt r) now (pg_stored (Some r) inp) s p h"
  using assms by (cases r) (simp add: pg_revived_def fresh_row_def pg_stored_def idempotency_key_def)

lemma pg_record_effect:
  assumes wf: "pg_wf db"
  shows "pg_wf (snd (pg_record now inp status p h db))"
    and "pg_lookup (snd (pg_record now inp status p h db)) k =
      (if idempotency_key inp = k then revive pg_stored now inp status p h (pg_lookup db k)
       else pg_lookup db k)"
    and "fst (pg_record now inp status p h db) =
      (case pg_lookup db (idempotency_key inp) of None \<Rightarrow> Recorded (idempotency_key inp) now
       | Some r \<Rightarrow> if is_live (ti_status r) then Refused r else Recorded (idempotency_key inp) now)"
proof -
  let ?i = "idempotency_key inp"
  let ?row = "fresh_row now now (pg_stored None inp) status p h"
  let ?cond = "\<lambda>r. ti_id r = ?i \<and> sql_in (ti_status r) TERMINAL"
  let ?set = "pg_revived now status p h"
  have none: "pg_select (\<lambda>r. ti_id r = ?i) db = [] \<longleftrightarrow> pg_lookup db ?i = None"
    by (simp add: pg_select_id [OF wf] split: option.split)
  note upd = pg_update_lookup [OF wf, of ?set, OF pg_revived_keys, of ?cond]
  have one: "fst (pg_update ?cond ?set db) =
      (case pg_lookup db ?i of None \<Rightarrow> [] | Some r \<Rightarrow> if ?cond r then [?set r] else [])"
    by (rule pg_update_one [OF wf]) simp
  have upsert: "pg_upsert now inp status p h db =
     (if pg_lookup db ?i = None then ([?row], db\<lparr>pg_rows := pg_rows db @ [?row]\<rparr>)
      else pg_update ?cond ?set db)"
    unfolding pg_upsert_def Let_def none
    by (simp add: fresh_row_def pg_stored_def pg_revived_def [abs_def])
  have "pg_wf (snd (pg_record now inp status p h db))
    \<and> pg_lookup (snd (pg_record now inp status p h db)) k =
      (if ?i = k then revive pg_stored now inp status p h (pg_lookup db k) else pg_lookup db k)
    \<and> fst (pg_record now inp status p h db) =
      (case pg_lookup db ?i of None \<Rightarrow> Recorded ?i now
       | Some r \<Rightarrow> if is_live (ti_status r) then Refused r else Recorded ?i now)"
  proof (cases "pg_lookup db ?i")
    case None
    then have fresh: "r \<in> set (pg_rows db) \<Longrightarrow> ti_id r \<noteq> ?i" for r
      using pg_lookup_Some [OF wf, of ?i r] by auto
    let ?db = "db\<lparr>pg_rows := pg_rows db @ [?row]\<rparr>"
    have row: "ti_id ?row = ?i" "idempotency_key ?row = ?i" by (simp_all add: pg_stored_def)
    have "ti_id ?row \<notin> ti_id ` set (pg_rows db)"
      using fresh row(1) by (metis image_iff)
    then have wf': "pg_wf ?db"
      using wf row by (simp add: pg_wf_def)
    have lk: "pg_lookup ?db k = (if ?i = k then Some ?row else pg_lookup db k)"
    proof (cases "?i = k")
      case True
      with row show ?thesis using pg_lookup_Some [OF wf', of k ?row] by simp
    next
      case False
      then show ?thesis using row by (simp add: pg_lookup_def pg_select_def)
    qed
    have "pg_record now inp status p h db = (Recorded ?i now, ?db)"
      using None by (simp add: pg_record_def upsert)
    with wf' lk None show ?thesis by (auto simp: revive_def)
  next
    case (Some r)
    then have r: "r \<in> set (pg_rows db)" "ti_id r = ?i" "idempotency_key r = ?i"
      using pg_lookup_Some [OF wf, of ?i r] wf by (auto simp: pg_wf_def)
    have lk: "pg_lookup (snd (pg_update ?cond ?set db)) k =
        (if ?i = k then revive pg_stored now inp status p h (pg_lookup db k) else pg_lookup db k)"
    proof (cases "?i = k")
      case True
      with Some r show ?thesis
        unfolding upd(2) by (simp add: revive_def is_live_terminal pg_revived_fresh)
    next
      case False
      have "pg_lookup db k = Some x \<Longrightarrow> ti_id x = k" for x using pg_lookup_Some [OF wf] by simp
      with False show ?thesis unfolding upd(2) by (cases "pg_lookup db k") auto
    qed
    show ?thesis
    proof (cases "is_live (ti_status r)")
      case True
      have "pg_lookup (snd (pg_update ?cond ?set db)) ?i = Some r"
        using Some True unfolding upd(2) by (simp add: is_live_terminal)
      then have "hd (pg_select (\<lambda>r. ti_id r = ?i) (snd (pg_update ?cond ?set db))) = r"
        by (simp add: pg_select_id [OF upd(1)])
      with Some True lk upd(1) one show ?thesis
        by (simp add: pg_record_def upsert split_beta is_live_terminal)
    next
      case False
      with Some lk upd(1) one r show ?thesis
        by (simp add: pg_record_def upsert split_beta is_live_terminal)
    qed
  qed
  then show "pg_wf (snd (pg_record now inp status p h db))"
    "pg_lookup (snd (pg_record now inp status p h db)) k =
      (if ?i = k then revive pg_stored now inp status p h (pg_lookup db k) else pg_lookup db k)"
    "fst (pg_record now inp status p h db) =
      (case pg_lookup db ?i of None \<Rightarrow> Recorded ?i now
       | Some r \<Rightarrow> if is_live (ti_status r) then Refused r else Recorded ?i now)"
    by auto
qed

lemma pg_update_row:
  assumes wf: "pg_wf db"
    and keys: "\<And>r. ti_id (change r) = ti_id r" "\<And>r. idempotency_key (change r) = idempotency_key r"
    and one: "\<And>r. cond r \<Longrightarrow> ti_id r = i"
    and f: "\<And>r. ti_id r = i \<Longrightarrow> (if cond r then change r else r) = f r"
  shows "pg_wf (snd (pg_update cond change db))
    \<and> pg_lookup (snd (pg_update cond change db)) k =
        (if i = k then map_option f (pg_lookup db k) else pg_lookup db k)"
proof -
  have "pg_lookup db k = Some x \<Longrightarrow> ti_id x = k" for x using pg_lookup_Some [OF wf] by simp
  then have "map_option (\<lambda>r. if cond r then change r else r) (pg_lookup db k) =
      (if i = k then map_option f (pg_lookup db k) else pg_lookup db k)"
    using f one by (cases "pg_lookup db k") auto
  with pg_update_lookup [OF wf keys, of cond] show ?thesis by simp
qed

lemmas pg_call_defs = pg_ops_def pg_recordIntent_def pg_propose_def pg_claimProposal_def
  pg_markBroadcast_def pg_release_def pg_fail_def pg_supersede_def pg_expireProposals_def
  pg_transition_def split_beta Let_def

lemma idempotency_key_input_cong:
  "ii_chainId r = ii_chainId s \<Longrightarrow> ii_target r = ii_target s \<Longrightarrow> ii_action r = ii_action s \<Longrightarrow>
     ii_subject r = ii_subject s \<Longrightarrow> idempotency_key r = idempotency_key s"
  by (simp add: idempotency_key_def)

lemma touch_expire:
  "touch now (DoExpire ttl a) =
     (\<lambda>r. if sweeps (now - ttl) a r then r\<lparr>ti_status := Expired, ti_updatedAt := now\<rparr> else r)"
  by (intro ext) simp

lemma pg_transition_eq:
  "pg_transition now i to m e db =
     (let (rows, db') = pg_update (\<lambda>r. ti_id r = i \<and> expected_holds e r) (moved now to m) db
      in (length rows > 0, db'))"
proof -
  have cond: "(ti_id r = i
      \<and> (ex_txHash e = None \<or> ti_txHash r \<noteq> None \<and> ti_txHash r = ex_txHash e)
      \<and> (ex_status e = None \<or> sql_in (ti_status r) (the (ex_status e)))
      \<and> (ex_updatedAt e = None \<or> ex_updatedAt e = Some (ti_updatedAt r))) =
     (ti_id r = i \<and> expected_holds e r)" for r
    by (auto simp: expected_holds_def sql_in_def split: option.splits)
  have set: "r\<lparr>ti_status := to, ti_nonce := or_else (tm_nonce m) (ti_nonce r),
      ti_txHash := or_else (tm_txHash m) (ti_txHash r), ti_error := or_else (tm_error m) (ti_error r),
      ti_relayMaxBlock := sql_greatest (ti_relayMaxBlock r) (tm_relayMaxBlock m),
      ti_updatedAt := now\<rparr> = moved now to m r" for r
    by (simp only: moved_def sql_greatest_eq)
  show ?thesis unfolding pg_transition_def cond set by (simp only:)
qed

lemma pg_apply_effect:
  assumes wf: "pg_wf db"
  shows "pg_wf (snd (store_apply pg_ops now op db))
    \<and> pg_lookup (snd (store_apply pg_ops now op db)) k = row_effect pg_stored now op k (pg_lookup db k)"
proof (cases op)
  case (DoRecord inp)
  then show ?thesis by (simp add: pg_call_defs pg_record_effect [OF wf])
next
  case (DoPropose inp p h)
  then show ?thesis
    by (simp add: pg_call_defs pg_record_effect [OF wf] assert_proposal_chain_def wf)
next
  case (DoClaim i h e)
  have snd_claim: "snd (pg_claimProposal now i h e db) = snd (pg_update
      (\<lambda>r. ti_id r = i \<and> ti_status r = Proposed \<and> ti_payloadHash r = Some h)
      (\<lambda>r. r\<lparr>ti_status := Claimed, ti_safeEnvelope := e, ti_updatedAt := now\<rparr>) db)"
    by (simp add: pg_claimProposal_def split_beta split: list.split)
  show ?thesis
    using pg_update_row [OF wf, of _ "\<lambda>r. ti_id r = i \<and> ti_status r = Proposed \<and> ti_payloadHash r = Some h"
      i "touch now op" k]
    by (simp add: DoClaim pg_ops_def snd_claim split_beta idempotency_key_def)
next
  case (DoExpire ttl a)
  have f: "(if ti_status r = Proposed \<and> ti_safeEnvelope r = None \<and> ti_updatedAt r \<le> now - ttl
      \<and> (a = None \<or> a = Some (ii_action r)) then r\<lparr>ti_status := Expired, ti_updatedAt := now\<rparr> else r)
    = touch now op r" for r
    by (auto simp: DoExpire sweeps_def split: option.split)
  show ?thesis
    using pg_update_lookup [OF wf, of "\<lambda>r. r\<lparr>ti_status := Expired, ti_updatedAt := now\<rparr>"
      "\<lambda>r. ti_status r = Proposed \<and> ti_safeEnvelope r = None \<and> ti_updatedAt r \<le> now - ttl
      \<and> (a = None \<or> a = Some (ii_action r))"]
    unfolding f by (simp add: DoExpire pg_call_defs idempotency_key_def touch_expire)
next
  case (DoMark i tx h)
  show ?thesis
    using pg_update_row [OF wf, of _ "\<lambda>r. ti_id r = i \<and> ti_status r = Claimed \<and> ti_txHash r = None
      \<and> ti_payloadHash r = Some h" i "touch now op" k]
    by (simp add: DoMark pg_call_defs idempotency_key_def)
next
  case (DoRelease i h)
  show ?thesis
    using pg_update_row [OF wf, of _ "\<lambda>r. ti_id r = i \<and> ti_status r = Claimed
      \<and> ti_payloadHash r = Some h" i "touch now op" k]
    by (simp add: DoRelease pg_call_defs idempotency_key_def)
next
  case (DoFail i e)
  show ?thesis
    using pg_update_row [OF wf, of _ "\<lambda>r. ti_id r = i \<and> ti_status r \<in> {Proposed, Claimed, Pending, Submitted}"
      i "touch now op" k]
    by (simp add: DoFail pg_call_defs idempotency_key_def)
next
  case (DoSupersede i)
  show ?thesis
    using pg_update_row [OF wf, of _ "\<lambda>r. ti_id r = i \<and> ti_status r = Proposed
      \<and> ti_safeEnvelope r = None" i "touch now op" k]
    by (simp add: DoSupersede pg_call_defs idempotency_key_def)
next
  case (DoTransition i to m e)
  show ?thesis
    using pg_update_row [OF wf, of "moved now to m" "\<lambda>r. ti_id r = i \<and> expected_holds e r" i "touch now op" k]
    by (simp add: DoTransition pg_ops_def pg_transition_eq split_beta)
qed

lemma pg_lookup_id: "pg_wf db \<Longrightarrow> pg_lookup db k = Some r \<Longrightarrow> ti_id r = k \<and> idempotency_key r = k"
  using pg_lookup_Some [of db k r] by (auto simp: pg_wf_def)

lemma pg_apply_result:
  assumes wf: "pg_wf db" and r: "row_result now op (pg_lookup db) = Some res"
  shows "fst (store_apply pg_ops now op db) = res"
proof -
  note one = pg_update_one [OF wf]
  have id: "pg_lookup db k = Some r' \<Longrightarrow> ti_id r' = k" for k r' using pg_lookup_id [OF wf] by simp
  show ?thesis
  proof (cases op)
    case (DoRecord inp)
    with r show ?thesis
      by (auto simp: pg_call_defs pg_record_effect [OF wf] record_answer_def split: option.splits)
  next
    case (DoPropose inp p h)
    with r show ?thesis
      by (auto simp: pg_call_defs pg_record_effect [OF wf] record_answer_def assert_proposal_chain_def
        split: option.splits if_splits)
  next
    case (DoClaim i h e)
    let ?cond = "\<lambda>r. ti_id r = i \<and> ti_status r = Proposed \<and> ti_payloadHash r = Some h"
    let ?set = "\<lambda>r. r\<lparr>ti_status := Claimed, ti_safeEnvelope := e, ti_updatedAt := now\<rparr>"
    have upd: "pg_wf (snd (pg_update ?cond ?set db))"
      "pg_lookup (snd (pg_update ?cond ?set db)) i = map_option (touch now (DoClaim i h e)) (pg_lookup db i)"
      using pg_update_row [OF wf, of ?set ?cond i "touch now (DoClaim i h e)" i]
      by (simp_all add: idempotency_key_def)
    show ?thesis
      using r id [of i] one [of ?cond i ?set]
      by (cases "pg_lookup db i")
        (auto simp: DoClaim pg_ops_def pg_claimProposal_def split_beta pg_select_id [OF upd(1)] upd(2)
          split: if_splits)
  next
    case (DoMark i tx h)
    show ?thesis
      using r id [of i] one [of "\<lambda>r. ti_id r = i \<and> ti_status r = Claimed \<and> ti_txHash r = None
        \<and> ti_payloadHash r = Some h" i]
      by (cases "pg_lookup db i") (auto simp: DoMark pg_call_defs)
  next
    case (DoRelease i h)
    show ?thesis
      using r id [of i] one [of "\<lambda>r. ti_id r = i \<and> ti_status r = Claimed \<and> ti_payloadHash r = Some h" i]
      by (cases "pg_lookup db i") (auto simp: DoRelease pg_call_defs)
  next
    case (DoFail i e)
    show ?thesis
      using r id [of i] one [of "\<lambda>r. ti_id r = i \<and> ti_status r \<in> {Proposed, Claimed, Pending, Submitted}" i]
      by (cases "pg_lookup db i") (auto simp: DoFail pg_call_defs)
  next
    case (DoSupersede i)
    show ?thesis
      using r id [of i] one [of "\<lambda>r. ti_id r = i \<and> ti_status r = Proposed \<and> ti_safeEnvelope r = None" i]
      by (cases "pg_lookup db i") (auto simp: DoSupersede pg_call_defs)
  next
    case (DoTransition i to m e)
    show ?thesis
      using r id [of i] one [of "\<lambda>r. ti_id r = i \<and> expected_holds e r" i]
      by (cases "pg_lookup db i") (auto simp: DoTransition pg_ops_def pg_transition_eq split_beta)
  next
    case (DoExpire ttl a)
    with r show ?thesis by simp
  qed
qed

lemma pg_reconcile_set:
  "pg_wf db \<Longrightarrow> set (pg_reconcile db) =
     {r. \<exists>k. pg_lookup db k = Some r \<and> ti_status r \<in> set IN_FLIGHT_ON_CHAIN}"
  by (auto simp: pg_reconcile_def pg_select_def sql_in_def pg_lookup_Some)

lemma pg_stored_key:
  "(case row of None \<Rightarrow> True | Some r \<Rightarrow> idempotency_key r = idempotency_key inp) \<Longrightarrow>
     idempotency_key (pg_stored row inp) = idempotency_key inp"
  by (cases row) (simp_all add: pg_stored_def idempotency_key_more)

lemma pg_reconcile_distinct:
  assumes "pg_wf db"
  shows "distinct (map ti_id (pg_reconcile db))"
proof -
  let ?rows = "pg_select (\<lambda>r. sql_in (ti_status r) IN_FLIGHT_ON_CHAIN) db"
  have "distinct (map ti_id ?rows)"
    using assms by (simp add: pg_select_def pg_wf_def distinct_map_filter)
  then have "distinct ?rows" "inj_on ti_id (set ?rows)" by (simp_all add: distinct_map)
  then show ?thesis by (simp add: pg_reconcile_def distinct_map)
qed

interpretation pg: intent_table pg_ops pg_wf pg_stored
  by unfold_locales
    (use pg_stored_key pg_apply_effect pg_apply_result pg_reconcile_set pg_lookup_id pg_reconcile_distinct in
      \<open>simp_all add: pg_ops_def\<close>)

lemma pg_wf_empty: "pg_wf pg_empty"
  by (simp add: pg_wf_def pg_empty_def)

lemma mem_wf_empty: "mem_wf mem_empty"
  by (simp add: mem_wf_def mem_empty_def)

end
