(* ===== verification/StoreProps.thy ===== *)
theory StoreProps
  imports PgStore
begin

text \<open>
  Properties of the intent store: the idempotency key names one action, the SQL store implements
  the memory store it is developed against, and what the store guarantees to the bot and to the
  operator over any sequence of calls.
\<close>

section \<open>The idempotency key\<close>

text \<open>The fields of an action that must not hold the separator. (A chain id never does; the subject
  is last and may hold anything.)\<close>

definition plain :: "('a intent_input_scheme) \<Rightarrow> bool" where
  "plain i \<longleftrightarrow> CHR '':'' \<notin> set (ii_target i) \<and> CHR '':'' \<notin> set (ii_action i)"

lemma colon_to_lower: "CHR '':'' \<in> set (to_lower s) \<longleftrightarrow> CHR '':'' \<in> set s"
  by (rule punct_notin_to_lower) simp

lemma key_inj:
  assumes "plain i" "plain j"
  shows "idempotency_key i = idempotency_key j \<longleftrightarrow>
    ii_chainId i = ii_chainId j \<and> to_lower (ii_target i) = to_lower (ii_target j)
    \<and> ii_action i = ii_action j \<and> to_lower (ii_subject i) = to_lower (ii_subject j)"
proof -
  have "show_int (ii_chainId i) = show_int (ii_chainId j) \<longleftrightarrow> ii_chainId i = ii_chainId j"
    using show_int_inj by auto
  then show ?thesis
    using assms by (auto simp: idempotency_key_def separator_inj show_int_no_punct plain_def colon_to_lower)
qed

section \<open>The two stores side by side\<close>

text \<open>
  The same row, up to the spelling of its two addresses: the SQL store lower-cases the target and,
  when it revives a row, keeps the subject as the first attempt spelled it.
\<close>

definition same_row :: "tx_intent \<Rightarrow> tx_intent \<Rightarrow> bool" where
  "same_row r r' \<longleftrightarrow> r' = r\<lparr>ii_target := ii_target r', ii_subject := ii_subject r'\<rparr>
     \<and> ii_target r' = to_lower (ii_target r) \<and> to_lower (ii_subject r') = to_lower (ii_subject r)"

lemma same_rowD:
  assumes "same_row r r'"
  shows "ii_chainId r' = ii_chainId r" "ii_target r' = to_lower (ii_target r)"
    "ii_action r' = ii_action r" "to_lower (ii_subject r') = to_lower (ii_subject r)"
    "ti_id r' = ti_id r" "ti_status r' = ti_status r"
    "ti_nonce r' = ti_nonce r" "ti_txHash r' = ti_txHash r" "ti_error r' = ti_error r"
    "ti_relayMaxBlock r' = ti_relayMaxBlock r" "ti_payload r' = ti_payload r"
    "ti_payloadHash r' = ti_payloadHash r" "ti_safeEnvelope r' = ti_safeEnvelope r"
    "ti_createdAt r' = ti_createdAt r" "ti_updatedAt r' = ti_updatedAt r"
  using assms by (cases r; cases r'; simp add: same_row_def)+

lemma same_rowI:
  assumes "ii_chainId r' = ii_chainId r" "ii_target r' = to_lower (ii_target r)"
    "ii_action r' = ii_action r" "to_lower (ii_subject r') = to_lower (ii_subject r)"
    "ti_id r' = ti_id r" "ti_status r' = ti_status r"
    "ti_nonce r' = ti_nonce r" "ti_txHash r' = ti_txHash r" "ti_error r' = ti_error r"
    "ti_relayMaxBlock r' = ti_relayMaxBlock r" "ti_payload r' = ti_payload r"
    "ti_payloadHash r' = ti_payloadHash r" "ti_safeEnvelope r' = ti_safeEnvelope r"
    "ti_createdAt r' = ti_createdAt r" "ti_updatedAt r' = ti_updatedAt r"
  shows "same_row r r'"
  using assms by (cases r; cases r'; simp add: same_row_def)

lemma same_row_guards:
  assumes "same_row r r'"
  shows "sweeps c a r' = sweeps c a r" "expected_holds e r' = expected_holds e r"
  using same_rowD [OF assms] by (simp_all add: sweeps_def expected_holds_def split: option.split)

lemma same_row_touch: "same_row r r' \<Longrightarrow> same_row (touch now op r) (touch now op r')"
proof -
  assume "same_row r r'"
  note D = same_rowD [OF this]
  show ?thesis
    using same_row_guards [OF \<open>same_row r r'\<close>]
    by (cases op; intro same_rowI; simp add: D moved_def)
qed

fun plain_op :: "store_op \<Rightarrow> bool" where
  "plain_op (DoRecord inp) = plain inp"
| "plain_op (DoPropose inp p h) = plain inp"
| "plain_op _ = True"

definition same_table :: "mem_store \<Rightarrow> pg_db \<Rightarrow> bool" where
  "same_table m p \<longleftrightarrow> mem_wf m \<and> pg_wf p
     \<and> (\<forall>k. rel_option same_row (mem_lookup m k) (pg_lookup p k))
     \<and> (\<forall>k r. mem_lookup m k = Some r \<longrightarrow> plain r)"

lemma same_revive:
  assumes "rel_option same_row x y" "plain inp" "\<And>r. x = Some r \<Longrightarrow> plain r"
    and "\<And>r. x = Some r \<Longrightarrow> idempotency_key r = idempotency_key inp"
  shows "rel_option same_row (revive (\<lambda>_ inp. inp) now inp s p h x) (revive pg_stored now inp s p h y)"
proof (cases x)
  case None
  with assms(1) show ?thesis
    by (auto simp: revive_def pg_stored_def fresh_row_def idempotency_key_def intro!: same_rowI)
next
  case (Some r)
  then obtain r' where r': "y = Some r'" "same_row r r'" using assms(1) by (cases y) auto
  note D = same_rowD [OF r'(2)]
  have "plain r" "idempotency_key r = idempotency_key inp" using assms(3,4) Some by auto
  with assms(2) have "ii_chainId r = ii_chainId inp" "to_lower (ii_target r) = to_lower (ii_target inp)"
    "ii_action r = ii_action inp" "to_lower (ii_subject r) = to_lower (ii_subject inp)"
    by (simp_all add: key_inj)
  with Some r' D show ?thesis
    by (auto simp: revive_def pg_stored_def fresh_row_def idempotency_key_def intro!: same_rowI)
qed

lemma same_effect:
  assumes "rel_option same_row x y" "plain_op op" "\<And>r. x = Some r \<Longrightarrow> plain r \<and> idempotency_key r = k"
  shows "rel_option same_row (row_effect (\<lambda>_ inp. inp) now op k x) (row_effect pg_stored now op k y)"
proof -
  have touch: "rel_option same_row (map_option (touch now op) x) (map_option (touch now op) y)"
    using assms(1) same_row_touch by (cases x; cases y) auto
  show ?thesis
  proof (cases op)
    case (DoRecord inp)
    with assms same_revive [OF assms(1), of inp] show ?thesis by simp
  next
    case (DoPropose inp p h)
    with assms same_revive [OF assms(1), of inp] show ?thesis by simp
  qed (use assms(1) touch in auto)
qed

lemma plain_touch [simp]: "plain (touch now op r) = plain r"
  by (cases op) (auto simp: plain_def moved_def)

lemma plain_effect:
  assumes "\<And>r. x = Some r \<Longrightarrow> plain r" "plain_op op"
    "row_effect (\<lambda>_ inp. inp) now op k x = Some r"
  shows "plain r"
  using assms by (cases op) (auto simp: revive_def fresh_row_def plain_def [abs_def] moved_def
      split: option.splits if_splits)

lemma same_table_apply:
  assumes "same_table m p" "plain_op op"
  shows "same_table (snd (store_apply mem_ops now op m)) (snd (store_apply pg_ops now op p))"
  unfolding same_table_def
proof (intro conjI allI impI)
  have wf: "mem_wf m" "pg_wf p" using assms(1) by (simp_all add: same_table_def)
  show "mem_wf (snd (store_apply mem_ops now op m))" using mem_apply_effect [OF wf(1)] by blast
  show "pg_wf (snd (store_apply pg_ops now op p))" using pg_apply_effect [OF wf(2)] by blast
  have rows: "plain r \<and> idempotency_key r = k" if "mem_lookup m k = Some r" for k r
    using that assms(1) mem_wf_lookup [OF wf(1)] by (auto simp: same_table_def)
  fix k
  show "rel_option same_row (mem_lookup (snd (store_apply mem_ops now op m)) k)
      (pg_lookup (snd (store_apply pg_ops now op p)) k)"
    using assms rows same_effect [of "mem_lookup m k" "pg_lookup p k" op k now]
    by (simp add: mem_apply_effect [OF wf(1)] pg_apply_effect [OF wf(2)] same_table_def)
  fix r
  assume "mem_lookup (snd (store_apply mem_ops now op m)) k = Some r"
  then show "plain r"
    using plain_effect [of "mem_lookup m k" op now k r] rows assms(2)
    by (simp add: mem_apply_effect [OF wf(1)])
qed

text \<open>The answers correspond: same verdict, same id and stamp, and the same row where one is shown.\<close>

fun same_result :: "store_result \<Rightarrow> store_result \<Rightarrow> bool" where
  "same_result (ResRecord (Refused r)) (ResRecord (Refused r')) = same_row r r'"
| "same_result (ResClaim (ClaimOk r)) (ResClaim (ClaimOk r')) = same_row r r'"
| "same_result (ResClaim (ClaimRefused why r)) (ResClaim (ClaimRefused why' r')) =
     (why = why' \<and> rel_option same_row r r')"
| "same_result a b = (a = b)"

definition swept_ids :: "millis \<Rightarrow> string option \<Rightarrow> (string \<Rightarrow> tx_intent option) \<Rightarrow> string set" where
  "swept_ids cutoff a t = {k. \<exists>r. t k = Some r \<and> sweeps cutoff a r}"

lemma mem_expire_count:
  assumes "mem_wf db"
  shows "fst (mem_expireProposals now ttl a db) = card (swept_ids (now - ttl) a (mem_lookup db))"
proof -
  let ?P = "\<lambda>(i, r). sweeps (now - ttl) a r"
  have d: "distinct (map fst (ms_rows db))" using assms by (simp add: mem_wf_def)
  have "distinct (map fst (filter ?P (ms_rows db)))" using d by (rule distinct_map_filter)
  then have "length (filter ?P (ms_rows db)) = card (set (map fst (filter ?P (ms_rows db))))"
    by (metis distinct_card length_map)
  also have "set (map fst (filter ?P (ms_rows db))) = swept_ids (now - ttl) a (mem_lookup db)"
    using d by (force simp: swept_ids_def mem_lookup_def dest: map_of_SomeD)
  finally show ?thesis
    by (simp add: mem_expireProposals_def split_beta Let_def sweep_rows_map(2) [unfolded split_beta])
qed

lemma pg_expire_count:
  assumes "pg_wf db"
  shows "fst (pg_expireProposals now ttl a db) = card (swept_ids (now - ttl) a (pg_lookup db))"
proof -
  let ?P = "sweeps (now - ttl) a"
  have "(\<lambda>r. ti_status r = Proposed \<and> ti_safeEnvelope r = None \<and> ti_updatedAt r \<le> now - ttl
      \<and> (a = None \<or> a = Some (ii_action r))) = ?P"
    by (auto simp: sweeps_def fun_eq_iff split: option.split)
  then have cnt: "fst (pg_expireProposals now ttl a db) = length (filter ?P (pg_rows db))"
    by (simp add: pg_expireProposals_def pg_update_def)
  have "distinct (map ti_id (filter ?P (pg_rows db)))"
    using assms by (simp add: pg_wf_def distinct_map_filter)
  then have "length (filter ?P (pg_rows db)) = card (set (map ti_id (filter ?P (pg_rows db))))"
    by (metis distinct_card length_map)
  also have "set (map ti_id (filter ?P (pg_rows db))) = swept_ids (now - ttl) a (pg_lookup db)"
    unfolding swept_ids_def pg_lookup_Some [OF assms] by auto
  finally show ?thesis unfolding cnt .
qed

lemma same_swept:
  assumes "\<And>k. rel_option same_row (t k) (t' k)"
  shows "swept_ids c a t = swept_ids c a t'"
proof -
  have "(\<exists>r. x = Some r \<and> sweeps c a r) = (\<exists>r. y = Some r \<and> sweeps c a r)"
    if "rel_option same_row x y" for x y
    using that by (cases x; cases y) (auto simp: same_row_guards)
  then show ?thesis unfolding swept_ids_def using assms by (intro Collect_cong) blast
qed

lemma row_result_Some: "(\<And>ttl a. op \<noteq> DoExpire ttl a) \<Longrightarrow> \<exists>res. row_result now op t = Some res"
  by (cases op) (auto split: sum.split)

lemma same_row_result:
  assumes t: "\<And>k. rel_option same_row (t k) (t' k)"
    and "row_result now op t = Some a" "row_result now op t' = Some b"
  shows "same_result a b"
proof -
  have cases': "(t k = None \<and> t' k = None) \<or> (\<exists>r r'. t k = Some r \<and> t' k = Some r' \<and> same_row r r')" for k
    using t [of k] by (cases "t k"; cases "t' k") auto
  have rec: "same_result (record_answer now inp t) (record_answer now inp t')" for inp
    using cases' [of "idempotency_key inp"]
    by (auto simp: record_answer_def Let_def same_rowD)
  show ?thesis
  proof (cases op)
    case (DoClaim i h e)
    with assms(2,3) cases' [of i] show ?thesis
      using same_row_touch [of _ _ now op] by (fastforce simp: same_rowD split: if_splits)
  next
    case (DoPropose inp p h)
    with assms(2,3) rec show ?thesis by (auto split: sum.splits)
  next
    case (DoTransition i to m e)
    with assms(2,3) cases' [of i] show ?thesis by (auto simp: same_row_guards)
  next
    case (DoMark i tx h)
    with assms(2,3) cases' [of i] show ?thesis by (auto simp: same_rowD)
  next
    case (DoRelease i h)
    with assms(2,3) cases' [of i] show ?thesis by (auto simp: same_rowD)
  next
    case (DoFail i e)
    with assms(2,3) cases' [of i] show ?thesis by (auto simp: same_rowD)
  next
    case (DoSupersede i)
    with assms(2,3) cases' [of i] show ?thesis by (auto simp: same_rowD)
  qed (use assms(2,3) rec in auto)
qed

lemma same_apply_result:
  assumes "same_table m p"
  shows "same_result (fst (store_apply mem_ops now op m)) (fst (store_apply pg_ops now op p))"
proof -
  have wf: "mem_wf m" "pg_wf p" and t: "\<And>k. rel_option same_row (mem_lookup m k) (pg_lookup p k)"
    using assms by (simp_all add: same_table_def)
  show ?thesis
  proof (cases "\<exists>ttl a. op = DoExpire ttl a")
    case True
    then show ?thesis
      using mem_expire_count [OF wf(1)] pg_expire_count [OF wf(2)] same_swept [of "mem_lookup m" "pg_lookup p", OF t]
      by (auto simp: mem_ops_def pg_ops_def split_beta)
  next
    case False
    then obtain a b where "row_result now op (mem_lookup m) = Some a" "row_result now op (pg_lookup p) = Some b"
      using row_result_Some by metis
    moreover from this have "fst (store_apply mem_ops now op m) = a" "fst (store_apply pg_ops now op p) = b"
      using mem_apply_result pg_apply_result [OF wf(2)] by blast+
    ultimately show ?thesis using same_row_result [of "mem_lookup m" "pg_lookup p", OF t] by blast
  qed
qed

lemma same_table_run:
  "same_table m p \<Longrightarrow> list_all (\<lambda>(now, op). plain_op op) cs \<Longrightarrow>
     same_table (store_run mem_ops cs m) (store_run pg_ops cs p)"
  by (induction cs arbitrary: m p) (auto simp: same_table_apply)

lemma same_table_empty: "same_table mem_empty pg_empty"
proof -
  have "mem_lookup mem_empty k = None" "pg_lookup pg_empty k = None" for k
    by (simp_all add: mem_lookup_def pg_lookup_def pg_select_def mem_empty_def pg_empty_def)
  then show ?thesis by (simp add: same_table_def mem_wf_empty pg_wf_empty)
qed

lemma same_table_listing:
  assumes "same_table m p"
  shows "rel_set same_row (set (mem_reconcile m)) (set (pg_reconcile p))"
proof -
  have wf: "mem_wf m" "pg_wf p" and t: "\<And>k. rel_option same_row (mem_lookup m k) (pg_lookup p k)"
    using assms by (simp_all add: same_table_def)
  have l: "\<exists>r'. pg_lookup p k = Some r' \<and> same_row r r'" if "mem_lookup m k = Some r" for k r
    using t [of k] that by (cases "pg_lookup p k") auto
  have u: "\<exists>r. mem_lookup m k = Some r \<and> same_row r r'" if "pg_lookup p k = Some r'" for k r'
    using t [of k] that by (cases "mem_lookup m k") auto
  show ?thesis
    unfolding mem_reconcile_set [OF wf(1)] pg_reconcile_set [OF wf(2)]
    by (rule rel_setI) (use l u same_rowD(6) in \<open>fastforce+\<close>)
qed

section \<open>Properties of the store\<close>

text \<open>An action and a proposal for it, the inputs of the examples below.\<close>

definition ex_intent :: "string \<Rightarrow> intent_input" where
  "ex_intent subject = \<lparr>ii_chainId = 1, ii_target = ''0xPool'', ii_action = ''liquidation'',
     ii_subject = subject\<rparr>"

definition ex_payload :: proposed_tx where
  "ex_payload = \<lparr>pt_chainId = 1, pt_to = ''0xPool'', pt_data = ''0x'', pt_value = ''0'',
     pt_gasLimit = None\<rparr>"

definition ex_id :: string where
  "ex_id = ''1:0xpool:liquidation:0xpos''"

lemma ex_intent_key [simp]:
  "idempotency_key (ex_intent ''0xPos'') = ex_id" "idempotency_key (ex_intent ''0xPOS'') = ex_id"
  by (simp_all add: idempotency_key_def ex_intent_def ex_id_def show_int_def show_nat.simps
      digit_char_def to_lower_def lower_char_def)

lemma ex_intent_plain [simp]: "plain (ex_intent s)"
  by (simp add: plain_def ex_intent_def)

lemma ex_intent_chain [simp]: "assert_proposal_chain (ex_intent s) ex_payload = Inr ()"
  by (simp add: assert_proposal_chain_def ex_intent_def ex_payload_def)

lemma pg_run_wf: "pg_wf (store_run pg_ops cs pg_empty)"
  by (rule pg.run_wf [OF pg_wf_empty])

lemma pg_run_lookup:
  "pg_lookup (store_run pg_ops cs pg_empty) k = row_run pg_stored cs k None"
proof -
  have "pg_lookup pg_empty k = None" by (simp add: pg_lookup_def pg_select_def pg_empty_def)
  with pg.run_lookup [OF pg_wf_empty, of cs k] show ?thesis by (simp add: pg_ops_def)
qed

lemma pg_lookup_ops: "so_lookup pg_ops = pg_lookup"
  by (simp add: pg_ops_def)

lemmas row_eval = row_run.simps row_effect.simps concerns.simps touch.simps revive_def fresh_row_def
  pg_stored_def is_live_def status_sets

text \<open>Two actions share an idempotency key exactly when they are the same action: the same
  chain, the same target and subject up to the case of the hex digits, and the same label.\<close>

theorem key_names_one_action:
  assumes "CHR '':'' \<notin> set (ii_target i)" "CHR '':'' \<notin> set (ii_action i)"
    "CHR '':'' \<notin> set (ii_target j)" "CHR '':'' \<notin> set (ii_action j)"
  shows "idempotency_key i = idempotency_key j \<longleftrightarrow>
    ii_chainId i = ii_chainId j \<and> to_lower (ii_target i) = to_lower (ii_target j)
    \<and> ii_action i = ii_action j \<and> to_lower (ii_subject i) = to_lower (ii_subject j)"
  by (rule key_inj) (use assms in \<open>simp_all add: plain_def\<close>)

theorem key_names_one_action_witness:
  "idempotency_key (ex_intent ''0xPos'') \<noteq> idempotency_key (ex_intent ''0xNeg'')
   \<and> idempotency_key (ex_intent ''0xPos'') = idempotency_key (ex_intent ''0xPOS'')"
  using key_names_one_action [of "ex_intent ''0xPos''" "ex_intent ''0xNeg''"]
    key_names_one_action [of "ex_intent ''0xPos''" "ex_intent ''0xPOS''"]
  by (simp add: ex_intent_def to_lower_def lower_char_def)



text \<open>A claimed proposal is fenced off. From the moment an operator claims it, nothing the bot
  does (recording, proposing, superseding, expiring, claims) changes its row; only a broadcast
  report, a release, a failure or a transition on that very id does.\<close>

theorem claimed_is_fenced:
  assumes "pg_lookup (store_run pg_ops before pg_empty) k = Some r" "ti_status r = Claimed"
    and "list_all (\<lambda>(now, op). \<not> moves k op) after"
  shows "pg_lookup (store_run pg_ops (before @ after) pg_empty) k = Some r"
  using pg.claimed_kept [OF pg_run_wf _ assms(2,3), of before] assms(1) by (simp add: pg_lookup_ops)

theorem claimed_is_fenced_witness:
  "\<exists>r. pg_lookup (store_run pg_ops
      ([(1, DoPropose (ex_intent ''0xPos'') ex_payload ''0xh''), (2, DoClaim ex_id ''0xh'' None)]
       @ [(3, DoSupersede ex_id), (4, DoRecord (ex_intent ''0xPos'')), (90, DoExpire 0 None)]) pg_empty)
      ex_id = Some r \<and> ti_status r = Claimed"
proof -
  let ?before = "[(1, DoPropose (ex_intent ''0xPos'') ex_payload ''0xh''), (2, DoClaim ex_id ''0xh'' None)]"
  have chain: "ii_chainId (ex_intent s) = pt_chainId ex_payload" for s
    by (simp add: ex_intent_def ex_payload_def)
  obtain r where "pg_lookup (store_run pg_ops ?before pg_empty) ex_id = Some r" "ti_status r = Claimed"
    unfolding pg_run_lookup by (simp add: row_eval chain)
  from this claimed_is_fenced [OF this, of "[(3, DoSupersede ex_id), (4, DoRecord (ex_intent ''0xPos'')),
      (90, DoExpire 0 None)]"] show ?thesis
    by (simp del: store_run.simps)
qed

text \<open>The record of a SafeTx that owners may have signed is not lost. While a live row carries
  an envelope, no call but a fresh claim of that id, or one that ends its attempt, changes the
  envelope: releases, sweeps and supersessions keep it, and no new attempt overwrites the row.\<close>

theorem envelope_survives:
  assumes "pg_lookup (store_run pg_ops before pg_empty) k = Some r"
    and "is_live (ti_status r)" "ti_safeEnvelope r = Some env"
    and "list_all (\<lambda>(now, op). \<not> ends k op \<and> (\<forall>h e. op \<noteq> DoClaim k h e)) after"
  shows "\<exists>r'. pg_lookup (store_run pg_ops (before @ after) pg_empty) k = Some r'
    \<and> is_live (ti_status r') \<and> ti_safeEnvelope r' = Some env"
  using pg.envelope_kept [OF pg_run_wf _ assms(2-4), of before] assms(1) by (simp add: pg_lookup_ops)

definition ex_envelope :: safe_envelope where
  "ex_envelope = \<lparr>sp_safeNonce = 3, sp_operation = 0, sp_safeTxGas = ''0'', sp_baseGas = ''0'',
     sp_gasPrice = ''0'', sp_gasToken = ''0x0'', sp_refundReceiver = ''0x0'',
     se_safeVersion = ''1.3.0'', se_safeTxHash = ''0xs'', en_claimBlock = 7\<rparr>"

theorem envelope_survives_witness:
  "\<exists>r. pg_lookup (store_run pg_ops
      ([(1, DoPropose (ex_intent ''0xPos'') ex_payload ''0xh''), (2, DoClaim ex_id ''0xh'' (Some ex_envelope))]
       @ [(3, DoRelease ex_id ''0xh''), (4, DoSupersede ex_id), (90, DoExpire 0 None)]) pg_empty)
      ex_id = Some r \<and> ti_safeEnvelope r = Some ex_envelope"
proof -
  let ?before = "[(1, DoPropose (ex_intent ''0xPos'') ex_payload ''0xh''),
    (2, DoClaim ex_id ''0xh'' (Some ex_envelope))]"
  have chain: "ii_chainId (ex_intent s) = pt_chainId ex_payload" for s
    by (simp add: ex_intent_def ex_payload_def)
  obtain r where "pg_lookup (store_run pg_ops ?before pg_empty) ex_id = Some r"
    "is_live (ti_status r)" "ti_safeEnvelope r = Some ex_envelope"
    unfolding pg_run_lookup by (simp add: row_eval chain)
  from envelope_survives [OF this, of "[(3, DoRelease ex_id ''0xh''), (4, DoSupersede ex_id),
      (90, DoExpire 0 None)]"] show ?thesis
    by (auto simp del: store_run.simps)
qed

text \<open>An action is attempted once at a time. After an attempt has been recorded, any second
  attempt at the same action, however its addresses are spelled and whatever other calls run
  between, is refused and shown the first, until a call moves that row on.\<close>

theorem no_second_attempt:
  assumes "fst (store_apply pg_ops now (DoRecord inp) (store_run pg_ops before pg_empty)) =
      ResRecord (Recorded k t)"
    and "list_all (\<lambda>(now, op). \<not> moves k op) after"
    and "idempotency_key inp' = idempotency_key inp"
  shows "\<exists>r. fst (store_apply pg_ops now' (DoRecord inp')
      (store_run pg_ops (before @ (now, DoRecord inp) # after) pg_empty)) = ResRecord (Refused r)
    \<and> ti_status r = Pending \<and> ti_updatedAt r = t"
  using pg.second_record_refused [OF pg_run_wf assms(1,2), of inp'] assms(3)
    pg.record_lookup(1,2) [OF pg_run_wf assms(1)]
  by simp

theorem no_second_attempt_witness:
  "\<exists>r. fst (store_apply pg_ops 9 (DoRecord (ex_intent ''0xPOS''))
      (store_run pg_ops ([] @ (5, DoRecord (ex_intent ''0xPos'')) # [(8, DoExpire 0 None)]) pg_empty)) =
      ResRecord (Refused r) \<and> ti_status r = Pending \<and> ti_updatedAt r = 5"
proof (rule no_second_attempt)
  show "fst (store_apply pg_ops 5 (DoRecord (ex_intent ''0xPos'')) (store_run pg_ops [] pg_empty)) =
      ResRecord (Recorded ex_id 5)"
    by (simp add: pg_call_defs pg_record_def pg_upsert_def pg_select_def pg_empty_def)
qed simp_all

text \<open>C5: a late writer cannot touch a later attempt. With a clock that advances, a transition that
  names the version stamp of a row as its writer saw it does nothing at all once any call has
  changed that row, even if an identical attempt has since taken its place.\<close>

theorem stale_writer_rejected:
  assumes "pg_lookup (store_run pg_ops before pg_empty) k = Some r"
    and "list_all (\<lambda>(now, op). ti_updatedAt r < now) after"
    and "pg_lookup (store_run pg_ops (before @ after) pg_empty) k \<noteq> Some r"
    and "ex_updatedAt e = Some (ti_updatedAt r)"
  shows "fst (pg_transition now k to m e (store_run pg_ops (before @ after) pg_empty)) = False
    \<and> pg_lookup (snd (pg_transition now k to m e (store_run pg_ops (before @ after) pg_empty))) i =
       pg_lookup (store_run pg_ops (before @ after) pg_empty) i"
  using pg.stale_stamp [OF pg_run_wf _ assms(2) _ assms(4), where now = now and to = to and m = m and i = i]
    assms(1,3)
  by (simp add: pg_lookup_ops) (simp add: pg_ops_def split_beta)

theorem stale_writer_rejected_witness:
  "fst (pg_transition 20 ex_id Confirmed no_meta (no_expectation\<lparr>ex_updatedAt := Some 5\<rparr>)
     (store_run pg_ops ([(5, DoRecord (ex_intent ''0xPos''))]
        @ [(8, DoFail ex_id None), (9, DoRecord (ex_intent ''0xPos''))]) pg_empty)) = False"
proof -
  obtain r where r: "pg_lookup (store_run pg_ops [(5, DoRecord (ex_intent ''0xPos''))] pg_empty) ex_id = Some r"
    "ti_updatedAt r = 5"
    unfolding pg_run_lookup by (simp add: row_eval)
  have "pg_lookup (store_run pg_ops ([(5, DoRecord (ex_intent ''0xPos''))]
        @ [(8, DoFail ex_id None), (9, DoRecord (ex_intent ''0xPos''))]) pg_empty) ex_id \<noteq> Some r"
    unfolding pg_run_lookup using r(2) by (auto simp: row_eval)
  then show ?thesis
    using stale_writer_rejected [OF r(1), of "[(8, DoFail ex_id None), (9, DoRecord (ex_intent ''0xPos''))]"
        "no_expectation\<lparr>ex_updatedAt := Some 5\<rparr>" 20 Confirmed no_meta ex_id] r(2)
    by (simp del: store_run.simps)
qed

end
