(* ===== verification/TxSender.thy ===== *)
theory TxSender
  imports IntentStore
begin

text \<open>
  Sending a transaction, \<open>packages/execution/src/txSender.ts\<close>, and the private relay behind it,
  \<open>submission/flashbots.ts\<close>. Preparing a request, signing it and hashing bytes are the wallet's
  (viem), so they are parameters; so is the pattern by which viem recognises a node's
  insufficient-funds refusal. The state \<open>'s\<close> is whatever the callbacks of the caller act on, so
  the order of the steps shows in the state they leave.
\<close>

section \<open>The send path\<close>

record contract_call =
  cc_address :: address
  cc_data :: hex
  cc_nonce :: "int option"

record fee_request =
  fr_nonce :: int
  fr_to :: address
  fr_data :: hex
  fr_maxFeePerGas :: "int option"
  fr_maxPriorityFeePerGas :: "int option"
  fr_gasPrice :: "int option"

record signed_tx =
  sg_hash :: hex
  sg_nonce :: int
  sg_serialized :: hex

definition apply_priority_fee_floor :: "int \<Rightarrow> fee_request \<Rightarrow> fee_request outcome" where
  "apply_priority_fee_floor floor req =
     (case (fr_maxPriorityFeePerGas req, fr_maxFeePerGas req) of
        (Some tip, Some cap) \<Rightarrow>
          if tip \<ge> floor then Inr req
          else Inr (req\<lparr>fr_maxFeePerGas := Some (cap + (floor - tip)),
                        fr_maxPriorityFeePerGas := Some floor\<rparr>)
      | _ \<Rightarrow> Inl ''a priority-fee floor is configured, but the node priced this transaction as legacy (gasPrice) -- private submission requires an EIP-1559 fee market'')"

definition sign_contract_call ::
  "(contract_call \<Rightarrow> fee_request outcome) \<Rightarrow> (fee_request \<Rightarrow> hex outcome) \<Rightarrow> (hex \<Rightarrow> hex)
     \<Rightarrow> int option \<Rightarrow> contract_call \<Rightarrow> signed_tx outcome" where
  "sign_contract_call prepare sign keccak floor call =
     await (prepare call) (\<lambda>req.
     await (case floor of None \<Rightarrow> Inr req | Some f \<Rightarrow> apply_priority_fee_floor f req) (\<lambda>req'.
     await (sign req') (\<lambda>serialized.
       Inr \<lparr>sg_hash = keccak serialized, sg_nonce = fr_nonce req', sg_serialized = serialized\<rparr>)))"

text \<open>What a broadcast answers: the hash, a submitter's outright refusal, or an error.\<close>

datatype broadcast_result =
    BroadcastOk hex
  | BroadcastRejected string
  | BroadcastViemError "string option" string
  | BroadcastError string

datatype send_result =
    Sent hex
  | PreBroadcast string
  | SendAmbiguous string

definition is_insufficient_funds :: "(string \<Rightarrow> bool) \<Rightarrow> broadcast_result \<Rightarrow> bool" where
  "is_insufficient_funds matches r =
     (case r of BroadcastViemError details msg \<Rightarrow> matches (or_default details '''') \<or> matches msg
      | _ \<Rightarrow> False)"

definition broadcast_message :: "broadcast_result \<Rightarrow> string" where
  "broadcast_message r = (case r of BroadcastOk h \<Rightarrow> h
     | BroadcastRejected reason \<Rightarrow> ''submitter rejected the transaction: '' @ reason
     | BroadcastViemError _ msg \<Rightarrow> msg | BroadcastError msg \<Rightarrow> msg)"

definition tx_send ::
  "(string \<Rightarrow> bool) \<Rightarrow> signed_tx outcome \<Rightarrow> (signed_tx \<Rightarrow> 's \<Rightarrow> unit outcome \<times> 's)
     \<Rightarrow> ('s \<Rightarrow> unit outcome) \<Rightarrow> (hex \<Rightarrow> 's \<Rightarrow> broadcast_result \<times> 's) \<Rightarrow> 's \<Rightarrow> send_result \<times> 's" where
  "tx_send matches signing onSigned beforeBroadcast broadcast s =
     (case signing of
        Inl e \<Rightarrow> (PreBroadcast e, s)
      | Inr tx \<Rightarrow>
          (case onSigned tx s of
             (Inl e, s1) \<Rightarrow> (PreBroadcast e, s1)
           | (Inr _, s1) \<Rightarrow>
               (case beforeBroadcast s1 of
                  Inl e \<Rightarrow> (PreBroadcast e, s1)
                | Inr _ \<Rightarrow>
                    (let (r, s2) = broadcast (sg_serialized tx) s1 in
                     case r of
                       BroadcastOk _ \<Rightarrow> (Sent (sg_hash tx), s2)
                     | BroadcastRejected _ \<Rightarrow> (PreBroadcast (broadcast_message r), s2)
                     | _ \<Rightarrow> if is_insufficient_funds matches r
                            then (PreBroadcast (broadcast_message r), s2)
                            else (SendAmbiguous (broadcast_message r), s2)))))"

section \<open>The private relay\<close>

datatype json = JNull | JBool bool | JInt int | JFloat string | JString string
  | JArray "json list" | JObject "(string \<times> json) list"

fun field :: "json \<Rightarrow> string \<Rightarrow> json option" where
  "field (JObject fs) k = map_of fs k"
| "field _ k = None"

datatype relay_state = RelPENDING | RelINCLUDED | RelFAILED | RelCANCELLED | RelUNKNOWN

record relay_status =
  rs_status :: relay_state
  rs_maxBlockNumber :: int
  rs_simError :: "string option"
  rs_isRevert :: bool
  rs_seenInMempool :: bool

definition relay_state_of :: "string \<Rightarrow> relay_state option" where
  "relay_state_of s = map_of [(''PENDING'', RelPENDING), (''INCLUDED'', RelINCLUDED),
     (''FAILED'', RelFAILED), (''CANCELLED'', RelCANCELLED), (''UNKNOWN'', RelUNKNOWN)] s"

definition SIM_ERROR_MAX_CHARS :: nat where
  "SIM_ERROR_MAX_CHARS = 300"

definition parse_max_block :: "json option \<Rightarrow> int outcome" where
  "parse_max_block v = (case v of
     None \<Rightarrow> Inr 0
   | Some JNull \<Rightarrow> Inr 0
   | Some (JInt n) \<Rightarrow> if \<bar>n\<bar> \<le> 2 ^ 53 - 1 \<and> n \<ge> 0 then Inr n
       else Inl ''flashbots status returned an unusable maxBlockNumber''
   | Some _ \<Rightarrow> Inl ''flashbots status returned an unusable maxBlockNumber'')"

text \<open>\<open>typeof body === "object" && body !== null\<close>: arrays count.\<close>

definition is_object :: "json \<Rightarrow> bool" where
  "is_object v = (case v of JObject _ \<Rightarrow> True | JArray _ \<Rightarrow> True | _ \<Rightarrow> False)"

definition parse_relay_status :: "json \<Rightarrow> relay_status outcome" where
  "parse_relay_status body =
     (if \<not> is_object body then Inl ''flashbots status returned a value that is not an object''
     else case field body ''status'' of
       Some (JString st) \<Rightarrow>
         (case relay_state_of st of
            None \<Rightarrow> Inl ''flashbots status returned an unknown status''
          | Some status \<Rightarrow>
              await (parse_max_block (field body ''maxBlockNumber'')) (\<lambda>maxBlock.
              Inr \<lparr>rs_status = status, rs_maxBlockNumber = maxBlock,
                rs_simError = (case field body ''simError'' of
                   Some (JString e) \<Rightarrow> Some (take SIM_ERROR_MAX_CHARS e) | _ \<Rightarrow> None),
                rs_isRevert = (field body ''isRevert'' = Some (JBool True)),
                rs_seenInMempool = (field body ''seenInMempool'' = Some (JBool True))\<rparr>))
     | _ \<Rightarrow> Inl ''flashbots status returned an unknown status'')"

text \<open>The regular expressions of \<open>NOT_CLEAN\<close> are literal texts, matched anywhere in any case.\<close>

fun contains :: "string \<Rightarrow> string \<Rightarrow> bool" where
  "contains pat [] = (pat = [])"
| "contains pat (c # cs) = (take (length pat) (c # cs) = pat \<or> contains pat cs)"

definition NOT_CLEAN :: "string list" where
  "NOT_CLEAN = [''already known'', ''nonce too low'', ''replacement transaction underpriced'']"

definition not_clean :: "string \<Rightarrow> bool" where
  "not_clean msg = list_ex (\<lambda>pat. contains pat (to_lower msg)) NOT_CLEAN"

text \<open>What the HTTP exchange of a submission gave: no answer, a status outside 2xx, an unreadable
  body, or a JSON-RPC response with its result and its error message.\<close>

datatype relay_answer =
    NoAnswer string
  | HttpStatus nat
  | MalformedBody
  | RpcAnswer "string option" "string option option"

datatype submit_class = Accepted | Rejected | Ambiguous

definition relay_submit :: "relay_answer \<Rightarrow> broadcast_result \<times> submit_class" where
  "relay_submit a = (case a of
     NoAnswer e \<Rightarrow> (BroadcastError e, Ambiguous)
   | HttpStatus n \<Rightarrow> (BroadcastError (''flashbots submit failed: HTTP '' @ show_nat n), Ambiguous)
   | MalformedBody \<Rightarrow> (BroadcastError ''flashbots submit returned a malformed response'', Ambiguous)
   | RpcAnswer result err \<Rightarrow>
       (case err of
          Some msg \<Rightarrow>
            (let message = or_default msg ''unknown relay error'' in
             if not_clean message
             then (BroadcastError (''flashbots rejected the transaction: '' @ message), Ambiguous)
             else (BroadcastRejected message, Rejected))
        | None \<Rightarrow>
            (if or_default result '''' = ''''
             then (BroadcastError ''flashbots submit returned neither a hash nor an error'', Ambiguous)
             else (BroadcastOk (the result), Accepted))))"

section \<open>Properties of a send\<close>

lemma fee_floor:
  assumes "apply_priority_fee_floor floor req = Inr req'"
  obtains tip cap where "fr_maxPriorityFeePerGas req = Some tip" "fr_maxFeePerGas req = Some cap"
    "fr_maxPriorityFeePerGas req' = Some (max tip floor)"
    "fr_maxFeePerGas req' = Some (cap + (max tip floor - tip))"
    "fr_nonce req' = fr_nonce req" "fr_to req' = fr_to req" "fr_data req' = fr_data req"
  using assms by (auto simp: apply_priority_fee_floor_def max_def split: option.splits if_splits)

text \<open>The tip floor. A request is raised exactly to the floor when the node priced it lower and
  left alone otherwise, keeping the headroom the node left for the base fee and the nonce, target and
  calldata; a request the node priced as legacy is refused, never signed under the floor.\<close>

theorem priority_fee_floor:
  "case apply_priority_fee_floor floor req of
     Inl _ \<Rightarrow> fr_maxPriorityFeePerGas req = None \<or> fr_maxFeePerGas req = None
   | Inr req' \<Rightarrow> (\<exists>tip cap. fr_maxPriorityFeePerGas req = Some tip \<and> fr_maxFeePerGas req = Some cap
       \<and> fr_maxPriorityFeePerGas req' = Some (max tip floor)
       \<and> fr_maxFeePerGas req' = Some (cap + (max tip floor - tip))
       \<and> (fr_nonce req', fr_to req', fr_data req') = (fr_nonce req, fr_to req, fr_data req))"
proof (cases "apply_priority_fee_floor floor req")
  case (Inl e)
  then show ?thesis by (auto simp: apply_priority_fee_floor_def split: option.splits if_splits)
next
  case (Inr req')
  then show ?thesis by (auto elim!: fee_floor)
qed

text \<open>C9: record first, broadcast second, and know which side of the line an error is on. A send
  that succeeds or fails ambiguously broadcast exactly the bytes it signed, after the durable record
  of that very transaction was written and the last gate passed; a send reported as pre-broadcast
  either never reached the broadcast or was refused by it outright.\<close>

theorem send_records_before_broadcast:
  assumes "tx_send matches signing onSigned beforeBroadcast broadcast s = (r, s')"
  shows "case r of
     PreBroadcast e \<Rightarrow>
       s' = s
       \<or> (\<exists>tx. signing = Inr tx \<and> s' = snd (onSigned tx s))
       \<or> (\<exists>tx s1 b. signing = Inr tx \<and> onSigned tx s = (Inr (), s1) \<and> beforeBroadcast s1 = Inr ()
            \<and> broadcast (sg_serialized tx) s1 = (b, s')
            \<and> ((\<exists>why. b = BroadcastRejected why) \<or> is_insufficient_funds matches b))
   | Sent h \<Rightarrow>
       (\<exists>tx s1 h'. signing = Inr tx \<and> onSigned tx s = (Inr (), s1) \<and> beforeBroadcast s1 = Inr ()
            \<and> broadcast (sg_serialized tx) s1 = (BroadcastOk h', s') \<and> h = sg_hash tx)
   | SendAmbiguous e \<Rightarrow>
       (\<exists>tx s1 b. signing = Inr tx \<and> onSigned tx s = (Inr (), s1) \<and> beforeBroadcast s1 = Inr ()
            \<and> broadcast (sg_serialized tx) s1 = (b, s')
            \<and> (\<forall>h'. b \<noteq> BroadcastOk h') \<and> (\<forall>why. b \<noteq> BroadcastRejected why))"
proof (cases signing)
  case (Inl e)
  with assms show ?thesis by (auto simp: tx_send_def)
next
  case tx: (Inr tx)
  obtain o1 s1 where o1: "onSigned tx s = (o1, s1)" by force
  show ?thesis
  proof (cases o1)
    case (Inl e)
    with assms tx o1 show ?thesis by (auto simp: tx_send_def)
  next
    case (Inr u)
    show ?thesis
    proof (cases "beforeBroadcast s1")
      case (Inl e)
      with assms tx o1 Inr show ?thesis by (auto simp: tx_send_def)
    next
      case before: (Inr v)
      obtain b s2 where b: "broadcast (sg_serialized tx) s1 = (b, s2)" by force
      show ?thesis
        using assms tx o1 Inr before b
        by (cases b) (auto simp: tx_send_def is_insufficient_funds_def split: if_splits)
    qed
  qed
qed

theorem send_records_before_broadcast_witness:
  "\<exists>tx. Inr \<lparr>sg_hash = ''0xh'', sg_nonce = 4, sg_serialized = ''0xraw''\<rparr> = (Inr tx :: signed_tx outcome)
     \<and> [''0xh'', ''0xraw''] = [sg_hash tx, sg_serialized tx]"
  using send_records_before_broadcast [of "\<lambda>_. False"
      "Inr \<lparr>sg_hash = ''0xh'', sg_nonce = 4, sg_serialized = ''0xraw''\<rparr>"
      "\<lambda>tx s. (Inr (), s @ [sg_hash tx])" "\<lambda>_. Inr ()" "\<lambda>raw s. (BroadcastOk ''0xnode'', s @ [raw])"
      "[]" "Sent ''0xh''" "[''0xh'', ''0xraw'']"]
  by (simp add: tx_send_def)

text \<open>A relay answer frees a nonce only when it is a well-formed refusal whose text does not say
  that a transaction at this nonce already exists; every other failure to submit is ambiguous.\<close>

theorem relay_submit_conservative:
  "(case relay_submit a of
      (BroadcastRejected why, c) \<Rightarrow> c = Rejected
        \<and> (\<exists>res msg. a = RpcAnswer res (Some msg) \<and> why = or_default msg ''unknown relay error'')
        \<and> \<not> contains ''already known'' (to_lower why) \<and> \<not> contains ''nonce too low'' (to_lower why)
        \<and> \<not> contains ''replacement transaction underpriced'' (to_lower why)
    | (BroadcastOk h, c) \<Rightarrow> c = Accepted \<and> a = RpcAnswer (Some h) None \<and> h \<noteq> ''''
    | (_, c) \<Rightarrow> c = Ambiguous)"
  by (auto simp: relay_submit_def not_clean_def NOT_CLEAN_def Let_def or_default_def
      split: relay_answer.split option.splits)

end
