(* ===== verification/Liveness.thy ===== *)
theory Liveness
  imports TxSender
begin

text \<open>
  What may still be on the wire, \<open>packages/engine/src/shared/liveness.ts\<close>. The chain is a record of
  reads, each of which may reject; a pass judges all its intents against one such record. The
  decoded Safe events of a receipt are the ABI library's, so they are part of the read.
\<close>

section \<open>Reading the chain\<close>

datatype receipt_status = RcSuccess | RcReverted

datatype nonce_tag = TagLatest | TagPending

datatype safe_outcome = SafeSuccess | SafeFailure | SafeReverted | SafeNoEvent

record chain_reader =
  cr_receiptStatus :: "hex \<Rightarrow> receipt_status option outcome"
  cr_nonce :: "address \<Rightarrow> nonce_tag \<Rightarrow> int outcome"
  cr_blockNumber :: "int outcome"
  cr_isKnown :: "hex \<Rightarrow> bool outcome"
  cr_isKnownToNode :: "(hex \<Rightarrow> bool outcome) option"
  cr_safeExecution :: "hex \<Rightarrow> address \<Rightarrow> hex \<Rightarrow> safe_outcome option outcome"
  cr_findSafe :: "address \<Rightarrow> hex \<Rightarrow> int \<Rightarrow> (hex \<times> bool) option outcome"

text \<open>\<open>getSafeExecution\<close> on a receipt: the Safe's own event decides, not the outer status.\<close>

record safe_event =
  ev_success :: bool
  ev_address :: address
  ev_txHash :: "hex option"

definition judge_safe_receipt ::
  "(receipt_status \<times> safe_event list) option \<Rightarrow> address \<Rightarrow> hex \<Rightarrow> safe_outcome option" where
  "judge_safe_receipt receipt safe safeTxHash =
     (case receipt of
        None \<Rightarrow> None
      | Some (RcReverted, _) \<Rightarrow> Some SafeReverted
      | Some (RcSuccess, events) \<Rightarrow>
          (case List.find (\<lambda>e. to_lower (ev_address e) = to_lower safe
                 \<and> map_option to_lower (ev_txHash e) = Some (to_lower safeTxHash)) events of
             None \<Rightarrow> Some SafeNoEvent
           | Some e \<Rightarrow> Some (if ev_success e then SafeSuccess else SafeFailure)))"

section \<open>Could this transaction be in flight?\<close>

definition UNKNOWN_TX_GRACE_MS :: int where
  "UNKNOWN_TX_GRACE_MS = 30000"

record liveness_check =
  lc_reader :: chain_reader
  lc_now :: millis
  lc_graceMs :: "int option"
  lc_reclaimMarginBlocks :: "int option"
  lc_head :: "int option"

definition grace :: "liveness_check \<Rightarrow> int" where
  "grace lc = or_default (lc_graceMs lc) UNKNOWN_TX_GRACE_MS"

definition past_relay_horizon :: "liveness_check \<Rightarrow> int option \<Rightarrow> bool" where
  "past_relay_horizon lc relayMaxBlock =
     (case (lc_head lc, lc_reclaimMarginBlocks lc, relayMaxBlock) of
        (Some head, Some margin, Some horizon) \<Rightarrow> head > horizon + margin
      | _ \<Rightarrow> False)"

definition known_to_node :: "chain_reader \<Rightarrow> hex \<Rightarrow> bool outcome" where
  "known_to_node reader h =
     (case cr_isKnownToNode reader of Some f \<Rightarrow> f h | None \<Rightarrow> cr_isKnown reader h)"

definition could_be_in_flight :: "liveness_check \<Rightarrow> hex \<Rightarrow> millis \<Rightarrow> int option \<Rightarrow> bool outcome" where
  "could_be_in_flight lc txHash updatedAt relayMaxBlock =
     (if lc_now lc - updatedAt < grace lc then Inr True
      else if past_relay_horizon lc relayMaxBlock then known_to_node (lc_reader lc) txHash
      else cr_isKnown (lc_reader lc) txHash)"

section \<open>The relay's horizon\<close>

definition MAX_RELAY_HORIZON_BLOCKS :: int where
  "MAX_RELAY_HORIZON_BLOCKS = 7200"

definition clamp_declared :: "int \<Rightarrow> int \<Rightarrow> int" where
  "clamp_declared declared head = min declared (head + MAX_RELAY_HORIZON_BLOCKS)"

text \<open>Each takes the node's block number and the relay's status of the hash, as read.\<close>

definition resolve_horizon :: "int \<Rightarrow> int outcome \<Rightarrow> relay_status outcome \<Rightarrow> int outcome" where
  "resolve_horizon horizonBlocks head status =
     await head (\<lambda>h.
       let declared = (case status of Inl _ \<Rightarrow> 0 | Inr st \<Rightarrow> rs_maxBlockNumber st)
       in Inr (max (clamp_declared declared h) (h + horizonBlocks)))"

definition repair_horizon :: "int outcome \<Rightarrow> relay_status outcome \<Rightarrow> int option outcome" where
  "repair_horizon head status =
     await status (\<lambda>st.
       if rs_status st = RelUNKNOWN then Inr None
       else if rs_seenInMempool st then Inr None
       else if rs_maxBlockNumber st \<le> 0 then Inr None
       else await head (\<lambda>h. Inr (Some (clamp_declared (rs_maxBlockNumber st) h))))"

text \<open>\<open>createRelayAwareReader\<close>: the node first, then the relay, whose every answer, a failed probe
  included, counts as still in flight.\<close>

definition relay_aware_reader ::
  "chain_reader \<Rightarrow> (hex \<Rightarrow> relay_status outcome) \<Rightarrow> chain_reader" where
  "relay_aware_reader node relay = node\<lparr>
     cr_isKnownToNode := Some (cr_isKnown node),
     cr_isKnown := (\<lambda>h. await (cr_isKnown node h) (\<lambda>known.
        if known then Inr True
        else (case relay h of Inl _ \<Rightarrow> Inr True | Inr _ \<Rightarrow> Inr True)))\<rparr>"

section \<open>Properties\<close>

lemma relay_aware_known: "cr_isKnown (relay_aware_reader node relay) h \<noteq> Inr False"
  by (auto simp: relay_aware_reader_def await_def split: sum.split)

lemma relay_aware_node: "known_to_node (relay_aware_reader node relay) h = cr_isKnown node h"
  by (simp add: known_to_node_def relay_aware_reader_def)

text \<open>C10: under private submission a transaction is given up only on the chain's own evidence.
  Whatever the relay answers, and also when it does not answer, a transaction stops counting as in
  flight only when it is older than the grace window, the head has passed its recorded deadline by
  the configured margin, and the node itself does not know it.\<close>

theorem relay_never_releases:
  assumes "lc_reader lc = relay_aware_reader node relay"
  shows "could_be_in_flight lc txHash updatedAt relayMaxBlock = Inr False \<longleftrightarrow>
    lc_now lc - updatedAt \<ge> grace lc
    \<and> (\<exists>head margin horizon. lc_head lc = Some head \<and> lc_reclaimMarginBlocks lc = Some margin
         \<and> relayMaxBlock = Some horizon \<and> horizon + margin < head)
    \<and> cr_isKnown node txHash = Inr False"
  using relay_aware_known [of node relay txHash]
  by (auto simp: could_be_in_flight_def assms relay_aware_node past_relay_horizon_def split: option.splits)

definition ex_reader :: chain_reader where
  "ex_reader = \<lparr>cr_receiptStatus = \<lambda>h. Inr (if h = ''0xok'' then Some RcSuccess else None),
     cr_nonce = \<lambda>a tag. Inr (if tag = TagLatest then 5 else 6), cr_blockNumber = Inr 900,
     cr_isKnown = \<lambda>h. Inr (h = ''0xlive''), cr_isKnownToNode = None,
     cr_safeExecution = \<lambda>h a s. Inr None, cr_findSafe = \<lambda>a s n. Inr None\<rparr>"

definition ex_check :: "chain_reader \<Rightarrow> liveness_check" where
  "ex_check r = \<lparr>lc_reader = r, lc_now = 100000, lc_graceMs = None,
     lc_reclaimMarginBlocks = Some 10, lc_head = Some 900\<rparr>"

theorem relay_never_releases_witness:
  "could_be_in_flight (ex_check (relay_aware_reader ex_reader (\<lambda>_. Inl ''429''))) ''0xdead'' 50000 (Some 880) =
     Inr False
   \<and> could_be_in_flight (ex_check (relay_aware_reader ex_reader (\<lambda>_. Inl ''429''))) ''0xdead'' 50000 (Some 890) \<noteq>
     Inr False"
  using relay_never_releases [of "ex_check (relay_aware_reader ex_reader (\<lambda>_. Inl ''429''))" ex_reader
      "\<lambda>_. Inl ''429''" "''0xdead''" 50000 "Some 880"]
    relay_never_releases [of "ex_check (relay_aware_reader ex_reader (\<lambda>_. Inl ''429''))" ex_reader
      "\<lambda>_. Inl ''429''" "''0xdead''" 50000 "Some 890"]
  by (simp add: ex_check_def ex_reader_def grace_def UNKNOWN_TX_GRACE_MS_def)

text \<open>A recorded deadline errs late. At submission it is never before the configured window nor
  (up to the one-day cap) before the deadline the relay declares; a repaired one is always the relay's own
  answer for a transaction it holds privately, never a guess.\<close>

theorem horizon_errs_late:
  "(\<forall>b. resolve_horizon horizonBlocks (Inr head) status = Inr b \<longrightarrow>
      head + horizonBlocks \<le> b
      \<and> (\<forall>st. status = Inr st \<and> rs_maxBlockNumber st \<le> head + 7200 \<longrightarrow> rs_maxBlockNumber st \<le> b))
   \<and> (\<forall>b. repair_horizon (Inr head) status = Inr (Some b) \<longrightarrow>
      (\<exists>st. status = Inr st \<and> rs_status st \<noteq> RelUNKNOWN \<and> \<not> rs_seenInMempool st
         \<and> 0 < rs_maxBlockNumber st \<and> b = min (rs_maxBlockNumber st) (head + 7200)))"
  by (auto simp: resolve_horizon_def repair_horizon_def clamp_declared_def MAX_RELAY_HORIZON_BLOCKS_def
      Let_def await_eq_Inr split: if_splits sum.splits)

theorem horizon_errs_late_witness:
  "\<exists>b. resolve_horizon 25 (Inr 100) (Inl ''timeout'') = Inr b \<and> 125 \<le> b"
  using horizon_errs_late [of 25 100 "Inl ''timeout''"]
  by (simp add: resolve_horizon_def Let_def)

end
