(* ===== verification/Reconcile.thy ===== *)
theory Reconcile
  imports Liveness StoreProps
begin

text \<open>
  Reconciling the in-flight intents with the chain, \<open>packages/engine/src/shared/reconcile.ts\<close>: the
  three resolvers, the routing between them, and the pass that applies their decisions to the store.
  Warnings are values; what the loop only logs is left out. A pass reads the clock once here.
\<close>

section \<open>Resolutions\<close>

datatype bucket = BucketConfirmed | BucketFailed | BucketStillInFlight

datatype reconcile_warning =
    WarnRevertedElsewhere hex
  | WarnNoEvent
  | WarnNeverMinedElsewhere hex
  | WarnKeptInMempool int

record resolution =
  re_status :: "intent_status option"
  re_meta :: transition_meta
  re_bucket :: bucket
  re_warn :: "reconcile_warning option"
  re_repairHorizon :: bool

definition confirmed_as :: "hex \<Rightarrow> resolution" where
  "confirmed_as h = \<lparr>re_status = Some Confirmed, re_meta = no_meta\<lparr>tm_txHash := Some h\<rparr>,
     re_bucket = BucketConfirmed, re_warn = None, re_repairHorizon = False\<rparr>"

definition failed_as :: "hex option \<Rightarrow> string \<Rightarrow> resolution" where
  "failed_as h e = \<lparr>re_status = Some Failed, re_meta = no_meta\<lparr>tm_txHash := h, tm_error := Some e\<rparr>,
     re_bucket = BucketFailed, re_warn = None, re_repairHorizon = False\<rparr>"

definition still_in_flight :: resolution where
  "still_in_flight = \<lparr>re_status = None, re_meta = no_meta, re_bucket = BucketStillInFlight,
     re_warn = None, re_repairHorizon = False\<rparr>"

definition still_in_flight_unfenced :: resolution where
  "still_in_flight_unfenced = still_in_flight\<lparr>re_repairHorizon := True\<rparr>"

text \<open>\<open>findElsewhere\<close>: a failed scan is not evidence.\<close>

datatype scan = ScanFound hex bool | ScanNothing | ScanUnknown

definition find_elsewhere :: "liveness_check \<Rightarrow> address \<Rightarrow> safe_envelope \<Rightarrow> scan" where
  "find_elsewhere lc safe env =
     (case cr_findSafe (lc_reader lc) safe (se_safeTxHash env) (en_claimBlock env) of
        Inl _ \<Rightarrow> ScanUnknown
      | Inr None \<Rightarrow> ScanNothing
      | Inr (Some (h, ok)) \<Rightarrow> ScanFound h ok)"

definition resolve_found :: "hex \<Rightarrow> bool \<Rightarrow> resolution" where
  "resolve_found h ok =
     (if ok then confirmed_as h else failed_as (Some h) ''Safe inner call reverted (ExecutionFailure)'')"

definition resolve_safe_intent :: "liveness_check \<Rightarrow> address \<Rightarrow> tx_intent \<Rightarrow> resolution outcome" where
  "resolve_safe_intent lc safe intent =
     (let h = the (ti_txHash intent); env = the (ti_safeEnvelope intent) in
      await (cr_safeExecution (lc_reader lc) h safe (se_safeTxHash env)) (\<lambda>outcome. Inr
        (case outcome of
           Some SafeSuccess \<Rightarrow> confirmed_as h
         | Some SafeFailure \<Rightarrow> failed_as (Some h) ''Safe inner call reverted (ExecutionFailure)''
         | Some SafeReverted \<Rightarrow>
             (case find_elsewhere lc safe env of
                ScanUnknown \<Rightarrow> still_in_flight
              | ScanFound h' ok \<Rightarrow> (resolve_found h' ok)\<lparr>re_warn := Some (WarnRevertedElsewhere h')\<rparr>
              | ScanNothing \<Rightarrow> failed_as (Some h) ''Safe execTransaction reverted'')
         | Some SafeNoEvent \<Rightarrow>
             (failed_as (Some h) ''Safe tx mined without a matching Execution event'')
               \<lparr>re_warn := Some WarnNoEvent\<rparr>
         | None \<Rightarrow>
             if lc_now lc - ti_updatedAt intent < grace lc then still_in_flight
             else (case find_elsewhere lc safe env of
                ScanUnknown \<Rightarrow> still_in_flight
              | ScanNothing \<Rightarrow> still_in_flight
              | ScanFound h' ok \<Rightarrow> (resolve_found h' ok)\<lparr>re_warn := Some (WarnNeverMinedElsewhere h')\<rparr>))))"

definition resolve_broadcast_intent ::
  "liveness_check \<Rightarrow> int \<Rightarrow> int \<Rightarrow> tx_intent \<Rightarrow> resolution outcome" where
  "resolve_broadcast_intent lc latest pending intent =
     (let h = the (ti_txHash intent) in
      await (cr_receiptStatus (lc_reader lc) h) (\<lambda>status.
        if status = Some RcSuccess then Inr (confirmed_as h)
        else if status = Some RcReverted then Inr (failed_as (Some h) ''reverted (reconciled)'')
        else case ti_nonce intent of
          None \<Rightarrow> Inr still_in_flight
        | Some n \<Rightarrow>
            if latest > n then Inr (failed_as (Some h) ''dropped/replaced (reconciled)'')
            else await
              (if pending \<le> n
               then await (could_be_in_flight lc h (ti_updatedAt intent) (ti_relayMaxBlock intent))
                      (\<lambda>live. Inr (\<not> live))
               else Inr False)
              (\<lambda>refused.
                 if refused then Inr (failed_as (Some h) ''not accepted (reconciled)'')
                 else if lc_reclaimMarginBlocks lc \<noteq> None \<and> ti_relayMaxBlock intent = None
                 then Inr still_in_flight_unfenced
                 else Inr still_in_flight)))"

definition resolve_unbroadcast_intent ::
  "liveness_check \<Rightarrow> int \<Rightarrow> int \<Rightarrow> tx_intent \<Rightarrow> resolution" where
  "resolve_unbroadcast_intent lc latest pending intent =
     (if ti_status intent = Pending \<and> ti_nonce intent = None \<and> ti_txHash intent = None
         \<and> lc_now lc - ti_updatedAt intent < grace lc
      then still_in_flight
      else case ti_nonce intent of
        None \<Rightarrow> failed_as None ''not broadcast (reconciled)''
      | Some n \<Rightarrow>
          if latest > n then failed_as None ''nonce mined without recorded hash''
          else if pending > n
          then \<lparr>re_status = Some Submitted,
                 re_meta = no_meta\<lparr>tm_error := Some ''broadcast unconfirmed on boot''\<rparr>,
                 re_bucket = BucketStillInFlight, re_warn = Some (WarnKeptInMempool n),
                 re_repairHorizon = False\<rparr>
          else failed_as None ''not broadcast (reconciled)'')"

section \<open>The pass\<close>

record pass =
  ps_liveness :: liveness_check
  ps_signer :: address
  ps_latest :: int
  ps_pending :: int
  ps_sending :: "string \<Rightarrow> bool"
  ps_repair :: "(hex \<Rightarrow> int option outcome) option"

record summary =
  sm_examined :: nat
  sm_confirmed :: nat
  sm_failed :: nat
  sm_stillInFlight :: nat

definition count_bucket :: "bucket \<Rightarrow> summary \<Rightarrow> summary" where
  "count_bucket b sm = (case b of
     BucketConfirmed \<Rightarrow> sm\<lparr>sm_confirmed := Suc (sm_confirmed sm)\<rparr>
   | BucketFailed \<Rightarrow> sm\<lparr>sm_failed := Suc (sm_failed sm)\<rparr>
   | BucketStillInFlight \<Rightarrow> sm\<lparr>sm_stillInFlight := Suc (sm_stillInFlight sm)\<rparr>)"

definition as_read :: "tx_intent \<Rightarrow> expectation" where
  "as_read i = \<lparr>ex_updatedAt = Some (ti_updatedAt i), ex_txHash = ti_txHash i,
     ex_status = Some [ti_status i]\<rparr>"

definition resolve_intent :: "pass \<Rightarrow> tx_intent \<Rightarrow> resolution outcome" where
  "resolve_intent ps intent =
     (if is_safe intent then resolve_safe_intent (ps_liveness ps) (ps_signer ps) intent
      else if is_broadcast intent
      then resolve_broadcast_intent (ps_liveness ps) (ps_latest ps) (ps_pending ps) intent
      else Inr (resolve_unbroadcast_intent (ps_liveness ps) (ps_latest ps) (ps_pending ps) intent))"

text \<open>\<open>recoverHorizon\<close> never throws: a failed probe leaves the row as it is.\<close>

definition recover_horizon :: "'db store_ops \<Rightarrow> pass \<Rightarrow> tx_intent \<Rightarrow> 'db \<Rightarrow> 'db" where
  "recover_horizon ops ps intent db =
     (case ps_repair ps of
        None \<Rightarrow> db
      | Some repair \<Rightarrow>
          (case repair (the (ti_txHash intent)) of
             Inl _ \<Rightarrow> db
           | Inr None \<Rightarrow> db
           | Inr (Some b) \<Rightarrow>
               snd (so_transition ops (lc_now (ps_liveness ps)) (ti_id intent) (ti_status intent)
                 (no_meta\<lparr>tm_relayMaxBlock := Some b\<rparr>) (as_read intent) db)))"

definition apply_resolution :: "'db store_ops \<Rightarrow> pass \<Rightarrow> tx_intent \<Rightarrow> resolution \<Rightarrow> 'db \<Rightarrow> 'db" where
  "apply_resolution ops ps intent re db =
     (case re_status re of
        Some s \<Rightarrow> snd (so_transition ops (lc_now (ps_liveness ps)) (ti_id intent) s (re_meta re)
                    (as_read intent) db)
      | None \<Rightarrow> if re_repairHorizon re \<and> is_broadcast intent then recover_horizon ops ps intent db
                else db)"

fun reconcile_loop ::
  "'db store_ops \<Rightarrow> pass \<Rightarrow> tx_intent list \<Rightarrow> summary \<Rightarrow> 'db \<Rightarrow> summary outcome \<times> 'db" where
  "reconcile_loop ops ps [] sm db = (Inr sm, db)"
| "reconcile_loop ops ps (intent # rest) sm db =
     (if ps_sending ps (ti_id intent)
      then reconcile_loop ops ps rest (count_bucket BucketStillInFlight sm) db
      else case resolve_intent ps intent of
             Inl e \<Rightarrow> (Inl e, db)
           | Inr re \<Rightarrow> reconcile_loop ops ps rest (count_bucket (re_bucket re) sm)
                        (apply_resolution ops ps intent re db))"

text \<open>The reads a pass makes before its loop: the head only when a deadline can be judged against
  it, the signer's counts only when some intent carries a nonce.\<close>

definition read_pass ::
  "chain_reader \<Rightarrow> address \<Rightarrow> millis \<Rightarrow> int option \<Rightarrow> int option \<Rightarrow> (string \<Rightarrow> bool)
     \<Rightarrow> (hex \<Rightarrow> int option outcome) option \<Rightarrow> tx_intent list \<Rightarrow> pass outcome" where
  "read_pass reader signer now graceMs margin sending repair inflight =
     await (case margin of None \<Rightarrow> Inr None
            | Some _ \<Rightarrow> await (cr_blockNumber reader) (\<lambda>b. Inr (Some b))) (\<lambda>head.
     await (if list_ex (\<lambda>i. ti_nonce i \<noteq> None) inflight
            then await (cr_nonce reader signer TagLatest) (\<lambda>latest.
                 await (cr_nonce reader signer TagPending) (\<lambda>pending. Inr (latest, pending)))
            else Inr (0, 0)) (\<lambda>(latest, pending).
       Inr \<lparr>ps_liveness = \<lparr>lc_reader = reader, lc_now = now, lc_graceMs = graceMs,
                lc_reclaimMarginBlocks = margin, lc_head = head\<rparr>,
            ps_signer = signer, ps_latest = latest, ps_pending = pending,
            ps_sending = sending, ps_repair = repair\<rparr>))"

definition empty_summary :: "nat \<Rightarrow> summary" where
  "empty_summary n = \<lparr>sm_examined = n, sm_confirmed = 0, sm_failed = 0, sm_stillInFlight = 0\<rparr>"

definition reconcile_pending ::
  "'db store_ops \<Rightarrow> chain_reader \<Rightarrow> address \<Rightarrow> millis \<Rightarrow> int option \<Rightarrow> int option \<Rightarrow> (string \<Rightarrow> bool)
     \<Rightarrow> (hex \<Rightarrow> int option outcome) option \<Rightarrow> 'db \<Rightarrow> summary outcome \<times> 'db" where
  "reconcile_pending ops reader signer now graceMs margin sending repair db =
     (let inflight = so_reconcile ops db; sm = empty_summary (length inflight) in
      if inflight = [] then (Inr sm, db)
      else case read_pass reader signer now graceMs margin sending repair inflight of
             Inl e \<Rightarrow> (Inl e, db)
           | Inr ps \<Rightarrow> reconcile_loop ops ps inflight sm db)"

section \<open>What a pass does to a row\<close>

lemma as_read_holds: "expected_holds (as_read i) i"
  by (simp add: expected_holds_def as_read_def split: option.split)

definition resolved :: "pass \<Rightarrow> tx_intent \<Rightarrow> resolution \<Rightarrow> tx_intent" where
  "resolved ps i re =
     (case re_status re of
        Some s \<Rightarrow> moved (lc_now (ps_liveness ps)) s (re_meta re) i
      | None \<Rightarrow>
          if re_repairHorizon re \<and> is_broadcast i
          then (case ps_repair ps of
                  None \<Rightarrow> i
                | Some repair \<Rightarrow>
                    (case repair (the (ti_txHash i)) of
                       Inr (Some b) \<Rightarrow> moved (lc_now (ps_liveness ps)) (ti_status i)
                          (no_meta\<lparr>tm_relayMaxBlock := Some b\<rparr>) i
                     | _ \<Rightarrow> i))
          else i)"

lemma resolved_status:
  "ti_status (resolved ps i re) = (case re_status re of Some s \<Rightarrow> s | None \<Rightarrow> ti_status i)"
  by (auto simp: resolved_def moved_def split: option.split sum.split)

context intent_table begin

lemma transition_lookup:
  assumes "wf db"
  shows "wf (snd (so_transition ops now i to m e db))"
    and "so_lookup ops (snd (so_transition ops now i to m e db)) k =
      (if i = k then map_option (\<lambda>r. if expected_holds e r then moved now to m r else r) (so_lookup ops db k)
       else so_lookup ops db k)"
proof -
  have s: "snd (store_apply ops now (DoTransition i to m e) db) = snd (so_transition ops now i to m e db)"
    by (simp add: split_beta)
  have t: "touch now (DoTransition j to m e) = (\<lambda>r. if expected_holds e r then moved now to m r else r)" for j
    by (intro ext) simp
  show "wf (snd (so_transition ops now i to m e db))"
    using wf_apply [OF assms, of now "DoTransition i to m e"] unfolding s .
  show "so_lookup ops (snd (so_transition ops now i to m e db)) k =
      (if i = k then map_option (\<lambda>r. if expected_holds e r then moved now to m r else r) (so_lookup ops db k)
       else so_lookup ops db k)"
    using apply_effect [OF assms, of now "DoTransition i to m e" k] unfolding s
    by (simp add: t del: touch.simps)
qed

lemma apply_resolution_lookup:
  assumes "wf db" "so_lookup ops db (ti_id i) = Some i"
  shows "wf (apply_resolution ops ps i re db)"
    and "so_lookup ops (apply_resolution ops ps i re db) k =
      (if k = ti_id i then Some (resolved ps i re) else so_lookup ops db k)"
  using assms
  by (auto simp: apply_resolution_def recover_horizon_def resolved_def transition_lookup as_read_holds
      split: option.split sum.split)

lemma loop_lookup:
  assumes "wf db" "distinct (map ti_id is)" "\<forall>i \<in> set is. so_lookup ops db (ti_id i) = Some i"
  shows "wf (snd (reconcile_loop ops ps is sm db))
    \<and> (so_lookup ops (snd (reconcile_loop ops ps is sm db)) k = so_lookup ops db k
       \<or> (\<exists>i re. i \<in> set is \<and> ti_id i = k \<and> \<not> ps_sending ps k \<and> resolve_intent ps i = Inr re
            \<and> so_lookup ops (snd (reconcile_loop ops ps is sm db)) k = Some (resolved ps i re)))"
  using assms
proof (induction "is" arbitrary: sm db)
  case (Cons i rest)
  have rest: "distinct (map ti_id rest)" "ti_id i \<notin> ti_id ` set rest" using Cons.prems(2) by auto
  show ?case
  proof (cases "ps_sending ps (ti_id i)")
    case True
    with Cons.IH [of db "count_bucket BucketStillInFlight sm"] Cons.prems rest show ?thesis by auto
  next
    case False
    show ?thesis
    proof (cases "resolve_intent ps i")
      case (Inl e)
      with False Cons.prems show ?thesis by simp
    next
      case (Inr re)
      let ?db = "apply_resolution ops ps i re db"
      have i: "so_lookup ops db (ti_id i) = Some i" using Cons.prems(3) by simp
      note lk = apply_resolution_lookup [OF Cons.prems(1) i, of ps re]
      have "\<forall>j \<in> set rest. so_lookup ops ?db (ti_id j) = Some j"
        using Cons.prems(3) rest(2) lk(2) by (auto simp: image_iff)
      note IH = Cons.IH [OF lk(1) rest(1) this, of "count_bucket (re_bucket re) sm"]
      have eq: "snd (reconcile_loop ops ps (i # rest) sm db) =
          snd (reconcile_loop ops ps rest (count_bucket (re_bucket re) sm) ?db)"
        using False Inr by simp
      show ?thesis
      proof (cases "k = ti_id i")
        case True
        with IH rest(2) lk(2) [of k] False Inr show ?thesis
          unfolding eq by (auto simp: image_iff)
      next
        case other: False
        with IH lk(2) [of k] show ?thesis unfolding eq by auto
      qed
    qed
  qed
qed simp

lemma reconcile_lookup:
  assumes "wf db"
  shows "so_lookup ops (snd (reconcile_pending ops reader signer now g m sending repair db)) k = so_lookup ops db k
    \<or> (\<exists>ps i re. read_pass reader signer now g m sending repair (so_reconcile ops db) = Inr ps
         \<and> so_lookup ops db k = Some i \<and> ti_status i \<in> set IN_FLIGHT_ON_CHAIN \<and> \<not> sending k
         \<and> resolve_intent ps i = Inr re
         \<and> so_lookup ops (snd (reconcile_pending ops reader signer now g m sending repair db)) k =
             Some (resolved ps i re))"
proof (cases "so_reconcile ops db = []")
  case True
  then show ?thesis by (simp add: reconcile_pending_def)
next
  case False
  show ?thesis
  proof (cases "read_pass reader signer now g m sending repair (so_reconcile ops db)")
    case (Inl e)
    with False show ?thesis by (simp add: reconcile_pending_def)
  next
    case (Inr ps)
    let ?is = "so_reconcile ops db"
    have eq: "snd (reconcile_pending ops reader signer now g m sending repair db) =
        snd (reconcile_loop ops ps ?is (empty_summary (length ?is)) db)"
      using False Inr by (simp add: reconcile_pending_def Let_def)
    have rd: "\<forall>i \<in> set ?is. so_lookup ops db (ti_id i) = Some i \<and> ti_status i \<in> set IN_FLIGHT_ON_CHAIN"
      using lookup_key [OF assms] by (auto simp: reconcile_set [OF assms])
    have snd: "ps_sending ps = sending"
      using Inr by (auto simp: read_pass_def await_eq_Inr)
    show ?thesis
      using loop_lookup [OF assms reconcile_distinct [OF assms], of ps "empty_summary (length ?is)" k] rd Inr
      unfolding eq snd by blast
  qed
qed

end

text \<open>The counters of a pass that ends add up to the rows it examined.\<close>

lemma loop_counts:
  "fst (reconcile_loop ops ps is sm db) = Inr sm' \<Longrightarrow>
     sm_confirmed sm' + sm_failed sm' + sm_stillInFlight sm' =
       sm_confirmed sm + sm_failed sm + sm_stillInFlight sm + length is
     \<and> sm_examined sm' = sm_examined sm"
proof (induction "is" arbitrary: sm db)
  case (Cons i rest)
  have cnt: "sm_confirmed (count_bucket b sm) + sm_failed (count_bucket b sm) +
      sm_stillInFlight (count_bucket b sm) = Suc (sm_confirmed sm + sm_failed sm + sm_stillInFlight sm)
    \<and> sm_examined (count_bucket b sm) = sm_examined sm" for b
    by (simp add: count_bucket_def split: bucket.split)
  show ?case
  proof (cases "ps_sending ps (ti_id i)")
    case True
    with Cons.IH [of "count_bucket BucketStillInFlight sm" db] Cons.prems cnt [of BucketStillInFlight]
    show ?thesis by simp
  next
    case False
    with Cons.prems obtain re where re: "resolve_intent ps i = Inr re"
      by (cases "resolve_intent ps i") auto
    with Cons.IH [of "count_bucket (re_bucket re) sm" "apply_resolution ops ps i re db"] Cons.prems
      cnt [of "re_bucket re"] False
    show ?thesis by simp
  qed
qed simp

section \<open>Verdicts\<close>

lemma confirmed_as_simps [simp]:
  "re_status (confirmed_as h) = Some Confirmed" "re_bucket (confirmed_as h) = BucketConfirmed"
  by (simp_all add: confirmed_as_def)

lemma failed_as_simps [simp]:
  "re_status (failed_as h e) = Some Failed" "re_bucket (failed_as h e) = BucketFailed"
  by (simp_all add: failed_as_def)

lemma still_in_flight_simps [simp]:
  "re_status still_in_flight = None" "re_bucket still_in_flight = BucketStillInFlight"
  "re_status still_in_flight_unfenced = None" "re_bucket still_in_flight_unfenced = BucketStillInFlight"
  by (simp_all add: still_in_flight_def still_in_flight_unfenced_def)

text \<open>The evidence on which the subject of a broadcast intent may be freed.\<close>

definition dead :: "pass \<Rightarrow> tx_intent \<Rightarrow> bool" where
  "dead ps i \<longleftrightarrow>
     cr_receiptStatus (lc_reader (ps_liveness ps)) (the (ti_txHash i)) = Inr (Some RcReverted)
     \<or> (cr_receiptStatus (lc_reader (ps_liveness ps)) (the (ti_txHash i)) = Inr None
        \<and> (\<exists>n. ti_nonce i = Some n \<and> (n < ps_latest ps
             \<or> (ps_pending ps \<le> n \<and> could_be_in_flight (ps_liveness ps) (the (ti_txHash i))
                   (ti_updatedAt i) (ti_relayMaxBlock i) = Inr False))))"

lemma receipt_cases: "x \<noteq> Some RcSuccess \<Longrightarrow> x \<noteq> Some RcReverted \<Longrightarrow> x = None"
  by (cases x; cases "the x") auto

lemma broadcast_verdict:
  assumes "resolve_broadcast_intent (ps_liveness ps) (ps_latest ps) (ps_pending ps) i = Inr re"
  shows "re_status re = Some Confirmed \<longleftrightarrow>
      cr_receiptStatus (lc_reader (ps_liveness ps)) (the (ti_txHash i)) = Inr (Some RcSuccess)"
    and "re_status re = Some Failed \<longleftrightarrow> dead ps i"
    and "re_status re \<in> {None, Some Confirmed, Some Failed}"
proof -
  obtain st where st: "cr_receiptStatus (lc_reader (ps_liveness ps)) (the (ti_txHash i)) = Inr st"
    using assms by (auto simp: resolve_broadcast_intent_def Let_def await_eq_Inr)
  consider "st = Some RcSuccess" | "st = Some RcReverted" | "st = None" using receipt_cases by blast
  then have "(re_status re = Some Confirmed \<longleftrightarrow> st = Some RcSuccess)
    \<and> (re_status re = Some Failed \<longleftrightarrow> dead ps i)
    \<and> re_status re \<in> {None, Some Confirmed, Some Failed}"
  proof cases
    case 3
    show ?thesis
    proof (cases "ti_nonce i")
      case None
      with 3 assms st show ?thesis by (auto simp: resolve_broadcast_intent_def dead_def Let_def)
    next
      case (Some n)
      show ?thesis
      proof (cases "\<not> n < ps_latest ps \<and> ps_pending ps \<le> n")
        case True
        obtain live where "could_be_in_flight (ps_liveness ps) (the (ti_txHash i)) (ti_updatedAt i)
            (ti_relayMaxBlock i) = Inr live"
          using 3 assms st Some True by (auto simp: resolve_broadcast_intent_def Let_def await_eq_Inr)
        with 3 assms st Some True show ?thesis
          by (auto simp: resolve_broadcast_intent_def dead_def Let_def split: if_splits)
      next
        case False
        with 3 assms st Some show ?thesis
          by (auto simp: resolve_broadcast_intent_def dead_def Let_def split: if_splits)
      qed
    qed
  qed (use assms st in \<open>auto simp: resolve_broadcast_intent_def dead_def Let_def\<close>)
  with st show "re_status re = Some Confirmed \<longleftrightarrow>
      cr_receiptStatus (lc_reader (ps_liveness ps)) (the (ti_txHash i)) = Inr (Some RcSuccess)"
    "re_status re = Some Failed \<longleftrightarrow> dead ps i"
    "re_status re \<in> {None, Some Confirmed, Some Failed}"
    by auto
qed

text \<open>What may end an intent broadcast through a Safe: the Safe's own event for the SafeTx, found in
  the recorded transaction or by a scan that ran, or a mined transaction that ran nothing.\<close>

definition safe_executed :: "pass \<Rightarrow> tx_intent \<Rightarrow> bool \<Rightarrow> bool" where
  "safe_executed ps i ok \<longleftrightarrow>
     cr_safeExecution (lc_reader (ps_liveness ps)) (the (ti_txHash i)) (ps_signer ps)
         (se_safeTxHash (the (ti_safeEnvelope i))) = Inr (Some (if ok then SafeSuccess else SafeFailure))
     \<or> (\<exists>h. cr_findSafe (lc_reader (ps_liveness ps)) (ps_signer ps)
         (se_safeTxHash (the (ti_safeEnvelope i))) (en_claimBlock (the (ti_safeEnvelope i))) =
         Inr (Some (h, ok)))"

definition safe_never_ran :: "pass \<Rightarrow> tx_intent \<Rightarrow> bool" where
  "safe_never_ran ps i \<longleftrightarrow>
     cr_safeExecution (lc_reader (ps_liveness ps)) (the (ti_txHash i)) (ps_signer ps)
         (se_safeTxHash (the (ti_safeEnvelope i))) = Inr (Some SafeNoEvent)
     \<or> (cr_safeExecution (lc_reader (ps_liveness ps)) (the (ti_txHash i)) (ps_signer ps)
         (se_safeTxHash (the (ti_safeEnvelope i))) = Inr (Some SafeReverted)
        \<and> cr_findSafe (lc_reader (ps_liveness ps)) (ps_signer ps)
         (se_safeTxHash (the (ti_safeEnvelope i))) (en_claimBlock (the (ti_safeEnvelope i))) = Inr None)"

lemma safe_verdict:
  assumes "resolve_safe_intent (ps_liveness ps) (ps_signer ps) i = Inr re"
  shows "re_status re = Some Confirmed \<Longrightarrow> safe_executed ps i True"
    and "re_status re = Some Failed \<Longrightarrow> safe_executed ps i False \<or> safe_never_ran ps i"
    and "re_status re \<in> {None, Some Confirmed, Some Failed}"
proof -
  let ?env = "the (ti_safeEnvelope i)"
  obtain outcome where oc: "cr_safeExecution (lc_reader (ps_liveness ps)) (the (ti_txHash i)) (ps_signer ps)
      (se_safeTxHash ?env) = Inr outcome"
    using assms by (auto simp: resolve_safe_intent_def Let_def await_eq_Inr)
  let ?scan = "cr_findSafe (lc_reader (ps_liveness ps)) (ps_signer ps) (se_safeTxHash ?env) (en_claimBlock ?env)"
  note defs = resolve_safe_intent_def Let_def resolve_found_def safe_executed_def safe_never_ran_def
    find_elsewhere_def
  have "(re_status re = Some Confirmed \<longrightarrow> safe_executed ps i True)
    \<and> (re_status re = Some Failed \<longrightarrow> safe_executed ps i False \<or> safe_never_ran ps i)
    \<and> re_status re \<in> {None, Some Confirmed, Some Failed}"
  proof (cases outcome)
    case None
    with assms oc show ?thesis
      by (cases ?scan) (auto simp: defs split: if_splits option.splits)
  next
    case (Some o')
    with assms oc show ?thesis
      by (cases o'; cases ?scan) (auto simp: defs split: if_splits option.splits)
  qed
  then show "re_status re = Some Confirmed \<Longrightarrow> safe_executed ps i True"
    "re_status re = Some Failed \<Longrightarrow> safe_executed ps i False \<or> safe_never_ran ps i"
    "re_status re \<in> {None, Some Confirmed, Some Failed}" by blast+
qed

lemma verdict_status: "resolve_intent ps i = Inr re \<Longrightarrow> re_status re \<in> {None, Some Confirmed, Some Failed, Some Submitted}"
  using broadcast_verdict(3) [of ps i re] safe_verdict(3) [of ps i re]
  by (auto simp: resolve_intent_def resolve_unbroadcast_intent_def split: if_splits option.splits)

section \<open>Properties of reconciliation\<close>

text \<open>C11: a pass frees the subject of a signed transaction only on evidence that it is dead. If a row
  that was in flight with a recorded hash (and no Safe envelope) comes out of a pass as failed, its
  receipt says reverted, or it has no receipt and its nonce was mined by another transaction, or is
  still free while the transaction can no longer be on the wire.\<close>

theorem reconcile_frees_only_dead:
  assumes "pg_lookup (store_run pg_ops cs pg_empty) k = Some i"
    and "ti_status i \<in> {Pending, Submitted}" "ti_txHash i = Some h" "ti_safeEnvelope i = None"
    and "pg_lookup (snd (reconcile_pending pg_ops reader signer now g m sending repair
           (store_run pg_ops cs pg_empty))) k = Some i'" "ti_status i' = Failed"
  shows "\<exists>ps. read_pass reader signer now g m sending repair
        (pg_reconcile (store_run pg_ops cs pg_empty)) = Inr ps \<and> dead ps i"
proof -
  let ?db = "store_run pg_ops cs pg_empty"
  have "i' \<noteq> i" using assms(2,6) by auto
  then obtain ps re where ps: "read_pass reader signer now g m sending repair (pg_reconcile ?db) = Inr ps"
    "resolve_intent ps i = Inr re" "i' = resolved ps i re"
    using pg.reconcile_lookup [OF pg_run_wf [of cs], of reader signer now g m sending repair k] assms(1,5)
    by (auto simp: pg_lookup_ops) (auto simp: pg_ops_def)
  then have "resolve_broadcast_intent (ps_liveness ps) (ps_latest ps) (ps_pending ps) i = Inr re"
    using assms(3,4) by (simp add: resolve_intent_def is_safe_def is_broadcast_def)
  moreover have "re_status re = Some Failed"
    using ps(3) assms(2,6) by (auto simp: resolved_status split: option.splits)
  ultimately have "dead ps i" using broadcast_verdict(2) by blast
  with ps(1) show ?thesis by blast
qed

definition ex_attempt :: "(millis \<times> store_op) list" where
  "ex_attempt = [(5, DoRecord (ex_intent ''0xPos'')),
     (6, DoTransition ex_id Pending (no_meta\<lparr>tm_nonce := Some 5, tm_txHash := Some ''0xgone''\<rparr>)
        (no_expectation\<lparr>ex_updatedAt := Some 5\<rparr>))]"

lemma ex_attempt_row:
  "\<exists>i. pg_lookup (store_run pg_ops ex_attempt pg_empty) ex_id = Some i \<and> ti_status i = Pending
     \<and> ti_txHash i = Some ''0xgone'' \<and> ti_nonce i = Some 5 \<and> ti_safeEnvelope i = None
     \<and> ti_updatedAt i = 6 \<and> ti_relayMaxBlock i = None \<and> ti_id i = ex_id"
  unfolding pg_run_lookup
  by (simp add: ex_attempt_def row_eval moved_def expected_holds_def no_expectation_def no_meta_def
      max_horizon_def)

lemma ex_attempt_list:
  assumes "pg_lookup (store_run pg_ops ex_attempt pg_empty) ex_id = Some i" "ti_status i = Pending"
  shows "pg_reconcile (store_run pg_ops ex_attempt pg_empty) = [i]"
proof -
  let ?db = "store_run pg_ops ex_attempt pg_empty"
  have "pg_lookup ?db k = None" if "k \<noteq> ex_id" for k
    using that unfolding pg_run_lookup by (simp add: ex_attempt_def row_eval)
  then have "pg_lookup ?db k = Some r \<longleftrightarrow> k = ex_id \<and> r = i" for k r
    using assms(1) by (cases "k = ex_id") auto
  with assms(2) have "set (pg_reconcile ?db) = {i}"
    unfolding pg_reconcile_set [OF pg_run_wf] by (auto simp: IN_FLIGHT_ON_CHAIN_def)
  moreover have "distinct (pg_reconcile ?db)"
    using pg_reconcile_distinct [OF pg_run_wf, of ex_attempt] by (simp add: distinct_map)
  ultimately show ?thesis
    by (cases "pg_reconcile ?db"; cases "tl (pg_reconcile ?db)") auto
qed

definition ex_mined_past :: chain_reader where
  "ex_mined_past = ex_reader\<lparr>cr_nonce := \<lambda>a tag. Inr 6\<rparr>"

lemma ex_pass:
  "ti_nonce i \<noteq> None \<Longrightarrow>
   read_pass ex_mined_past ''0xBot'' 100000 None None (\<lambda>_. False) None [i] =
     Inr \<lparr>ps_liveness = \<lparr>lc_reader = ex_mined_past, lc_now = 100000, lc_graceMs = None,
        lc_reclaimMarginBlocks = None, lc_head = None\<rparr>, ps_signer = ''0xBot'', ps_latest = 6,
        ps_pending = 6, ps_sending = (\<lambda>_. False), ps_repair = None\<rparr>"
  by (simp add: read_pass_def ex_mined_past_def)

theorem reconcile_frees_only_dead_witness:
  "\<exists>i ps. pg_lookup (store_run pg_ops ex_attempt pg_empty) ex_id = Some i
     \<and> read_pass ex_mined_past ''0xBot'' 100000 None None (\<lambda>_. False) None
         (pg_reconcile (store_run pg_ops ex_attempt pg_empty)) = Inr ps \<and> dead ps i"
proof -
  let ?db = "store_run pg_ops ex_attempt pg_empty"
  obtain i where i: "pg_lookup ?db ex_id = Some i" "ti_status i = Pending" "ti_txHash i = Some ''0xgone''"
    "ti_nonce i = Some 5" "ti_safeEnvelope i = None" "ti_id i = ex_id"
    using ex_attempt_row by blast
  note list = ex_attempt_list [OF i(1,2)]
  have n: "ti_nonce i \<noteq> None" using i(4) by simp
  let ?ps = "\<lparr>ps_liveness = \<lparr>lc_reader = ex_mined_past, lc_now = 100000, lc_graceMs = None,
        lc_reclaimMarginBlocks = None, lc_head = None\<rparr>, ps_signer = ''0xBot'', ps_latest = 6,
        ps_pending = 6, ps_sending = (\<lambda>_. False), ps_repair = None\<rparr> :: pass"
  let ?re = "failed_as (Some ''0xgone'') ''dropped/replaced (reconciled)''"
  have re: "resolve_intent ?ps i = Inr ?re"
    using i by (simp add: resolve_intent_def is_safe_def is_broadcast_def resolve_broadcast_intent_def
        ex_mined_past_def ex_reader_def)
  have rec: "so_reconcile pg_ops ?db = [i]" using list by (simp add: pg_ops_def)
  have "snd (reconcile_pending pg_ops ex_mined_past ''0xBot'' 100000 None None (\<lambda>_. False) None ?db) =
      apply_resolution pg_ops ?ps i ?re ?db"
    using ex_pass [OF n] re by (simp add: reconcile_pending_def rec i(6))
  moreover have "pg_lookup (apply_resolution pg_ops ?ps i ?re ?db) ex_id = Some (resolved ?ps i ?re)"
    using pg.apply_resolution_lookup(2) [OF pg_run_wf [of ex_attempt], of i ?ps ?re ex_id] i(1,6)
    by (simp add: pg_lookup_ops)
  moreover have "ti_status (resolved ?ps i ?re) = Failed" by (simp add: resolved_status)
  ultimately show ?thesis
    using reconcile_frees_only_dead [OF i(1) _ i(3,5), of ex_mined_past "''0xBot''" 100000 None None
        "\<lambda>_. False" None "resolved ?ps i ?re"] i(1,2) by auto
qed

text \<open>C12: an action sent through a Safe is judged by the Safe's own event, never by the outer
  receipt. A pass confirms it only if the SafeTx executed, in the recorded transaction or in another
  one a scan found, and fails it only if it executed and its inner call failed, or a mined transaction
  ran nothing; a scan that could not be completed decides nothing.\<close>

theorem safe_judged_by_event:
  assumes "pg_lookup (store_run pg_ops cs pg_empty) k = Some i"
    and "ti_status i \<in> {Pending, Submitted}" "ti_txHash i = Some h" "ti_safeEnvelope i = Some env"
    and "pg_lookup (snd (reconcile_pending pg_ops reader safe now g m sending repair
           (store_run pg_ops cs pg_empty))) k = Some i'" "ti_status i' \<noteq> ti_status i"
  shows "\<exists>ps. lc_reader (ps_liveness ps) = reader \<and> ps_signer ps = safe
    \<and> (ti_status i' = Confirmed \<and> safe_executed ps i True
       \<or> ti_status i' = Failed \<and> (safe_executed ps i False \<or> safe_never_ran ps i))"
proof -
  let ?db = "store_run pg_ops cs pg_empty"
  have "i' \<noteq> i" using assms(6) by auto
  then obtain ps re where ps: "read_pass reader safe now g m sending repair (pg_reconcile ?db) = Inr ps"
    "resolve_intent ps i = Inr re" "i' = resolved ps i re"
    using pg.reconcile_lookup [OF pg_run_wf [of cs], of reader safe now g m sending repair k] assms(1,5)
    by (auto simp: pg_lookup_ops) (auto simp: pg_ops_def)
  have re: "resolve_safe_intent (ps_liveness ps) (ps_signer ps) i = Inr re"
    using ps(2) assms(3,4) by (simp add: resolve_intent_def is_safe_def is_broadcast_def)
  obtain s where s: "re_status re = Some s" "ti_status i' = s"
    using ps(3) assms(6) by (auto simp: resolved_status split: option.splits)
  have "lc_reader (ps_liveness ps) = reader" "ps_signer ps = safe"
    using ps(1) by (auto simp: read_pass_def await_eq_Inr)
  with s safe_verdict [OF re] show ?thesis by auto
qed

definition ex_safe_attempt :: "(millis \<times> store_op) list" where
  "ex_safe_attempt = [(1, DoPropose (ex_intent ''0xPos'') ex_payload ''0xh''),
     (2, DoClaim ex_id ''0xh'' (Some ex_envelope)), (3, DoMark ex_id ''0xouter'' ''0xh'')]"

definition ex_safe_reader :: chain_reader where
  "ex_safe_reader = ex_reader\<lparr>cr_safeExecution := \<lambda>h a s. Inr (Some SafeReverted),
     cr_findSafe := \<lambda>a s n. Inr (Some (''0xwinner'', True))\<rparr>"

theorem safe_judged_by_event_witness:
  "\<exists>i ps. pg_lookup (store_run pg_ops ex_safe_attempt pg_empty) ex_id = Some i
     \<and> lc_reader (ps_liveness ps) = ex_safe_reader \<and> safe_executed ps i True"
proof -
  let ?db = "store_run pg_ops ex_safe_attempt pg_empty"
  have chain: "ii_chainId (ex_intent s) = pt_chainId ex_payload" for s
    by (simp add: ex_intent_def ex_payload_def)
  obtain i where i: "pg_lookup ?db ex_id = Some i" "ti_status i = Submitted" "ti_txHash i = Some ''0xouter''"
    "ti_nonce i = None" "ti_safeEnvelope i = Some ex_envelope" "ti_id i = ex_id"
    unfolding pg_run_lookup by (simp add: ex_safe_attempt_def row_eval chain)
  have "pg_lookup ?db k = None" if "k \<noteq> ex_id" for k
    using that unfolding pg_run_lookup by (simp add: ex_safe_attempt_def row_eval)
  then have "pg_lookup ?db k = Some r \<longleftrightarrow> k = ex_id \<and> r = i" for k r
    using i(1) by (cases "k = ex_id") auto
  with i(2) have "set (pg_reconcile ?db) = {i}"
    unfolding pg_reconcile_set [OF pg_run_wf] by (auto simp: IN_FLIGHT_ON_CHAIN_def)
  moreover have "distinct (pg_reconcile ?db)"
    using pg_reconcile_distinct [OF pg_run_wf, of ex_safe_attempt] by (simp add: distinct_map)
  ultimately have rec: "so_reconcile pg_ops ?db = [i]"
    by (cases "pg_reconcile ?db"; cases "tl (pg_reconcile ?db)") (auto simp: pg_ops_def)
  let ?ps = "\<lparr>ps_liveness = \<lparr>lc_reader = ex_safe_reader, lc_now = 100000, lc_graceMs = None,
        lc_reclaimMarginBlocks = None, lc_head = None\<rparr>, ps_signer = ''0xSafe'', ps_latest = 0,
        ps_pending = 0, ps_sending = (\<lambda>_. False), ps_repair = None\<rparr> :: pass"
  let ?re = "(confirmed_as ''0xwinner'')\<lparr>re_warn := Some (WarnRevertedElsewhere ''0xwinner'')\<rparr>"
  have re: "resolve_intent ?ps i = Inr ?re"
    using i by (simp add: resolve_intent_def is_safe_def is_broadcast_def resolve_safe_intent_def
        ex_safe_reader_def find_elsewhere_def resolve_found_def)
  have "snd (reconcile_pending pg_ops ex_safe_reader ''0xSafe'' 100000 None None (\<lambda>_. False) None ?db) =
      apply_resolution pg_ops ?ps i ?re ?db"
    using i(4,6) re by (simp add: reconcile_pending_def rec read_pass_def)
  moreover have "pg_lookup (apply_resolution pg_ops ?ps i ?re ?db) ex_id = Some (resolved ?ps i ?re)"
    using pg.apply_resolution_lookup(2) [OF pg_run_wf [of ex_safe_attempt], of i ?ps ?re ex_id] i(1,6)
    by (simp add: pg_lookup_ops)
  moreover have "ti_status (resolved ?ps i ?re) = Confirmed" by (simp add: resolved_status)
  ultimately obtain ps where "lc_reader (ps_liveness ps) = ex_safe_reader"
    "Confirmed = Confirmed \<and> safe_executed ps i True \<or> Confirmed = Failed"
    using safe_judged_by_event [OF i(1) _ i(3,5), of ex_safe_reader "''0xSafe''" 100000 None None
        "\<lambda>_. False" None "resolved ?ps i ?re"] i(2) by auto
  with i(1) show ?thesis by auto
qed

text \<open>A pass keeps its hands off everything it does not judge: a row that is not in flight, or
  whose send this process is still running, is exactly what it was, and when the pass ends its
  counters add up to the rows it examined.\<close>

theorem reconcile_leaves_the_rest:
  assumes "sending k \<or> (\<forall>i. pg_lookup (store_run pg_ops cs pg_empty) k = Some i \<longrightarrow>
      ti_status i \<notin> {Pending, Submitted})"
  shows "pg_lookup (snd (reconcile_pending pg_ops reader signer now g m sending repair
        (store_run pg_ops cs pg_empty))) k = pg_lookup (store_run pg_ops cs pg_empty) k
    \<and> (\<forall>sm. fst (reconcile_pending pg_ops reader signer now g m sending repair
          (store_run pg_ops cs pg_empty)) = Inr sm \<longrightarrow>
        sm_examined sm = length (pg_reconcile (store_run pg_ops cs pg_empty))
        \<and> sm_confirmed sm + sm_failed sm + sm_stillInFlight sm = sm_examined sm)"
proof
  let ?db = "store_run pg_ops cs pg_empty"
  show "pg_lookup (snd (reconcile_pending pg_ops reader signer now g m sending repair ?db)) k = pg_lookup ?db k"
    using pg.reconcile_lookup [OF pg_run_wf [of cs], of reader signer now g m sending repair k] assms
    by (auto simp: pg_lookup_ops status_sets)
  show "\<forall>sm. fst (reconcile_pending pg_ops reader signer now g m sending repair ?db) = Inr sm \<longrightarrow>
        sm_examined sm = length (pg_reconcile ?db)
        \<and> sm_confirmed sm + sm_failed sm + sm_stillInFlight sm = sm_examined sm"
  proof (intro allI impI)
    fix sm
    assume "fst (reconcile_pending pg_ops reader signer now g m sending repair ?db) = Inr sm"
    then show "sm_examined sm = length (pg_reconcile ?db)
        \<and> sm_confirmed sm + sm_failed sm + sm_stillInFlight sm = sm_examined sm"
      using loop_counts [of pg_ops _ "so_reconcile pg_ops ?db" "empty_summary (length (so_reconcile pg_ops ?db))" ?db sm]
      by (auto simp: reconcile_pending_def Let_def empty_summary_def pg_ops_def
          split: if_splits sum.splits)
  qed
qed

theorem reconcile_leaves_the_rest_witness:
  "pg_lookup (snd (reconcile_pending pg_ops ex_mined_past ''0xBot'' 100000 None None (\<lambda>k. k = ex_id) None
      (store_run pg_ops ex_attempt pg_empty))) ex_id = pg_lookup (store_run pg_ops ex_attempt pg_empty) ex_id"
  using reconcile_leaves_the_rest [of "\<lambda>k. k = ex_id" ex_id ex_attempt] by blast

end
