(* ===== verification/Nonces.thy ===== *)
theory Nonces
  imports Prelude
begin

text \<open>
  The shared nonce authority, \<open>packages/execution/src/nonce.ts\<close>. A lease is a counter per signer;
  the allocator adds the hole a resync found. The promise chain of \<open>exclusive\<close> runs the critical
  sections one after the other, so each is one step: reserving a nonce for a send, and re-seeding
  from the chain. The read a resync awaits inside the lock is its argument.
\<close>

section \<open>Lease and allocator\<close>

type_synonym nonce_lease = "string \<rightharpoonup> int"

definition lease_reserve :: "address \<Rightarrow> nonce_lease \<Rightarrow> int outcome \<times> nonce_lease" where
  "lease_reserve signer lease =
     (let k = to_lower signer in
      case lease k of
        None \<Rightarrow> (Inl (''nonce lease for '' @ signer @ '' is not seeded (resync first)''), lease)
      | Some v \<Rightarrow> (Inr v, lease(k \<mapsto> v + 1)))"

definition lease_set :: "address \<Rightarrow> int \<Rightarrow> nonce_lease \<Rightarrow> nonce_lease" where
  "lease_set signer v lease = lease(to_lower signer \<mapsto> v)"

datatype nonce_seed = SeedNext int | SeedHole int "int option"

record allocator =
  al_lease :: nonce_lease
  al_reclaimable :: "int option"

definition create_allocator :: "nonce_lease \<Rightarrow> allocator" where
  "create_allocator lease = \<lparr>al_lease = lease, al_reclaimable = None\<rparr>"

text \<open>The nonce \<open>withNonce\<close> hands to its \<open>send\<close>. An error of \<open>send\<close> itself changes nothing here:
  there is no rollback.\<close>

definition with_nonce :: "address \<Rightarrow> allocator \<Rightarrow> int outcome \<times> allocator" where
  "with_nonce signer al =
     (case al_reclaimable al of
        Some hole \<Rightarrow> (Inr hole, al\<lparr>al_reclaimable := None\<rparr>)
      | None \<Rightarrow> (let (r, lease) = lease_reserve signer (al_lease al)
                in (r, al\<lparr>al_lease := lease\<rparr>)))"

definition seed_next :: "nonce_seed \<Rightarrow> int" where
  "seed_next seed = (case seed of SeedNext n \<Rightarrow> n | SeedHole n _ \<Rightarrow> n)"

definition seed_hole :: "nonce_seed \<Rightarrow> int option" where
  "seed_hole seed = (case seed of SeedNext _ \<Rightarrow> None | SeedHole _ h \<Rightarrow> h)"

definition resync :: "address \<Rightarrow> nonce_seed outcome \<Rightarrow> allocator \<Rightarrow> unit outcome \<times> allocator" where
  "resync signer read al =
     (case read of
        Inl e \<Rightarrow> (Inl e, al)
      | Inr seed \<Rightarrow>
          (Inr (), al\<lparr>al_reclaimable :=
               (case seed_hole seed of None \<Rightarrow> None
                | Some h \<Rightarrow> if h < seed_next seed then Some h else None),
             al_lease := lease_set signer (seed_next seed) (al_lease al)\<rparr>))"

section \<open>The contract of a nonce source\<close>

text \<open>
  A source gives out nonces from a set that only shrinks until it is re-seeded: what it gave it
  does not give again. The invariant \<open>inv\<close> is what the provider keeps of its own state.
\<close>

locale nonce_source =
  fixes take_nonce :: "'s \<Rightarrow> int outcome \<times> 's"
    and free :: "'s \<Rightarrow> int set"
    and inv :: "'s \<Rightarrow> bool"
  assumes take_inv: "inv s \<Longrightarrow> inv (snd (take_nonce s))"
    and take_free: "inv s \<Longrightarrow> fst (take_nonce s) = Inr n \<Longrightarrow> n \<in> free s"
    and take_removes: "inv s \<Longrightarrow> fst (take_nonce s) = Inr n \<Longrightarrow> free (snd (take_nonce s)) \<subseteq> free s - {n}"
    and take_fails: "inv s \<Longrightarrow> fst (take_nonce s) = Inl e \<Longrightarrow> free (snd (take_nonce s)) \<subseteq> free s"

text \<open>The nonces that a number of sends in a row obtain.\<close>

fun taken :: "('s \<Rightarrow> int outcome \<times> 's) \<Rightarrow> nat \<Rightarrow> 's \<Rightarrow> int list" where
  "taken take_nonce 0 s = []"
| "taken take_nonce (Suc n) s =
     (case take_nonce s of
        (Inl e, s') \<Rightarrow> taken take_nonce n s'
      | (Inr k, s') \<Rightarrow> k # taken take_nonce n s')"

context nonce_source begin

lemma taken_free: "inv s \<Longrightarrow> set (taken take_nonce n s) \<subseteq> free s"
proof (induction n arbitrary: s)
  case (Suc n)
  obtain r s' where rs: "take_nonce s = (r, s')" by force
  have "free s' \<subseteq> free s" "inv s'"
    using take_fails [of s] take_removes [of s] take_inv [of s] Suc.prems rs by (cases r; auto)+
  with Suc.IH [of s'] take_free [of s] Suc.prems rs show ?case by (cases r) auto
qed simp

lemma taken_distinct: "inv s \<Longrightarrow> distinct (taken take_nonce n s)"
proof (induction n arbitrary: s)
  case (Suc n)
  obtain r s' where rs: "take_nonce s = (r, s')" by force
  have inv: "inv s'" using take_inv [of s] Suc.prems rs by simp
  show ?case
  proof (cases r)
    case (Inr k)
    with rs take_removes [of s k] Suc.prems have "k \<notin> free s'" by auto
    with Suc.IH [of s'] taken_free [of s' n] inv rs Inr show ?thesis by auto
  qed (use Suc.IH [of s'] inv rs in simp)
qed simp

end

section \<open>The allocator meets it\<close>

definition free_nonces :: "address \<Rightarrow> allocator \<Rightarrow> int set" where
  "free_nonces signer al =
     {n. al_reclaimable al = Some n} \<union>
     {n. \<exists>v. al_lease al (to_lower signer) = Some v \<and> v \<le> n}"

definition hole_below :: "address \<Rightarrow> allocator \<Rightarrow> bool" where
  "hole_below signer al = (\<forall>h v. al_reclaimable al = Some h \<longrightarrow>
     al_lease al (to_lower signer) = Some v \<longrightarrow> h < v)"

lemma hole_below_create: "hole_below signer (create_allocator lease)"
  by (simp add: hole_below_def create_allocator_def)

lemma hole_below_resync: "hole_below signer al \<Longrightarrow> hole_below signer (snd (resync signer read al))"
  by (auto simp: hole_below_def resync_def lease_set_def split: sum.splits option.splits if_splits)

lemma hole_below_reseed: "hole_below signer (snd (resync signer (Inr seed) al))"
  by (auto simp: hole_below_def resync_def lease_set_def split: option.splits if_splits)

interpretation alloc: nonce_source "with_nonce signer" "free_nonces signer" "hole_below signer" for signer
  by unfold_locales
    (auto simp: with_nonce_def lease_reserve_def free_nonces_def hole_below_def Let_def
      split: option.splits if_splits)

section \<open>Properties of the nonce authority\<close>

lemma free_after_resync:
  assumes "fst (resync signer (Inr seed) al) = Inr ()"
  shows "free_nonces signer (snd (resync signer (Inr seed) al)) =
    {n. seed_next seed \<le> n} \<union> {h. seed_hole seed = Some h \<and> h < seed_next seed}"
  by (auto simp: free_nonces_def resync_def lease_set_def split: option.splits if_splits)

text \<open>C7: one signer, one sequence. After a resync, whichever engines send and however many times,
  the nonces handed out are pairwise different, and each is either at or above the count the resync
  found or the one hole it reported; none is reused until the chain is read again.\<close>

theorem nonces_never_collide:
  "distinct (taken (with_nonce signer) k (snd (resync signer (Inr seed) al)))
   \<and> (\<forall>n \<in> set (taken (with_nonce signer) k (snd (resync signer (Inr seed) al))).
        seed_next seed \<le> n \<or> (seed_hole seed = Some n \<and> n < seed_next seed))"
proof -
  note ok = hole_below_reseed [of signer seed al]
  have "fst (resync signer (Inr seed) al) = Inr ()"
    by (simp add: resync_def)
  note free = free_after_resync [OF this]
  from alloc.taken_distinct [OF ok] alloc.taken_free [OF ok] show ?thesis
    unfolding free by blast
qed

theorem nonces_never_collide_witness:
  "taken (with_nonce ''0xBot'') 3 (snd (resync ''0xBot'' (Inr (SeedHole 9 (Some 7)))
     (create_allocator Map.empty))) = [7, 9, 10]
   \<and> distinct (taken (with_nonce ''0xBot'') 3 (snd (resync ''0xBot'' (Inr (SeedHole 9 (Some 7)))
     (create_allocator Map.empty))))"
  using nonces_never_collide [of "''0xBot''" 3 "SeedHole 9 (Some 7)" "create_allocator Map.empty"]
  by (simp add: numeral_3_eq_3 with_nonce_def resync_def seed_next_def seed_hole_def lease_reserve_def
      lease_set_def create_allocator_def to_lower_def lower_char_def Let_def)

end
