(* ===== verification/CrashSafety.thy ===== *)
theory CrashSafety
  imports Reconcile Nonces
begin

text \<open>
  The crash-safety collaborator, \<open>packages/engine/src/shared/crashSafety.ts\<close>: it ties the intent
  store, the nonce authority and the chain together. The store is optional, as in the code, and any
  implementation of its port will do; the set of intents this process is sending is a set of ids.
  A resync runs inside the nonce lock, so its reads and the SET they lead to are one step.
\<close>

section \<open>The nonce fence\<close>

definition signed_in_flight :: "'db store_ops option \<Rightarrow> 'db \<Rightarrow> tx_intent list" where
  "signed_in_flight store db =
     (case store of None \<Rightarrow> [] | Some ops \<Rightarrow> filter is_signed (so_reconcile ops db))"

definition live_nonces :: "'db store_ops option \<Rightarrow> liveness_check \<Rightarrow> 'db \<Rightarrow> int list outcome" where
  "live_nonces store lc db =
     (let candidates = signed_in_flight store db in
      if candidates = [] then Inr []
      else await (await_all (\<lambda>i. could_be_in_flight lc (the (ti_txHash i)) (ti_updatedAt i)
                                 (ti_relayMaxBlock i)) candidates) (\<lambda>live.
           Inr (map (\<lambda>(i, _). the (ti_nonce i)) (filter snd (zip candidates live)))))"

definition max_of :: "int list \<Rightarrow> int" where
  "max_of ns = fold max (tl ns) (hd ns)"

definition fence_seed ::
  "'db store_ops option \<Rightarrow> chain_reader \<Rightarrow> address \<Rightarrow> millis \<Rightarrow> int option \<Rightarrow> int option \<Rightarrow> 'db
     \<Rightarrow> nonce_seed outcome" where
  "fence_seed store reader signer now graceMs margin db =
     await (cr_nonce reader signer TagPending) (\<lambda>chainPending.
     await (case margin of None \<Rightarrow> Inr None
            | Some _ \<Rightarrow> await (cr_blockNumber reader) (\<lambda>b. Inr (Some b))) (\<lambda>head.
     await (live_nonces store \<lparr>lc_reader = reader, lc_now = now, lc_graceMs = graceMs,
              lc_reclaimMarginBlocks = margin, lc_head = head\<rparr> db) (\<lambda>live.
       let floor = (if live = [] then 0 else max_of live + 1);
           next_nonce = max chainPending floor;
           reclaimable = (if next_nonce > chainPending \<and> chainPending \<notin> set live
                          then Some chainPending else None)
       in Inr (SeedHole next_nonce reclaimable))))"

definition resync_nonces ::
  "'db store_ops option \<Rightarrow> chain_reader \<Rightarrow> address \<Rightarrow> millis \<Rightarrow> int option \<Rightarrow> int option \<Rightarrow> 'db
     \<Rightarrow> allocator \<Rightarrow> unit outcome \<times> allocator" where
  "resync_nonces store reader signer now graceMs margin db al =
     resync signer (fence_seed store reader signer now graceMs margin db) al"

definition in_flight_tx_hashes :: "'db store_ops option \<Rightarrow> 'db \<Rightarrow> hex set option" where
  "in_flight_tx_hashes store db =
     (case store of None \<Rightarrow> None
      | Some ops \<Rightarrow> Some (set (List.map_filter ti_txHash (so_reconcile ops db))))"

section \<open>Claims and records\<close>

definition begin_send :: "string \<Rightarrow> string set \<Rightarrow> string set" where
  "begin_send i sending = insert i sending"

definition end_send :: "string \<Rightarrow> string set \<Rightarrow> string set" where
  "end_send i sending = sending - {i}"

definition cs_reconcile ::
  "'db store_ops option \<Rightarrow> chain_reader \<Rightarrow> address \<Rightarrow> millis \<Rightarrow> int option \<Rightarrow> int option \<Rightarrow> string set
     \<Rightarrow> (hex \<Rightarrow> int option outcome) option \<Rightarrow> 'db \<Rightarrow> unit outcome \<times> 'db" where
  "cs_reconcile store reader signer now graceMs margin sending repair db =
     (case store of
        None \<Rightarrow> (Inr (), db)
      | Some ops \<Rightarrow>
          (let (r, db') = reconcile_pending ops reader signer now graceMs margin (\<lambda>i. i \<in> sending) repair db
           in (await r (\<lambda>_. Inr ()), db')))"

datatype claim_answer =
    ClaimedUntracked
  | ClaimedAs string millis
  | ClaimLost tx_intent

definition cs_claim :: "'db store_ops option \<Rightarrow> millis \<Rightarrow> intent_input \<Rightarrow> 'db \<Rightarrow> claim_answer \<times> 'db" where
  "cs_claim store now inp db =
     (case store of
        None \<Rightarrow> (ClaimedUntracked, db)
      | Some ops \<Rightarrow>
          (case so_recordIntent ops now inp db of
             (Refused existing, db') \<Rightarrow> (ClaimLost existing, db')
           | (Recorded i attemptAt, db') \<Rightarrow> (ClaimedAs i attemptAt, db')))"

definition mark_pending ::
  "'db store_ops option \<Rightarrow> millis \<Rightarrow> string \<Rightarrow> int \<Rightarrow> millis \<Rightarrow> hex option \<Rightarrow> 'db \<Rightarrow> unit outcome \<times> 'db" where
  "mark_pending store now i nonce attemptAt txHash db =
     (case store of
        None \<Rightarrow> (Inr (), db)
      | Some ops \<Rightarrow>
          (let (applied, db') = so_transition ops now i Pending
                 (no_meta\<lparr>tm_nonce := Some nonce, tm_txHash := txHash\<rparr>)
                 (no_expectation\<lparr>ex_updatedAt := Some attemptAt\<rparr>) db
           in if applied then (Inr (), db')
              else (Inl (''intent '' @ i @ '' is no longer the attempt this send claimed -- refusing to broadcast at nonce ''
                      @ show_int nonce
                      @ ''. Another reconcile resolved it and the row was revived for a new attempt; this transaction's nonce and hash would be recorded against that one.''), db')))"

definition cs_transition ::
  "'db store_ops option \<Rightarrow> millis \<Rightarrow> string \<Rightarrow> intent_status \<Rightarrow> transition_meta \<Rightarrow> expectation \<Rightarrow> 'db \<Rightarrow> 'db" where
  "cs_transition store now i to meta expect db =
     (case store of None \<Rightarrow> db | Some ops \<Rightarrow> snd (so_transition ops now i to meta expect db))"

section \<open>What the fence lets out\<close>

lemma fold_max_ge: "(m::int) \<le> fold max ms m \<and> (\<forall>x \<in> set ms. x \<le> fold max ms m)"
proof (induction ms arbitrary: m)
  case (Cons k ms)
  have "max k m \<le> fold max ms (max k m)" "\<forall>x \<in> set ms. x \<le> fold max ms (max k m)"
    using Cons.IH [of "max k m"] by blast+
  then show ?case by simp
qed simp

lemma max_of_ge: "n \<in> set ns \<Longrightarrow> n \<le> max_of ns"
  using fold_max_ge [of "hd ns" "tl ns"] by (cases ns) (auto simp: max_of_def)

lemma live_nonces_mem:
  assumes "live_nonces store lc db = Inr live" "i \<in> set (signed_in_flight store db)"
    "could_be_in_flight lc (the (ti_txHash i)) (ti_updatedAt i) (ti_relayMaxBlock i) = Inr True"
  shows "the (ti_nonce i) \<in> set live"
proof -
  let ?c = "signed_in_flight store db"
  have "?c \<noteq> []" using assms(2) by auto
  with assms(1) obtain bs where bs: "await_all (\<lambda>i. could_be_in_flight lc (the (ti_txHash i)) (ti_updatedAt i)
      (ti_relayMaxBlock i)) ?c = Inr bs"
    "live = map (\<lambda>(i, _). the (ti_nonce i)) (filter snd (zip ?c bs))"
    by (auto simp: live_nonces_def Let_def await_eq_Inr)
  obtain j where j: "j < length ?c" "?c ! j = i" using assms(2) by (meson in_set_conv_nth)
  have len: "length bs = length ?c" and "bs ! j"
    using bs(1) j assms(3) by (auto simp: await_all_Inr)
  then have "(i, True) \<in> set (zip ?c bs)"
    using j by (auto simp: set_zip intro!: exI [of _ j])
  then show ?thesis unfolding bs(2) by (force simp: image_iff)
qed

lemma fence_seed_avoids:
  assumes "fence_seed store reader signer now g m db = Inr seed"
  obtains chainPending lc live where
    "cr_nonce reader signer TagPending = Inr chainPending"
    "lc_reader lc = reader" "lc_now lc = now" "lc_graceMs lc = g"
    "live_nonces store lc db = Inr live"
    "chainPending \<le> seed_next seed" "\<forall>n \<in> set live. n < seed_next seed"
    "\<forall>h. seed_hole seed = Some h \<longrightarrow> h = chainPending \<and> h \<notin> set live"
proof -
  from assms obtain cp head live where
    cp: "cr_nonce reader signer TagPending = Inr cp"
    and live: "live_nonces store \<lparr>lc_reader = reader, lc_now = now, lc_graceMs = g,
              lc_reclaimMarginBlocks = m, lc_head = head\<rparr> db = Inr live"
    and seed: "seed = SeedHole (max cp (if live = [] then 0 else max_of live + 1))
       (if max cp (if live = [] then 0 else max_of live + 1) > cp \<and> cp \<notin> set live then Some cp else None)"
    by (auto simp: fence_seed_def await_eq_Inr Let_def)
  have "\<forall>n \<in> set live. n < seed_next seed"
    using max_of_ge [of _ live] by (auto simp: seed seed_next_def less_max_iff_disj)
  moreover have "cp \<le> seed_next seed" by (simp add: seed seed_next_def)
  moreover have "\<forall>h. seed_hole seed = Some h \<longrightarrow> h = cp \<and> h \<notin> set live"
    by (auto simp: seed seed_hole_def)
  ultimately show thesis using that [OF cp _ _ _ live] by simp
qed

lemma taken_after_resync:
  assumes "fence_seed store reader signer now g m db = Inr seed"
    and "n \<in> set (taken (with_nonce signer) count (snd (resync_nonces store reader signer now g m db al)))"
  shows "seed_next seed \<le> n \<or> seed_hole seed = Some n"
proof -
  let ?al = "snd (resync signer (Inr seed) al)"
  have al: "snd (resync_nonces store reader signer now g m db al) = ?al"
    by (simp add: resync_nonces_def assms(1))
  have "set (taken (with_nonce signer) count ?al) \<subseteq> free_nonces signer ?al"
    by (rule alloc.taken_free [OF hole_below_reseed])
  moreover have "fst (resync signer (Inr seed) al) = Inr ()" by (simp add: resync_def)
  ultimately show ?thesis
    using assms(2) free_after_resync [of signer seed al] unfolding al by auto
qed

lemma fenced_nonce:
  assumes "fence_seed store reader signer now g m db = Inr seed"
    and "i \<in> set (signed_in_flight store db)"
    and "\<And>lc. lc_reader lc = reader \<Longrightarrow> lc_now lc = now \<Longrightarrow> lc_graceMs lc = g \<Longrightarrow>
      could_be_in_flight lc (the (ti_txHash i)) (ti_updatedAt i) (ti_relayMaxBlock i) \<noteq> Inr False"
  shows "the (ti_nonce i) \<notin> set (taken (with_nonce signer) count
    (snd (resync_nonces store reader signer now g m db al)))"
proof
  assume n: "the (ti_nonce i) \<in> set (taken (with_nonce signer) count
    (snd (resync_nonces store reader signer now g m db al)))"
  obtain cp lc live where s:
    "lc_reader lc = reader" "lc_now lc = now" "lc_graceMs lc = g"
    "live_nonces store lc db = Inr live" "\<forall>n \<in> set live. n < seed_next seed"
    "\<forall>h. seed_hole seed = Some h \<longrightarrow> h = cp \<and> h \<notin> set live"
    by (rule fence_seed_avoids [OF assms(1)]) (rule that)
  have "signed_in_flight store db \<noteq> []" using assms(2) by auto
  with s(4) obtain bs where "await_all (\<lambda>i. could_be_in_flight lc (the (ti_txHash i)) (ti_updatedAt i)
      (ti_relayMaxBlock i)) (signed_in_flight store db) = Inr bs"
    by (auto simp: live_nonces_def Let_def await_eq_Inr)
  moreover obtain j where "j < length (signed_in_flight store db)" "signed_in_flight store db ! j = i"
    using assms(2) by (meson in_set_conv_nth)
  ultimately have "\<exists>b. could_be_in_flight lc (the (ti_txHash i)) (ti_updatedAt i) (ti_relayMaxBlock i) = Inr b"
    by (auto simp: await_all_Inr)
  then obtain b where
    b: "could_be_in_flight lc (the (ti_txHash i)) (ti_updatedAt i) (ti_relayMaxBlock i) = Inr b" ..
  with assms(3) [OF s(1-3)] have
    "could_be_in_flight lc (the (ti_txHash i)) (ti_updatedAt i) (ti_relayMaxBlock i) = Inr True"
    by (cases b) simp_all
  then have live: "the (ti_nonce i) \<in> set live" by (rule live_nonces_mem [OF s(4) assms(2)])
  from taken_after_resync [OF assms(1) n] show False
  proof
    assume "seed_next seed \<le> the (ti_nonce i)"
    with s(5) live show False by (meson leD)
  next
    assume "seed_hole seed = Some (the (ti_nonce i))"
    with s(6) live show False by blast
  qed
qed

section \<open>Properties of the fence and of the record before a send\<close>

lemma live_fenced:
  assumes "fst (resync_nonces (Some ops) reader signer now g m db al) = Inr ()"
    and "i \<in> set (so_reconcile ops db)" "is_signed i"
    and "now - ti_updatedAt i < or_default g 30000
      \<or> (cr_isKnown reader (the (ti_txHash i)) = Inr True \<and> known_to_node reader (the (ti_txHash i)) = Inr True)"
  shows "the (ti_nonce i) \<notin> set (taken (with_nonce signer) count
    (snd (resync_nonces (Some ops) reader signer now g m db al)))"
proof -
  from assms(1) obtain seed where seed: "fence_seed (Some ops) reader signer now g m db = Inr seed"
    by (cases "fence_seed (Some ops) reader signer now g m db") (auto simp: resync_nonces_def resync_def)
  show ?thesis
  proof (rule fenced_nonce [OF seed])
    show "i \<in> set (signed_in_flight (Some ops) db)" using assms(2,3) by (simp add: signed_in_flight_def)
  next
    fix lc :: liveness_check
    assume "lc_reader lc = reader" "lc_now lc = now" "lc_graceMs lc = g"
    then show "could_be_in_flight lc (the (ti_txHash i)) (ti_updatedAt i) (ti_relayMaxBlock i) \<noteq> Inr False"
      using assms(4) by (auto simp: could_be_in_flight_def grace_def UNKNOWN_TX_GRACE_MS_def)
  qed
qed

definition ex_trailing :: chain_reader where
  "ex_trailing = ex_reader\<lparr>cr_nonce := \<lambda>a tag. Inr 5\<rparr>"

lemma ex_fence:
  assumes "so_reconcile ops db = [i]" "ti_txHash i = Some h" "ti_nonce i = Some 5" "ti_updatedAt i < 30000"
    "0 \<le> ti_updatedAt i"
  shows "fence_seed (Some ops) ex_trailing signer 30000 (Some 30001) None db = Inr (SeedHole 6 None)"
  using assms
  by (simp add: fence_seed_def ex_trailing_def live_nonces_def signed_in_flight_def is_signed_def
      is_broadcast_def could_be_in_flight_def grace_def max_of_def)

lemma ex_taken:
  "fence_seed store reader ''0xBot'' now g m db = Inr (SeedHole 6 None) \<Longrightarrow>
   fst (resync_nonces store reader ''0xBot'' now g m db al) = Inr () \<and>
   taken (with_nonce ''0xBot'') 2 (snd (resync_nonces store reader ''0xBot'' now g m db al)) = [6, 7]"
  by (simp add: resync_nonces_def resync_def seed_next_def seed_hole_def lease_set_def with_nonce_def
      lease_reserve_def numeral_2_eq_2 Let_def)

text \<open>The nonce fence. Once a resync has succeeded, no nonce it leads to, however many sends
  follow, is the nonce of a signed in-flight intent whose transaction is inside its grace window or
  is still known; a chain count that trails such an intent cannot undercut it.\<close>

theorem fence_protects_live:
  assumes "fst (resync_nonces (Some ops) reader signer now g m db al) = Inr ()"
    and "i \<in> set (so_reconcile ops db)" "is_signed i"
    and "now - ti_updatedAt i < or_default g 30000
      \<or> (cr_isKnown reader (the (ti_txHash i)) = Inr True \<and> known_to_node reader (the (ti_txHash i)) = Inr True)"
  shows "the (ti_nonce i) \<notin> set (taken (with_nonce signer) count
    (snd (resync_nonces (Some ops) reader signer now g m db al)))"
  by (rule live_fenced [OF assms])

theorem fence_protects_live_witness:
  "taken (with_nonce ''0xBot'') 2 (snd (resync_nonces (Some pg_ops) ex_trailing ''0xBot'' 30000 (Some 30001) None
      (store_run pg_ops ex_attempt pg_empty) (create_allocator Map.empty))) = [6, 7]
   \<and> 5 \<notin> set (taken (with_nonce ''0xBot'') 2 (snd (resync_nonces (Some pg_ops) ex_trailing ''0xBot'' 30000
      (Some 30001) None (store_run pg_ops ex_attempt pg_empty) (create_allocator Map.empty))))"
proof -
  let ?db = "store_run pg_ops ex_attempt pg_empty"
  obtain i where i: "pg_lookup ?db ex_id = Some i" "ti_status i = Pending" "ti_txHash i = Some ''0xgone''"
    "ti_nonce i = Some 5" "ti_updatedAt i = 6"
    using ex_attempt_row by blast
  have list: "so_reconcile pg_ops ?db = [i]" using ex_attempt_list [OF i(1,2)] by (simp add: pg_ops_def)
  then have f: "fence_seed (Some pg_ops) ex_trailing ''0xBot'' 30000 (Some 30001) None ?db = Inr (SeedHole 6 None)"
    using i by (simp add: ex_fence)
  have "the (ti_nonce i) \<notin> set (taken (with_nonce ''0xBot'') 2 (snd (resync_nonces (Some pg_ops) ex_trailing
      ''0xBot'' 30000 (Some 30001) None ?db (create_allocator Map.empty))))"
    by (rule fence_protects_live [OF ex_taken [OF f, THEN conjunct1]])
      (use i list in \<open>simp_all add: is_signed_def is_broadcast_def\<close>)
  with i(4) ex_taken [OF f, of "create_allocator Map.empty"] show ?thesis by simp
qed

context intent_table begin

lemma mark_pending_cases:
  assumes "wf db" "mark_pending (Some ops) now i n t h db = (res, db')"
  shows "(\<exists>r. res = Inr () \<and> so_lookup ops db i = Some r \<and> ti_updatedAt r = t
      \<and> so_lookup ops db' i = Some (r\<lparr>ti_status := Pending, ti_nonce := Some n,
           ti_txHash := or_else h (ti_txHash r), ti_updatedAt := now\<rparr>)
      \<and> (\<forall>k. k \<noteq> i \<longrightarrow> so_lookup ops db' k = so_lookup ops db k))
   \<or> (\<exists>e. res = Inl e \<and> (\<forall>k. so_lookup ops db' k = so_lookup ops db k))"
proof -
  let ?m = "no_meta\<lparr>tm_nonce := Some n, tm_txHash := h\<rparr>" and ?e = "no_expectation\<lparr>ex_updatedAt := Some t\<rparr>"
  have ans: "fst (so_transition ops now i Pending ?m ?e db) =
      (case so_lookup ops db i of None \<Rightarrow> False | Some r \<Rightarrow> expected_holds ?e r)"
    using apply_result [OF assms(1), of now "DoTransition i Pending ?m ?e"] by (simp add: split_beta)
  note db' = transition_lookup(2) [OF assms(1)]
  have e: "expected_holds (no_expectation\<lparr>ex_updatedAt := Some u\<rparr>) r \<longleftrightarrow> ti_updatedAt r = u" for r u
    by (simp add: expected_holds_def no_expectation_def)
  have mv: "moved now Pending ?m r = r\<lparr>ti_status := Pending, ti_nonce := Some n,
      ti_txHash := or_else h (ti_txHash r), ti_updatedAt := now\<rparr>" for r
    by (simp add: moved_def no_meta_def max_horizon_def)
  show ?thesis
    using assms(2) ans
    by (cases "so_lookup ops db i")
      (auto simp: mark_pending_def split_beta db' e mv split: if_splits)
qed

end

text \<open>A send that lost its claim does not reach the wire. Recording the nonce and the hash
  either finds exactly the attempt this send claimed, and then that row, and no other, is in flight under this nonce and
  hash; or it refuses, and no row has changed.\<close>

theorem recorded_before_broadcast:
  assumes "mark_pending (Some pg_ops) now i n t h (store_run pg_ops before pg_empty) = (res, db')"
  shows "(\<exists>r. res = Inr () \<and> pg_lookup (store_run pg_ops before pg_empty) i = Some r \<and> ti_updatedAt r = t
      \<and> pg_lookup db' i = Some (r\<lparr>ti_status := Pending, ti_nonce := Some n,
           ti_txHash := or_else h (ti_txHash r), ti_updatedAt := now\<rparr>)
      \<and> (\<forall>k. k \<noteq> i \<longrightarrow> pg_lookup db' k = pg_lookup (store_run pg_ops before pg_empty) k))
   \<or> (\<exists>e. res = Inl e \<and> pg_lookup db' = pg_lookup (store_run pg_ops before pg_empty))"
  using pg.mark_pending_cases [OF pg_run_wf assms] by (simp add: pg_lookup_ops fun_eq_iff)

lemma ex_mark:
  "fst (mark_pending (Some pg_ops) at ex_id n 5 h
     (store_run pg_ops [(5, DoRecord (ex_intent ''0xPos''))] pg_empty)) = Inr ()"
  "fst (mark_pending (Some pg_ops) at ex_id n 6 h
     (store_run pg_ops [(5, DoRecord (ex_intent ''0xPos''))] pg_empty)) \<noteq> Inr ()"
proof -
  let ?db = "store_run pg_ops [(5, DoRecord (ex_intent ''0xPos''))] pg_empty"
  obtain r where r: "so_lookup pg_ops ?db ex_id = Some r" "ti_updatedAt r = 5"
    unfolding pg_lookup_ops pg_run_lookup by (simp add: row_eval)
  have ans: "fst (so_transition pg_ops at ex_id Pending m e ?db) = expected_holds e r" for m e
    using pg.apply_result [OF pg_run_wf, of at "DoTransition ex_id Pending m e"
        "[(5, DoRecord (ex_intent ''0xPos''))]"] r(1)
    by (simp add: split_beta del: store_run.simps)
  show "fst (mark_pending (Some pg_ops) at ex_id n 5 h ?db) = Inr ()"
    "fst (mark_pending (Some pg_ops) at ex_id n 6 h ?db) \<noteq> Inr ()"
    using r(2) by (simp_all add: mark_pending_def split_beta ans expected_holds_def no_expectation_def
        del: store_run.simps)
qed

theorem recorded_before_broadcast_witness:
  "\<exists>r. pg_lookup (snd (mark_pending (Some pg_ops) 7 ex_id 4 5 (Some ''0xa'')
       (store_run pg_ops [(5, DoRecord (ex_intent ''0xPos''))] pg_empty))) ex_id = Some r
     \<and> ti_status r = Pending \<and> ti_nonce r = Some 4"
  using recorded_before_broadcast [OF prod.collapse [symmetric],
      of 7 ex_id 4 5 "Some ''0xa''" "[(5, DoRecord (ex_intent ''0xPos''))]"] ex_mark(1) [of 7 4 "Some ''0xa''"]
  by (auto simp del: store_run.simps)


lemma ex_resync_ok:
  "fst (resync_nonces store ex_trailing signer now g None db al) = Inr ()"
proof -
  have "could_be_in_flight \<lparr>lc_reader = ex_trailing, lc_now = now, lc_graceMs = g,
      lc_reclaimMarginBlocks = None, lc_head = None\<rparr> h u rb \<in> range Inr" for h u rb
    by (simp add: could_be_in_flight_def past_relay_horizon_def ex_trailing_def ex_reader_def)
  then have "\<exists>bs. await_all (\<lambda>i. could_be_in_flight \<lparr>lc_reader = ex_trailing, lc_now = now, lc_graceMs = g,
      lc_reclaimMarginBlocks = None, lc_head = None\<rparr> (the (ti_txHash i)) (ti_updatedAt i) (ti_relayMaxBlock i)) is
      = Inr bs" for "is"
    by (intro await_all_ok) blast
  from this [of "signed_in_flight store db"] show ?thesis
    by (elim exE) (auto simp: resync_nonces_def resync_def fence_seed_def live_nonces_def Let_def ex_trailing_def
        split: sum.splits)
qed


end
