(* ===== verification/Executor.thy ===== *)
theory Executor
  imports CrashSafety
begin

text \<open>
  The execution mode seam, \<open>packages/engine/src/shared/executor.ts\<close>. The AUTO executor claims, signs
  under the nonce lock, records, broadcasts and records again; the MANUAL one writes a proposal down
  and announces it. A process is its store, its nonce allocator, the set of sends it is running and
  the transactions it has put on the wire, latest first. What one send meets is a record: the clock
  at its three writes, what others do to the store while it queues for the lock and while it is on
  the wire, the two answers of the broadcast guard, the signer, the submission route and the relay's
  deadline.
\<close>

section \<open>The AUTO executor\<close>

record 'db process =
  pr_db :: 'db
  pr_nonces :: allocator
  pr_sending :: "string set"
  pr_wire :: "hex list"

record send_env =
  sv_claimAt :: millis
  sv_markAt :: millis
  sv_doneAt :: millis
  sv_queued :: "(millis \<times> store_op) list"
  sv_onWire :: "(millis \<times> store_op) list"
  sv_guard :: "string \<Rightarrow> unit outcome"
  sv_guardAtBroadcast :: "string \<Rightarrow> unit outcome"
  sv_sign :: "contract_call \<Rightarrow> signed_tx outcome"
  sv_broadcast :: "hex \<Rightarrow> broadcast_result"
  sv_matches :: "string \<Rightarrow> bool"
  sv_horizon :: "(hex \<Rightarrow> int outcome) option"

datatype commit_result =
    Broadcast hex "string option"
  | ProposedAs string
  | Duplicate tx_intent
  | AbortedClean string
  | AbortedAmbiguous hex string

definition horizon_for :: "send_env \<Rightarrow> hex \<Rightarrow> int option" where
  "horizon_for env h = (case sv_horizon env of
     None \<Rightarrow> None
   | Some resolve \<Rightarrow> (case resolve h of Inl _ \<Rightarrow> None | Inr b \<Rightarrow> Some b))"

definition others :: "'db store_ops option \<Rightarrow> (millis \<times> store_op) list \<Rightarrow> 'db process \<Rightarrow> 'db process" where
  "others store cs pr = (case store of None \<Rightarrow> pr | Some ops \<Rightarrow> pr\<lparr>pr_db := store_run ops cs (pr_db pr)\<rparr>)"

text \<open>The callback that records a signed transaction before it is broadcast; \<open>signedHash\<close> is set
  last, so it says that the row is still this attempt's.\<close>

definition on_signed ::
  "'db store_ops option \<Rightarrow> send_env \<Rightarrow> claim_answer \<Rightarrow> signed_tx \<Rightarrow> 'db process \<times> hex option
     \<Rightarrow> unit outcome \<times> 'db process \<times> hex option" where
  "on_signed store env claimed tx st = (case st of (pr, signedHash) \<Rightarrow>
     (case claimed of
        ClaimedAs i attemptAt \<Rightarrow>
          (case mark_pending store (sv_markAt env) i (sg_nonce tx) attemptAt (Some (sg_hash tx)) (pr_db pr) of
             (Inl e, db) \<Rightarrow> (Inl e, pr\<lparr>pr_db := db\<rparr>, signedHash)
           | (Inr _, db) \<Rightarrow> (Inr (), pr\<lparr>pr_db := db\<rparr>, Some (sg_hash tx)))
      | _ \<Rightarrow> (Inr (), pr, Some (sg_hash tx))))"

text \<open>\<open>crash.send\<close> around \<open>sender.send\<close>: one nonce from the allocator, then the send itself. An error
  of the allocator is not a \<open>PreBroadcastError\<close>.\<close>

definition locked_send ::
  "'db store_ops option \<Rightarrow> address \<Rightarrow> send_env \<Rightarrow> claim_answer \<Rightarrow> string option \<Rightarrow> contract_call \<Rightarrow> 'db process
     \<Rightarrow> send_result \<times> 'db process \<times> hex option" where
  "locked_send store signer env claimed guarded call pr =
     (case with_nonce signer (pr_nonces pr) of
        (Inl e, al) \<Rightarrow> (SendAmbiguous e, pr\<lparr>pr_nonces := al\<rparr>, None)
      | (Inr n, al) \<Rightarrow>
          tx_send (sv_matches env) (sv_sign env (call\<lparr>cc_nonce := Some n\<rparr>)) (on_signed store env claimed)
            (\<lambda>_. case guarded of None \<Rightarrow> Inr () | Some action \<Rightarrow> sv_guardAtBroadcast env action)
            (\<lambda>raw (pr', sh). (sv_broadcast env raw, pr'\<lparr>pr_wire := raw # pr_wire pr'\<rparr>, sh))
            (pr\<lparr>pr_nonces := al\<rparr>, None))"

definition intent_of :: "claim_answer \<Rightarrow> string option" where
  "intent_of claimed = (case claimed of ClaimedAs i _ \<Rightarrow> Some i | _ \<Rightarrow> None)"

definition sending_update :: "(string \<Rightarrow> string set \<Rightarrow> string set) \<Rightarrow> claim_answer \<Rightarrow> 'db process \<Rightarrow> 'db process" where
  "sending_update f claimed pr = (case intent_of claimed of
     None \<Rightarrow> pr | Some i \<Rightarrow> pr\<lparr>pr_sending := f i (pr_sending pr)\<rparr>)"

text \<open>The window of a claimed send: what runs between the claim and the writes after the broadcast.\<close>

definition send_window ::
  "'db store_ops option \<Rightarrow> address \<Rightarrow> send_env \<Rightarrow> claim_answer \<Rightarrow> string option \<Rightarrow> contract_call \<Rightarrow> 'db process
     \<Rightarrow> send_result \<times> 'db process \<times> hex option" where
  "send_window store signer env claimed guarded call pr =
     (let pr1 = others store (sv_queued env) (sending_update begin_send claimed pr) in
      case (case guarded of None \<Rightarrow> Inr () | Some action \<Rightarrow> sv_guard env action) of
        Inl e \<Rightarrow> (SendAmbiguous e, pr1, None)
      | Inr _ \<Rightarrow>
          (let (r, pr2, sh) = locked_send store signer env claimed guarded call pr1
           in (r, others store (sv_onWire env) pr2, sh)))"

definition write_row ::
  "'db store_ops option \<Rightarrow> millis \<Rightarrow> claim_answer \<Rightarrow> intent_status \<Rightarrow> transition_meta \<Rightarrow> expectation
     \<Rightarrow> 'db process \<Rightarrow> 'db process" where
  "write_row store now claimed to meta expect pr = (case intent_of claimed of
     None \<Rightarrow> pr | Some i \<Rightarrow> pr\<lparr>pr_db := cs_transition store now i to meta expect (pr_db pr)\<rparr>)"

definition attempt_stamp :: "claim_answer \<Rightarrow> millis option" where
  "attempt_stamp claimed = (case claimed of ClaimedAs _ t \<Rightarrow> Some t | _ \<Rightarrow> None)"

definition record_failed_send ::
  "'db store_ops option \<Rightarrow> send_env \<Rightarrow> claim_answer \<Rightarrow> hex option \<Rightarrow> string \<Rightarrow> 'db process \<Rightarrow> 'db process" where
  "record_failed_send store env claimed signedHash message pr =
     write_row store (sv_doneAt env) claimed Submitted
       (no_meta\<lparr>tm_error := Some message,
          tm_relayMaxBlock := (case signedHash of None \<Rightarrow> None | Some h \<Rightarrow> horizon_for env h)\<rparr>)
       (case signedHash of None \<Rightarrow> no_expectation\<lparr>ex_updatedAt := attempt_stamp claimed\<rparr>
        | Some _ \<Rightarrow> no_expectation) pr"

definition auto_commit ::
  "'db store_ops option \<Rightarrow> address \<Rightarrow> int \<Rightarrow> send_env \<Rightarrow> contract_call \<Rightarrow> intent_input \<Rightarrow> 'db process
     \<Rightarrow> commit_result \<times> 'db process" where
  "auto_commit store signer chainId env call claim pr =
     (case cs_claim store (sv_claimAt env) (claim\<lparr>ii_chainId := chainId\<rparr>) (pr_db pr) of
        (ClaimLost existing, db) \<Rightarrow> (Duplicate existing, pr\<lparr>pr_db := db\<rparr>)
      | (claimed, db) \<Rightarrow>
          (let (r, pr', signedHash) = send_window store signer env claimed (Some (ii_action claim)) call
                 (pr\<lparr>pr_db := db\<rparr>);
               (result, pr'') = (case r of
                  Sent h \<Rightarrow> (Broadcast h (intent_of claimed),
                    write_row store (sv_doneAt env) claimed Submitted
                      (no_meta\<lparr>tm_txHash := Some h, tm_relayMaxBlock := horizon_for env h\<rparr>) no_expectation pr')
                | PreBroadcast e \<Rightarrow> (AbortedClean e, record_failed_send store env claimed signedHash e pr')
                | SendAmbiguous e \<Rightarrow>
                    (case signedHash of None \<Rightarrow> AbortedClean e | Some h \<Rightarrow> AbortedAmbiguous h e,
                     record_failed_send store env claimed signedHash e pr'))
           in (result, sending_update end_send claimed pr'')))"

text \<open>\<open>sendApprove\<close>, for a grant and for a revocation. The receipt wait is an argument: it may time out. An error
  names the token, the code's text where no label is given.\<close>

datatype allowance_result = Satisfied | Awaiting commit_result

definition send_approve ::
  "'db store_ops option \<Rightarrow> address \<Rightarrow> send_env \<Rightarrow> (hex \<Rightarrow> receipt_status outcome) \<Rightarrow> millis \<Rightarrow> string option
     \<Rightarrow> string \<Rightarrow> contract_call \<Rightarrow> intent_input \<Rightarrow> 'db process \<Rightarrow> allowance_result outcome \<times> 'db process" where
  "send_approve store signer env receipt settledAt guarded noun call claim pr =
     (case cs_claim store (sv_claimAt env) claim (pr_db pr) of
        (ClaimLost existing, db) \<Rightarrow> (Inr (Awaiting (Duplicate existing)), pr\<lparr>pr_db := db\<rparr>)
      | (claimed, db) \<Rightarrow>
          (let (r, pr', signedHash) = send_window store signer env claimed guarded call (pr\<lparr>pr_db := db\<rparr>) in
           case r of
             PreBroadcast e \<Rightarrow>
               (Inl e, sending_update end_send claimed (record_failed_send store env claimed signedHash e pr'))
           | SendAmbiguous e \<Rightarrow>
               (Inl e, sending_update end_send claimed (record_failed_send store env claimed signedHash e pr'))
           | Sent h \<Rightarrow>
               (let ours = no_expectation\<lparr>ex_txHash := Some h\<rparr>;
                    pr2 = write_row store (sv_doneAt env) claimed Submitted
                      (no_meta\<lparr>tm_txHash := Some h, tm_relayMaxBlock := horizon_for env h\<rparr>) ours
                      (sending_update end_send claimed pr')
                in case receipt h of
                     Inl e \<Rightarrow> (Inl e, pr2)
                   | Inr RcReverted \<Rightarrow>
                       (Inl (noun @ '' transaction reverted for '' @ ii_target claim),
                        write_row store settledAt claimed Failed
                          (no_meta\<lparr>tm_txHash := Some h, tm_error := Some (noun @ '' reverted'')\<rparr>) ours pr2)
                   | Inr RcSuccess \<Rightarrow>
                       (Inr Satisfied, write_row store settledAt claimed Confirmed
                          (no_meta\<lparr>tm_txHash := Some h\<rparr>) ours pr2))))"

text \<open>The allowance is read first; encoding the \<open>approve\<close> call is the ABI library's.\<close>

definition max_uint256 :: int where
  "max_uint256 = 2 ^ 256 - 1"

definition approve_call :: "(address \<Rightarrow> int \<Rightarrow> hex) \<Rightarrow> address \<Rightarrow> address \<Rightarrow> int \<Rightarrow> contract_call" where
  "approve_call encode token spender amount =
     \<lparr>cc_address = token, cc_data = encode spender amount, cc_nonce = None\<rparr>"

definition approve_claim :: "int \<Rightarrow> address \<Rightarrow> address \<Rightarrow> string \<Rightarrow> intent_input" where
  "approve_claim chainId token spender action =
     \<lparr>ii_chainId = chainId, ii_target = token, ii_action = action, ii_subject = spender\<rparr>"

definition auto_ensure_allowance ::
  "'db store_ops option \<Rightarrow> address \<Rightarrow> int \<Rightarrow> send_env \<Rightarrow> (hex \<Rightarrow> receipt_status outcome) \<Rightarrow> millis
     \<Rightarrow> (address \<Rightarrow> int \<Rightarrow> hex) \<Rightarrow> int outcome \<Rightarrow> address \<Rightarrow> address \<Rightarrow> int \<Rightarrow> 'db process
     \<Rightarrow> allowance_result outcome \<times> 'db process" where
  "auto_ensure_allowance store signer chainId env receipt settledAt encode allowance token spender required pr =
     (case allowance of
        Inl e \<Rightarrow> (Inl e, pr)
      | Inr a \<Rightarrow> if a \<ge> required then (Inr Satisfied, pr)
                else send_approve store signer env receipt settledAt (Some ''approval'') ''Approval''
                       (approve_call encode token spender max_uint256)
                       (approve_claim chainId token spender ''approval'') pr)"

definition auto_revoke_allowance ::
  "'db store_ops option \<Rightarrow> address \<Rightarrow> int \<Rightarrow> send_env \<Rightarrow> (hex \<Rightarrow> receipt_status outcome) \<Rightarrow> millis
     \<Rightarrow> (address \<Rightarrow> int \<Rightarrow> hex) \<Rightarrow> int outcome \<Rightarrow> address \<Rightarrow> address \<Rightarrow> 'db process
     \<Rightarrow> allowance_result outcome \<times> 'db process" where
  "auto_revoke_allowance store signer chainId env receipt settledAt encode allowance token spender pr =
     (case allowance of
        Inl e \<Rightarrow> (Inl e, pr)
      | Inr a \<Rightarrow> if a = 0 then (Inr Satisfied, pr)
                else send_approve store signer env receipt settledAt None ''Revocation''
                       (approve_call encode token spender 0)
                       (approve_claim chainId token spender ''revoke'') pr)"

text \<open>What the receipt phase of an engine records: guarded on the hash the receipt is for.\<close>

definition auto_record_outcome ::
  "'db store_ops option \<Rightarrow> millis \<Rightarrow> string \<Rightarrow> hex \<Rightarrow> string option \<Rightarrow> 'db process \<Rightarrow> 'db process" where
  "auto_record_outcome store now i h failure pr =
     pr\<lparr>pr_db := cs_transition store now i (if failure = None then Confirmed else Failed)
       (no_meta\<lparr>tm_txHash := Some h, tm_error := failure\<rparr>) (no_expectation\<lparr>ex_txHash := Some h\<rparr>) (pr_db pr)\<rparr>"

section \<open>The MANUAL executor\<close>

datatype notice =
    ManualIntent string string string address hex "millis option"
  | IntentStuck string string int

record 'db desk =
  dk_db :: 'db
  dk_warned :: "string set"
  dk_notices :: "notice list"

definition build_payload :: "int \<Rightarrow> contract_call \<Rightarrow> proposed_tx" where
  "build_payload chainId call = \<lparr>pt_chainId = chainId, pt_to = cc_address call, pt_data = cc_data call,
     pt_value = ''0'', pt_gasLimit = None\<rparr>"

definition announce :: "int \<Rightarrow> millis \<Rightarrow> string \<Rightarrow> intent_input \<Rightarrow> hex \<Rightarrow> 'db desk \<Rightarrow> 'db desk" where
  "announce ttl now i claim h dk = dk\<lparr>dk_notices := dk_notices dk @
     [ManualIntent i (ii_action claim) (ii_subject claim) (ii_target claim) h
        (if ttl > 0 then Some (now + ttl) else None)]\<rparr>"

text \<open>The content hash is the wallet library's; a proposal is never refused for its chain here, but the
  store may still refuse it, and that error is the caller's.\<close>

definition manual_propose ::
  "'db store_ops \<Rightarrow> (proposed_tx \<Rightarrow> hex) \<Rightarrow> int \<Rightarrow> int \<Rightarrow> millis \<Rightarrow> contract_call \<Rightarrow> intent_input \<Rightarrow> 'db desk
     \<Rightarrow> commit_result outcome \<times> 'db desk" where
  "manual_propose ops hash_payload chainId ttl now call action dk =
     (let payload = build_payload chainId call; h = hash_payload payload;
          claim = action\<lparr>ii_chainId := pt_chainId payload\<rparr> in
      case so_propose ops now claim payload h (dk_db dk) of
        (Inl e, db) \<Rightarrow> (Inl e, dk\<lparr>dk_db := db\<rparr>)
      | (Inr (Recorded i _), db) \<Rightarrow> (Inr (ProposedAs i), announce ttl now i claim h (dk\<lparr>dk_db := db\<rparr>))
      | (Inr (Refused existing), db) \<Rightarrow>
          if ti_payloadHash existing = Some h then (Inr (Duplicate existing), dk\<lparr>dk_db := db\<rparr>)
          else (let db' = snd (so_supersede ops now (ti_id existing) db) in
            case so_propose ops now claim payload h db' of
              (Inl e, db'') \<Rightarrow> (Inl e, dk\<lparr>dk_db := db''\<rparr>)
            | (Inr (Refused existing'), db'') \<Rightarrow> (Inr (Duplicate existing'), dk\<lparr>dk_db := db''\<rparr>)
            | (Inr (Recorded i _), db'') \<Rightarrow>
                (Inr (ProposedAs i), announce ttl now i claim h (dk\<lparr>dk_db := db''\<rparr>))))"

definition stuck_candidates :: "'db store_ops \<Rightarrow> 'db \<Rightarrow> tx_intent list" where
  "stuck_candidates ops db =
     filter (\<lambda>r. ti_status r = Claimed \<or> ti_safeEnvelope r \<noteq> None) (so_proposals ops None db)
     @ filter (\<lambda>r. ti_status r = Submitted) (so_reconcile ops db)"

definition emit_stuck :: "'db store_ops \<Rightarrow> int \<Rightarrow> millis \<Rightarrow> 'db desk \<Rightarrow> 'db desk" where
  "emit_stuck ops stuckMs at dk =
     (if stuckMs \<le> 0 then dk
      else (let stuck = filter (\<lambda>i. at - ti_updatedAt i \<ge> stuckMs) (stuck_candidates ops (dk_db dk)) in
        dk\<lparr>dk_warned := set (map ti_id stuck),
           dk_notices := dk_notices dk @
             map (\<lambda>i. IntentStuck (ti_id i) (ii_subject i) (at - ti_updatedAt i))
               (filter (\<lambda>i. ti_id i \<notin> dk_warned dk) stuck)\<rparr>))"

definition manual_reconcile ::
  "'db store_ops \<Rightarrow> chain_reader \<Rightarrow> address \<Rightarrow> millis \<Rightarrow> int \<Rightarrow> int \<Rightarrow> 'db desk \<Rightarrow> unit outcome \<times> 'db desk" where
  "manual_reconcile ops reader signer now ttl stuckMs dk =
     (let db1 = (if ttl > 0 then snd (so_expireProposals ops now ttl None (dk_db dk)) else dk_db dk);
          (r, db2) = reconcile_pending ops reader signer now None None (\<lambda>_. False) None db1;
          dk' = dk\<lparr>dk_db := db2\<rparr> in
      case r of Inl e \<Rightarrow> (Inl e, dk') | Inr _ \<Rightarrow> (Inr (), emit_stuck ops stuckMs now dk'))"

definition manual_in_flight :: "'db store_ops \<Rightarrow> 'db desk \<Rightarrow> hex set" where
  "manual_in_flight ops dk = set (List.map_filter ti_txHash (so_reconcile ops (dk_db dk)))"

definition manual_record_outcome ::
  "'db store_ops \<Rightarrow> millis \<Rightarrow> string \<Rightarrow> hex \<Rightarrow> string option \<Rightarrow> 'db desk \<Rightarrow> 'db desk" where
  "manual_record_outcome ops now i h failure dk =
     dk\<lparr>dk_db := snd (so_transition ops now i (if failure = None then Confirmed else Failed)
       (no_meta\<lparr>tm_txHash := Some h, tm_error := failure\<rparr>) no_expectation (dk_db dk))\<rparr>"

definition manual_ensure_allowance ::
  "'db store_ops \<Rightarrow> (proposed_tx \<Rightarrow> hex) \<Rightarrow> int \<Rightarrow> int \<Rightarrow> millis \<Rightarrow> (address \<Rightarrow> int \<Rightarrow> hex) \<Rightarrow> int outcome
     \<Rightarrow> address \<Rightarrow> address \<Rightarrow> int \<Rightarrow> 'db desk \<Rightarrow> allowance_result outcome \<times> 'db desk" where
  "manual_ensure_allowance ops hash_payload chainId ttl now encode allowance token spender required dk =
     (case allowance of
        Inl e \<Rightarrow> (Inl e, dk)
      | Inr a \<Rightarrow> if a \<ge> required then (Inr Satisfied, dk)
                else (let (r, dk') = manual_propose ops hash_payload chainId ttl now
                        (approve_call encode token spender max_uint256)
                        (approve_claim chainId token spender ''approval'') dk
                      in (await r (\<lambda>c. Inr (Awaiting c)), dk')))"

definition manual_revoke_allowance ::
  "'db store_ops \<Rightarrow> (proposed_tx \<Rightarrow> hex) \<Rightarrow> int \<Rightarrow> int \<Rightarrow> millis \<Rightarrow> (address \<Rightarrow> int \<Rightarrow> hex) \<Rightarrow> int outcome
     \<Rightarrow> address \<Rightarrow> address \<Rightarrow> 'db desk \<Rightarrow> allowance_result outcome \<times> 'db desk" where
  "manual_revoke_allowance ops hash_payload chainId ttl now encode allowance token spender dk =
     (case allowance of
        Inl e \<Rightarrow> (Inl e, dk)
      | Inr a \<Rightarrow> if a = 0 then (Inr Satisfied, dk)
                else (let (r, dk') = manual_propose ops hash_payload chainId ttl now
                        (approve_call encode token spender 0)
                        (approve_claim chainId token spender ''revoke'') dk
                      in (await r (\<lambda>c. Inr (Awaiting c)), dk')))"

section \<open>What a send leaves behind\<close>

text \<open>A refusal the submission route states outright: nothing is in flight.\<close>

definition refused_outright :: "send_env \<Rightarrow> broadcast_result \<Rightarrow> bool" where
  "refused_outright env r \<longleftrightarrow>
     (\<exists>reason. r = BroadcastRejected reason) \<or> is_insufficient_funds (sv_matches env) r"

definition on_wire :: "'db process \<Rightarrow> 'db process \<Rightarrow> signed_tx \<Rightarrow> bool" where
  "on_wire pr pr' tx \<longleftrightarrow> pr_wire pr' = sg_serialized tx # pr_wire pr"

text \<open>The record a broadcast rests on: signed over the nonce the allocator gave, with the row, if there
  is one, moved by \<open>mark_pending\<close> just before.\<close>

definition recorded_send ::
  "'db store_ops option \<Rightarrow> address \<Rightarrow> send_env \<Rightarrow> claim_answer \<Rightarrow> contract_call \<Rightarrow> 'db process \<Rightarrow> 'db \<Rightarrow> signed_tx \<Rightarrow> bool" where
  "recorded_send store signer env claimed call pr db tx \<longleftrightarrow>
     (\<exists>n. fst (with_nonce signer (pr_nonces pr)) = Inr n \<and> sv_sign env (call\<lparr>cc_nonce := Some n\<rparr>) = Inr tx)
     \<and> (case claimed of ClaimedAs i t \<Rightarrow>
          mark_pending store (sv_markAt env) i (sg_nonce tx) t (Some (sg_hash tx)) (pr_db pr) = (Inr (), db)
        | _ \<Rightarrow> db = pr_db pr)"

text \<open>A send reports what its broadcast answered.\<close>

definition truthful :: "send_env \<Rightarrow> signed_tx \<Rightarrow> send_result \<Rightarrow> bool" where
  "truthful env tx r \<longleftrightarrow>
     (let answer = sv_broadcast env (sg_serialized tx) in
      case r of
        Sent h \<Rightarrow> h = sg_hash tx \<and> (\<exists>h'. answer = BroadcastOk h')
      | PreBroadcast _ \<Rightarrow> refused_outright env answer
      | SendAmbiguous _ \<Rightarrow> \<not> refused_outright env answer \<and> (\<forall>h. answer \<noteq> BroadcastOk h))"

text \<open>A transaction the signer made for a call, under some nonce.\<close>

definition signed_for :: "send_env \<Rightarrow> contract_call \<Rightarrow> signed_tx \<Rightarrow> bool" where
  "signed_for env call tx \<longleftrightarrow> (\<exists>n. sv_sign env (call\<lparr>cc_nonce := Some n\<rparr>) = Inr tx)"

lemma recorded_signed: "recorded_send store signer env claimed call pr db tx \<Longrightarrow> signed_for env call tx"
  by (auto simp: recorded_send_def signed_for_def)

lemma locked_send_cases:
  assumes "locked_send store signer env claimed guarded call pr = (r, pr', sh)"
  shows "(sh = None \<and> pr_wire pr' = pr_wire pr \<and> (\<forall>h. r \<noteq> Sent h))
    \<or> (\<exists>tx. sh = Some (sg_hash tx) \<and> recorded_send store signer env claimed call pr (pr_db pr') tx
        \<and> ((pr_wire pr' = pr_wire pr \<and> (\<exists>a e. guarded = Some a \<and> sv_guardAtBroadcast env a = Inl e \<and> r = PreBroadcast e))
          \<or> (on_wire pr pr' tx \<and> (\<forall>a. guarded = Some a \<longrightarrow> sv_guardAtBroadcast env a = Inr ())
             \<and> truthful env tx r)))"
proof (cases "with_nonce signer (pr_nonces pr)")
  case (Pair rn al)
  show ?thesis
  proof (cases rn)
    case (Inl e)
    with assms Pair show ?thesis by (auto simp: locked_send_def)
  next
    case (Inr n)
    note send = assms [unfolded locked_send_def Pair Inr prod.case sum.case]
    show ?thesis
    proof (cases "sv_sign env (call\<lparr>cc_nonce := Some n\<rparr>)")
      case (Inl e)
      with send show ?thesis by (auto simp: tx_send_def)
    next
      case sign: (Inr tx)
      obtain res pr1 sh1 where os: "on_signed store env claimed tx (pr\<lparr>pr_nonces := al\<rparr>, None) = (res, pr1, sh1)"
        by (cases "on_signed store env claimed tx (pr\<lparr>pr_nonces := al\<rparr>, None)") auto
      have wire1: "pr_wire pr1 = pr_wire pr" and bad: "\<And>e. res = Inl e \<Longrightarrow> sh1 = None"
        and good: "res = Inr () \<Longrightarrow> sh1 = Some (sg_hash tx)
          \<and> recorded_send store signer env claimed call pr (pr_db pr1) tx"
        using os by (auto simp: on_signed_def recorded_send_def Pair Inr sign split: claim_answer.splits prod.splits sum.splits)
      show ?thesis
      proof (cases res)
        case (Inl e)
        with send os bad wire1 show ?thesis by (auto simp: tx_send_def sign)
      next
        case (Inr u)
        then have g: "sh1 = Some (sg_hash tx)" "recorded_send store signer env claimed call pr (pr_db pr1) tx"
          using good by auto
        from send os Inr g wire1 show ?thesis
          by (auto simp: tx_send_def sign on_wire_def truthful_def refused_outright_def is_insufficient_funds_def
              split: option.splits sum.splits broadcast_result.splits if_splits)
      qed
    qed
  qed
qed

lemma wire_kept [simp]:
  "pr_wire (others store cs pr) = pr_wire pr" "pr_wire (sending_update f claimed pr) = pr_wire pr"
  "pr_wire (write_row store now claimed to m e pr) = pr_wire pr"
  "pr_wire (record_failed_send store env claimed sh msg pr) = pr_wire pr"
  by (simp_all add: others_def sending_update_def write_row_def record_failed_send_def split: option.split)

lemma nonces_kept [simp]:
  "pr_nonces (others store cs pr) = pr_nonces pr" "pr_nonces (sending_update f claimed pr) = pr_nonces pr"
  by (simp_all add: others_def sending_update_def split: option.split)

lemma send_window_cases:
  assumes "send_window store signer env claimed guarded call pr = (r, pr', sh)"
  shows "(sh = None \<and> pr_wire pr' = pr_wire pr \<and> (\<forall>h. r \<noteq> Sent h))
    \<or> (\<exists>h. sh = Some h \<and> pr_wire pr' = pr_wire pr
        \<and> (\<exists>a e. guarded = Some a \<and> sv_guardAtBroadcast env a = Inl e \<and> r = PreBroadcast e))
    \<or> (\<exists>tx. sh = Some (sg_hash tx) \<and> on_wire pr pr' tx
        \<and> (\<forall>a. guarded = Some a \<longrightarrow> sv_guard env a = Inr () \<and> sv_guardAtBroadcast env a = Inr ())
        \<and> truthful env tx r \<and> signed_for env call tx)"
proof -
  let ?pr1 = "others store (sv_queued env) (sending_update begin_send claimed pr)"
  let ?g = "case guarded of None \<Rightarrow> Inr () | Some action \<Rightarrow> sv_guard env action"
  show ?thesis
  proof (cases ?g)
    case (Inl e)
    with assms show ?thesis by (auto simp: send_window_def Let_def)
  next
    case (Inr u)
    obtain r2 pr2 sh2 where ls: "locked_send store signer env claimed guarded call ?pr1 = (r2, pr2, sh2)"
      using prod_cases3 by blast
    have eqs: "r = r2" "sh = sh2" "pr' = others store (sv_onWire env) pr2"
      using assms Inr ls by (auto simp: send_window_def Let_def)
    have g: "\<forall>a. guarded = Some a \<longrightarrow> sv_guard env a = Inr ()" using Inr by auto
    have w: "on_wire ?pr1 pr2 tx \<longleftrightarrow> on_wire pr pr' tx" for tx
      by (simp add: on_wire_def eqs(3))
    have ww: "pr_wire ?pr1 = pr_wire pr" "pr_wire pr2 = pr_wire pr'" by (simp_all add: eqs(3))
    from locked_send_cases [OF ls, unfolded w ww, folded eqs(1,2)] show ?thesis
    proof (elim disjE exE conjE)
      assume "sh = None" "pr_wire pr' = pr_wire pr" "\<forall>h. r \<noteq> Sent h"
      then show ?thesis by simp
    next
      fix tx :: signed_tx and a e
      assume "sh = Some (sg_hash tx)" "pr_wire pr' = pr_wire pr" "guarded = Some a"
        "sv_guardAtBroadcast env a = Inl e" "r = PreBroadcast e"
      then show ?thesis by blast
    next
      fix tx
      assume "sh = Some (sg_hash tx)" "on_wire pr pr' tx" "truthful env tx r"
        "recorded_send store signer env claimed call ?pr1 (pr_db pr2) tx"
        "\<forall>a. guarded = Some a \<longrightarrow> sv_guardAtBroadcast env a = Inr ()"
      with g recorded_signed [of store signer env claimed call ?pr1 "pr_db pr2" tx]
      show ?thesis by (intro disjI2 exI [of _ tx]) simp
    qed
  qed
qed

lemma commit_cases:
  assumes "auto_commit store signer chainId env call claim pr = (res, pr')"
  obtains (lost) existing where "res = Duplicate existing" "pr_wire pr' = pr_wire pr"
      "pr_sending pr' = pr_sending pr"
      "fst (cs_claim store (sv_claimAt env) (claim\<lparr>ii_chainId := chainId\<rparr>) (pr_db pr)) = ClaimLost existing"
  | (sent) claimed db r pr1 sh where
      "cs_claim store (sv_claimAt env) (claim\<lparr>ii_chainId := chainId\<rparr>) (pr_db pr) = (claimed, db)"
      "\<forall>x. claimed \<noteq> ClaimLost x"
      "send_window store signer env claimed (Some (ii_action claim)) call (pr\<lparr>pr_db := db\<rparr>) = (r, pr1, sh)"
      "(\<exists>h. r = Sent h \<and> res = Broadcast h (intent_of claimed) \<and> pr' = sending_update end_send claimed
           (write_row store (sv_doneAt env) claimed Submitted
             (no_meta\<lparr>tm_txHash := Some h, tm_relayMaxBlock := horizon_for env h\<rparr>) no_expectation pr1))
       \<or> (\<exists>e. r = PreBroadcast e \<and> res = AbortedClean e \<and> pr' = sending_update end_send claimed
           (record_failed_send store env claimed sh e pr1))
       \<or> (\<exists>e. r = SendAmbiguous e \<and> res = (case sh of None \<Rightarrow> AbortedClean e | Some h \<Rightarrow> AbortedAmbiguous h e)
           \<and> pr' = sending_update end_send claimed (record_failed_send store env claimed sh e pr1))"
proof (cases "cs_claim store (sv_claimAt env) (claim\<lparr>ii_chainId := chainId\<rparr>) (pr_db pr)")
  case (Pair claimed db)
  show thesis
  proof (cases "\<exists>x. claimed = ClaimLost x")
    case True
    then obtain x where "claimed = ClaimLost x" ..
    with assms Pair show thesis by (intro lost [of x]) (auto simp: auto_commit_def)
  next
    case False
    obtain r pr1 sh where sw: "send_window store signer env claimed (Some (ii_action claim)) call (pr\<lparr>pr_db := db\<rparr>)
        = (r, pr1, sh)" using prod_cases3 by blast
    show thesis
      by (rule sent [OF Pair _ sw])
        (use assms Pair False sw in \<open>cases r; cases claimed; auto simp: auto_commit_def\<close>)+
  qed
qed

section \<open>Properties of the AUTO executor\<close>

lemma sending_kept:
  "pr_sending (others store cs pr) = pr_sending pr"
  "pr_sending (write_row store now claimed to m e pr) = pr_sending pr"
  "pr_sending (record_failed_send store env claimed sh msg pr) = pr_sending pr"
  by (simp_all add: others_def write_row_def record_failed_send_def split: option.split)

lemma locked_send_sending:
  assumes "locked_send store signer env claimed guarded call pr = (r, pr', sh)"
  shows "pr_sending pr' = pr_sending pr"
  using assms
  by (auto simp: locked_send_def tx_send_def on_signed_def Let_def
      split: prod.splits sum.splits claim_answer.splits broadcast_result.splits if_splits)

lemma window_sending:
  assumes "send_window store signer env claimed guarded call pr = (r, pr', sh)"
  shows "pr_sending pr' = pr_sending (sending_update begin_send claimed pr)"
  using assms
  by (auto simp: send_window_def Let_def sending_kept dest!: locked_send_sending
      split: prod.splits sum.splits)

lemma commit_releases:
  "pr_sending (snd (auto_commit store signer chainId env call claim pr)) \<subseteq> pr_sending pr"
proof -
  obtain res pr' where c: "auto_commit store signer chainId env call claim pr = (res, pr')" by force
  from c show ?thesis
  proof (cases rule: commit_cases)
    case (lost existing)
    then show ?thesis by (simp add: c)
  next
    case (sent claimed db r pr1 sh)
    from sent(4) have "pr_sending pr' = pr_sending (sending_update end_send claimed pr1)"
      by (auto simp: sending_update_def sending_kept split: option.split)
    with window_sending [OF sent(3)] show ?thesis
      by (auto simp: c sending_update_def begin_send_def end_send_def split: option.splits)
  qed
qed

lemma commit_verdict:
  assumes c: "auto_commit store signer chainId env call claim pr = (res, pr')"
  shows "case res of
     Broadcast h i \<Rightarrow> \<exists>tx. sg_hash tx = h \<and> on_wire pr pr' tx \<and> signed_for env call tx
       \<and> (\<exists>h'. sv_broadcast env (sg_serialized tx) = BroadcastOk h')
   | AbortedAmbiguous h e \<Rightarrow> \<exists>tx. sg_hash tx = h \<and> on_wire pr pr' tx \<and> signed_for env call tx
       \<and> \<not> refused_outright env (sv_broadcast env (sg_serialized tx))
       \<and> (\<forall>h'. sv_broadcast env (sg_serialized tx) \<noteq> BroadcastOk h')
   | AbortedClean e \<Rightarrow> pr_wire pr' = pr_wire pr
       \<or> (\<exists>tx. on_wire pr pr' tx \<and> signed_for env call tx \<and> refused_outright env (sv_broadcast env (sg_serialized tx)))
   | Duplicate r \<Rightarrow> pr_wire pr' = pr_wire pr
   | ProposedAs i \<Rightarrow> False"
  using c
proof (cases rule: commit_cases)
  case (sent claimed db r pr1 sh)
  have w: "on_wire (pr\<lparr>pr_db := db\<rparr>) pr1 tx \<longleftrightarrow> on_wire pr pr' tx" for tx
    using sent(4) by (auto simp: on_wire_def)
  have "pr_wire pr' = pr_wire pr1" using sent(4) by auto
  with send_window_cases [OF sent(3), unfolded w] sent(4) show ?thesis
    by (auto simp: truthful_def Let_def split: option.splits)
qed simp

text \<open>A commit reports what happened. \<open>Broadcast\<close> means that exactly this signed transaction
  reached the submission route and was taken; \<open>AbortedAmbiguous\<close> that it reached the route and the
  answer settles nothing; after \<open>AbortedClean\<close> and \<open>Duplicate\<close> nothing is in flight: nothing was put on
  the wire, or the route refused it outright. At most one transaction is ever put there, and
  no id is left marked as being sent.\<close>

theorem commit_truthful:
  "(case fst (auto_commit store signer chainId env call claim pr) of
     Broadcast h i \<Rightarrow> \<exists>tx. sg_hash tx = h \<and> on_wire pr (snd (auto_commit store signer chainId env call claim pr)) tx
       \<and> (\<exists>h'. sv_broadcast env (sg_serialized tx) = BroadcastOk h')
   | AbortedAmbiguous h e \<Rightarrow> \<exists>tx. sg_hash tx = h
       \<and> on_wire pr (snd (auto_commit store signer chainId env call claim pr)) tx
       \<and> \<not> refused_outright env (sv_broadcast env (sg_serialized tx))
       \<and> (\<forall>h'. sv_broadcast env (sg_serialized tx) \<noteq> BroadcastOk h')
   | AbortedClean e \<Rightarrow> pr_wire (snd (auto_commit store signer chainId env call claim pr)) = pr_wire pr
       \<or> (\<exists>tx. on_wire pr (snd (auto_commit store signer chainId env call claim pr)) tx
            \<and> refused_outright env (sv_broadcast env (sg_serialized tx)))
   | Duplicate r \<Rightarrow> pr_wire (snd (auto_commit store signer chainId env call claim pr)) = pr_wire pr
   | ProposedAs i \<Rightarrow> False)
   \<and> pr_sending (snd (auto_commit store signer chainId env call claim pr)) \<subseteq> pr_sending pr"
  using commit_verdict [OF surjective_pairing [of "auto_commit store signer chainId env call claim pr"]]
  by (intro conjI commit_releases) (auto split: commit_result.splits)

text \<open>C14: the kill switch and the code-hash check have the last word. If the guard refuses an action
  before the claim is sent, or just before the broadcast, then nothing is put on the wire, and
  the commit does not claim that anything is.\<close>

theorem halt_blocks_broadcast:
  assumes "sv_guard env (ii_action claim) \<noteq> Inr () \<or> sv_guardAtBroadcast env (ii_action claim) \<noteq> Inr ()"
  shows "pr_wire (snd (auto_commit store signer chainId env call claim pr)) = pr_wire pr
    \<and> (\<forall>h i. fst (auto_commit store signer chainId env call claim pr) \<noteq> Broadcast h i)
    \<and> (\<forall>h e. fst (auto_commit store signer chainId env call claim pr) \<noteq> AbortedAmbiguous h e)"
proof -
  obtain res pr' where c: "auto_commit store signer chainId env call claim pr = (res, pr')" by force
  from c show ?thesis
  proof (cases rule: commit_cases)
    case (lost existing)
    then show ?thesis by (simp add: c)
  next
    case (sent claimed db r pr1 sh)
    have "pr_wire pr' = pr_wire pr1" using sent(4) by auto
    with send_window_cases [OF sent(3)] sent(4) assms show ?thesis
      by (auto simp: c split: option.splits)
  qed
qed


section \<open>The row behind a send\<close>

context intent_table begin

lemma window_row:
  assumes "wf (pr_db pr)"
    and "send_window (Some ops) signer env (ClaimedAs i t) guarded call pr = (r, pr', Some h)"
    and "list_all (\<lambda>(now, op). \<not> moves i op) (sv_onWire env)"
  shows "wf (pr_db pr') \<and> (\<exists>row. so_lookup ops (pr_db pr') i = Some row \<and> ti_status row = Pending
    \<and> ti_nonce row \<noteq> None \<and> ti_txHash row = Some h)"
proof -
  let ?pr1 = "others (Some ops) (sv_queued env) (sending_update begin_send (ClaimedAs i t) pr)"
  have db1: "pr_db ?pr1 = store_run ops (sv_queued env) (pr_db pr)"
    by (simp add: others_def sending_update_def intent_of_def)
  have wf1: "wf (pr_db ?pr1)" unfolding db1 by (rule run_wf [OF assms(1)])
  obtain r2 pr2 sh2 where ls: "locked_send (Some ops) signer env (ClaimedAs i t) guarded call ?pr1 = (r2, pr2, sh2)"
    using prod_cases3 by blast
  have sh: "sh2 = Some h" and pr': "pr' = others (Some ops) (sv_onWire env) pr2"
    using assms(2) ls by (auto simp: send_window_def Let_def split: sum.splits)
  from locked_send_cases [OF ls] sh obtain tx :: signed_tx where
    tx: "h = sg_hash tx" "recorded_send (Some ops) signer env (ClaimedAs i t) call ?pr1 (pr_db pr2) tx"
    by auto
  then have m: "mark_pending (Some ops) (sv_markAt env) i (sg_nonce tx) t (Some h) (pr_db ?pr1) = (Inr (), pr_db pr2)"
    by (simp add: recorded_send_def)
  have db2: "pr_db pr2 = snd (so_transition ops (sv_markAt env) i Pending
      (no_meta\<lparr>tm_nonce := Some (sg_nonce tx), tm_txHash := Some h\<rparr>)
      (no_expectation\<lparr>ex_updatedAt := Some t\<rparr>) (pr_db ?pr1))"
    using m by (simp add: mark_pending_def split_beta split: if_splits)
  have wf2: "wf (pr_db pr2)" unfolding db2 by (rule transition_lookup(1) [OF wf1])
  from mark_pending_cases [OF wf1 m] obtain row where row: "so_lookup ops (pr_db pr2) i = Some row"
    "ti_status row = Pending" "ti_nonce row = Some (sg_nonce tx)" "ti_txHash row = Some h"
    by auto
  then have "so_lookup ops (store_run ops (sv_onWire env) (pr_db pr2)) i = Some row"
    using assms(3) by (simp add: run_lookup [OF wf2] in_flight_row_run status_sets)
  with row show ?thesis by (simp add: pr' others_def run_wf [OF wf2])
qed

lemma commit_row:
  assumes "wf (pr_db pr)"
    and "auto_commit (Some ops) signer chainId env call claim pr = (res, pr')" "pr_wire pr' \<noteq> pr_wire pr"
    and "k = idempotency_key (claim\<lparr>ii_chainId := chainId\<rparr>)"
    and "list_all (\<lambda>(now, op). \<not> moves k op) (sv_onWire env)"
  shows "wf (pr_db pr') \<and> (\<exists>row h. so_lookup ops (pr_db pr') k = Some row \<and> ti_status row = Submitted
    \<and> ti_nonce row \<noteq> None \<and> ti_txHash row = Some h
    \<and> (\<exists>tx. on_wire pr pr' tx \<and> sg_hash tx = h))"
  using assms(2)
proof (cases rule: commit_cases)
  case (lost existing)
  with assms(3) show ?thesis by simp
next
  case (sent claimed db r pr1 sh)
  let ?inp = "claim\<lparr>ii_chainId := chainId\<rparr>"
  from sent(1,2) obtain i t where cl: "claimed = ClaimedAs i t"
    and rec: "fst (store_apply ops (sv_claimAt env) (DoRecord ?inp) (pr_db pr)) = ResRecord (Recorded i t)"
    and db: "db = snd (store_apply ops (sv_claimAt env) (DoRecord ?inp) (pr_db pr))"
    by (cases "so_recordIntent ops (sv_claimAt env) ?inp (pr_db pr)")
      (auto simp: cs_claim_def split: record_result.splits)
  have i: "i = k" using record_lookup(1) [OF assms(1) rec] assms(4) by simp
  have wire: "pr_wire pr' = pr_wire pr1" using sent(4) by auto
  then have "pr_wire pr1 \<noteq> pr_wire pr" using assms(3) by simp
  with send_window_cases [OF sent(3)] obtain tx where
    tx: "sh = Some (sg_hash tx)" "on_wire (pr\<lparr>pr_db := db\<rparr>) pr1 tx" "truthful env tx r" by auto
  let ?h = "sg_hash tx"
  have on: "on_wire pr pr' tx" using tx(2) wire by (simp add: on_wire_def)
  have "wf (pr_db (pr\<lparr>pr_db := db\<rparr>))" by (simp add: db wf_apply [OF assms(1)] del: store_apply.simps)
  from window_row [OF this sent(3) [unfolded cl tx(1)]] assms(5) obtain row where
    wf1: "wf (pr_db pr1)" and row: "so_lookup ops (pr_db pr1) k = Some row" "ti_nonce row \<noteq> None"
    "ti_txHash row = Some ?h"
    unfolding i by auto
  have fin: "\<exists>now m. pr_db pr' = snd (so_transition ops now k Submitted m no_expectation (pr_db pr1))
      \<and> (tm_txHash m = None \<or> tm_txHash m = Some ?h) \<and> tm_nonce m = None"
    using sent(4) tx(1,3)
    by (auto simp: cl i write_row_def intent_of_def record_failed_send_def sending_update_def cs_transition_def
        truthful_def no_meta_def)
      (rule exI, rule exI, rule conjI, rule refl, simp)+
  then obtain now m where
    m: "pr_db pr' = snd (so_transition ops now k Submitted m no_expectation (pr_db pr1))"
      "tm_txHash m = None \<or> tm_txHash m = Some ?h" "tm_nonce m = None"
    by blast
  have "so_lookup ops (pr_db pr') k = Some (moved now Submitted m row)"
    unfolding m(1) transition_lookup(2) [OF wf1] by (simp add: row expected_holds_def no_expectation_def)
  with m row on show ?thesis
    unfolding m(1) by (auto simp: transition_lookup(1) [OF wf1] moved_def)
qed

end


definition ex_env :: send_env where
  "ex_env = \<lparr>sv_claimAt = 5, sv_markAt = 6, sv_doneAt = 7, sv_queued = [], sv_onWire = [],
     sv_guard = \<lambda>_. Inr (), sv_guardAtBroadcast = \<lambda>_. Inr (),
     sv_sign = \<lambda>c. Inr \<lparr>sg_hash = ''0xh'', sg_nonce = the (cc_nonce c), sg_serialized = ''0xraw''\<rparr>,
     sv_broadcast = \<lambda>_. BroadcastError ''timeout'', sv_matches = \<lambda>_. False, sv_horizon = None\<rparr>"

definition ex_halted :: send_env where
  "ex_halted = ex_env\<lparr>sv_guardAtBroadcast := \<lambda>_. Inl ''halted''\<rparr>"

definition ex_process :: "pg_db process" where
  "ex_process = \<lparr>pr_db = pg_empty, pr_nonces = \<lparr>al_lease = [''0xbot'' \<mapsto> 4], al_reclaimable = None\<rparr>,
     pr_sending = {}, pr_wire = []\<rparr>"

definition ex_call :: contract_call where
  "ex_call = \<lparr>cc_address = ''0xPool'', cc_data = ''0xda'', cc_nonce = None\<rparr>"

theorem halt_blocks_broadcast_witness:
  "pr_wire (snd (auto_commit (Some pg_ops) ''0xBot'' 1 ex_halted ex_call (ex_intent ''0xPos'') ex_process)) = []"
  using halt_blocks_broadcast [of ex_halted "ex_intent ''0xPos''" "Some pg_ops" "''0xBot''" 1 ex_call ex_process]
  by (simp add: ex_halted_def ex_process_def)

lemma ex_reserve: "with_nonce ''0xBot'' (pr_nonces ex_process) =
    (Inr 4, \<lparr>al_lease = [''0xbot'' \<mapsto> 5], al_reclaimable = None\<rparr>)"
  by (simp add: ex_process_def with_nonce_def lease_reserve_def Let_def to_lower_def lower_char_def)

text \<open>C13: no action is broadcast twice. Once a commit has put a transaction on the wire, and while no
  call moves its row on, every further commit of the same action by any engine or process on the same
  store, under any nonce and however the address is spelled, is a duplicate and broadcasts nothing.\<close>

theorem no_second_broadcast:
  assumes "auto_commit (Some pg_ops) signer chainId env call claim pr = (res, pr')"
    and "pr_db pr = store_run pg_ops before pg_empty" "pr_wire pr' \<noteq> pr_wire pr"
    and "list_all (\<lambda>(now, op). \<not> moves (idempotency_key (claim\<lparr>ii_chainId := chainId\<rparr>)) op) (sv_onWire env)"
    and "list_all (\<lambda>(now, op). \<not> moves (idempotency_key (claim\<lparr>ii_chainId := chainId\<rparr>)) op) after"
    and "pr_db pr2 = store_run pg_ops after (pr_db pr')"
    and "idempotency_key (claim2\<lparr>ii_chainId := chainId2\<rparr>) = idempotency_key (claim\<lparr>ii_chainId := chainId\<rparr>)"
  shows "\<exists>r tx. fst (auto_commit (Some pg_ops) signer2 chainId2 env2 call2 claim2 pr2) = Duplicate r
    \<and> pr_wire (snd (auto_commit (Some pg_ops) signer2 chainId2 env2 call2 claim2 pr2)) = pr_wire pr2
    \<and> on_wire pr pr' tx \<and> ti_txHash r = Some (sg_hash tx)"
proof -
  let ?k = "idempotency_key (claim\<lparr>ii_chainId := chainId\<rparr>)" and ?c2 = "claim2\<lparr>ii_chainId := chainId2\<rparr>"
  have "pg_wf (pr_db pr)" unfolding assms(2) by (rule pg_run_wf)
  from pg.commit_row [OF this assms(1,3) refl assms(4)] obtain row h tx where
    wf: "pg_wf (pr_db pr')" and row: "so_lookup pg_ops (pr_db pr') ?k = Some row" "ti_status row = Submitted"
    "ti_txHash row = Some h" and tx: "on_wire pr pr' tx" "sg_hash tx = h"
    by blast
  have wf2: "pg_wf (pr_db pr2)" unfolding assms(6) by (rule pg.run_wf [OF wf])
  have "so_lookup pg_ops (pr_db pr2) ?k = Some row"
    unfolding assms(6) using assms(5) row(1,2) by (simp add: pg.run_lookup [OF wf] in_flight_row_run status_sets)
  then have "fst (store_apply pg_ops (sv_claimAt env2) (DoRecord ?c2) (pr_db pr2)) = ResRecord (Refused row)"
    using pg.apply_result [OF wf2, of "sv_claimAt env2" "DoRecord ?c2"] assms(7) row(2)
    by (simp add: record_answer_def is_live_def status_sets del: store_apply.simps)
  then have "fst (cs_claim (Some pg_ops) (sv_claimAt env2) ?c2 (pr_db pr2)) = ClaimLost row"
    by (auto simp: cs_claim_def split_beta)
  then obtain db where "cs_claim (Some pg_ops) (sv_claimAt env2) ?c2 (pr_db pr2) = (ClaimLost row, db)"
    by (metis prod.collapse)
  then have "auto_commit (Some pg_ops) signer2 chainId2 env2 call2 claim2 pr2 = (Duplicate row, pr2\<lparr>pr_db := db\<rparr>)"
    by (simp add: auto_commit_def)
  with row(3) tx show ?thesis by auto
qed


lemma ex_claim:
  "cs_claim (Some pg_ops) 5 (ex_intent ''0xPos'') (pr_db ex_process) =
     (ClaimedAs ex_id 5, store_run pg_ops [(5, DoRecord (ex_intent ''0xPos''))] pg_empty)"
proof -
  have "fst (store_apply pg_ops 5 (DoRecord (ex_intent ''0xPos'')) pg_empty) = ResRecord (Recorded ex_id 5)"
    using pg.apply_result [OF pg_wf_empty, of 5 "DoRecord (ex_intent ''0xPos'')"]
    by (simp add: record_answer_def pg_lookup_ops pg_lookup_def pg_empty_def pg_select_def)
  then show ?thesis
    by (cases "so_recordIntent pg_ops 5 (ex_intent ''0xPos'') pg_empty") (simp add: cs_claim_def ex_process_def)
qed

lemma ex_commit_wire:
  "pr_wire (snd (auto_commit (Some pg_ops) ''0xBot'' 1 ex_env ex_call (ex_intent ''0xPos'') ex_process)) = [''0xraw'']"
proof -
  let ?db = "store_run pg_ops [(5, DoRecord (ex_intent ''0xPos''))] pg_empty"
  have c: "(ex_intent ''0xPos'')\<lparr>ii_chainId := 1\<rparr> = ex_intent ''0xPos''" by (simp add: ex_intent_def)
  obtain db2 where m: "mark_pending (Some pg_ops) 6 ex_id 4 5 (Some ''0xh'') ?db = (Inr (), db2)"
    using ex_mark(1) [of 6 4 "Some ''0xh''"] by (metis prod.collapse)
  have nonce: "with_nonce ''0xBot'' (pr_nonces ex_process) = (Inr 4, \<lparr>al_lease = [''0xbot'' \<mapsto> 5], al_reclaimable = None\<rparr>)"
    by (rule ex_reserve)
  show ?thesis
    using m nonce ex_claim
    by (simp add: auto_commit_def c ex_env_def send_window_def locked_send_def tx_send_def on_signed_def
        others_def sending_update_def intent_of_def is_insufficient_funds_def Let_def ex_process_def
        del: store_run.simps(2))
qed

theorem no_second_broadcast_witness:
  "\<exists>r. fst (auto_commit (Some pg_ops) ''0xBot'' 1 ex_env ex_call (ex_intent ''0xPOS'')
      (snd (auto_commit (Some pg_ops) ''0xBot'' 1 ex_env ex_call (ex_intent ''0xPos'') ex_process))) = Duplicate r"
proof -
  let ?pr = "snd (auto_commit (Some pg_ops) ''0xBot'' 1 ex_env ex_call (ex_intent ''0xPos'') ex_process)"
  have c: "(ex_intent s)\<lparr>ii_chainId := 1\<rparr> = ex_intent s" for s by (simp add: ex_intent_def)
  have "\<exists>r tx. fst (auto_commit (Some pg_ops) ''0xBot'' 1 ex_env ex_call (ex_intent ''0xPOS'') ?pr) = Duplicate r
    \<and> pr_wire (snd (auto_commit (Some pg_ops) ''0xBot'' 1 ex_env ex_call (ex_intent ''0xPOS'') ?pr)) = pr_wire ?pr
    \<and> on_wire ex_process ?pr tx \<and> ti_txHash r = Some (sg_hash tx)"
    by (rule no_second_broadcast [where pr = ex_process and before = "[]" and after = "[]", OF surjective_pairing])
      (simp_all add: ex_commit_wire c, simp_all add: ex_process_def ex_env_def)
  then show ?thesis by blast
qed


section \<open>Properties of the MANUAL executor\<close>

text \<open>A live row that stays as it is: the same content, or one an operator has taken.\<close>

definition blocks :: "hex \<Rightarrow> tx_intent \<Rightarrow> bool" where
  "blocks h row \<longleftrightarrow> is_live (ti_status row)
     \<and> (ti_payloadHash row = Some h \<or> ti_status row \<noteq> Proposed \<or> ti_safeEnvelope row \<noteq> None)"

context intent_table begin

lemma propose_cases:
  assumes "wf db" "ii_chainId inp = pt_chainId p" "so_propose ops now inp p h db = (res, db')"
  shows "wf db'"
    and "(\<exists>row. so_lookup ops db (idempotency_key inp) = Some row \<and> is_live (ti_status row)
        \<and> res = Inr (Refused row) \<and> so_lookup ops db' = so_lookup ops db)
      \<or> ((\<forall>row. so_lookup ops db (idempotency_key inp) = Some row \<longrightarrow> \<not> is_live (ti_status row))
        \<and> res = Inr (Recorded (idempotency_key inp) now)
        \<and> (\<exists>row. so_lookup ops db' (idempotency_key inp) = Some row \<and> ti_status row = Proposed
             \<and> ti_payload row = Some p \<and> ti_payloadHash row = Some h \<and> ti_safeEnvelope row = None)
        \<and> (\<forall>k. k \<noteq> idempotency_key inp \<longrightarrow> so_lookup ops db' k = so_lookup ops db k))"
proof -
  have db': "db' = snd (store_apply ops now (DoPropose inp p h) db)" using assms(3) by (cases res) simp_all
  have ans: "fst (store_apply ops now (DoPropose inp p h) db) = record_answer now inp (so_lookup ops db)"
    by (rule apply_result [OF assms(1)]) (simp add: assert_proposal_chain_def assms(2))
  have look: "so_lookup ops db' k = (if k = idempotency_key inp
      then revive stored now inp Proposed (Some p) (Some h) (so_lookup ops db k) else so_lookup ops db k)" for k
    unfolding db' apply_effect [OF assms(1)] by (simp add: assms(2))
  show "wf db'" unfolding db' by (rule wf_apply [OF assms(1)])
  show "(\<exists>row. so_lookup ops db (idempotency_key inp) = Some row \<and> is_live (ti_status row)
        \<and> res = Inr (Refused row) \<and> so_lookup ops db' = so_lookup ops db)
      \<or> ((\<forall>row. so_lookup ops db (idempotency_key inp) = Some row \<longrightarrow> \<not> is_live (ti_status row))
        \<and> res = Inr (Recorded (idempotency_key inp) now)
        \<and> (\<exists>row. so_lookup ops db' (idempotency_key inp) = Some row \<and> ti_status row = Proposed
             \<and> ti_payload row = Some p \<and> ti_payloadHash row = Some h \<and> ti_safeEnvelope row = None)
        \<and> (\<forall>k. k \<noteq> idempotency_key inp \<longrightarrow> so_lookup ops db' k = so_lookup ops db k))"
  proof (cases "\<exists>row. so_lookup ops db (idempotency_key inp) = Some row \<and> is_live (ti_status row)")
    case True
    with ans assms(3) look show ?thesis
      by (cases res) (auto simp: record_answer_def Let_def revive_def fun_eq_iff)
  next
    case False
    with ans assms(3) look show ?thesis
      by (cases res; cases "so_lookup ops db (idempotency_key inp)")
        (auto simp: record_answer_def Let_def revive_def fresh_row_def)
  qed
qed

lemma supersede_lookup:
  assumes "wf db"
  shows "wf (snd (so_supersede ops now i db))"
    and "so_lookup ops (snd (so_supersede ops now i db)) k =
      (if i = k then map_option (touch now (DoSupersede i)) (so_lookup ops db k) else so_lookup ops db k)"
proof -
  have s: "snd (store_apply ops now (DoSupersede i) db) = snd (so_supersede ops now i db)"
    by (simp add: split_beta)
  show "wf (snd (so_supersede ops now i db))"
    using wf_apply [OF assms, of now "DoSupersede i"] unfolding s .
  show "so_lookup ops (snd (so_supersede ops now i db)) k =
      (if i = k then map_option (touch now (DoSupersede i)) (so_lookup ops db k) else so_lookup ops db k)"
    using apply_effect [OF assms, of now "DoSupersede i" k] unfolding s by (simp del: touch.simps)
qed

end


context intent_table begin

lemma manual_propose_cases:
  assumes "wf (dk_db dk)" "k = idempotency_key (action\<lparr>ii_chainId := chainId\<rparr>)"
    "p = build_payload chainId call" "h = hash_payload p"
    and run: "manual_propose ops hash_payload chainId ttl now call action dk = (res, dk')"
  shows "(\<exists>row. so_lookup ops (dk_db dk) k = Some row \<and> blocks h row \<and> res = Inr (Duplicate row)
      \<and> so_lookup ops (dk_db dk') = so_lookup ops (dk_db dk) \<and> dk_notices dk' = dk_notices dk)
    \<or> ((\<forall>row. so_lookup ops (dk_db dk) k = Some row \<longrightarrow> \<not> blocks h row) \<and> res = Inr (ProposedAs k)
      \<and> (\<exists>row. so_lookup ops (dk_db dk') k = Some row \<and> ti_status row = Proposed
           \<and> ti_payload row = Some p \<and> ti_payloadHash row = Some h \<and> ti_safeEnvelope row = None)
      \<and> (\<forall>j. j \<noteq> k \<longrightarrow> so_lookup ops (dk_db dk') j = so_lookup ops (dk_db dk) j)
      \<and> dk_notices dk' = dk_notices dk @ [ManualIntent k (ii_action action) (ii_subject action)
           (ii_target action) h (if ttl > 0 then Some (now + ttl) else None)])"
proof -
  let ?claim = "action\<lparr>ii_chainId := chainId\<rparr>"
  have pc: "pt_chainId p = chainId" by (simp add: assms(3) build_payload_def)
  have chain: "ii_chainId ?claim = pt_chainId p" by (simp add: pc)
  obtain r1 db1 where p1: "so_propose ops now ?claim p h (dk_db dk) = (r1, db1)" by force
  note c1 = propose_cases [OF assms(1) chain p1, folded assms(2)]
  let ?db2 = "snd (so_supersede ops now k db1)"
  obtain r3 db3 where p3: "so_propose ops now ?claim p h ?db2 = (r3, db3)" by force
  have wf2: "wf ?db2" by (rule supersede_lookup(1) [OF c1(1)])
  note c3 = propose_cases [OF wf2 chain p3, folded assms(2)]
  note l2 = supersede_lookup(2) [OF c1(1), of now k]
  note run' = run [unfolded manual_propose_def Let_def, folded assms(3), folded assms(4), unfolded pc p1]
  from c1(2) show ?thesis
  proof (elim disjE exE conjE)
    fix row
    assume row: "so_lookup ops (dk_db dk) k = Some row" "is_live (ti_status row)" "r1 = Inr (Refused row)"
      "so_lookup ops db1 = so_lookup ops (dk_db dk)"
    then have id: "ti_id row = k" using lookup_key [OF assms(1)] by blast
    show ?thesis
    proof (cases "ti_payloadHash row = Some h")
      case True
      with run' row show ?thesis by (auto simp: blocks_def)
    next
      case False
      note run2 = run' [unfolded row(3), simplified, unfolded id p3]
      show ?thesis
      proof (cases "ti_status row = Proposed \<and> ti_safeEnvelope row = None")
        case True
        then have "so_lookup ops ?db2 k = Some (row\<lparr>ti_status := Superseded, ti_updatedAt := now\<rparr>)"
          by (simp add: l2 row)
        with c3(2) have "r3 = Inr (Recorded k now)" by (auto simp: is_live_def status_sets)
        with c3(2) run2 False row True l2 show ?thesis
          by (auto simp: blocks_def announce_def)
      next
        case nb: False
        then have same: "so_lookup ops ?db2 = so_lookup ops (dk_db dk)"
          by (auto simp: l2 row fun_eq_iff)
        with c3(2) row have "r3 = Inr (Refused row)" by auto
        with c3(2) run2 False row nb same show ?thesis
          by (auto simp: blocks_def)
      qed
    qed
  next
    fix row
    assume none: "\<forall>row. so_lookup ops (dk_db dk) k = Some row \<longrightarrow> \<not> is_live (ti_status row)"
      and r1: "r1 = Inr (Recorded k now)" and row: "so_lookup ops db1 k = Some row" "ti_status row = Proposed"
        "ti_payload row = Some p" "ti_payloadHash row = Some h" "ti_safeEnvelope row = None"
      and rest: "\<forall>j. j \<noteq> k \<longrightarrow> so_lookup ops db1 j = so_lookup ops (dk_db dk) j"
    from run' r1 have res: "res = Inr (ProposedAs k)" "dk' = announce ttl now k ?claim h (dk\<lparr>dk_db := db1\<rparr>)"
      by auto
    with none row rest show ?thesis by (auto simp: announce_def blocks_def)
  qed
qed

end

text \<open>What an operator is asked to sign is current, and is asked once. A proposal is written, with
  exactly the payload built now and one notice carrying its content hash, unless the row already holds
  the same content or has been taken up by an operator (claimed, on chain, or bound to a SafeTx); then
  the answer is a duplicate, no notice goes out and no row changes.\<close>

theorem manual_proposal_current:
  assumes "dk_db dk = store_run pg_ops before pg_empty"
    and "k = idempotency_key (action\<lparr>ii_chainId := chainId\<rparr>)"
    and "p = build_payload chainId call" "h = hash_payload p"
    and "manual_propose pg_ops hash_payload chainId ttl now call action dk = (res, dk')"
  shows "(\<exists>row. pg_lookup (dk_db dk) k = Some row \<and> blocks h row \<and> res = Inr (Duplicate row)
      \<and> pg_lookup (dk_db dk') = pg_lookup (dk_db dk) \<and> dk_notices dk' = dk_notices dk)
    \<or> ((\<forall>row. pg_lookup (dk_db dk) k = Some row \<longrightarrow> \<not> blocks h row) \<and> res = Inr (ProposedAs k)
      \<and> (\<exists>row. pg_lookup (dk_db dk') k = Some row \<and> ti_status row = Proposed
           \<and> ti_payload row = Some p \<and> ti_payloadHash row = Some h \<and> ti_safeEnvelope row = None)
      \<and> (\<forall>j. j \<noteq> k \<longrightarrow> pg_lookup (dk_db dk') j = pg_lookup (dk_db dk) j)
      \<and> dk_notices dk' = dk_notices dk @ [ManualIntent k (ii_action action) (ii_subject action)
           (ii_target action) h (if ttl > 0 then Some (now + ttl) else None)])"
proof -
  have "pg_wf (dk_db dk)" unfolding assms(1) by (rule pg_run_wf)
  from pg.manual_propose_cases [OF this assms(2-5)] show ?thesis by (simp add: pg_lookup_ops)
qed

definition ex_desk :: "pg_db desk" where
  "ex_desk = \<lparr>dk_db = store_run pg_ops [(1, DoPropose (ex_intent ''0xPos'') ex_payload ''0xold'')] pg_empty,
     dk_warned = {}, dk_notices = []\<rparr>"

theorem manual_proposal_current_witness:
  "fst (manual_propose pg_ops (\<lambda>p. ''0xnew'') 1 0 9 ex_call (ex_intent ''0xPos'') ex_desk) = Inr (ProposedAs ex_id)
   \<and> fst (manual_propose pg_ops (\<lambda>p. ''0xold'') 1 0 9 ex_call (ex_intent ''0xPos'') ex_desk) \<noteq> Inr (ProposedAs ex_id)"
proof -
  have c: "(ex_intent s)\<lparr>ii_chainId := 1\<rparr> = ex_intent s" for s by (simp add: ex_intent_def)
  have chain: "ii_chainId (ex_intent s) = pt_chainId ex_payload" for s
    by (simp add: ex_intent_def ex_payload_def)
  obtain row where row: "pg_lookup (dk_db ex_desk) ex_id = Some row" "ti_status row = Proposed"
    "ti_payloadHash row = Some ''0xold''" "ti_safeEnvelope row = None"
    unfolding ex_desk_def desk.simps pg_run_lookup by (simp add: row_eval chain)
  have db: "dk_db ex_desk = store_run pg_ops [(1, DoPropose (ex_intent ''0xPos'') ex_payload ''0xold'')] pg_empty"
    by (simp add: ex_desk_def)
  note use1 = manual_proposal_current [OF db refl refl refl surjective_pairing, where action = "ex_intent ''0xPos''"
      and chainId = 1, unfolded c ex_intent_key]
  have "blocks ''0xold'' row" "\<not> blocks ''0xnew'' row"
    using row by (simp_all add: blocks_def is_live_def status_sets)
  with row(1) use1 [where hash_payload = "\<lambda>p. ''0xnew''" and ttl = 0 and now = 9 and call = ex_call]
    use1 [where hash_payload = "\<lambda>p. ''0xold''" and ttl = 0 and now = 9 and call = ex_call]
  show ?thesis by auto
qed

end
