(* ===== verification/Outflows.thy ===== *)
theory Outflows
  imports RiskRuns Executor
begin

text \<open>
  Which held outflows a balance read already accounts for, \<open>packages/engine/src/shared/outflows.ts\<close>.
  The three sources are arguments: the transactions in flight according to the executor (\<open>None\<close>
  without a store), the receipt of a transaction, and whether the node knows it.
\<close>

section \<open>The evidence\<close>

datatype receipt_read = ReceiptAt int | ReceiptNotFound | ReceiptFailed

definition outflow_settled ::
  "int \<Rightarrow> hex set option \<Rightarrow> (hex \<Rightarrow> receipt_read) \<Rightarrow> (hex \<Rightarrow> bool outcome) \<Rightarrow> hex \<times> int option \<Rightarrow> bool" where
  "outflow_settled block inFlight receipt known outflow =
     (case outflow of (txHash, minedAtBlock) \<Rightarrow>
       (case minedAtBlock of
          Some b \<Rightarrow> b \<le> block
        | None \<Rightarrow>
            (case receipt txHash of
               ReceiptFailed \<Rightarrow> False
             | ReceiptAt b \<Rightarrow> b \<le> block
             | ReceiptNotFound \<Rightarrow>
                 (case inFlight of
                    Some live \<Rightarrow> txHash \<notin> live
                  | None \<Rightarrow> (case known txHash of Inl _ \<Rightarrow> False | Inr k \<Rightarrow> \<not> k)))))"

definition settled_outflows ::
  "int \<Rightarrow> hex set option outcome \<Rightarrow> (hex \<Rightarrow> receipt_read) \<Rightarrow> (hex \<Rightarrow> bool outcome) \<Rightarrow> gate \<Rightarrow> hex list outcome" where
  "settled_outflows block inFlight receipt known g =
     (if outflows g = [] then Inr []
      else await inFlight (\<lambda>live.
        Inr (map fst (filter (outflow_settled block live receipt known) (outflows g)))))"

section \<open>What may retire a hold\<close>

lemma outflows_mem: "(tx, b) \<in> set (outflows g) \<longleftrightarrow> (\<exists>h. (tx, h) \<in> set (g_holds g) \<and> h_minedAtBlock h = b)"
  by (force simp: outflows_def)

lemma settled_outflows_iff:
  assumes "settled_outflows block inFlight receipt known g = Inr settled"
  shows "tx \<in> set settled \<longleftrightarrow>
    (\<exists>b live. (tx, b) \<in> set (outflows g) \<and> inFlight = Inr live
       \<and> outflow_settled block live receipt known (tx, b))"
  using assms by (force simp: settled_outflows_def await_eq_Inr split: if_splits)

text \<open>Money counts as out until the chain has answered for it. A hold is dropped from the figures
  of a balance read only if its transaction was mined at or below the height of that read, or has no
  receipt and is in flight no more (with a store) or unknown to the node (without one). So after the
  snapshot the entries of a transaction still in flight, of one mined later, and of one whose receipt
  could not be read, are all still subtracted.\<close>

theorem pending_outflow_counted:
  fixes balances :: "(token_account \<times> int) list"
  assumes "settled_outflows block (Inr inFlight) receipt known (gate_run cfg ops (create_gate cfg)) = Inr settled"
    and "holds_entry (gate_run cfg ops (create_gate cfg)) tx e"
    and "map_of (outflows (gate_run cfg ops (create_gate cfg))) tx = Some minedAt"
    and "case minedAt of Some b \<Rightarrow> block < b | None \<Rightarrow>
      (case receipt tx of ReceiptAt b \<Rightarrow> block < b | ReceiptFailed \<Rightarrow> True
       | ReceiptNotFound \<Rightarrow> (case inFlight of Some live \<Rightarrow> tx \<in> live | None \<Rightarrow> known tx \<noteq> Inr False))"
  shows "tx \<notin> set settled
    \<and> holds_entry (apply_snapshot balances block settled (gate_run cfg ops (create_gate cfg))) tx e"
proof -
  let ?g = "gate_run cfg ops (create_gate cfg)"
  have ok: "ledger_ok ?g" by (rule gate_run_ledger_ok [OF ledger_ok_create])
  have "distinct (map fst (outflows ?g))"
    using ledger_okD(3) [OF ok] by (simp add: outflows_def comp_def split_beta)
  then have uniq: "b = minedAt" if "(tx, b) \<in> set (outflows ?g)" for b
    using that assms(3) by simp
  have "tx \<notin> set settled"
    using assms(4) unfolding settled_outflows_iff [OF assms(1)]
    by (auto simp: outflow_settled_def dest!: uniq split: option.splits receipt_read.splits sum.splits)
  with holds_entry_step [OF ok assms(2), of "OpSnapshot balances block settled" cfg] show ?thesis
    by simp
qed

theorem pending_outflow_counted_witness:
  "holds_entry (apply_snapshot [(ex_account, 4)] 9 [] (gate_run ex_cfg
     [OpSetAvailable ex_account 10 (Some 7), OpOpen 5100 (ex_action 6),
      OpSettle 0 ((outcome False)\<lparr>ao_unresolved := True, ao_txHash := Some ''0xt''\<rparr>)]
     (create_gate ex_cfg))) ''0xt'' (ex_key, 6)"
proof -
  let ?ops = "[OpSetAvailable ex_account 10 (Some 7), OpOpen 5100 (ex_action 6),
      OpSettle 0 ((outcome False)\<lparr>ao_unresolved := True, ao_txHash := Some ''0xt''\<rparr>)]"
  have out: "outflows (gate_run ex_cfg ?ops (create_gate ex_cfg)) = [(''0xt'', None)]"
    "holds_entry (gate_run ex_cfg ?ops (create_gate ex_cfg)) ''0xt'' (ex_key, 6)"
    by (simp_all add: gate_eval outflows_def holds_entry_def settle_def counts_as_spent_def hold_hash_def outcome_def
        add_hold_def release_def breaker_exempt_def)
  have "settled_outflows 9 (Inr (Some {''0xt''})) (\<lambda>_. ReceiptNotFound) (\<lambda>_. Inr False)
      (gate_run ex_cfg ?ops (create_gate ex_cfg)) = Inr []"
    by (simp add: settled_outflows_def out(1) outflow_settled_def del: gate_run.simps)
  from pending_outflow_counted [OF this out(2), of None] show ?thesis
    by (simp add: out(1) del: gate_run.simps)
qed

end
