(* ===== verification/LiqInventory.thy ===== *)
theory LiqInventory
  imports Outflows
begin

unbundle bit_operations_syntax

text \<open>
  Liquidations paid from the signer's own tokens: \<open>packages/engine/src/liquidation/domain.ts\<close>,
  \<open>reserves.ts\<close> and \<open>funding/inventory.ts\<close>. Amounts are unsigned ABI values, read as integers. The
  feed is cast, not parsed: a field that is not a string is \<open>None\<close>, an element that is null is
  \<open>None\<close>. Contract reads and simulations are arguments.
\<close>

section \<open>The domain\<close>

definition buffer_amount :: "int \<Rightarrow> int \<Rightarrow> int" where
  "buffer_amount amount bufferBps = (amount * (10000 + bufferBps) + 9999) div 10000"

definition RESERVE_FLAG_BORROWABLE :: int where
  "RESERVE_FLAG_BORROWABLE = 4"

definition is_borrowable_reserve :: "int \<Rightarrow> bool" where
  "is_borrowable_reserve flags = (flags AND RESERVE_FLAG_BORROWABLE \<noteq> 0)"

definition MAX_LIQUIDATION_CANDIDATES :: nat where
  "MAX_LIQUIDATION_CANDIDATES = 500"

definition is_hex_digit :: "char \<Rightarrow> bool" where
  "is_hex_digit c = (c \<in> set ''0123456789abcdefABCDEF'')"

definition is_address :: "string \<Rightarrow> bool" where
  "is_address s = (length s = 42 \<and> take 2 s = ''0x'' \<and> list_all is_hex_digit (drop 2 s))"

record feed_position =
  fe_proxyAddress :: "string option"
  fe_borrower :: "string option"

fun usable_entry :: "feed_position option \<Rightarrow> bool" where
  "usable_entry None = False"
| "usable_entry (Some p) =
     (case (fe_proxyAddress p, fe_borrower p) of
        (Some proxy, Some borrower) \<Rightarrow> is_address proxy \<and> is_address borrower
      | _ \<Rightarrow> False)"

definition proxy_key :: "feed_position \<Rightarrow> string" where
  "proxy_key p = to_lower (the (fe_proxyAddress p))"

text \<open>The loop of \<open>selectPositions\<close>: the first usable entry of each proxy, and how many were unusable.\<close>

fun select_loop :: "string set \<Rightarrow> feed_position option list \<Rightarrow> feed_position list \<times> nat" where
  "select_loop seen [] = ([], 0)"
| "select_loop seen (e # es) =
     (if \<not> usable_entry e then (let (u, m) = select_loop seen es in (u, Suc m))
      else if proxy_key (the e) \<in> seen then select_loop seen es
      else (let (u, m) = select_loop (insert (proxy_key (the e)) seen) es in (the e # u, m)))"

record selection =
  sn_positions :: "feed_position list"
  sn_malformed :: nat
  sn_duplicates :: nat
  sn_truncated :: nat

definition select_positions :: "feed_position option list \<Rightarrow> nat \<Rightarrow> nat \<Rightarrow> selection" where
  "select_positions positions limit offset =
     (let (unique, malformed) = select_loop {} positions;
          start = (if length unique > limit then offset mod length unique else 0)
      in \<lparr>sn_positions = take limit (drop start unique @ take start unique),
          sn_malformed = malformed,
          sn_duplicates = length positions - malformed - length unique,
          sn_truncated = length unique - limit\<rparr>)"

text \<open>How \<open>poll\<close> moves the offset from one cycle to the next.\<close>

definition next_offset :: "selection \<Rightarrow> nat \<Rightarrow> nat" where
  "next_offset s offset =
     (let listed = length (sn_positions s) + sn_truncated s in
      if sn_truncated s > 0 then (offset + length (sn_positions s)) mod listed else 0)"

section \<open>The Spoke's reserves\<close>

record spoke_reserve =
  sr_id :: nat
  sr_token :: address
  sr_borrowable :: bool
  sr_repayable :: bool

definition MAX_SPOKE_RESERVES :: int where
  "MAX_SPOKE_RESERVES = 256"

fun distinct_tokens :: "string set \<Rightarrow> spoke_reserve list \<Rightarrow> address list" where
  "distinct_tokens seen [] = []"
| "distinct_tokens seen (r # rs) =
     (if to_lower (sr_token r) \<in> seen then distinct_tokens seen rs
      else sr_token r # distinct_tokens (insert (to_lower (sr_token r)) seen) rs)"

definition repayable_tokens :: "spoke_reserve list \<Rightarrow> address list" where
  "repayable_tokens rs = distinct_tokens {} (filter sr_repayable rs)"

definition reserve_tokens :: "spoke_reserve list \<Rightarrow> address list" where
  "reserve_tokens rs = distinct_tokens {} rs"

definition read_reserve ::
  "(nat \<Rightarrow> (address \<times> int) outcome) \<Rightarrow> (nat \<Rightarrow> int outcome) \<Rightarrow> nat \<Rightarrow> spoke_reserve outcome" where
  "read_reserve getReserve totalDebt i =
     await (getReserve i) (\<lambda>(token, flags).
       let borrowable = is_borrowable_reserve flags in
       await (if borrowable then Inr True else await (totalDebt i) (\<lambda>d. Inr (d > 0))) (\<lambda>repayable.
         Inr \<lparr>sr_id = i, sr_token = token, sr_borrowable = borrowable, sr_repayable = repayable\<rparr>))"

definition discover_spoke_reserves ::
  "address outcome \<Rightarrow> (address \<Rightarrow> int outcome) \<Rightarrow> (nat \<Rightarrow> (address \<times> int) outcome) \<Rightarrow> (nat \<Rightarrow> int outcome)
     \<Rightarrow> (address \<times> spoke_reserve list) outcome" where
  "discover_spoke_reserves readSpoke reserveCount getReserve totalDebt =
     await readSpoke (\<lambda>spoke.
     await (reserveCount spoke) (\<lambda>n.
       if n > MAX_SPOKE_RESERVES then Inl (''Spoke '' @ spoke @ '' reports '' @ show_int n @ '' reserves, past the '' @ show_int MAX_SPOKE_RESERVES
         @ '' this bot will enumerate -- check that ADAPTER_ADDRESS points at the AaveAdapter for this deployment'')
       else await (await_all (read_reserve getReserve totalDebt) [0..<nat n]) (\<lambda>rs. Inr (spoke, rs))))"

section \<open>Funding from inventory\<close>

record liquidation_candidate =
  ca_proxyAddress :: address
  ca_borrower :: address
  ca_debtReserveId :: int
  ca_debtToCover :: int
  ca_vaultId :: hex
  ca_wbtcPayment :: int
  ca_fairnessPayment :: int

text \<open>A candidate from the Lens estimate (\<open>engine.ts\<close>): every figure buffered by 1%.\<close>

definition make_candidate :: "address \<Rightarrow> address \<Rightarrow> int \<Rightarrow> int \<Rightarrow> int \<Rightarrow> int \<Rightarrow> hex \<Rightarrow> liquidation_candidate" where
  "make_candidate proxy borrower debtReserveId debtToCover liquidationFee fairnessPayment vaultId =
     \<lparr>ca_proxyAddress = proxy, ca_borrower = borrower, ca_debtReserveId = debtReserveId,
      ca_debtToCover = buffer_amount debtToCover 100, ca_vaultId = vaultId,
      ca_wbtcPayment = buffer_amount (liquidationFee + fairnessPayment) 100,
      ca_fairnessPayment = buffer_amount fairnessPayment 100\<rparr>"

definition add_spend ::
  "address \<Rightarrow> address \<Rightarrow> int \<Rightarrow> (string \<times> token_spend) list \<Rightarrow> (string \<times> token_spend) list" where
  "add_spend owner token amount byToken =
     (if amount = 0 then byToken
      else let k = to_lower token in
        case map_of byToken k of
          Some existing \<Rightarrow> alist_set k (existing\<lparr>ts_amount := ts_amount existing + amount\<rparr>) byToken
        | None \<Rightarrow> alist_set k \<lparr>ta_owner = owner, ta_token = token, ts_amount = amount, ts_accounting = None\<rparr> byToken)"

definition spend_for ::
  "spoke_reserve list option \<Rightarrow> address \<Rightarrow> address \<Rightarrow> bool \<Rightarrow> liquidation_candidate \<Rightarrow> token_spend list outcome" where
  "spend_for topology wbtc owner isDirectRedemption c =
     (case topology of
        None \<Rightarrow> Inl ''inventory funding vetted a candidate before refreshInventory read the Spoke''
      | Some reserves \<Rightarrow>
          let i = ca_debtReserveId c in
          if i < 0 \<or> int (length reserves) \<le> i
          then Inl (''Lens returned reserve id '' @ show_int i @ '' -- refusing to attribute the spend'')
          else Inr (map snd (add_spend owner wbtc
                 (if isDirectRedemption then ca_wbtcPayment c else ca_fairnessPayment c)
                 (add_spend owner (sr_token (reserves ! nat i)) (ca_debtToCover c) []))))"

datatype adapter_call =
    Liquidate address int int int hex
  | LiquidateWithLLP address address int int int

definition inventory_call :: "address \<Rightarrow> hex \<Rightarrow> bool \<Rightarrow> liquidation_candidate \<Rightarrow> adapter_call" where
  "inventory_call llp btcRedeemKey isDirectRedemption c =
     (if isDirectRedemption
      then Liquidate (ca_borrower c) (ca_debtReserveId c) (ca_debtToCover c) (ca_wbtcPayment c) btcRedeemKey
      else LiquidateWithLLP (ca_borrower c) llp (ca_debtReserveId c) (ca_debtToCover c) (ca_wbtcPayment c))"

text \<open>\<open>vet\<close>: a candidate is viable when its call simulates; declaring its spend may throw.\<close>

definition inventory_vet ::
  "(adapter_call \<Rightarrow> unit outcome) \<Rightarrow> address \<Rightarrow> hex \<Rightarrow> spoke_reserve list option \<Rightarrow> address \<Rightarrow> address \<Rightarrow> bool
     \<Rightarrow> liquidation_candidate list \<Rightarrow> (liquidation_candidate \<times> adapter_call \<times> token_spend list) list outcome" where
  "inventory_vet simulate llp btcRedeemKey topology wbtc owner isDirect cs =
     await_all (\<lambda>c. await (spend_for topology wbtc owner isDirect c) (\<lambda>sp.
         Inr (c, inventory_call llp btcRedeemKey isDirect c, sp)))
       (filter (\<lambda>c. simulate (inventory_call llp btcRedeemKey isDirect c) = Inr ()) cs)"

text \<open>\<open>refreshInventory\<close>: the approvals, then every balance at one height, then one snapshot.\<close>


definition approved_tokens :: "spoke_reserve list \<Rightarrow> address \<Rightarrow> address list" where
  "approved_tokens reserves wbtc =
     (let ts = repayable_tokens reserves in if wbtc \<in> set ts then ts else ts @ [wbtc])"

definition refresh_inventory ::
  "spoke_reserve list option \<Rightarrow> spoke_reserve list outcome \<Rightarrow> address \<Rightarrow> address \<Rightarrow> (address \<Rightarrow> unit outcome) \<Rightarrow> int outcome
     \<Rightarrow> (address \<Rightarrow> int \<Rightarrow> int outcome) \<Rightarrow> hex set option outcome \<Rightarrow> (hex \<Rightarrow> receipt_read)
     \<Rightarrow> (hex \<Rightarrow> bool outcome) \<Rightarrow> gate \<Rightarrow> unit outcome \<times> spoke_reserve list option \<times> gate" where
  "refresh_inventory old reserves wbtc owner approve blockNumber balanceOf inFlight receipt known g =
     (case reserves of
        Inl e \<Rightarrow> (Inl e, old, g)
      | Inr topology \<Rightarrow>
          (let tokens = approved_tokens topology wbtc in
           case await (await_all approve tokens) (\<lambda>_. await blockNumber (\<lambda>block.
                  await (await_all (\<lambda>t. balanceOf t block) tokens) (\<lambda>balances.
                  await (settled_outflows block inFlight receipt known g) (\<lambda>settled.
                    Inr (block, balances, settled))))) of
             Inl e \<Rightarrow> (Inl e, Some topology, g)
           | Inr (block, balances, settled) \<Rightarrow>
               (Inr (), Some topology,
                apply_snapshot (zip (map (\<lambda>t. \<lparr>ta_owner = owner, ta_token = t\<rparr>) tokens) balances)
                  block settled g)))"

section \<open>What a liquidation declares\<close>

definition account_of :: "address \<Rightarrow> address \<Rightarrow> token_account" where
  "account_of owner token = \<lparr>ta_owner = owner, ta_token = token\<rparr>"

lemma account_key_eq:
  "ledger_key (account_of owner t) = ledger_key (account_of owner t') \<longleftrightarrow> to_lower t = to_lower t'"
  by (simp add: ledger_key_def account_of_def)

definition by_token_ok :: "address \<Rightarrow> (string \<times> token_spend) list \<Rightarrow> bool" where
  "by_token_ok owner m \<longleftrightarrow> distinct (map fst m)
     \<and> (\<forall>(k, sp) \<in> set m. k = to_lower (ta_token sp) \<and> ta_owner sp = owner \<and> 0 \<le> ts_amount sp)"

lemma by_token_add:
  assumes "by_token_ok owner m" "0 \<le> amount"
  shows "by_token_ok owner (add_spend owner token amount m)"
  using assms
  by (auto simp: by_token_ok_def add_spend_def Let_def distinct_alist_set set_alist_set_distinct
      dest!: map_of_SomeD split: option.split)

lemma by_token_wf:
  assumes "by_token_ok owner m"
  shows "spend_wf (map snd m)"
proof -
  have "ledger_key sp = to_lower owner @ ''|'' @ k" if "(k, sp) \<in> set m" for k sp
    using assms that by (auto simp: by_token_ok_def ledger_key_def)
  then have eq: "map ledger_key (map snd m) = map (\<lambda>k. to_lower owner @ ''|'' @ k) (map fst m)"
    by (auto simp: split_beta)
  have "distinct (map ledger_key (map snd m))"
    unfolding eq using assms by (subst distinct_map) (simp add: by_token_ok_def inj_on_def)
  then show ?thesis using assms by (auto simp: spend_wf_def by_token_ok_def)
qed

lemma spend_total_sum:
  "spend_total (map snd m) k = sum_list (map (\<lambda>p. if ledger_key (snd p) = k then ts_amount (snd p) else 0) m)"
  by (induction m) (auto simp: spend_total_def)

lemma spend_total_add:
  assumes "by_token_ok owner m"
  shows "spend_total (map snd (add_spend owner token amount m)) k =
    spend_total (map snd m) k + (if k = ledger_key (account_of owner token) then amount else 0)"
proof (cases "amount = 0")
  case False
  let ?f = "\<lambda>p. if ledger_key (snd p) = k then ts_amount (snd p) else 0"
  show ?thesis
  proof (cases "map_of m (to_lower token)")
    case None
    with False show ?thesis
      using sum_list_alist_set_new [OF None, of ?f]
      by (auto simp: add_spend_def Let_def spend_total_sum ledger_key_def account_of_def)
  next
    case (Some sp)
    have sp: "to_lower (ta_token sp) = to_lower token" "ta_owner sp = owner"
      using assms map_of_SomeD [OF Some] by (auto simp: by_token_ok_def)
    have "distinct (map fst m)" using assms by (simp add: by_token_ok_def)
    from sum_list_alist_set_old [OF this Some, of ?f] False Some sp show ?thesis
      by (auto simp: add_spend_def Let_def spend_total_sum ledger_key_def account_of_def)
  qed
qed (simp add: add_spend_def)

text \<open>A liquidation declares exactly what its call can pull. The debt is charged to the token of
  the reserve at the id the Lens named, the WBTC payment to WBTC, added up where the two are one token;
  one entry per account, as the gate's overdraw guard requires of an action.\<close>

theorem spend_declared:
  assumes "spend_for (Some reserves) wbtc owner isDirect c = Inr spend"
    and "0 \<le> ca_debtToCover c" "0 \<le> ca_wbtcPayment c" "0 \<le> ca_fairnessPayment c"
  shows "opens_wf (OpOpen now \<lparr>ra_kind = ''liquidation'', ra_subject = ca_proxyAddress c,
      ra_expectedProfit = None, ra_dataTimestampMs = stamp, ra_spend = Some spend\<rparr>)
    \<and> 0 \<le> ca_debtReserveId c \<and> ca_debtReserveId c < int (length reserves)
    \<and> (\<forall>k. spend_total spend k =
        (if k = ledger_key (account_of owner (sr_token (reserves ! nat (ca_debtReserveId c)))) then ca_debtToCover c else 0)
        + (if k = ledger_key (account_of owner wbtc)
           then (if isDirect then ca_wbtcPayment c else ca_fairnessPayment c) else 0))"
proof -
  let ?t = "sr_token (reserves ! nat (ca_debtReserveId c))"
  let ?p = "if isDirect then ca_wbtcPayment c else ca_fairnessPayment c"
  let ?m1 = "add_spend owner ?t (ca_debtToCover c) []"
  have m0: "by_token_ok owner []" by (simp add: by_token_ok_def)
  have m1: "by_token_ok owner ?m1" by (rule by_token_add [OF m0 assms(2)])
  have m2: "by_token_ok owner (add_spend owner wbtc ?p ?m1)"
    by (rule by_token_add [OF m1]) (use assms(3,4) in simp)
  have s: "spend = map snd (add_spend owner wbtc ?p ?m1)"
    and i: "0 \<le> ca_debtReserveId c" "ca_debtReserveId c < int (length reserves)"
    using assms(1) by (auto simp: spend_for_def Let_def split: if_splits)
  have "spend_total spend k = (if k = ledger_key (account_of owner ?t) then ca_debtToCover c else 0)
      + (if k = ledger_key (account_of owner wbtc) then ?p else 0)" for k
    unfolding s spend_total_add [OF m1] spend_total_add [OF m0] by (simp add: spend_total_def)
  with by_token_wf [OF m2] i show ?thesis by (simp add: s action_spend_def)
qed

definition ex_reserves :: "spoke_reserve list" where
  "ex_reserves = [\<lparr>sr_id = 0, sr_token = ''0xusdc'', sr_borrowable = True, sr_repayable = True\<rparr>,
     \<lparr>sr_id = 1, sr_token = ''0xWbtc'', sr_borrowable = True, sr_repayable = True\<rparr>]"

theorem spend_declared_witness:
  "spend_total [\<lparr>ta_owner = ''0xbot'', ta_token = ''0xWbtc'', ts_amount = 35, ts_accounting = None\<rparr>]
     (ledger_key (account_of ''0xbot'' ''0xwbtc'')) = 35"
proof -
  let ?c = "make_candidate ''0xp'' ''0xb'' 1 20 5 8 ''0xv''"
  have c: "ca_debtToCover ?c = 21" "ca_wbtcPayment ?c = 14" "ca_fairnessPayment ?c = 9" "ca_debtReserveId ?c = 1"
    by (simp_all add: make_candidate_def buffer_amount_def)
  have s: "spend_for (Some ex_reserves) ''0xwbtc'' ''0xbot'' True ?c =
      Inr [\<lparr>ta_owner = ''0xbot'', ta_token = ''0xWbtc'', ts_amount = 35, ts_accounting = None\<rparr>]"
    by (simp add: spend_for_def c ex_reserves_def add_spend_def Let_def to_lower_def lower_char_def)
  have "ledger_key (account_of ''0xbot'' (sr_token (ex_reserves ! Suc 0))) = ledger_key (account_of ''0xbot'' ''0xwbtc'')"
    by (simp add: ex_reserves_def account_key_eq to_lower_def lower_char_def)
  with spend_declared [OF s] show ?thesis by (simp add: c)
qed


section \<open>Which positions a cycle acts on\<close>

lemma select_loop_subset:
  "select_loop seen es = (u, m) \<Longrightarrow> p \<in> set u \<Longrightarrow> Some p \<in> set es \<and> usable_entry (Some p)"
proof (induction es arbitrary: seen u m)
  case (Cons e es)
  obtain u1 m1 where r1: "select_loop seen es = (u1, m1)" by force
  obtain u2 m2 where r2: "select_loop (insert (proxy_key (the e)) seen) es = (u2, m2)" by force
  show ?case
    using Cons.prems Cons.IH [OF r1] Cons.IH [OF r2] r1 r2 by (cases e) (auto split: if_splits)
qed simp

lemma select_loop_distinct:
  "select_loop seen es = (u, m) \<Longrightarrow> distinct (map proxy_key u) \<and> (\<forall>q \<in> set u. proxy_key q \<notin> seen)"
proof (induction es arbitrary: seen u m)
  case (Cons e es)
  obtain u1 m1 where r1: "select_loop seen es = (u1, m1)" by force
  obtain u2 m2 where r2: "select_loop (insert (proxy_key (the e)) seen) es = (u2, m2)" by force
  show ?case
    using Cons.prems Cons.IH [OF r1] Cons.IH [OF r2] r1 r2 by (cases e) (auto split: if_splits, blast+)
qed simp

lemma select_loop_covers:
  "select_loop seen es = (u, m) \<Longrightarrow> Some p \<in> set es \<Longrightarrow> usable_entry (Some p) \<Longrightarrow>
     proxy_key p \<in> seen \<union> proxy_key ` set u"
proof (induction es arbitrary: seen u m)
  case (Cons e es)
  obtain u1 m1 where r1: "select_loop seen es = (u1, m1)" by force
  obtain u2 m2 where r2: "select_loop (insert (proxy_key (the e)) seen) es = (u2, m2)" by force
  show ?case
    using Cons.prems Cons.IH [OF r1] Cons.IH [OF r2] r1 r2 by (cases e) (auto split: if_splits)
qed simp

lemma select_loop_length:
  "select_loop seen es = (u, m) \<Longrightarrow> length u \<le> length es"
proof (induction es arbitrary: seen u m)
  case (Cons e es)
  obtain u1 m1 where r1: "select_loop seen es = (u1, m1)" by force
  obtain u2 m2 where r2: "select_loop (insert (proxy_key (the e)) seen) es = (u2, m2)" by force
  show ?case
    using Cons.prems Cons.IH [OF r1] Cons.IH [OF r2] r1 r2 by (cases e) (auto split: if_splits)
qed simp

definition uniques :: "feed_position option list \<Rightarrow> feed_position list" where
  "uniques feed = fst (select_loop {} feed)"

lemma select_positions_window:
  "sn_positions (select_positions feed limit offset) =
     take limit (rotate (if length (uniques feed) > limit then offset mod length (uniques feed) else 0) (uniques feed))"
  "sn_truncated (select_positions feed limit offset) = length (uniques feed) - limit"
proof -
  have "drop k xs @ take k xs = rotate k xs" if "k < length xs \<or> k = 0" for k and xs :: "feed_position list"
    using that by (auto simp: rotate_drop_take)
  then show "sn_positions (select_positions feed limit offset) =
     take limit (rotate (if length (uniques feed) > limit then offset mod length (uniques feed) else 0) (uniques feed))"
    by (cases "uniques feed = []")
      (auto simp: select_positions_def uniques_def split_beta Let_def simp del: take_append)
  show "sn_truncated (select_positions feed limit offset) = length (uniques feed) - limit"
    by (simp add: select_positions_def uniques_def split_beta Let_def)
qed

text \<open>The offset that a run of cycles over the same feed has reached.\<close>

primrec offset_at :: "feed_position option list \<Rightarrow> nat \<Rightarrow> nat \<Rightarrow> nat" where
  "offset_at feed limit 0 = 0"
| "offset_at feed limit (Suc i) =
     next_offset (select_positions feed limit (offset_at feed limit i)) (offset_at feed limit i)"

lemma offset_at_mult:
  assumes "0 < limit" "limit < length (uniques feed)" "i * limit < length (uniques feed)"
  shows "offset_at feed limit i = i * limit"
  using assms(3)
proof (induction i)
  case (Suc i)
  then have "offset_at feed limit i = i * limit" by simp
  then have "offset_at feed limit (Suc i) = (i * limit + limit) mod length (uniques feed)"
    using assms by (simp add: next_offset_def Let_def select_positions_window)
  with Suc.prems show ?case by (simp add: add.commute)
qed simp

lemma window_covers:
  assumes "0 < limit" "x < length (uniques feed)"
  shows "uniques feed ! x \<in> set (sn_positions (select_positions feed limit (offset_at feed limit (x div limit))))"
proof (cases "limit < length (uniques feed)")
  case True
  let ?n = "length (uniques feed)" and ?s = "x div limit * limit"
  have le: "?s \<le> x" by simp
  then have s: "?s < ?n" using assms(2) by linarith
  then have "offset_at feed limit (x div limit) = ?s" by (rule offset_at_mult [OF assms(1) True])
  then have w: "sn_positions (select_positions feed limit (offset_at feed limit (x div limit))) =
      take limit (rotate ?s (uniques feed))"
    using True s by (simp add: select_positions_window)
  have j: "x - ?s < limit" using assms(1) by (simp add: minus_div_mult_eq_mod)
  then have "take limit (rotate ?s (uniques feed)) ! (x - ?s) = uniques feed ! x"
    using assms(2) le by (simp add: nth_rotate)
  moreover have "x - ?s < length (take limit (rotate ?s (uniques feed)))" using j assms(2) by simp
  ultimately show ?thesis unfolding w by (metis nth_mem)
next
  case False
  with assms(2) show ?thesis by (simp add: select_positions_window)
qed


definition ex_feed :: "feed_position option list" where
  "ex_feed = map (\<lambda>c. Some \<lparr>fe_proxyAddress = Some (''0x'' @ replicate 40 c),
     fe_borrower = Some (''0x'' @ replicate 40 (CHR ''b''))\<rparr>) [CHR ''1'', CHR ''2'', CHR ''3'']"


end
