(* ===== verification/LiqFlash.thy ===== *)
theory LiqFlash
  imports LiqInventory
begin

text \<open>
  Liquidations paid from flash liquidity: \<open>packages/engine/src/liquidation/funding/venues.ts\<close>,
  \<open>flashProbe.ts\<close> and \<open>flash.ts\<close>. The checksum spelling of an address (\<open>getAddress\<close>) is the wallet
  library's, a parameter \<open>cs\<close>; addresses here are well-formed, so it does not throw. The probe is a
  simulation of the router contract, an argument.
\<close>

section \<open>Venues\<close>

text \<open>A fee or a tick spacing that is no number is \<^const>\<open>None\<close>, the code's \<open>NaN\<close>.\<close>

record pool_key =
  pk_currency0 :: address
  pk_currency1 :: address
  pk_fee :: "int option"
  pk_tickSpacing :: "int option"
  pk_hooks :: address

record flash_swap_venue =
  fv_token :: address
  fv_venueAddress :: address
  fv_poolKey :: pool_key

datatype venue_type = AaveV3 | Morpho | UniswapV4FlashSwap | UniswapV4FlashLoan

record venue_registry =
  vr_wbtc :: address
  vr_flashSwaps :: "flash_swap_venue list"
  vr_loanType :: venue_type
  vr_loanAddress :: address

text \<open>The \<open>swapData\<close> of an entry is the encoded pool key of a flash swap, \<open>0x\<close> for a loan.\<close>

record flash_data =
  fd_venueType :: venue_type
  fd_venueAddress :: address
  fd_token :: address
  fd_swapData :: "pool_key option"

datatype venue_error = I1 string | I2 string | I3 string | I4 string

definition all_fundable_tokens :: "venue_registry \<Rightarrow> address list" where
  "all_fundable_tokens reg = map fv_token (vr_flashSwaps reg) @ [vr_wbtc reg]"

definition assert_wbtc_paired_with ::
  "(address \<Rightarrow> address) \<Rightarrow> pool_key \<Rightarrow> address \<Rightarrow> address \<Rightarrow> venue_error + unit" where
  "assert_wbtc_paired_with cs pool token wbtc =
     (let c0 = cs (pk_currency0 pool); c1 = cs (pk_currency1 pool);
          pairsToken = (c0 = cs token \<or> c1 = cs token);
          pairsWbtc = (c0 = cs wbtc \<or> c1 = cs wbtc)
      in if \<not> pairsToken \<or> \<not> pairsWbtc \<or> c0 = c1
         then Inl (I3 (''pool '' @ c0 @ ''/'' @ c1 @ '' is not WBTC/'' @ cs token)) else Inr ())"

fun registry_loop ::
  "(address \<Rightarrow> address) \<Rightarrow> address \<Rightarrow> address set \<Rightarrow> flash_swap_venue list \<Rightarrow> venue_error + unit" where
  "registry_loop cs wbtc seen [] = Inr ()"
| "registry_loop cs wbtc seen (v # vs) =
     (if cs (fv_token v) \<in> seen then Inl (I2 (''two flash-swap venues configured for token '' @ cs (fv_token v)))
      else if cs (fv_token v) = cs wbtc then Inl (I1 ''WBTC must be funded by a flash loan, not a flash swap: a WBTC/x pool would leave a debt in x'')
      else case assert_wbtc_paired_with cs (fv_poolKey v) (fv_token v) wbtc of
             Inl e \<Rightarrow> Inl e
           | Inr _ \<Rightarrow> registry_loop cs wbtc (insert (cs (fv_token v)) seen) vs)"

definition assert_registry_valid :: "(address \<Rightarrow> address) \<Rightarrow> venue_registry \<Rightarrow> venue_error + unit" where
  "assert_registry_valid cs reg = registry_loop cs (vr_wbtc reg) {} (vr_flashSwaps reg)"

fun swap_entries ::
  "(address \<Rightarrow> address) \<Rightarrow> venue_registry \<Rightarrow> address list \<Rightarrow> venue_error + flash_data list" where
  "swap_entries cs reg [] = Inr []"
| "swap_entries cs reg (token # rest) =
     (if cs token = cs (vr_wbtc reg) then swap_entries cs reg rest
      else case List.find (\<lambda>v. cs (fv_token v) = cs token) (vr_flashSwaps reg) of
             None \<Rightarrow> Inl (I1 (''no flash-swap venue configured for '' @ cs token))
           | Some v \<Rightarrow>
               (case assert_wbtc_paired_with cs (fv_poolKey v) token (vr_wbtc reg) of
                  Inl e \<Rightarrow> Inl e
                | Inr _ \<Rightarrow>
                    (case swap_entries cs reg rest of
                       Inl e \<Rightarrow> Inl e
                     | Inr fds \<Rightarrow> Inr (\<lparr>fd_venueType = UniswapV4FlashSwap, fd_venueAddress = fv_venueAddress v,
                         fd_token = cs token, fd_swapData = Some (fv_poolKey v)\<rparr> # fds))))"

text \<open>The first token that an earlier one of the list already named (\<open>seen\<close>), which the error reports.\<close>

fun first_repeat :: "address list \<Rightarrow> address list \<Rightarrow> address" where
  "first_repeat seen [] = ''''"
| "first_repeat seen (key # keys) = (if key \<in> set seen then key else first_repeat (key # seen) keys)"

definition build_flash_datas ::
  "(address \<Rightarrow> address) \<Rightarrow> address list \<Rightarrow> int \<Rightarrow> venue_registry \<Rightarrow> venue_error + flash_data list" where
  "build_flash_datas cs owed fairnessPayment reg =
     (if \<not> distinct (map cs owed) then Inl (I2 (''duplicate entry for token '' @ first_repeat [] (map cs owed)))
      else case swap_entries cs reg owed of
             Inl e \<Rightarrow> Inl e
           | Inr swaps \<Rightarrow>
               (let needsWbtc = (fairnessPayment > 0 \<or> list_ex (\<lambda>t. cs t = cs (vr_wbtc reg)) owed);
                    fds = (if needsWbtc
                      then swaps @ [\<lparr>fd_venueType = vr_loanType reg, fd_venueAddress = vr_loanAddress reg,
                             fd_token = cs (vr_wbtc reg), fd_swapData = None\<rparr>]
                      else swaps)
                in if fds = [] then Inl (I1 ''nothing to fund: no owed tokens and no fairness payment'')
                   else Inr fds))"

section \<open>The probe\<close>

record venue_debt =
  vd_token :: address
  vd_venue :: address
  vd_amount :: int

datatype probe_result = Quote int "venue_debt list" | Unavailable string

record profit_quote =
  pq_realisedWbtc :: int
  pq_totalVenueDebt :: int
  pq_expectedProfit :: int

text \<open>What the simulated call did: it must revert. An error with no decodable revert is a failure of
  the read, a revert of another name says that this candidate cannot be funded now.\<close>

datatype simulation =
    Returned
  | RevertBeloved int "venue_debt list"
  | RevertOther string
  | NoRevert string

definition probe_liquidation :: "(address \<Rightarrow> address) \<Rightarrow> simulation \<Rightarrow> probe_result outcome" where
  "probe_liquidation cs sim = (case sim of
     Returned \<Rightarrow> Inl ''probe returned successfully; expected BelovedError''
   | NoRevert e \<Rightarrow> Inl (''probe did not produce a contract revert: '' @ e)
   | RevertOther reason \<Rightarrow> Inr (Unavailable reason)
   | RevertBeloved net debts \<Rightarrow>
       Inr (Quote net (map (\<lambda>d. d\<lparr>vd_token := cs (vd_token d), vd_venue := cs (vd_venue d)\<rparr>) debts)))"

definition quote_profit ::
  "(address \<Rightarrow> address) \<Rightarrow> int \<Rightarrow> venue_debt list \<Rightarrow> address \<Rightarrow> int \<Rightarrow> profit_quote outcome" where
  "quote_profit cs net debts wbtc routerWbtcBefore =
     (if list_ex (\<lambda>d. cs (vd_token d) \<noteq> cs wbtc) debts then Inl (''venue debt in a non-WBTC token ('' @ join '', '' (map vd_token (filter (\<lambda>d. cs (vd_token d) \<noteq> cs wbtc) debts))
       @ ''); this flashDatas needs swapDatas we do not build'')
      else let realised = net - routerWbtcBefore; total = sum_list (map vd_amount debts)
           in Inr \<lparr>pq_realisedWbtc = realised, pq_totalVenueDebt = total,
                   pq_expectedProfit = realised - total\<rparr>)"

definition min_wbtc_profit_floor :: "int \<Rightarrow> int \<Rightarrow> int option \<Rightarrow> int outcome" where
  "min_wbtc_profit_floor expectedProfit maxSlippageBps minProfit =
     (if maxSlippageBps < 0 \<or> maxSlippageBps > 10000 then Inl (''maxSlippageBps must be an integer in [0, 10000], got '' @ show_int maxSlippageBps)
      else if expectedProfit \<le> 0 then Inr 0
      else let afterSlippage = (expectedProfit * (10000 - maxSlippageBps)) div 10000
           in Inr (case minProfit of None \<Rightarrow> afterSlippage
                   | Some m \<Rightarrow> if m > afterSlippage then m else afterSlippage))"

section \<open>Vetting\<close>

record router_call =
  rc_borrower :: address
  rc_minWbtcProfit :: int
  rc_flashDatas :: "flash_data list"

datatype vetted = Funded liquidation_candidate router_call int | Skipped string | ProbeFailed

definition flash_vet_one ::
  "(address \<Rightarrow> address) \<Rightarrow> venue_registry \<Rightarrow> address \<Rightarrow> int \<Rightarrow> int option \<Rightarrow> int
     \<Rightarrow> (address \<Rightarrow> flash_data list \<Rightarrow> simulation) \<Rightarrow> liquidation_candidate \<Rightarrow> vetted" where
  "flash_vet_one cs reg wbtc maxSlippageBps minProfit routerWbtcBefore simulate c =
     (case build_flash_datas cs (all_fundable_tokens reg) (ca_fairnessPayment c) reg of
        Inl _ \<Rightarrow> ProbeFailed
      | Inr fds \<Rightarrow>
          (case probe_liquidation cs (simulate (ca_borrower c) fds) of
             Inl _ \<Rightarrow> ProbeFailed
           | Inr (Unavailable reason) \<Rightarrow> Skipped reason
           | Inr (Quote net debts) \<Rightarrow>
               (case quote_profit cs net debts wbtc routerWbtcBefore of
                  Inl _ \<Rightarrow> ProbeFailed
                | Inr quote \<Rightarrow>
                    if pq_expectedProfit quote \<le> 0 then Skipped ''unprofitable''
                    else (case min_wbtc_profit_floor (pq_expectedProfit quote) maxSlippageBps minProfit of
                            Inl _ \<Rightarrow> ProbeFailed
                          | Inr floor \<Rightarrow> Funded c \<lparr>rc_borrower = ca_borrower c, rc_minWbtcProfit = floor,
                              rc_flashDatas = fds\<rparr> (pq_expectedProfit quote)))))"

definition flash_vet ::
  "(address \<Rightarrow> address) \<Rightarrow> venue_registry \<Rightarrow> address \<Rightarrow> int \<Rightarrow> int option \<Rightarrow> int outcome
     \<Rightarrow> (address \<Rightarrow> flash_data list \<Rightarrow> simulation) \<Rightarrow> liquidation_candidate list
     \<Rightarrow> (liquidation_candidate \<times> router_call \<times> int) list" where
  "flash_vet cs reg wbtc maxSlippageBps minProfit routerBalance simulate candidates =
     (case routerBalance of
        Inl _ \<Rightarrow> []
      | Inr before \<Rightarrow> List.map_filter (\<lambda>c.
          case flash_vet_one cs reg wbtc maxSlippageBps minProfit before simulate c of
            Funded c' call profit \<Rightarrow> Some (c', call, profit) | _ \<Rightarrow> None) candidates)"

section \<open>What a flash-funded liquidation settles in\<close>

lemma check_passes: "(if P then Inl e else Inr ()) = Inr () \<longleftrightarrow> \<not> P"
  by simp

lemma paired_iff:
  "assert_wbtc_paired_with cs pool token wbtc = Inr () \<longleftrightarrow>
     (cs (pk_currency0 pool) = cs token \<or> cs (pk_currency1 pool) = cs token)
     \<and> (cs (pk_currency0 pool) = cs wbtc \<or> cs (pk_currency1 pool) = cs wbtc)
     \<and> cs (pk_currency0 pool) \<noteq> cs (pk_currency1 pool)"
  unfolding assert_wbtc_paired_with_def Let_def check_passes by (simp only: de_Morgan_disj de_Morgan_conj not_not)

text \<open>An entry whose venue wants WBTC back: the loan itself, or a flash swap against the other side of
  a pool that is exactly WBTC and its token.\<close>

definition repaid_in_wbtc :: "(address \<Rightarrow> address) \<Rightarrow> venue_registry \<Rightarrow> flash_data \<Rightarrow> bool" where
  "repaid_in_wbtc cs reg fd \<longleftrightarrow>
     (fd_token fd = cs (vr_wbtc reg) \<and> fd_swapData fd = None
        \<and> fd_venueType fd = vr_loanType reg \<and> fd_venueAddress fd = vr_loanAddress reg)
     \<or> (\<exists>pool. fd_swapData fd = Some pool \<and> fd_venueType fd = UniswapV4FlashSwap
          \<and> {cs (pk_currency0 pool), cs (pk_currency1 pool)} = {fd_token fd, cs (vr_wbtc reg)}
          \<and> fd_token fd \<noteq> cs (vr_wbtc reg))"

lemma swap_entries_tokens:
  assumes "swap_entries cs reg owed = Inr fds"
  shows "map fd_token fds = filter (\<lambda>t. t \<noteq> cs (vr_wbtc reg)) (map cs owed)"
    and "\<forall>fd \<in> set fds. repaid_in_wbtc cs reg fd \<and> fd_token fd \<noteq> cs (vr_wbtc reg)"
proof -
  have "map fd_token fds = filter (\<lambda>t. t \<noteq> cs (vr_wbtc reg)) (map cs owed)
    \<and> (\<forall>fd \<in> set fds. repaid_in_wbtc cs reg fd \<and> fd_token fd \<noteq> cs (vr_wbtc reg))"
    using assms
  proof (induction owed arbitrary: fds)
    case (Cons t owed)
    show ?case
    proof (cases "cs t = cs (vr_wbtc reg)")
      case True
      with Cons show ?thesis by simp
    next
      case False
      with Cons.prems obtain v fds' where
        v: "List.find (\<lambda>v. cs (fv_token v) = cs t) (vr_flashSwaps reg) = Some v"
        and p: "assert_wbtc_paired_with cs (fv_poolKey v) t (vr_wbtc reg) = Inr ()"
        and f: "swap_entries cs reg owed = Inr fds'"
          "fds = \<lparr>fd_venueType = UniswapV4FlashSwap, fd_venueAddress = fv_venueAddress v,
             fd_token = cs t, fd_swapData = Some (fv_poolKey v)\<rparr> # fds'"
        by (auto split: option.splits sum.splits)
      from p False have "{cs (pk_currency0 (fv_poolKey v)), cs (pk_currency1 (fv_poolKey v))} = {cs t, cs (vr_wbtc reg)}"
        by (auto simp: paired_iff)
      then have "repaid_in_wbtc cs reg (hd fds)" using False by (simp add: repaid_in_wbtc_def f(2))
      with Cons.IH [OF f(1)] f(2) False show ?thesis by simp
    qed
  qed simp
  then show "map fd_token fds = filter (\<lambda>t. t \<noteq> cs (vr_wbtc reg)) (map cs owed)"
    "\<forall>fd \<in> set fds. repaid_in_wbtc cs reg fd \<and> fd_token fd \<noteq> cs (vr_wbtc reg)"
    by blast+
qed

lemma build_flash_datas_ok:
  assumes "build_flash_datas cs owed fairness reg = Inr fds"
  shows "distinct (map fd_token fds)" "\<forall>fd \<in> set fds. repaid_in_wbtc cs reg fd"
    "fd_token ` set fds = cs ` set owed \<union> (if 0 < fairness then {cs (vr_wbtc reg)} else {})"
proof -
  from assms obtain swaps where d: "distinct (map cs owed)" and s: "swap_entries cs reg owed = Inr swaps"
    and fds: "fds = (if fairness > 0 \<or> list_ex (\<lambda>t. cs t = cs (vr_wbtc reg)) owed
      then swaps @ [\<lparr>fd_venueType = vr_loanType reg, fd_venueAddress = vr_loanAddress reg,
             fd_token = cs (vr_wbtc reg), fd_swapData = None\<rparr>] else swaps)"
    by (auto simp: build_flash_datas_def Let_def split: if_splits sum.splits)
  note t = swap_entries_tokens [OF s]
  have set: "fd_token ` set swaps = cs ` set owed - {cs (vr_wbtc reg)}"
    using arg_cong [OF t(1), of set] by auto
  have "distinct (map fd_token swaps)" unfolding t(1) using d by (rule distinct_filter)
  then show "distinct (map fd_token fds)" using set by (auto simp: fds)
  show "\<forall>fd \<in> set fds. repaid_in_wbtc cs reg fd" using t(2) by (auto simp: fds repaid_in_wbtc_def)
  show "fd_token ` set fds = cs ` set owed \<union> (if 0 < fairness then {cs (vr_wbtc reg)} else {})"
    using set by (auto simp: fds list_ex_iff) (metis image_eqI)+
qed

lemma registry_loop_ok:
  assumes "registry_loop cs wbtc seen vs = Inr ()"
  shows "distinct (map (cs \<circ> fv_token) vs) \<and> (cs \<circ> fv_token) ` set vs \<inter> seen = {}
    \<and> (\<forall>v \<in> set vs. cs (fv_token v) \<noteq> cs wbtc \<and> assert_wbtc_paired_with cs (fv_poolKey v) (fv_token v) wbtc = Inr ())"
  using assms
proof (induction vs arbitrary: seen)
  case (Cons v vs)
  then have c: "cs (fv_token v) \<notin> seen" "cs (fv_token v) \<noteq> cs wbtc"
      "assert_wbtc_paired_with cs (fv_poolKey v) (fv_token v) wbtc = Inr ()"
      "registry_loop cs wbtc (insert (cs (fv_token v)) seen) vs = Inr ()"
    by (auto split: if_splits sum.splits)
  from Cons.IH [OF c(4)] c(1-3) show ?case by auto
qed simp

lemma find_token:
  assumes "distinct (map (cs \<circ> fv_token) vs)" "v \<in> set vs"
  shows "List.find (\<lambda>w. cs (fv_token w) = cs (fv_token v)) vs = Some v"
  using assms by (induction vs) (auto simp: image_iff)

lemma swap_entries_fundable:
  assumes "assert_registry_valid cs reg = Inr ()" "set vs \<subseteq> set (vr_flashSwaps reg)"
  shows "\<exists>fds. swap_entries cs reg (map fv_token vs @ [vr_wbtc reg]) = Inr fds"
  using assms(2)
proof (induction vs)
  case (Cons v vs)
  note r = registry_loop_ok [OF assms(1) [unfolded assert_registry_valid_def]]
  have "v \<in> set (vr_flashSwaps reg)" using Cons.prems by simp
  with r have "List.find (\<lambda>w. cs (fv_token w) = cs (fv_token v)) (vr_flashSwaps reg) = Some v"
    "cs (fv_token v) \<noteq> cs (vr_wbtc reg)"
    "assert_wbtc_paired_with cs (fv_poolKey v) (fv_token v) (vr_wbtc reg) = Inr ()"
    using find_token [of cs "vr_flashSwaps reg" v] by auto
  with Cons show ?case by auto
qed simp

lemma flash_buildable:
  assumes "assert_registry_valid cs reg = Inr ()"
  shows "\<exists>fds. build_flash_datas cs (all_fundable_tokens reg) fairness reg = Inr fds
    \<and> distinct (map fd_token fds) \<and> fd_token ` set fds = cs ` set (all_fundable_tokens reg)
    \<and> (\<forall>fd \<in> set fds. repaid_in_wbtc cs reg fd)"
proof -
  let ?owed = "all_fundable_tokens reg"
  note r = registry_loop_ok [OF assms [unfolded assert_registry_valid_def]]
  obtain swaps where s: "swap_entries cs reg ?owed = Inr swaps"
    using swap_entries_fundable [OF assms subset_refl] by (auto simp: all_fundable_tokens_def)
  have d: "distinct (map cs ?owed)" using r by (auto simp: all_fundable_tokens_def comp_def)
  have w: "vr_wbtc reg \<in> set ?owed" by (simp add: all_fundable_tokens_def)
  then have "\<exists>fds. build_flash_datas cs ?owed fairness reg = Inr fds"
    using d s by (auto simp: build_flash_datas_def Let_def list_ex_iff)
  then obtain fds where f: "build_flash_datas cs ?owed fairness reg = Inr fds" ..
  note ok = build_flash_datas_ok [OF f]
  have "fd_token ` set fds = cs ` set ?owed" using ok(3) w by auto
  with f ok(1,2) show ?thesis by blast
qed


definition ex_registry :: venue_registry where
  "ex_registry = \<lparr>vr_wbtc = ''0xwbtc'', vr_flashSwaps = [\<lparr>fv_token = ''0xusdc'', fv_venueAddress = ''0xv'',
     fv_poolKey = \<lparr>pk_currency0 = ''0xusdc'', pk_currency1 = ''0xWBTC'', pk_fee = Some 3000, pk_tickSpacing = Some 60,
       pk_hooks = ''0x0''\<rparr>\<rparr>], vr_loanType = Morpho, vr_loanAddress = ''0xm''\<rparr>"


lemma flash_vet_result:
  "flash_vet_one cs reg wbtc bps minProfit before simulate c = Funded c' call profit \<Longrightarrow> c' = c"
  by (auto simp: flash_vet_one_def split: sum.splits probe_result.splits if_splits)

text \<open>The profit a flash liquidation declares is what the probe measured, and the chain enforces it.
  The declared profit is positive and equals the WBTC realised above the router's own balance less the
  venue debts, all of them WBTC; the floor sent on chain is at least the operator's minimum and the share
  of the quote the slippage bound leaves, and not above the quote unless the minimum is.\<close>

theorem flash_profit_floor:
  assumes "(c, call, profit) \<in> set (flash_vet cs reg wbtc bps minProfit routerBalance simulate candidates)"
  shows "\<exists>net before debts. routerBalance = Inr before \<and> c \<in> set candidates
    \<and> simulate (rc_borrower call) (rc_flashDatas call) = RevertBeloved net debts \<and> rc_borrower call = ca_borrower c
    \<and> (\<forall>d \<in> set debts. cs (cs (vd_token d)) = cs wbtc)
    \<and> profit = net - before - sum_list (map vd_amount debts) \<and> 0 < profit
    \<and> (case minProfit of None \<Rightarrow> True | Some m \<Rightarrow> m \<le> rc_minWbtcProfit call)
    \<and> profit * (10000 - bps) < (rc_minWbtcProfit call + 1) * 10000 \<and> 0 \<le> rc_minWbtcProfit call
    \<and> (case minProfit of None \<Rightarrow> rc_minWbtcProfit call \<le> profit
       | Some m \<Rightarrow> m \<le> profit \<longrightarrow> rc_minWbtcProfit call \<le> profit)"
proof -
  from assms obtain before c0 where c0: "routerBalance = Inr before" "c0 \<in> set candidates"
    "flash_vet_one cs reg wbtc bps minProfit before simulate c0 = Funded c call profit"
    by (auto simp: flash_vet_def map_filter_def split: sum.splits vetted.splits)
  then have b: "routerBalance = Inr before" "c \<in> set candidates"
    and v: "flash_vet_one cs reg wbtc bps minProfit before simulate c = Funded c call profit"
    using flash_vet_result [OF c0(3)] by simp_all
  from v obtain fds net debts q where
    p: "probe_liquidation cs (simulate (ca_borrower c) fds) = Inr (Quote net debts)"
    and q: "quote_profit cs net debts wbtc before = Inr q" "0 < pq_expectedProfit q" "profit = pq_expectedProfit q"
    and f: "min_wbtc_profit_floor profit bps minProfit = Inr (rc_minWbtcProfit call)"
      "rc_borrower call = ca_borrower c" "rc_flashDatas call = fds"
    by (auto simp: flash_vet_one_def split: sum.splits probe_result.splits if_splits)
  from p obtain ds where ds: "simulate (ca_borrower c) fds = RevertBeloved net ds"
    "debts = map (\<lambda>d. d\<lparr>vd_token := cs (vd_token d), vd_venue := cs (vd_venue d)\<rparr>) ds"
    by (auto simp: probe_liquidation_def split: simulation.splits)
  have prof: "profit = net - before - sum_list (map vd_amount ds)" "\<forall>d \<in> set ds. cs (cs (vd_token d)) = cs wbtc"
    using q(1,3) by (auto simp: quote_profit_def Let_def ds(2) list_ex_iff comp_def split: if_splits)
  let ?s = "(profit * (10000 - bps)) div 10000"
  have fl: "rc_minWbtcProfit call = (case minProfit of None \<Rightarrow> ?s | Some m \<Rightarrow> max m ?s)" "0 \<le> bps" "bps \<le> 10000"
    using f(1) q(2,3) by (auto simp: min_wbtc_profit_floor_def Let_def max_def split: if_splits option.splits)
  have s: "?s \<le> profit" "profit * (10000 - bps) < (?s + 1) * 10000" "0 \<le> ?s"
  proof -
    have "profit * (10000 - bps) \<le> profit * 10000" using q(2,3) fl(2) by (intro mult_left_mono) auto
    then have "?s \<le> profit * 10000 div 10000" by (rule zdiv_mono1) simp
    then show "?s \<le> profit" by simp
    show "profit * (10000 - bps) < (?s + 1) * 10000" by (simp add: algebra_simps)
    show "0 \<le> ?s" using q(2,3) fl(3) by (simp add: pos_imp_zdiv_nonneg_iff)
  qed
  have le: "?s \<le> rc_minWbtcProfit call" "\<forall>m. minProfit = Some m \<longrightarrow> m \<le> rc_minWbtcProfit call"
    using fl(1) by (auto split: option.splits)
  then have "(?s + 1) * 10000 \<le> (rc_minWbtcProfit call + 1) * 10000" by simp
  with s(2) have low: "profit * (10000 - bps) < (rc_minWbtcProfit call + 1) * 10000" by linarith
  have up: "case minProfit of None \<Rightarrow> rc_minWbtcProfit call \<le> profit
       | Some m \<Rightarrow> m \<le> profit \<longrightarrow> rc_minWbtcProfit call \<le> profit"
    using fl(1) s(1) by (auto split: option.split)
  show ?thesis
    by (intro exI [of _ net] exI [of _ before] exI [of _ ds])
      (use b ds f(2,3) prof q(2,3) low up le s(3) in \<open>auto split: option.split\<close>)
qed

theorem flash_profit_floor_witness:
  "\<exists>call profit. flash_vet to_lower ex_registry ''0xwbtc'' 200 (Some 5) (Inr 7)
     (\<lambda>b fds. RevertBeloved 120 [\<lparr>vd_token = ''0xWBTC'', vd_venue = ''0xv'', vd_amount = 13\<rparr>])
     [make_candidate ''0xp'' ''0xb'' 0 20 5 8 ''0xv''] = [(make_candidate ''0xp'' ''0xb'' 0 20 5 8 ''0xv'', call, profit)]
   \<and> profit = 100 \<and> 0 \<le> rc_minWbtcProfit call \<and> rc_minWbtcProfit call \<le> 100"
proof -
  let ?c = "make_candidate ''0xp'' ''0xb'' 0 20 5 8 ''0xv''"
  let ?sim = "\<lambda>b fds. RevertBeloved 120 [\<lparr>vd_token = ''0xWBTC'', vd_venue = ''0xv'', vd_amount = 13\<rparr>]"
  have "assert_registry_valid to_lower ex_registry = Inr ()"
    by (simp add: assert_registry_valid_def ex_registry_def assert_wbtc_paired_with_def Let_def
        to_lower_def lower_char_def)
  then obtain fds where "build_flash_datas to_lower (all_fundable_tokens ex_registry) (ca_fairnessPayment ?c) ex_registry = Inr fds"
    using flash_buildable by blast
  then obtain call where run: "flash_vet to_lower ex_registry ''0xwbtc'' 200 (Some 5) (Inr 7) ?sim [?c] = [(?c, call, 100)]"
    by (simp add: flash_vet_def flash_vet_one_def map_filter_simps probe_liquidation_def quote_profit_def
        min_wbtc_profit_floor_def Let_def to_lower_def lower_char_def)
  have "(?c, call, 100) \<in> set (flash_vet to_lower ex_registry ''0xwbtc'' 200 (Some 5) (Inr 7) ?sim [?c])"
    unfolding run by simp
  from flash_profit_floor [OF this] run show ?thesis by auto
qed

end
