(* ===== verification/LiqEngine.thy ===== *)
theory LiqEngine
  imports LiqFlash RiskHalting
begin

text \<open>
  The poll cycle of an engine, \<open>packages/engine/src/shared/engine.ts\<close>, and the liquidation engine on
  top of it, \<open>liquidation/engine.ts\<close>: choosing and pricing candidates, sending them through the risk
  gate and the executor, and settling every slot by its receipt. The rest of the process is a state
  \<open>'w\<close> on which the executor acts; the gate is shared, so at each await the operations that others
  perform on it meanwhile are part of what the await answers.
\<close>

section \<open>The contract of slots\<close>

text \<open>What an engine relies on: a slot it settles is settled, and stays so whatever anyone does.\<close>

locale risk_slots =
  fixes close :: "nat \<Rightarrow> action_outcome \<Rightarrow> 'g \<Rightarrow> 'g"
    and step :: "'op \<Rightarrow> 'g \<Rightarrow> 'g"
    and known :: "'g \<Rightarrow> nat \<Rightarrow> bool"
    and closed :: "'g \<Rightarrow> nat \<Rightarrow> bool"
  assumes close_closes: "known g i \<Longrightarrow> closed (close i oc g) i"
    and close_keeps: "closed g i \<Longrightarrow> closed (close j oc g) i" "known g i \<Longrightarrow> known (close j oc g) i"
    and step_keeps: "closed g i \<Longrightarrow> closed (step op g) i" "known g i \<Longrightarrow> known (step op g) i"

context risk_slots begin

lemma close_all:
  assumes "\<forall>i \<in> set is. known g i"
  shows "\<forall>i \<in> set is. closed (fold (\<lambda>i g. close i (oc i) g) is g) i"
proof -
  have keep: "closed g j \<Longrightarrow> closed (fold (\<lambda>i g. close i (oc i) g) is g) j" for g j "is"
    by (induction "is" arbitrary: g) (auto simp: close_keeps)
  from assms show ?thesis
  proof (induction "is" arbitrary: g)
    case (Cons i "is")
    have "\<forall>j \<in> set is. known (close i (oc i) g) j" using Cons.prems close_keeps(2) by auto
    from Cons.IH [OF this] keep [OF close_closes] Cons.prems show ?case by simp
  qed simp
qed

lemma steps_keep:
  "closed g i \<Longrightarrow> closed (fold step ops g) i" "known g i \<Longrightarrow> known (fold step ops g) i"
  by (induction ops arbitrary: g) (auto simp: step_keeps)

end

definition slot_known :: "gate \<Rightarrow> nat \<Rightarrow> bool" where
  "slot_known g i \<longleftrightarrow> i < length (g_slots g)"

definition slot_settled :: "gate \<Rightarrow> nat \<Rightarrow> bool" where
  "slot_settled g i \<longleftrightarrow> i < length (g_slots g) \<and> sl_settled (g_slots g ! i)"

lemma slot_settled_settle: "slot_known g i \<Longrightarrow> slot_settled (settle cfg i oc g) i"
  by (simp add: slot_known_def slot_settled_def settle_slots)

lemma slot_known_step: "slot_known g i \<Longrightarrow> slot_known (gate_step cfg op g) i"
proof (cases op)
  case (OpOpen now action)
  moreover assume "slot_known g i"
  ultimately show ?thesis
    using open_slot_slots [of cfg now action g] by (auto simp: slot_known_def)
qed (simp_all add: slot_known_def gate_frame settle_slots)

interpretation gate_slots: risk_slots "settle cfg" "gate_step cfg" slot_known slot_settled for cfg
proof unfold_locales
  fix g i oc j op
  show "slot_known g i \<Longrightarrow> slot_settled (settle cfg i oc g) i" by (rule slot_settled_settle)
  show "slot_settled g i \<Longrightarrow> slot_settled (settle cfg j oc g) i"
    by (simp add: slot_settled_def settle_slots nth_list_update)
  show "slot_known g i \<Longrightarrow> slot_known (settle cfg j oc g) i" by (simp add: slot_known_def settle_slots)
  show "slot_settled g i \<Longrightarrow> slot_settled (gate_step cfg op g) i"
    unfolding slot_settled_def using gate_step_settled by blast
  show "slot_known g i \<Longrightarrow> slot_known (gate_step cfg op g) i" by (rule slot_known_step)
qed

lemma settle_unfinished_fold:
  "settle_unfinished cfg (map SlotOpen is) g =
     fold (\<lambda>i g. settle cfg i ((outcome False)\<lparr>ao_abandoned := True\<rparr>) g) is g"
  by (induction "is" arbitrary: g) (simp_all add: settle_ref_def)

lemma gate_run_fold: "gate_run cfg ops g = fold (gate_step cfg) ops g"
  by (induction ops arbitrary: g) simp_all

section \<open>Sending a batch\<close>

record funded =
  fu_candidate :: liquidation_candidate
  fu_spend :: "token_spend list option"
  fu_expectedProfit :: "int option"

record 'w engine_port =
  ep_now :: "funded \<Rightarrow> millis"
  ep_commit :: "funded \<Rightarrow> 'w \<Rightarrow> commit_result outcome \<times> gate_op list \<times> 'w"
  ep_receipt :: "hex \<Rightarrow> (receipt_status \<times> int) outcome"
  ep_meanwhile :: "hex \<Rightarrow> gate_op list"
  ep_position :: "address \<Rightarrow> (int \<times> hex list) outcome"
  ep_recordOutcome :: "string \<Rightarrow> hex \<Rightarrow> string option \<Rightarrow> 'w \<Rightarrow> 'w"

record sent_tx =
  st_hash :: hex
  st_intentId :: "string option"
  st_slot :: nat
  st_candidate :: liquidation_candidate

text \<open>A lost race is told by the vault leaving the list; a failed read is not one.\<close>

definition was_position_taken :: "(int \<times> hex list) outcome \<Rightarrow> hex \<Rightarrow> bool" where
  "was_position_taken position vaultId = (case position of
     Inl _ \<Rightarrow> False
   | Inr (collateral, vaultIds) \<Rightarrow>
       collateral = 0 \<or> \<not> list_ex (\<lambda>v. to_lower v = to_lower vaultId) vaultIds)"

definition liq_action :: "wire_value option \<Rightarrow> funded \<Rightarrow> risk_action" where
  "liq_action stamp f = \<lparr>ra_kind = ''liquidation'', ra_subject = ca_proxyAddress (fu_candidate f),
     ra_expectedProfit = fu_expectedProfit f, ra_dataTimestampMs = stamp, ra_spend = fu_spend f\<rparr>"

definition abandoned :: action_outcome where
  "abandoned = (outcome False)\<lparr>ao_abandoned := True\<rparr>"

definition unresolved :: "hex \<Rightarrow> action_outcome" where
  "unresolved h = (outcome False)\<lparr>ao_unresolved := True, ao_txHash := Some h\<rparr>"

text \<open>The loop answers the error it threw, the transactions sent and the slots opened.\<close>

fun send_loop ::
  "risk_config \<Rightarrow> 'w engine_port \<Rightarrow> wire_value option \<Rightarrow> funded list \<Rightarrow> gate \<Rightarrow> 'w
     \<Rightarrow> string option \<times> sent_tx list \<times> nat list \<times> gate \<times> 'w" where
  "send_loop cfg port stamp [] g w = (None, [], [], g, w)"
| "send_loop cfg port stamp (f # fs) g w =
     (case open_slot cfg (ep_now port f) (liq_action stamp f) g of
        (SlotBlocked _, g1) \<Rightarrow> send_loop cfg port stamp fs g1 w
      | (SlotOpen i, g1) \<Rightarrow>
          (case ep_commit port f w of (res, ops, w1) \<Rightarrow>
             let g2 = gate_run cfg ops g1 in
             case res of
               Inl e \<Rightarrow> (Some e, [], [i], g2, w1)
             | Inr (AbortedClean _) \<Rightarrow> (None, [], [i], settle cfg i abandoned g2, w1)
             | Inr (AbortedAmbiguous h _) \<Rightarrow> (None, [], [i], settle cfg i (unresolved h) g2, w1)
             | Inr (Broadcast h intentId) \<Rightarrow>
                 (let (e, sent, slots, g', w') = send_loop cfg port stamp fs g2 w1
                  in (e, \<lparr>st_hash = h, st_intentId = intentId, st_slot = i, st_candidate = fu_candidate f\<rparr> # sent,
                      i # slots, g', w'))
             | Inr _ \<Rightarrow>
                 (let (e, sent, slots, g', w') = send_loop cfg port stamp fs (settle cfg i abandoned g2) w1
                  in (e, sent, i # slots, g', w'))))"

definition receipt_outcome ::
  "hex \<Rightarrow> bool \<Rightarrow> (receipt_status \<times> int) outcome \<Rightarrow> action_outcome" where
  "receipt_outcome h raceLost r = (case r of
     Inl _ \<Rightarrow> unresolved h
   | Inr (RcSuccess, b) \<Rightarrow> (outcome True)\<lparr>ao_txHash := Some h, ao_minedAtBlock := Some b\<rparr>
   | Inr (RcReverted, _) \<Rightarrow> if raceLost then (outcome False)\<lparr>ao_contended := True\<rparr> else outcome False)"

fun settle_receipts ::
  "risk_config \<Rightarrow> 'w engine_port \<Rightarrow> sent_tx list \<Rightarrow> gate \<Rightarrow> 'w \<Rightarrow> gate \<times> 'w" where
  "settle_receipts cfg port [] g w = (g, w)"
| "settle_receipts cfg port (s # rest) g w =
     (let r = ep_receipt port (st_hash s); c = st_candidate s;
          raceLost = was_position_taken (ep_position port (ca_borrower c)) (ca_vaultId c);
          g1 = settle cfg (st_slot s) (receipt_outcome (st_hash s) raceLost r)
                 (gate_run cfg (ep_meanwhile port (st_hash s)) g);
          w1 = (case (r, st_intentId s) of
                  (Inr (RcSuccess, _), Some i) \<Rightarrow> ep_recordOutcome port i (st_hash s) None w
                | (Inr (RcReverted, _), Some i) \<Rightarrow> ep_recordOutcome port i (st_hash s)
                    (Some (if raceLost then ''lost race'' else ''reverted'')) w
                | _ \<Rightarrow> w)
      in settle_receipts cfg port rest g1 w1)"

definition send_all ::
  "risk_config \<Rightarrow> 'w engine_port \<Rightarrow> wire_value option \<Rightarrow> funded list \<Rightarrow> gate \<Rightarrow> 'w \<Rightarrow> nat list \<times> gate \<times> 'w" where
  "send_all cfg port stamp fs g w =
     (let (e, sent, slots, g1, w1) = send_loop cfg port stamp fs g w;
          (g2, w2) = (if e = None then settle_receipts cfg port sent g1 w1 else (g1, w1))
      in (slots, settle_unfinished cfg (map SlotOpen slots) g2, w2))"

section \<open>The poll of the liquidation engine\<close>

datatype feed_read = FeedUnavailable | FeedOk "feed_position option list" "wire_value option"

text \<open>A candidate stays only if the adapter maps its borrower to its proxy.\<close>

definition borrower_matches :: "(address \<Rightarrow> address option outcome) \<Rightarrow> feed_position \<Rightarrow> bool" where
  "borrower_matches getPosition p = (case getPosition (the (fe_borrower p)) of
     Inr (Some mapped) \<Rightarrow> to_lower mapped = to_lower (the (fe_proxyAddress p))
   | _ \<Rightarrow> False)"

definition priced_candidates ::
  "(address \<Rightarrow> (int \<times> int \<times> int \<times> int \<times> hex) outcome) \<Rightarrow> feed_position list \<Rightarrow> liquidation_candidate list" where
  "priced_candidates estimate ps = List.map_filter (\<lambda>p.
     case estimate (the (fe_proxyAddress p)) of
       Inl _ \<Rightarrow> None
     | Inr (debtReserveId, debtToCover, liquidationFee, fairnessPayment, vaultId) \<Rightarrow>
         Some (make_candidate (the (fe_proxyAddress p)) (the (fe_borrower p)) debtReserveId debtToCover
                 liquidationFee fairnessPayment vaultId)) ps"

definition liq_poll ::
  "risk_config \<Rightarrow> 'w engine_port \<Rightarrow> (gate \<Rightarrow> unit outcome \<times> gate) \<Rightarrow> feed_read \<Rightarrow> nat
     \<Rightarrow> (address \<Rightarrow> address option outcome) \<Rightarrow> (address \<Rightarrow> (int \<times> int \<times> int \<times> int \<times> hex) outcome)
     \<Rightarrow> (liquidation_candidate list \<Rightarrow> funded list outcome) \<Rightarrow> gate \<Rightarrow> 'w
     \<Rightarrow> string option \<times> nat list \<times> nat \<times> gate \<times> 'w" where
  "liq_poll cfg port refresh feed offset getPosition estimate vet g w =
     (case refresh g of
        (Inl e, g1) \<Rightarrow> (Some e, [], offset, g1, w)
      | (Inr _, g1) \<Rightarrow>
          (case feed of
             FeedUnavailable \<Rightarrow> (None, [], offset, g1, w)
           | FeedOk positions stamp \<Rightarrow>
               (let s = select_positions positions MAX_LIQUIDATION_CANDIDATES offset;
                    offset' = next_offset s offset;
                    candidates = priced_candidates estimate
                      (filter (borrower_matches getPosition) (sn_positions s))
                in if candidates = [] then (None, [], offset', g1, w)
                   else case vet candidates of
                          Inl e \<Rightarrow> (Some e, [], offset', g1, w)
                        | Inr fs \<Rightarrow>
                            (let (slots, g2, w2) = (if fs = [] then ([], g1, w) else send_all cfg port stamp fs g1 w)
                             in (None, slots, offset', g2, w2)))))"

section \<open>The cycle\<close>

text \<open>\<open>BaseEngine.run\<close>: each step acts on the gate and the process and may throw; the error is caught,
  and whatever happened the slots of the cycle are settled.\<close>

type_synonym 'w stage = "gate \<times> 'w \<Rightarrow> unit outcome \<times> gate \<times> 'w"

definition engine_run ::
  "risk_config \<Rightarrow> 'w stage \<Rightarrow> 'w stage \<Rightarrow> 'w stage \<Rightarrow> (gate \<times> 'w \<Rightarrow> bool outcome \<times> gate \<times> 'w)
     \<Rightarrow> (gate \<Rightarrow> 'w \<Rightarrow> string option \<times> nat list \<times> gate \<times> 'w) \<Rightarrow> gate \<times> 'w \<Rightarrow> string option \<times> gate \<times> 'w" where
  "engine_run cfg reconcile resyncNonces revoke indexerOk poll st =
     (let (e, slots, g, w) =
        (case reconcile st of
           (Inl e, g, w) \<Rightarrow> (Some e, [], g, w)
         | (Inr _, st1) \<Rightarrow>
             (case resyncNonces st1 of
                (Inl e, g, w) \<Rightarrow> (Some e, [], g, w)
              | (Inr _, g2, w2) \<Rightarrow>
                  if g_state g2 = HALTED
                  then (if g_codeHashHalt g2
                        then (case revoke (g2, w2) of
                                (Inl e, g, w) \<Rightarrow> (Some e, [], g, w) | (Inr _, g, w) \<Rightarrow> (None, [], g, w))
                        else (None, [], g2, w2))
                  else (case indexerOk (g2, w2) of
                          (Inl e, g, w) \<Rightarrow> (Some e, [], g, w)
                        | (Inr False, g, w) \<Rightarrow> (None, [], g, w)
                        | (Inr True, g, w) \<Rightarrow> poll g w)))
      in (e, settle_unfinished cfg (map SlotOpen slots) g, w))"

section \<open>Every slot is settled\<close>

fun opens_nothing :: "gate_op \<Rightarrow> bool" where
  "opens_nothing (OpOpen now action) = False"
| "opens_nothing _ = True"

lemma gate_run_known: "slot_known g i \<Longrightarrow> slot_known (gate_run cfg ops g) i"
  unfolding gate_run_fold by (rule gate_slots.steps_keep(2))

lemma gate_run_length:
  "list_all opens_nothing ops \<Longrightarrow> length (g_slots (gate_run cfg ops g)) = length (g_slots g)"
proof (induction ops arbitrary: g)
  case (Cons op ops)
  then have "length (g_slots (gate_step cfg op g)) = length (g_slots g)"
    by (cases op) (simp_all add: gate_frame settle_slots)
  with Cons show ?case by simp
qed simp

lemma settle_length: "length (g_slots (settle cfg i oc g)) = length (g_slots g)"
  by (simp add: settle_slots)

lemma open_slot_known:
  assumes "open_slot cfg now action g = (SlotOpen i, g1)"
  shows "i = length (g_slots g)" "length (g_slots g1) = Suc (length (g_slots g))"
  using assms by (auto simp: open_slot_def split: option.splits)

lemma open_slot_blocked_same: "open_slot cfg now action g = (SlotBlocked b, g1) \<Longrightarrow> g1 = g"
  by (auto simp: open_slot_def split: option.splits)

text \<open>One round of the loop: blocked, thrown or stopped, sent, or left to the next.\<close>

lemma send_loop_round:
  assumes "send_loop cfg port stamp (f # fs) g w = (e, sent, slots, g', w')"
  obtains (blocked) "send_loop cfg port stamp fs g w = (e, sent, slots, g', w')"
  | (stopped) i g1 ops g2 where "open_slot cfg (ep_now port f) (liq_action stamp f) g = (SlotOpen i, g1)"
      "ops = fst (snd (ep_commit port f w))" "g2 = gate_run cfg ops g1" "sent = []" "slots = [i]"
      "g' = g2 \<or> (\<exists>oc. g' = settle cfg i oc g2)"
  | (cont) i g1 ops g2 v ss ls where
      "open_slot cfg (ep_now port f) (liq_action stamp f) g = (SlotOpen i, g1)"
      "ops = fst (snd (ep_commit port f w))" "g2 = gate_run cfg ops g1 \<or> (\<exists>oc. g2 = settle cfg i oc (gate_run cfg ops g1))"
      "send_loop cfg port stamp fs g2 v = (e, ss, ls, g', w')" "slots = i # ls"
      "sent = ss \<or> (\<exists>s. sent = s # ss \<and> st_slot s = i)"
proof -
  obtain r g1 where o': "open_slot cfg (ep_now port f) (liq_action stamp f) g = (r, g1)" by force
  obtain res ops w1 where c: "ep_commit port f w = (res, ops, w1)" using prod_cases3 by blast
  show thesis
  proof (cases r)
    case (SlotBlocked b)
    with assms o' open_slot_blocked_same [of cfg "ep_now port f" "liq_action stamp f" g b g1] show thesis
      by (intro blocked) simp
  next
    case (SlotOpen i)
    note o1 = o' [unfolded SlotOpen]
    let ?g2 = "gate_run cfg ops g1"
    obtain e1 s1 l1 h1 v1 where r1: "send_loop cfg port stamp fs ?g2 w1 = (e1, s1, l1, h1, v1)"
      using prod_cases5 by blast
    obtain e2 s2 l2 h2 v2 where
      r2: "send_loop cfg port stamp fs (settle cfg i abandoned ?g2) w1 = (e2, s2, l2, h2, v2)"
      using prod_cases5 by blast
    show thesis
    proof (cases res)
      case (Inl err)
      with assms o1 c show thesis by (intro stopped [OF o1]) auto
    next
      case (Inr cr)
      note run = assms [unfolded send_loop.simps o1 prod.case slot_ref.case c Let_def Inr sum.case]
      show thesis
      proof (cases cr)
        case (Broadcast h intentId)
        with run r1 show thesis by (intro cont [OF o1 _ disjI1 [OF refl], where v = w1 and ss = s1 and ls = l1]) (auto simp: c)
      next
        case (ProposedAs x)
        with run r2 show thesis
          by (intro cont [OF o1 _ disjI2 [OF exI [of _ abandoned, OF refl]], where v = w1 and ss = s2 and ls = l2]) (auto simp: c)
      next
        case (Duplicate x)
        with run r2 show thesis
          by (intro cont [OF o1 _ disjI2 [OF exI [of _ abandoned, OF refl]], where v = w1 and ss = s2 and ls = l2]) (auto simp: c)
      next
        case (AbortedClean x)
        with run show thesis
          by (intro stopped [OF o1 _ refl _ _ disjI2 [OF exI [of _ abandoned]]]) (auto simp: c)
      next
        case (AbortedAmbiguous h x)
        with run show thesis
          by (intro stopped [OF o1 _ refl _ _ disjI2 [OF exI [of _ "unresolved h"]]]) (auto simp: c)
      qed
    qed
  qed
qed


lemma send_loop_slots:
  assumes "send_loop cfg port stamp fs g w = (e, sent, slots, g', w')"
  shows "(\<forall>i. slot_known g i \<longrightarrow> slot_known g' i) \<and> (\<forall>i \<in> set slots. slot_known g' i) \<and>
    st_slot ` set sent \<subseteq> set slots"
  using assms
proof (induction fs arbitrary: g w sent slots e)
  case (Cons f fs)
  from Cons.prems show ?case
  proof (cases rule: send_loop_round)
    case blocked
    then show ?thesis by (rule Cons.IH)
  next
    case (stopped i g1 ops g2)
    have kept: "slot_known g1 j \<Longrightarrow> slot_known g' j" for j
      using stopped(3,6) by (auto simp: gate_run_known gate_slots.close_keeps(2))
    with stopped(4,5) open_slot_known [OF stopped(1)] show ?thesis by (auto simp: slot_known_def)
  next
    case (cont i g1 ops g2 v ss ls)
    have kept: "slot_known g1 j \<Longrightarrow> slot_known g2 j" for j
      using cont(3) by (auto simp: gate_run_known gate_slots.close_keeps(2))
    have i: "slot_known g1 i" "\<And>j. slot_known g j \<Longrightarrow> slot_known g1 j"
      using open_slot_known [OF cont(1)] by (auto simp: slot_known_def)
    from Cons.IH [OF cont(4)] kept i cont(5,6) show ?thesis by fastforce
  qed
qed auto

text \<open>If nobody else opens a slot meanwhile, the loop's list names every slot that is new.\<close>

lemma send_loop_all_new:
  assumes "send_loop cfg port stamp fs g w = (e, sent, slots, g', w')"
    and quiet: "\<And>f w. list_all opens_nothing (fst (snd (ep_commit port f w)))"
  shows "length (g_slots g) \<le> length (g_slots g') \<and>
    (\<forall>i. length (g_slots g) \<le> i \<and> slot_known g' i \<longrightarrow> i \<in> set slots)"
  using assms(1)
proof (induction fs arbitrary: g w sent slots e)
  case (Cons f fs)
  from Cons.prems show ?case
  proof (cases rule: send_loop_round)
    case blocked
    then show ?thesis by (rule Cons.IH)
  next
    case (stopped i g1 ops g2)
    have "length (g_slots g') = length (g_slots g1)"
      using stopped(2,3,6) quiet by (auto simp: gate_run_length settle_length)
    with stopped(5) open_slot_known [OF stopped(1)] show ?thesis by (auto simp: slot_known_def)
  next
    case (cont i g1 ops g2 v ss ls)
    have len: "length (g_slots g2) = length (g_slots g1)"
      using cont(2,3) quiet by (auto simp: gate_run_length settle_length)
    from Cons.IH [OF cont(4)] len open_slot_known [OF cont(1)] cont(5) show ?thesis
      by simp (metis Suc_leI le_neq_implies_less)
  qed
qed (auto simp: slot_known_def)

lemma settle_receipts_keep:
  "slot_known g i \<Longrightarrow> slot_known (fst (settle_receipts cfg port sent g w)) i"
  by (induction sent arbitrary: g w) (simp_all add: Let_def gate_run_known gate_slots.close_keeps(2))

lemma settle_receipts_length:
  assumes "\<And>h. list_all opens_nothing (ep_meanwhile port h)"
  shows "length (g_slots (fst (settle_receipts cfg port sent g w))) = length (g_slots g)"
  by (induction sent arbitrary: g w) (simp_all add: Let_def settle_length gate_run_length assms)


lemma send_all_closes:
  assumes "send_all cfg port stamp fs g w = (slots, g', w')"
  shows "\<forall>i \<in> set slots. slot_settled g' i"
proof -
  obtain e sent ls g1 w1 where loop: "send_loop cfg port stamp fs g w = (e, sent, ls, g1, w1)"
    using prod_cases5 by blast
  let ?g2 = "if e = None then fst (settle_receipts cfg port sent g1 w1) else g1"
  from assms loop have *: "slots = ls" "g' = settle_unfinished cfg (map SlotOpen ls) ?g2"
    by (auto simp: send_all_def Let_def split: prod.splits if_splits)
  have "\<forall>i \<in> set ls. slot_known ?g2 i"
    using send_loop_slots [OF loop] by (simp add: settle_receipts_keep)
  then show ?thesis unfolding * settle_unfinished_fold by (rule gate_slots.close_all)
qed

lemma settle_unfinished_length: "length (g_slots (settle_unfinished cfg rs g)) = length (g_slots g)"
proof (induction rs arbitrary: g)
  case (Cons r rs)
  then show ?case by (cases r) (simp_all add: settle_ref_def settle_length)
qed simp


section \<open>A halted gate sends nothing\<close>

lemma open_slot_halted: "g_state g = HALTED \<Longrightarrow> \<exists>b. open_slot cfg now action g = (SlotBlocked b, g)"
  by (simp add: open_slot_def evaluate_def)

lemma send_loop_halted: "g_state g = HALTED \<Longrightarrow> send_loop cfg port stamp fs g w = (None, [], [], g, w)"
proof (induction fs)
  case (Cons f fs)
  then show ?case using open_slot_halted [of g cfg "ep_now port f" "liq_action stamp f"] by auto
qed simp

lemma settle_keeps_halted:
  assumes "g_state g = HALTED"
  shows "g_state (settle cfg i oc g) = HALTED"
proof (cases "i < length (g_slots g) \<and> \<not> sl_settled (g_slots g ! i)")
  case True
  with settle_release [of i g cfg oc] release_state [of cfg oc] assms show ?thesis by metis
next
  case False
  then have "settle cfg i oc g = g" by (auto simp: settle_def)
  with assms show ?thesis by simp
qed

text \<open>The kill switch reaches a batch that is under way: once the gate is halted no further
  candidate is committed, so a whole batch on a halted gate changes nothing, and a halt that arrives
  while one commit is in flight leaves that one as the last.\<close>

theorem halt_stops_the_batch:
  "(g_state g = HALTED \<longrightarrow> send_all cfg port stamp fs g w = ([], g, w)) \<and>
   (open_slot cfg (ep_now port f) (liq_action stamp f) g = (SlotOpen i, g1) \<and>
      g_state (gate_run cfg (fst (snd (ep_commit port f w))) g1) = HALTED \<longrightarrow>
    snd (snd (snd (snd (send_loop cfg port stamp (f # fs) g w)))) = snd (snd (ep_commit port f w)))"
proof (intro conjI impI)
  assume "g_state g = HALTED"
  then show "send_all cfg port stamp fs g w = ([], g, w)" by (simp add: send_all_def send_loop_halted)
next
  assume a: "open_slot cfg (ep_now port f) (liq_action stamp f) g = (SlotOpen i, g1) \<and>
    g_state (gate_run cfg (fst (snd (ep_commit port f w))) g1) = HALTED"
  obtain res ops w1 where c: "ep_commit port f w = (res, ops, w1)" using prod_cases3 by blast
  have "g_state (settle cfg i oc (gate_run cfg ops g1)) = HALTED" for oc
    using a c by (simp add: settle_keeps_halted)
  with a c show "snd (snd (snd (snd (send_loop cfg port stamp (f # fs) g w)))) = snd (snd (ep_commit port f w))"
    by (cases res; cases "projr res") (auto simp: send_loop_halted Let_def)
qed


definition ex_funded :: "int \<Rightarrow> funded" where
  "ex_funded amount = \<lparr>fu_candidate = make_candidate ''0xp'' ''0xb'' 1 20 5 8 ''0xv'',
     fu_spend = ra_spend (ex_action amount), fu_expectedProfit = Some 9\<rparr>"

text \<open>The second commit throws, as it does when the store cannot be written.\<close>

definition ex_port :: "unit engine_port" where
  "ex_port = \<lparr>ep_now = (\<lambda>f. 5100),
     ep_commit = (\<lambda>f w. (if fu_spend f = ra_spend (ex_action 6) then Inr (Broadcast ''0xh'' None)
                        else Inl ''store'', [], ())),
     ep_receipt = (\<lambda>h. Inl ''timeout''), ep_meanwhile = (\<lambda>h. []), ep_position = (\<lambda>a. Inl ''rpc''),
     ep_recordOutcome = (\<lambda>i h e w. w)\<rparr>"

definition ex_gate10 :: gate where
  "ex_gate10 = gate_run ex_cfg [OpSnapshot [(ex_account, 10)] 7 []] (create_gate ex_cfg)"


lemma ex_batch:
  "fst (send_all ex_cfg ex_port (Some (WireInt 5000)) [ex_funded 6, ex_funded 3] ex_gate10 ()) = [0, 1]"
  by code_simp

lemma thrown_commit_drops_hold:
  "g_holds (fst (snd (send_all ex_cfg ex_port (Some (WireInt 5000)) [ex_funded 6, ex_funded 3] ex_gate10 ()))) = [] \<and>
   g_reserved (fst (snd (send_all ex_cfg ex_port (Some (WireInt 5000)) [ex_funded 6, ex_funded 3] ex_gate10 ()))) ex_key = Some 0 \<and>
   map fst (g_holds (fst (snd (send_all ex_cfg ex_port (Some (WireInt 5000)) [ex_funded 6] ex_gate10 ())))) = [''0xh'']"
  by code_simp



theorem halt_stops_the_batch_witness:
  "send_all ex_cfg ex_port None [ex_funded 6] (halt ''manual'' ex_gate10) () = ([], halt ''manual'' ex_gate10, ())"
  by (rule halt_stops_the_batch [THEN conjunct1, THEN mp]) (simp add: halt_def halt_with_def emit_def Let_def)

end
