(* ===== verification/ArbRouter.thy ===== *)
theory ArbRouter
  imports LiqInventory
begin

text \<open>
  The arbitrage side's domain rules and its router funding: \<open>packages/engine/src/arbitrage/domain.ts\<close>
  and \<open>arbitrage/funding/router.ts\<close>. A treasury pays through a router against EIP-712 batches this
  process signs. A batch outlives the transaction that carries it, so the mode keeps every signed batch
  until the chain shows it can take nothing more, and publishes to the risk gate the treasury's capacity
  net of them. Contract reads, logs, the clock and the signer are arguments; the typed-data hash is a
  parameter \<open>digest\<close>, since hashing is the wallet library's. What a step does to the gate is the list of
  gate operations it answers.
\<close>

section \<open>The domain\<close>

definition max_wbtc_in_with_slippage :: "int \<Rightarrow> int \<Rightarrow> int outcome" where
  "max_wbtc_in_with_slippage currentDebt slippageBps =
     (if slippageBps < 0 \<or> slippageBps > 10000
      then Inl (''slippageBps must be an integer in [0, 10000], got '' @ show_int slippageBps)
      else Inr (currentDebt + (currentDebt * slippageBps) div 10000))"

definition is_uint_string :: "string \<Rightarrow> bool" where
  "is_uint_string s = (s \<noteq> [] \<and> list_all (\<lambda>c. c \<in> set ''0123456789'') s)"

definition is_bytes32 :: "string \<Rightarrow> bool" where
  "is_bytes32 s = (length s = 66 \<and> take 2 s = ''0x'' \<and> list_all is_hex_digit (drop 2 s))"

text \<open>An element of the escrow feed is cast, not parsed: \<open>None\<close> is a field that is not a string.\<close>

record escrowed_vault =
  ev_vaultId :: "string option"
  ev_btcAmount :: "string option"
  ev_currentDebt :: "string option"

fun is_usable_vault :: "escrowed_vault option \<Rightarrow> bool" where
  "is_usable_vault None = False"
| "is_usable_vault (Some v) =
     (case (ev_vaultId v, ev_btcAmount v, ev_currentDebt v) of
        (Some vaultId, Some btcAmount, Some currentDebt) \<Rightarrow>
          is_bytes32 vaultId \<and> is_uint_string btcAmount \<and> is_uint_string currentDebt
      | _ \<Rightarrow> False)"

text \<open>The \<open>previewEscrowedVaults\<close> entry an acquisition is priced from.\<close>

record vault_preview =
  vp_amountVault :: int
  vp_amountExitBtcToAcquire :: int
  vp_amountProfitEst :: int

section \<open>The state of router funding\<close>

record router_deps =
  rd_chainId :: int
  rd_signer :: address
  rd_from :: address
  rd_router :: address
  rd_wbtc :: address
  rd_vaultSwap :: address
  rd_keeper :: address
  rd_maxSlippageBps :: int
  rd_deadlineSeconds :: int

definition MAX_CHAIN_TIME_LEAD_SECONDS :: int where
  "MAX_CHAIN_TIME_LEAD_SECONDS = 60"

definition AUTHORIZATION_EXPIRY_MARGIN_SECONDS :: int where
  "AUTHORIZATION_EXPIRY_MARGIN_SECONDS = 24"

definition SCAN_REORG_MARGIN_BLOCKS :: int where
  "SCAN_REORG_MARGIN_BLOCKS = 12"

record authorization =
  au_vaultId :: hex
  au_block :: int
  au_deadline :: int
  au_maxWbtcIn :: int
  au_backed :: bool
  au_executedAt :: "int option"

record treasury =
  tr_balance :: int
  tr_allowance :: int
  tr_block :: int

record router =
  ro_payer :: "address option"
  ro_authorizations :: "(hex \<times> authorization) list"
  ro_inventory :: "treasury option"

definition create_router :: router where
  "create_router = \<lparr>ro_payer = None, ro_authorizations = [], ro_inventory = None\<rparr>"

definition payer_or_throw :: "router \<Rightarrow> address outcome" where
  "payer_or_throw r = (case ro_payer r of
     None \<Rightarrow> Inl ''router funding used before prepare(): the payer is read from the router''
   | Some p \<Rightarrow> Inr p)"

definition router_spend :: "router_deps \<Rightarrow> int \<Rightarrow> router \<Rightarrow> token_spend outcome" where
  "router_spend d maxWbtcIn r = await (payer_or_throw r) (\<lambda>payer.
     Inr \<lparr>ta_owner = payer, ta_token = rd_wbtc d, ts_amount = maxWbtcIn, ts_accounting = Some AccCaller\<rparr>)"

section \<open>Boot\<close>

record router_reads =
  rr_signer :: "address outcome"
  rr_payer :: "address outcome"
  rr_wbtc :: "address outcome"
  rr_exitBtc :: "address outcome"
  rr_balance :: "address \<Rightarrow> int outcome"
  rr_allowance :: "address \<Rightarrow> int outcome"

definition router_prepare :: "router_deps \<Rightarrow> router_reads \<Rightarrow> router \<Rightarrow> unit outcome \<times> router" where
  "router_prepare d reads r =
     (case await (rr_signer reads) (\<lambda>signer. await (rr_payer reads) (\<lambda>payer. await (rr_wbtc reads) (\<lambda>wbtc.
        if \<not> same_address signer (rd_signer d) then Inl (''ArbitrageRouter '' @ rd_router d @ '' authorizes '' @ signer @ '', but this bot signs as '' @ rd_signer d
             @ ''. The signer is immutable, so this needs the right key or a different router.'')
        else if same_address payer (rd_from d) \<or> same_address payer (rd_signer d)
        then Inl (''ArbitrageRouter '' @ rd_router d @ '' pays from '' @ payer @ '', which is this bot's own signer. Router funding exists to separate the treasury from the signing key; with one address it also cannot account for signed batches separately from the signer's balance. Use a treasury the bot does not sign for, or ARBITRAGE_FUNDING=inventory.'')
        else if \<not> same_address (rd_from d) (rd_signer d) then Inl (''router funding sends from '' @ rd_from d @ '' but authorizes as '' @ rd_signer d @ ''. ArbitrageRouter '' @ rd_router d
             @ '' only relays batches submitted by its signer, so these must be one account.'')
        else if \<not> same_address wbtc (rd_wbtc d) then Inl (''ArbitrageRouter '' @ rd_router d @ '' pays in '' @ wbtc @ '', but WBTC_ADDRESS is '' @ rd_wbtc d @ ''.'')
        else await (rr_exitBtc reads) (\<lambda>llp.
          if \<not> same_address llp wbtc then Inl (''VaultSwap '' @ rd_vaultSwap d @ '' settles in '' @ llp @ '', but ArbitrageRouter '' @ rd_router d
               @ '' pays in '' @ wbtc @ ''.'')
          else await (rr_balance reads payer) (\<lambda>balance. await (rr_allowance reads payer) (\<lambda>allowance.
            if allowance = 0 then Inl (''payer '' @ payer @ '' has not approved ArbitrageRouter '' @ rd_router d
               @ '' to spend its WBTC. Only the payer can grant this; the bot cannot approve on its behalf.'')
            else Inr payer)))))) of
        Inl e \<Rightarrow> (Inl e, r)
      | Inr payer \<Rightarrow> (Inr (), r\<lparr>ro_payer := Some payer\<rparr>))"

section \<open>Publishing capacity\<close>

text \<open>Per vault, the largest batch the gate no longer backs: a vault can be bought once.\<close>

fun worst_holds :: "(hex \<times> authorization) list \<Rightarrow> (hex \<times> int) list \<Rightarrow> (hex \<times> int) list" where
  "worst_holds [] worst = worst"
| "worst_holds ((i, a) # as) worst =
     (if au_backed a then worst_holds as worst
      else let current = (case map_of worst (au_vaultId a) of None \<Rightarrow> 0 | Some n \<Rightarrow> n)
           in worst_holds as
                (if au_maxWbtcIn a > current then alist_set (au_vaultId a) (au_maxWbtcIn a) worst else worst))"

definition held_back :: "(hex \<times> authorization) list \<Rightarrow> int" where
  "held_back as = sum_list (map snd (worst_holds as []))"

definition publish_capacity :: "router_deps \<Rightarrow> router \<Rightarrow> gate_op list outcome" where
  "publish_capacity d r = (case ro_inventory r of
     None \<Rightarrow> Inr []
   | Some t \<Rightarrow> await (payer_or_throw r) (\<lambda>payer.
       let held = held_back (ro_authorizations r);
           capacity = (if tr_balance t < tr_allowance t then tr_balance t else tr_allowance t)
       in Inr [OpSetAvailable (account_of payer (rd_wbtc d))
                 (if capacity > held then capacity - held else 0) (Some (tr_block t))]))"

section \<open>Retiring authorizations\<close>

text \<open>A log query answers the vault ids it decoded; an undecodable one is \<open>None\<close>.\<close>

type_synonym log_reader = "hex list \<Rightarrow> int \<Rightarrow> int option \<Rightarrow> hex option list outcome"

definition earliest_block :: "authorization list \<Rightarrow> int \<Rightarrow> int" where
  "earliest_block as b0 = fold (\<lambda>a low. if au_block a < low then au_block a else low) as b0"

definition scan_from :: "int \<Rightarrow> int \<Rightarrow> int" where
  "scan_from earliest head =
     (let anchor = (if earliest > head then head else earliest)
      in if anchor > SCAN_REORG_MARGIN_BLOCKS then anchor - SCAN_REORG_MARGIN_BLOCKS else 0)"

definition inert :: "int \<Rightarrow> int \<Rightarrow> authorization \<Rightarrow> bool" where
  "inert head chainTime a =
     ((case au_executedAt a of None \<Rightarrow> False | Some b \<Rightarrow> b \<le> head)
      \<or> au_deadline a + AUTHORIZATION_EXPIRY_MARGIN_SECONDS < chainTime)"

definition retire_authorizations ::
  "log_reader \<Rightarrow> int \<Rightarrow> int \<Rightarrow> router \<Rightarrow> unit outcome \<times> router" where
  "retire_authorizations logs head chainTime r =
     (let live = filter (\<lambda>(i, a). \<not> inert head chainTime a) (ro_authorizations r);
          r1 = r\<lparr>ro_authorizations := live\<rparr>
      in if live = [] then (Inr (), r1)
         else case logs (rev (remdups (rev (map (au_vaultId \<circ> snd) live))))
                (scan_from (earliest_block (map snd live) (au_block (snd (hd live)))) head) (Some head) of
                Inl e \<Rightarrow> (Inl e, r1)
              | Inr found \<Rightarrow>
                  (Inr (), r1\<lparr>ro_authorizations := filter (\<lambda>(i, a). Some (au_vaultId a) \<notin> set found) live\<rparr>))"

text \<open>Balance, allowance and logs are all read at the height of one block.\<close>

definition router_refresh ::
  "router_deps \<Rightarrow> (int \<times> int) outcome \<Rightarrow> (address \<Rightarrow> int \<Rightarrow> int outcome) \<Rightarrow> (address \<Rightarrow> int \<Rightarrow> int outcome)
     \<Rightarrow> log_reader \<Rightarrow> router \<Rightarrow> unit outcome \<times> gate_op list \<times> router" where
  "router_refresh d block balanceOf allowanceOf logs r =
     (case await (payer_or_throw r) (\<lambda>payer. await block (\<lambda>(n, ts).
            await (balanceOf payer n) (\<lambda>balance. await (allowanceOf payer n) (\<lambda>allowance.
              Inr (n, ts, balance, allowance))))) of
        Inl e \<Rightarrow> (Inl e, [], r)
      | Inr (n, ts, balance, allowance) \<Rightarrow>
          (case retire_authorizations logs n ts r of
             (Inl e, r1) \<Rightarrow> (Inl e, [], r1)
           | (Inr _, r1) \<Rightarrow>
               (let r2 = r1\<lparr>ro_inventory := Some \<lparr>tr_balance = balance, tr_allowance = allowance, tr_block = n\<rparr>\<rparr>
                in case publish_capacity d r2 of
                     Inl e \<Rightarrow> (Inl e, [], r2)
                   | Inr ops \<Rightarrow> (Inr (), ops, r2))))"

section \<open>Questions about one authorization\<close>

definition spent_without_us ::
  "int outcome \<Rightarrow> log_reader \<Rightarrow> hex option \<Rightarrow> router \<Rightarrow> bool outcome" where
  "spent_without_us blockNumber logs authorizationId r =
     (case Option.bind authorizationId (map_of (ro_authorizations r)) of
        None \<Rightarrow> Inr False
      | Some a \<Rightarrow>
          (let earliest = earliest_block
                 (filter (\<lambda>b. au_vaultId b = au_vaultId a) (map snd (ro_authorizations r))) (au_block a)
           in await blockNumber (\<lambda>head.
              await (logs [au_vaultId a] (scan_from earliest head) None) (\<lambda>found. Inr (found \<noteq> [])))))"

definition router_authorization_expired ::
  "(int \<Rightarrow> int outcome) \<Rightarrow> hex option \<Rightarrow> int \<Rightarrow> router \<Rightarrow> bool outcome" where
  "router_authorization_expired timestampOf authorizationId minedAtBlock r =
     (case Option.bind authorizationId (map_of (ro_authorizations r)) of
        None \<Rightarrow> Inr False
      | Some a \<Rightarrow> await (timestampOf minedAtBlock) (\<lambda>ts. Inr (ts > au_deadline a)))"

section \<open>Signing\<close>

definition router_min_profit :: "router_deps \<Rightarrow> vault_preview \<Rightarrow> int" where
  "router_min_profit d preview =
     (vp_amountProfitEst preview * (10000 - min (rd_maxSlippageBps d) 10000)) div 10000"

text \<open>What is signed: the one call of the batch with its domain, and the deadline.\<close>

record relay_batch =
  rb_chainId :: int
  rb_router :: address
  rb_vaultSwap :: address
  rb_vaultId :: hex
  rb_keeper :: address
  rb_minProfit :: int
  rb_maxWbtcIn :: int
  rb_deadline :: int

definition relay_batch_of :: "router_deps \<Rightarrow> hex \<Rightarrow> vault_preview \<Rightarrow> int \<Rightarrow> int \<Rightarrow> relay_batch" where
  "relay_batch_of d vaultId preview maxWbtcIn deadline =
     \<lparr>rb_chainId = rd_chainId d, rb_router = rd_router d, rb_vaultSwap = rd_vaultSwap d, rb_vaultId = vaultId,
      rb_keeper = rd_keeper d, rb_minProfit = router_min_profit d preview, rb_maxWbtcIn = maxWbtcIn,
      rb_deadline = deadline\<rparr>"

record relay_call =
  rc_batch :: relay_batch
  rc_signature :: hex

definition router_build ::
  "router_deps \<Rightarrow> (relay_batch \<Rightarrow> hex) \<Rightarrow> (int \<times> int) outcome \<Rightarrow> millis \<Rightarrow> (relay_batch \<Rightarrow> hex outcome)
     \<Rightarrow> hex \<Rightarrow> vault_preview \<Rightarrow> int \<Rightarrow> router \<Rightarrow> (relay_call \<times> hex) outcome \<times> router" where
  "router_build d digest block now sign vaultId preview maxWbtcIn r =
     (case await block (\<lambda>(n, ts).
        if ts - now div 1000 > MAX_CHAIN_TIME_LEAD_SECONDS then 
          Inl (''refusing to sign an acquisition: block '' @ show_int n @ [CHR 0x27] @ ''s timestamp leads this host's clock by ''
             @ show_int (ts - now div 1000) @ ''s (limit '' @ show_int MAX_CHAIN_TIME_LEAD_SECONDS
             @ ''s), so the deadline it implies is not the '' @ show_int (rd_deadlineSeconds d) @ ''s that was configured'')
        else let batch = relay_batch_of d vaultId preview maxWbtcIn (ts + rd_deadlineSeconds d)
             in await (sign batch) (\<lambda>signature. Inr (n, batch, signature))) of
        Inl e \<Rightarrow> (Inl e, r)
      | Inr (n, batch, signature) \<Rightarrow>
          (Inr (\<lparr>rc_batch = batch, rc_signature = signature\<rparr>, digest batch),
           r\<lparr>ro_authorizations := alist_set (digest batch)
               \<lparr>au_vaultId = vaultId, au_block = n, au_deadline = rb_deadline batch, au_maxWbtcIn = maxWbtcIn,
                au_backed = True, au_executedAt = None\<rparr> (ro_authorizations r)\<rparr>))"

section \<open>The hand-over when a slot closes\<close>

definition handed_over :: "bool \<Rightarrow> int option \<Rightarrow> authorization \<Rightarrow> authorization" where
  "handed_over consumed minedAtBlock a =
     (let a1 = a\<lparr>au_backed := False\<rparr>
      in if consumed \<and> minedAtBlock \<noteq> None then a1\<lparr>au_executedAt := minedAtBlock\<rparr> else a1)"

definition settle_authorization ::
  "router_deps \<Rightarrow> hex option \<Rightarrow> bool \<Rightarrow> int option \<Rightarrow> router \<Rightarrow> gate_op list outcome \<times> router" where
  "settle_authorization d authorizationId consumed minedAtBlock r =
     (case authorizationId of
        None \<Rightarrow> (Inr [], r)
      | Some i \<Rightarrow>
          (case map_of (ro_authorizations r) i of
             None \<Rightarrow> (Inr [], r)
           | Some a \<Rightarrow>
               (let r1 = r\<lparr>ro_authorizations :=
                      alist_set i (handed_over consumed minedAtBlock a) (ro_authorizations r)\<rparr>
                in (publish_capacity d r1, r1))))"


section \<open>One vault claims the treasury once\<close>

definition unbacked :: "(hex \<times> authorization) list \<Rightarrow> (hex \<times> int) set" where
  "unbacked as = {(au_vaultId a, au_maxWbtcIn a) | i a. (i, a) \<in> set as \<and> \<not> au_backed a}"

definition vault_claim :: "(hex \<times> authorization) list \<Rightarrow> hex \<Rightarrow> int" where
  "vault_claim as v = Max (insert 0 {n. (v, n) \<in> unbacked as})"

definition worst_of :: "(hex \<times> int) list \<Rightarrow> hex \<Rightarrow> int" where
  "worst_of w v = (case map_of w v of None \<Rightarrow> 0 | Some n \<Rightarrow> n)"

lemma unbacked_simps [simp]:
  "unbacked [] = {}"
  "unbacked ((i, a) # as) = (if au_backed a then unbacked as else insert (au_vaultId a, au_maxWbtcIn a) (unbacked as))"
  by (auto simp: unbacked_def)

lemma finite_unbacked [simp]: "finite (unbacked as)"
  by (induction as) auto

lemma finite_claims [simp]: "finite {n. (v, n) \<in> unbacked as}"
  by (rule finite_subset [of _ "snd ` unbacked as"]) force+

lemma worst_holds_of: "worst_of (worst_holds as w) v = Max (insert (worst_of w v) {n. (v, n) \<in> unbacked as})"
proof (induction as arbitrary: w)
  case (Cons p as)
  obtain i a where p: "p = (i, a)" by force
  have step: "worst_of (if au_maxWbtcIn a > worst_of w (au_vaultId a)
        then alist_set (au_vaultId a) (au_maxWbtcIn a) w else w) v
      = (if v = au_vaultId a then max (worst_of w v) (au_maxWbtcIn a) else worst_of w v)"
    by (auto simp: worst_of_def map_of_alist_set)
  have set: "{n. n = m \<or> P n} = insert m (Collect P)" for m :: int and P
    by auto
  have assoc: "Max (insert (max x y) N) = Max (insert x (insert y N))" if "finite N" for x y :: int and N
    using that by (cases "N = {}") (auto simp: max.assoc)
  show ?case
    using step by (auto simp: p Cons.IH Let_def worst_of_def [symmetric] set assoc)
qed simp

lemma worst_holds_keys:
  "distinct (map fst w) \<Longrightarrow> distinct (map fst (worst_holds as w))"
  "fst ` set (worst_holds as w) \<subseteq> fst ` set w \<union> fst ` unbacked as"
proof (induction as arbitrary: w)
  case (Cons p as)
  obtain i a where p: "p = (i, a)" by force
  { case 1 with Cons.IH(1) show ?case by (auto simp: p Let_def distinct_alist_set) }
  { case 2 from Cons.IH(2) [of "alist_set (au_vaultId a) (au_maxWbtcIn a) w"] Cons.IH(2) [of w]
    show ?case by (auto simp: p Let_def dom_map_of_conv_image_fst [symmetric] update_conv' split: if_splits) }
qed simp_all

lemma sum_list_alist:
  "distinct (map fst w) \<Longrightarrow> sum_list (map snd w) = (\<Sum>v \<in> fst ` set w. worst_of w v)"
proof (induction w)
  case (Cons p w)
  have "(\<Sum>v \<in> fst ` set w. worst_of (p # w) v) = (\<Sum>v \<in> fst ` set w. worst_of w v)"
  proof (intro sum.cong refl)
    fix v assume "v \<in> fst ` set w"
    moreover have "fst p \<notin> fst ` set w" using Cons.prems by simp
    ultimately have "v \<noteq> fst p" by blast
    then show "worst_of (p # w) v = worst_of w v" by (simp add: worst_of_def)
  qed
  with Cons show ?case by (simp add: worst_of_def)
qed simp

lemma held_back_sum:
  assumes "finite V" "fst ` unbacked as \<subseteq> V"
  shows "held_back as = (\<Sum>v \<in> V. vault_claim as v)"
proof -
  let ?w = "worst_holds as []"
  have "held_back as = (\<Sum>v \<in> fst ` set ?w. worst_of ?w v)"
    unfolding held_back_def by (rule sum_list_alist) (simp add: worst_holds_keys(1))
  also have "\<dots> = (\<Sum>v \<in> V. worst_of ?w v)"
    using assms worst_holds_keys(2) [of as "[]"]
    by (intro sum.mono_neutral_left)
      (auto simp: worst_of_def split: option.split dest!: map_of_SomeD intro: rev_image_eqI)
  finally show ?thesis by (simp add: worst_holds_of vault_claim_def worst_of_def [of "[]"])
qed

lemma vault_claim_mono: "unbacked as \<subseteq> unbacked bs \<Longrightarrow> vault_claim as v \<le> vault_claim bs v"
  unfolding vault_claim_def by (intro Max_mono) auto

lemma held_back_mono:
  assumes "unbacked as \<subseteq> unbacked bs" shows "held_back as \<le> held_back bs"
proof -
  have "held_back as = (\<Sum>v \<in> fst ` unbacked bs. vault_claim as v)"
    using assms by (intro held_back_sum) auto
  also have "\<dots> \<le> (\<Sum>v \<in> fst ` unbacked bs. vault_claim bs v)"
    by (intro sum_mono vault_claim_mono assms)
  finally show ?thesis by (simp add: held_back_sum [of "fst ` unbacked bs" bs])
qed

lemma claim_le_held_back:
  assumes "(i, a) \<in> set as" "\<not> au_backed a"
  shows "au_maxWbtcIn a \<le> held_back as"
proof -
  from assms have u: "(au_vaultId a, au_maxWbtcIn a) \<in> unbacked as" by (auto simp: unbacked_def)
  then have "au_maxWbtcIn a \<le> vault_claim as (au_vaultId a)" by (simp add: vault_claim_def)
  also have "\<dots> \<le> (\<Sum>v \<in> fst ` unbacked as. vault_claim as v)"
    using u by (intro member_le_sum) (auto simp: vault_claim_def intro: rev_image_eqI)
  finally show ?thesis by (simp add: held_back_sum [of "fst ` unbacked as" as])
qed

text \<open>C21: What router funding holds back is exactly, summed over the vaults with a batch the gate no
  longer backs, the largest such batch: however often a vault is signed for again, it is charged once,
  and no other vault's batch hides behind it.\<close>

theorem holds_charge_each_vault_once:
  "held_back as = (\<Sum>v \<in> {au_vaultId a | i a. (i, a) \<in> set as}.
     Max (insert 0 {au_maxWbtcIn a | i a. (i, a) \<in> set as \<and> \<not> au_backed a \<and> au_vaultId a = v}))"
proof -
  have "{au_vaultId a | i a. (i, a) \<in> set as} = (\<lambda>(i, a). au_vaultId a) ` set as" by force
  then have "finite {au_vaultId a | i a. (i, a) \<in> set as}" by simp
  moreover have "{n. (v, n) \<in> unbacked as} =
      {au_maxWbtcIn a | i a. (i, a) \<in> set as \<and> \<not> au_backed a \<and> au_vaultId a = v}" for v
    by (auto simp: unbacked_def)
  moreover have "fst ` unbacked as \<subseteq> {au_vaultId a | i a. (i, a) \<in> set as}"
    by (force simp: unbacked_def)
  ultimately show ?thesis by (simp add: held_back_sum vault_claim_def)
qed


section \<open>The treasury as the gate sees it\<close>

definition treasury_key :: "router_deps \<Rightarrow> address \<Rightarrow> ledger_key" where
  "treasury_key d payer = ledger_key (account_of payer (rd_wbtc d))"

definition net_capacity :: "treasury \<Rightarrow> (hex \<times> authorization) list \<Rightarrow> int" where
  "net_capacity t as =
     max 0 ((if tr_balance t < tr_allowance t then tr_balance t else tr_allowance t) - held_back as)"

text \<open>Whatever else runs on the gate, only this mode publishes the treasury's balance.\<close>

fun publishes :: "ledger_key \<Rightarrow> gate_op \<Rightarrow> bool" where
  "publishes k (OpSetAvailable a n b) = (ledger_key a = k)"
| "publishes k (OpSnapshot bs b txs) = (k \<in> ledger_key ` fst ` set bs)"
| "publishes k _ = False"

definition reads_forward :: "router_deps \<Rightarrow> (int \<times> int) outcome \<Rightarrow> gate \<Rightarrow> router \<Rightarrow> bool" where
  "reads_forward d block g r \<longleftrightarrow>
     (case (block, ro_payer r) of
        (Inr (n, ts), Some payer) \<Rightarrow>
          (case g_snapshotBlock g (treasury_key d payer) of None \<Rightarrow> True | Some newest \<Rightarrow> newest \<le> n)
      | _ \<Rightarrow> True)"

inductive treasury_step ::
  "router_deps \<Rightarrow> (relay_batch \<Rightarrow> hex) \<Rightarrow> risk_config \<Rightarrow> gate \<times> router \<Rightarrow> gate \<times> router \<Rightarrow> bool"
  for d digest cfg where
  refresh: "reads_forward d block g r \<Longrightarrow>
     router_refresh d block balanceOf allowanceOf logs r = (res, ops, r') \<Longrightarrow>
     treasury_step d digest cfg (g, r) (gate_run cfg ops g, r')"
| sign: "router_build d digest block now sign vaultId preview maxWbtcIn r = (res, r') \<Longrightarrow>
     treasury_step d digest cfg (g, r) (g, r')"
| hand_over: "settle_authorization d i consumed mined r = (Inr ops, r') \<Longrightarrow>
     treasury_step d digest cfg (g, r) (gate_run cfg ops g, r')"
| others: "ro_payer r = Some payer \<Longrightarrow> \<not> publishes (treasury_key d payer) op \<Longrightarrow>
     treasury_step d digest cfg (g, r) (gate_step cfg op g, r)"

definition treasury_ok :: "router_deps \<Rightarrow> gate \<times> router \<Rightarrow> bool" where
  "treasury_ok d s \<longleftrightarrow>
     distinct (map fst (ro_authorizations (snd s))) \<and> ro_payer (snd s) \<noteq> None \<and>
     (\<forall>payer t. ro_payer (snd s) = Some payer \<and> ro_inventory (snd s) = Some t \<longrightarrow>
        (\<exists>n m. g_available (fst s) (treasury_key d payer) = Some n \<and> n \<le> net_capacity t (ro_authorizations (snd s)) \<and>
           g_snapshotBlock (fst s) (treasury_key d payer) = Some m \<and> m \<le> tr_block t))"

lemma settle_available:
  "g_available (settle cfg i o' g) = g_available g" "g_snapshotBlock (settle cfg i o' g) = g_snapshotBlock g"
proof -
  have "g_available (fst (settle_entries o' sps (h, es))) = g_available h \<and>
      g_snapshotBlock (fst (settle_entries o' sps (h, es))) = g_snapshotBlock h" for sps h es
    by (induction sps arbitrary: h es) (simp_all add: Let_def)
  then show "g_available (settle cfg i o' g) = g_available g" "g_snapshotBlock (settle cfg i o' g) = g_snapshotBlock g"
    by (simp_all add: settle_def Let_def gate_frame split_beta)
qed

lemma gate_step_publishes:
  assumes "\<not> publishes k op"
  shows "g_available (gate_step cfg op g) k = g_available g k"
    "g_snapshotBlock (gate_step cfg op g) k = g_snapshotBlock g k"
proof -
  have pub: "k \<notin> ledger_key ` fst ` set bs \<Longrightarrow> g_snapshotBlock (publish bs b g) k = g_snapshotBlock g k"
    for bs :: "(token_account \<times> int) list" and b and g :: gate
    by (induction bs b g rule: publish.induct) (auto simp: set_available_def Let_def)
  show "g_available (gate_step cfg op g) k = g_available g k"
    using assms by (cases op) (simp_all add: gate_frame settle_available apply_snapshot_def image_comp open_slot_def split: option.split)
  show "g_snapshotBlock (gate_step cfg op g) k = g_snapshotBlock g k"
    using assms pub by (cases op) (simp_all add: gate_frame settle_available apply_snapshot_def image_comp open_slot_def set_available_def Let_def split: option.split)
qed


lemma net_capacity_mono: "unbacked as \<subseteq> unbacked bs \<Longrightarrow> net_capacity t bs \<le> net_capacity t as"
  using held_back_mono [of as bs] by (auto simp: net_capacity_def)

lemma unbacked_filter: "unbacked (filter P as) \<subseteq> unbacked as"
  by (auto simp: unbacked_def)

lemma unbacked_backed_entry:
  assumes "distinct (map fst as)" "au_backed a" shows "unbacked (alist_set k a as) \<subseteq> unbacked as"
  unfolding unbacked_def set_alist_set_distinct [OF assms(1)] using assms(2) by blast

lemma retire_filter:
  assumes "retire_authorizations logs n ts r = (res, r')"
  shows "ro_authorizations r' = filter (\<lambda>(i, a). \<not> inert n ts a) (ro_authorizations r) \<or>
    (\<exists>found. ro_authorizations r' =
       filter (\<lambda>(i, a). Some (au_vaultId a) \<notin> set found \<and> \<not> inert n ts a) (ro_authorizations r))"
  using assms by (auto simp: retire_authorizations_def Let_def case_prod_unfold conj_commute split: if_splits sum.splits)

lemma router_refreshE:
  assumes "router_refresh d block balanceOf allowanceOf logs r = (res, ops, r')" "ro_payer r = Some payer"
  obtains (unread) "ops = []" "r' = r"
  | (failed) n ts e where "retire_authorizations logs n ts r = (Inl e, r')" "ops = []"
  | (finished) n ts balance allowance r1 where "block = Inr (n, ts)" "retire_authorizations logs n ts r = (Inr (), r1)"
      "r' = r1\<lparr>ro_inventory := Some \<lparr>tr_balance = balance, tr_allowance = allowance, tr_block = n\<rparr>\<rparr>"
      "publish_capacity d r' = Inr ops"
proof (cases "await block (\<lambda>(n, ts). await (balanceOf payer n) (\<lambda>balance. await (allowanceOf payer n) (\<lambda>allowance.
    Inr (n, ts, balance, allowance))))")
  case (Inl e)
  with assms show thesis by (intro unread) (simp_all add: router_refresh_def payer_or_throw_def)
next
  case (Inr v)
  obtain n ts balance allowance where v: "v = (n, ts, balance, allowance)" by (cases v) auto
  from Inr v have b: "block = Inr (n, ts)" by (auto simp: await_eq_Inr)
  note run = assms(1) [unfolded router_refresh_def payer_or_throw_def assms(2) option.case await_simps Inr v sum.case prod.case]
  obtain res1 r1 where ret: "retire_authorizations logs n ts r = (res1, r1)" by force
  show thesis
  proof (cases res1)
    case (Inl e)
    with run ret show thesis by (intro failed [of n ts e]) auto
  next
    case Inr1: (Inr u)
    have "ro_payer r1 = Some payer"
      using ret assms(2) by (auto simp: retire_authorizations_def Let_def split: if_splits sum.splits)
    with run ret Inr1 show thesis
      by (intro finished [OF b, of r1 balance allowance])
        (auto simp: publish_capacity_def payer_or_throw_def Let_def)
  qed
qed

lemma retire_frame:
  assumes "retire_authorizations logs n ts r = (res, r')"
  shows "ro_payer r' = ro_payer r" "ro_inventory r' = ro_inventory r"
    "\<exists>P. ro_authorizations r' = filter P (ro_authorizations r)"
proof -
  from assms show "ro_payer r' = ro_payer r" "ro_inventory r' = ro_inventory r"
    by (auto simp: retire_authorizations_def Let_def split: if_splits sum.splits)
  from assms show "\<exists>P. ro_authorizations r' = filter P (ro_authorizations r)"
    by (metis (no_types, lifting) retire_filter)
qed

lemma publish_capacity_ops:
  assumes "ro_payer r = Some payer" "ro_inventory r = Some t"
  shows "publish_capacity d r = Inr [OpSetAvailable (account_of payer (rd_wbtc d))
    (net_capacity t (ro_authorizations r)) (Some (tr_block t))]"
  using assms by (auto simp: publish_capacity_def payer_or_throw_def net_capacity_def Let_def)

lemma publish_published:
  assumes "ro_payer r = Some payer" "ro_inventory r = Some t" "publish_capacity d r = Inr ops"
    and "case g_snapshotBlock g (treasury_key d payer) of None \<Rightarrow> True | Some newest \<Rightarrow> newest \<le> tr_block t"
  shows "g_available (gate_run cfg ops g) (treasury_key d payer) = Some (net_capacity t (ro_authorizations r))"
    "g_snapshotBlock (gate_run cfg ops g) (treasury_key d payer) = Some (tr_block t)"
  using assms(3,4) unfolding publish_capacity_ops [OF assms(1,2)]
  by (auto simp: treasury_key_def set_available_def Let_def split: option.splits)

lemma treasury_okI:
  assumes "distinct (map fst (ro_authorizations r))" "ro_payer r = Some payer"
    and "\<And>t. ro_inventory r = Some t \<Longrightarrow> \<exists>n m. g_available g (treasury_key d payer) = Some n \<and>
      n \<le> net_capacity t (ro_authorizations r) \<and> g_snapshotBlock g (treasury_key d payer) = Some m \<and> m \<le> tr_block t"
  shows "treasury_ok d (g, r)"
  using assms by (simp add: treasury_ok_def)

lemma treasury_ok_shrink:
  assumes ok: "treasury_ok d (g, r)"
    and r': "ro_payer r' = ro_payer r" "ro_inventory r' = ro_inventory r" "distinct (map fst (ro_authorizations r'))"
      "unbacked (ro_authorizations r') \<subseteq> unbacked (ro_authorizations r)"
  shows "treasury_ok d (g, r')"
proof -
  obtain payer where p: "ro_payer r = Some payer" using ok by (auto simp: treasury_ok_def)
  show ?thesis
  proof (rule treasury_okI [where payer = payer])
    fix t assume "ro_inventory r' = Some t"
    then have "ro_inventory r = Some t" using r'(2) by simp
    with ok p obtain n m where "g_available g (treasury_key d payer) = Some n"
      "n \<le> net_capacity t (ro_authorizations r)" "g_snapshotBlock g (treasury_key d payer) = Some m" "m \<le> tr_block t"
      by (auto simp: treasury_ok_def)
    with net_capacity_mono [OF r'(4), of t] show "\<exists>n m. g_available g (treasury_key d payer) = Some n \<and>
      n \<le> net_capacity t (ro_authorizations r') \<and> g_snapshotBlock g (treasury_key d payer) = Some m \<and> m \<le> tr_block t"
      by force
  qed (use p r' in simp_all)
qed

lemma distinct_filter_keys: "distinct (map fst as) \<Longrightarrow> distinct (map fst (filter P as))"
  by (induction as) (auto simp: image_iff)

lemma treasury_ok_step:
  assumes "treasury_step d digest cfg s s'" "treasury_ok d s"
  shows "treasury_ok d s'"
  using assms
proof (induction rule: treasury_step.induct)
  case (refresh block g r balanceOf allowanceOf logs res ops r')
  obtain payer where p: "ro_payer r = Some payer" using refresh.prems by (auto simp: treasury_ok_def)
  have shrunk: "treasury_ok d (g, r1)" if ret: "retire_authorizations logs n ts r = (res1, r1)" for n ts res1 r1
  proof -
    from retire_frame(3) [OF ret] obtain P where "ro_authorizations r1 = filter P (ro_authorizations r)" ..
    then show ?thesis
      using retire_frame(1,2) [OF ret] refresh.prems unbacked_filter [of P]
      by (intro treasury_ok_shrink [OF refresh.prems]) (simp_all add: treasury_ok_def distinct_filter_keys)
  qed
  from refresh.hyps(2) p show ?case
  proof (cases rule: router_refreshE)
    case unread
    then show ?thesis using refresh.prems by simp
  next
    case (failed n ts e)
    then show ?thesis using shrunk by simp
  next
    case (finished n ts balance allowance r1)
    let ?t = "\<lparr>tr_balance = balance, tr_allowance = allowance, tr_block = n\<rparr>"
    from shrunk [OF finished(2)] have dist: "distinct (map fst (ro_authorizations r'))"
      by (simp add: treasury_ok_def finished(3))
    have payer: "ro_payer r' = Some payer" and inv: "ro_inventory r' = Some ?t"
      using retire_frame(1) [OF finished(2)] p by (simp_all add: finished(3))
    have "case g_snapshotBlock g (treasury_key d payer) of None \<Rightarrow> True | Some newest \<Rightarrow> newest \<le> tr_block ?t"
      using refresh.hyps(1) finished(1) p by (simp add: reads_forward_def split: option.splits)
    from publish_published [OF payer inv finished(4) this, of cfg] show ?thesis
      by (intro treasury_okI [OF dist payer]) (auto simp: inv)
  qed
next
  case (sign block now sign vaultId preview maxWbtcIn r res r' g)
  show ?case
  proof (rule treasury_ok_shrink [OF sign.prems])
    show "ro_payer r' = ro_payer r" "ro_inventory r' = ro_inventory r" "distinct (map fst (ro_authorizations r'))"
      "unbacked (ro_authorizations r') \<subseteq> unbacked (ro_authorizations r)"
      using sign.hyps sign.prems unbacked_backed_entry
      by (auto simp: router_build_def treasury_ok_def distinct_alist_set split: sum.splits prod.splits
          dest!: unbacked_backed_entry [THEN subsetD, rotated -1])
  qed
next
  case (hand_over i consumed mined r ops r' g)
  obtain payer where p: "ro_payer r = Some payer" using hand_over.prems by (auto simp: treasury_ok_def)
  show ?case
  proof (cases "Option.bind i (map_of (ro_authorizations r))")
    case None
    with hand_over show ?thesis by (auto simp: settle_authorization_def split: option.splits)
  next
    case (Some a)
    then obtain j where j: "i = Some j" "map_of (ro_authorizations r) j = Some a" by (auto simp: bind_eq_Some_conv)
    let ?r = "r\<lparr>ro_authorizations := alist_set j (handed_over consumed mined a) (ro_authorizations r)\<rparr>"
    from hand_over.hyps j have r': "r' = ?r" and pub: "publish_capacity d ?r = Inr ops"
      by (auto simp: settle_authorization_def Let_def)
    show ?thesis unfolding r'
    proof (rule treasury_okI [where payer = payer])
      fix t assume t: "ro_inventory ?r = Some t"
      with hand_over.prems p have "case g_snapshotBlock g (treasury_key d payer) of None \<Rightarrow> True | Some newest \<Rightarrow> newest \<le> tr_block t"
        by (auto simp: treasury_ok_def split: option.split)
      from publish_published [OF _ t pub this, of cfg] p
      show "\<exists>n m. g_available (gate_run cfg ops g) (treasury_key d payer) = Some n \<and> n \<le> net_capacity t (ro_authorizations ?r) \<and>
          g_snapshotBlock (gate_run cfg ops g) (treasury_key d payer) = Some m \<and> m \<le> tr_block t"
        by auto
    qed (use p hand_over.prems in \<open>simp_all add: treasury_ok_def distinct_alist_set\<close>)
  qed
next
  case (others r payer op g)
  then show ?case using gate_step_publishes [of "treasury_key d payer" op] by (simp add: treasury_ok_def)
qed


lemma treasury_ok_steps: "(treasury_step d digest cfg)\<^sup>*\<^sup>* s s' \<Longrightarrow> treasury_ok d s \<Longrightarrow> treasury_ok d s'"
  by (induction rule: rtranclp_induct) (auto intro: treasury_ok_step)



section \<open>Examples\<close>

definition ex_deps :: router_deps where
  "ex_deps = \<lparr>rd_chainId = 1, rd_signer = ''0xbot'', rd_from = ''0xbot'', rd_router = ''0xrouter'', rd_wbtc = ''0xwbtc'',
     rd_vaultSwap = ''0xllp'', rd_keeper = ''0xkeeper'', rd_maxSlippageBps = 100, rd_deadlineSeconds = 120\<rparr>"

definition ex_preview :: vault_preview where
  "ex_preview = \<lparr>vp_amountVault = 50, vp_amountExitBtcToAcquire = 40, vp_amountProfitEst = 10\<rparr>"

definition ex_refresh :: "int \<Rightarrow> router \<Rightarrow> unit outcome \<times> gate_op list \<times> router" where
  "ex_refresh n r = router_refresh ex_deps (Inr (n, 1000)) (\<lambda>p b. Inr 100) (\<lambda>p b. Inr 90) (\<lambda>vs b e. Inr []) r"

definition ex_build :: "router \<Rightarrow> (relay_call \<times> hex) outcome \<times> router" where
  "ex_build r = router_build ex_deps rb_vaultId (Inr (10, 1000)) 1000000 (\<lambda>b. Inr ''sig'') ''0xv'' ex_preview 40 r"

definition ex_router :: router where
  "ex_router = create_router\<lparr>ro_payer := Some ''0xtreasury''\<rparr>"

definition ex_treasury_key :: ledger_key where
  "ex_treasury_key = treasury_key ex_deps ''0xtreasury''"

text \<open>One refresh, one signature, and its slot closes without an answer.\<close>

definition ex_opening :: "gate_op list" where
  "ex_opening = fst (snd (ex_refresh 10 ex_router))"

definition ex_signed :: router where
  "ex_signed = snd (ex_build (snd (snd (ex_refresh 10 ex_router))))"

definition ex_closing :: "router \<Rightarrow> gate_op list outcome \<times> router" where
  "ex_closing r = settle_authorization ex_deps (Some ''0xv'') False None r"

lemma ex_closed:
  "ro_inventory (snd (ex_closing ex_signed)) = Some \<lparr>tr_balance = 100, tr_allowance = 90, tr_block = 10\<rparr>"
  "ro_payer (snd (ex_closing ex_signed)) = Some ''0xtreasury''"
  "ro_authorizations (snd (ex_closing ex_signed)) = [(''0xv'', \<lparr>au_vaultId = ''0xv'', au_block = 10, au_deadline = 1120,
     au_maxWbtcIn = 40, au_backed = False, au_executedAt = None\<rparr>)]"
  by code_simp+

lemma ex_closing_ops: "fst (ex_closing ex_signed) = Inr [OpSetAvailable (account_of ''0xtreasury'' ''0xwbtc'') 50 (Some 10)]"
proof -
  have "map_of (ro_authorizations ex_signed) ''0xv'' \<noteq> None" by code_simp
  then have "fst (ex_closing ex_signed) = publish_capacity ex_deps (snd (ex_closing ex_signed))"
    by (auto simp: ex_closing_def settle_authorization_def Let_def)
  also have "\<dots> = Inr [OpSetAvailable (account_of ''0xtreasury'' ''0xwbtc'') 50 (Some 10)]"
    by (subst publish_capacity_ops [OF ex_closed(2,1)]) (simp add: net_capacity_def held_back_def ex_closed ex_deps_def)
  finally show ?thesis .
qed

text \<open>A refresh answered by a node that is behind replaces the inventory but not the gate's newer figure, and
  the hold of the next slot that closes is then published at a height the gate ignores.\<close>

lemma lagging_refresh_drops_hold:
  "g_available (gate_run ex_cfg (ex_opening @ fst (snd (ex_refresh 8 ex_signed))
       @ projr (fst (ex_closing (snd (snd (ex_refresh 8 ex_signed)))))) (create_gate ex_cfg)) ex_treasury_key = Some 90 \<and>
   g_available (gate_run ex_cfg (ex_opening @ fst (snd (ex_refresh 10 ex_signed))
       @ projr (fst (ex_closing (snd (snd (ex_refresh 10 ex_signed)))))) (create_gate ex_cfg)) ex_treasury_key = Some 50"
  by code_simp



section \<open>Retirement rests on evidence\<close>

lemma retired_evidence:
  assumes "retire_authorizations logs n ts r = (res, r')"
    and "(i, a) \<in> set (ro_authorizations r)" "(i, a) \<notin> set (ro_authorizations r')"
  shows "inert n ts a \<or> (\<exists>vs from found. logs vs from (Some n) = Inr found \<and> au_vaultId a \<in> set vs \<and>
    Some (au_vaultId a) \<in> set found)"
proof (rule disjCI)
  assume no: "\<not> (\<exists>vs from found. logs vs from (Some n) = Inr found \<and> au_vaultId a \<in> set vs \<and>
    Some (au_vaultId a) \<in> set found)"
  define live where "live = filter (\<lambda>(i, a). \<not> inert n ts a) (ro_authorizations r)"
  define vs where "vs = rev (remdups (rev (map (au_vaultId \<circ> snd) live)))"
  define start where "start = scan_from (earliest_block (map snd live) (au_block (snd (hd live)))) n"
  have run: "(if live = [] then (Inr (), r\<lparr>ro_authorizations := live\<rparr>)
     else case logs vs start (Some n) of
            Inl e \<Rightarrow> (Inl e, r\<lparr>ro_authorizations := live\<rparr>)
          | Inr found \<Rightarrow> (Inr (), r\<lparr>ro_authorizations := filter (\<lambda>(i, a). Some (au_vaultId a) \<notin> set found) live\<rparr>))
     = (res, r')"
    using assms(1) unfolding retire_authorizations_def Let_def live_def vs_def start_def
    by (auto split: if_splits sum.splits)
  show "inert n ts a"
  proof (rule ccontr)
    assume "\<not> inert n ts a"
    with assms(2) have live: "(i, a) \<in> set live" by (simp add: live_def)
    then have "au_vaultId a \<in> set vs" by (force simp: vs_def)
    with no run assms(3) live show False by (auto split: if_splits sum.splits)
  qed
qed

text \<open>A signed batch stops being held only on evidence from the chain: the block read shows its deadline
  passed with the margin to spare, or our acquisition was mined at or below that block, or the router
  logged an acquisition of its vault up to that block. A failed read retires none of the others.\<close>

theorem batch_retired_on_evidence:
  assumes "router_refresh d block balanceOf allowanceOf logs r = (res, ops, r')"
    and "(i, a) \<in> set (ro_authorizations r)" "(i, a) \<notin> set (ro_authorizations r')"
  shows "\<exists>n ts. block = Inr (n, ts) \<and>
    (au_deadline a + 24 < ts \<or> (\<exists>b. au_executedAt a = Some b \<and> b \<le> n) \<or>
     (\<exists>vs from found. logs vs from (Some n) = Inr found \<and> au_vaultId a \<in> set vs \<and> Some (au_vaultId a) \<in> set found))"
proof -
  obtain n ts res1 r1 where b: "block = Inr (n, ts)" and ret: "retire_authorizations logs n ts r = (res1, r1)"
    and same: "ro_authorizations r' = ro_authorizations r1"
    using assms by (fastforce simp: router_refresh_def await_eq_Inr Let_def split: sum.splits prod.splits)
  have "(i, a) \<notin> set (ro_authorizations r1)" using assms(3) same by simp
  from retired_evidence [OF ret assms(2) this] b show ?thesis
    by (auto simp: inert_def AUTHORIZATION_EXPIRY_MARGIN_SECONDS_def split: option.splits)
qed

lemma surjective_triple: "x = (fst x, fst (snd x), snd (snd x))"
  by simp

theorem batch_retired_on_evidence_witness:
  "\<exists>n ts. (Inr (20, 1200) :: (int \<times> int) outcome) = Inr (n, ts) \<and> (1120 + 24 < ts \<or> False)"
proof -
  let ?a = "\<lparr>au_vaultId = ''0xv'', au_block = 10, au_deadline = 1120, au_maxWbtcIn = 40, au_backed = True,
    au_executedAt = None\<rparr>"
  let ?logs = "\<lambda>vs b e. Inr [] :: hex option list outcome"
  have in0: "(''0xv'', ?a) \<in> set (ro_authorizations ex_signed)" by code_simp
  have out: "(''0xv'', ?a) \<notin> set (ro_authorizations (snd (snd (router_refresh ex_deps (Inr (20, 1200))
      (\<lambda>p b. Inr 100) (\<lambda>p b. Inr 90) ?logs ex_signed))))" by code_simp
  show ?thesis
    using batch_retired_on_evidence [OF surjective_triple in0 out] by simp
qed

end
