(* ===== verification/ArbEngine.thy ===== *)
theory ArbEngine
  imports ArbRouter LiqEngine
begin

text \<open>
  The arbitrage engine, \<open>packages/engine/src/arbitrage/engine.ts\<close>: pricing and sending one acquisition,
  judging its receipt, and the poll that does both for a whole escrow list. The state is the shared gate
  and a world \<open>'w\<close> (the executor's process, the funding mode, the chain); at every await, others may have
  acted on the gate, which \<open>ap_others\<close> says. Amounts of a feed element are only logged, so a vault is
  its id.
\<close>

section \<open>What the engine calls\<close>

datatype await_point = AtFunding | AtBuild | AtEstimate | AtVerdict | AtCommit | AtReceipt | AtSleep

record ('w, 'c) arb_port =
  ap_now :: "'w \<Rightarrow> millis"
  ap_others :: "await_point \<Rightarrow> 'w \<Rightarrow> gate_op list"
  ap_preview :: "hex \<Rightarrow> 'w \<Rightarrow> vault_preview option outcome"
  ap_spend :: "int \<Rightarrow> 'w \<Rightarrow> token_spend outcome"
  ap_ensureFunded :: "int \<Rightarrow> 'w \<Rightarrow> allowance_result outcome \<times> 'w"
  ap_build :: "hex \<Rightarrow> vault_preview \<Rightarrow> int \<Rightarrow> 'w \<Rightarrow> ('c \<times> hex option) outcome \<times> 'w"
  ap_estimateGas :: "'c \<Rightarrow> 'w \<Rightarrow> unit outcome"
  ap_commit :: "'c \<Rightarrow> hex \<Rightarrow> 'w \<Rightarrow> commit_result outcome \<times> 'w"
  ap_acquirable :: "hex \<Rightarrow> 'w \<Rightarrow> bool outcome"
  ap_spentWithoutUs :: "hex option \<Rightarrow> 'w \<Rightarrow> bool outcome"
  ap_authorizationExpired :: "hex option \<Rightarrow> int \<Rightarrow> 'w \<Rightarrow> bool outcome"
  ap_settleAuthorization :: "hex option \<Rightarrow> bool \<Rightarrow> int option \<Rightarrow> 'w \<Rightarrow> gate_op list \<times> 'w"
  ap_receipt :: "hex \<Rightarrow> 'w \<Rightarrow> (hex \<times> receipt_status \<times> int) option outcome"
  ap_recordOutcome :: "string \<Rightarrow> hex \<Rightarrow> string option \<Rightarrow> 'w \<Rightarrow> 'w"

record arb_params =
  pa_maxSlippageBps :: int
  pa_btcRedemptionCostSats :: int

datatype acquire_outcome = Acquired | Skipped | SendError

record sent_acquisition =
  sa_hash :: hex
  sa_intentId :: "string option"
  sa_slot :: nat
  sa_vaultId :: hex
  sa_currentDebt :: int
  sa_maxWbtcIn :: int
  sa_authorizationId :: "hex option"

datatype prepare_result = PrepSent sent_acquisition | PrepSkipped | PrepSendError

definition meanwhile :: "risk_config \<Rightarrow> ('w, 'c) arb_port \<Rightarrow> await_point \<Rightarrow> gate \<times> 'w \<Rightarrow> gate \<times> 'w" where
  "meanwhile cfg port pt st = (gate_run cfg (ap_others port pt (snd st)) (fst st), snd st)"

section \<open>Settling\<close>

text \<open>Every settlement closes the slot and hands the authorization over in the same breath.\<close>

definition arb_settle ::
  "risk_config \<Rightarrow> ('w, 'c) arb_port \<Rightarrow> nat \<Rightarrow> action_outcome \<Rightarrow> hex option \<Rightarrow> gate \<times> 'w \<Rightarrow> gate \<times> 'w" where
  "arb_settle cfg port i o' authorizationId st =
     (let (ops, w1) = ap_settleAuthorization port authorizationId (ao_ok o') (ao_minedAtBlock o') (snd st)
      in (gate_run cfg ops (settle cfg i o' (fst st)), w1))"

datatype spend_verdict = Spent bool | SpendUnknown

definition spend_verdict :: "('w, 'c) arb_port \<Rightarrow> hex option \<Rightarrow> 'w \<Rightarrow> spend_verdict" where
  "spend_verdict port authorizationId w = (case ap_spentWithoutUs port authorizationId w of
     Inl _ \<Rightarrow> SpendUnknown | Inr b \<Rightarrow> Spent b)"

definition with_verdict :: "spend_verdict \<Rightarrow> action_outcome \<Rightarrow> action_outcome" where
  "with_verdict v o' = (case v of Spent b \<Rightarrow> o'\<lparr>ao_spent := b\<rparr> | SpendUnknown \<Rightarrow> o'\<lparr>ao_spendUnknown := True\<rparr>)"

definition abandon_after_authorizing ::
  "risk_config \<Rightarrow> ('w, 'c) arb_port \<Rightarrow> nat \<Rightarrow> hex option \<Rightarrow> gate \<times> 'w \<Rightarrow> gate \<times> 'w" where
  "abandon_after_authorizing cfg port i authorizationId st =
     (let st1 = meanwhile cfg port AtVerdict st
      in arb_settle cfg port i (with_verdict (spend_verdict port authorizationId (snd st1)) abandoned)
           authorizationId st1)"

definition was_vault_taken :: "('w, 'c) arb_port \<Rightarrow> hex \<Rightarrow> 'w \<Rightarrow> bool" where
  "was_vault_taken port vaultId w = (case ap_acquirable port vaultId w of Inl _ \<Rightarrow> False | Inr b \<Rightarrow> \<not> b)"

definition did_authorization_expire :: "('w, 'c) arb_port \<Rightarrow> int \<Rightarrow> hex option \<Rightarrow> 'w \<Rightarrow> bool" where
  "did_authorization_expire port minedAtBlock authorizationId w =
     (case ap_authorizationExpired port authorizationId minedAtBlock w of Inl _ \<Rightarrow> False | Inr b \<Rightarrow> b)"

section \<open>Preparing and sending one acquisition\<close>

text \<open>From the slot on: the answer or the error thrown, the authorization signed by then, the state.\<close>

definition commit_acquisition ::
  "risk_config \<Rightarrow> ('w, 'c) arb_port \<Rightarrow> nat \<Rightarrow> hex \<Rightarrow> int \<Rightarrow> int \<Rightarrow> 'c \<Rightarrow> hex option \<Rightarrow> gate \<times> 'w
     \<Rightarrow> prepare_result outcome \<times> gate \<times> 'w" where
  "commit_acquisition cfg port i vaultId acquireCost maxWbtcIn call auth st =
     (case ap_commit port call vaultId (snd st) of (res, w1) \<Rightarrow>
        let st1 = meanwhile cfg port AtCommit (fst st, w1) in
        case res of
          Inl e \<Rightarrow> (Inl e, st1)
        | Inr (Broadcast h intentId) \<Rightarrow>
            (Inr (PrepSent \<lparr>sa_hash = h, sa_intentId = intentId, sa_slot = i, sa_vaultId = vaultId,
               sa_currentDebt = acquireCost, sa_maxWbtcIn = maxWbtcIn, sa_authorizationId = auth\<rparr>), st1)
        | Inr (AbortedAmbiguous h _) \<Rightarrow> (Inr PrepSendError, arb_settle cfg port i (unresolved h) auth st1)
        | Inr (AbortedClean _) \<Rightarrow> (Inr PrepSendError, abandon_after_authorizing cfg port i auth st1)
        | Inr _ \<Rightarrow> (Inr PrepSkipped, abandon_after_authorizing cfg port i auth st1))"

definition acquire_in_slot ::
  "risk_config \<Rightarrow> ('w, 'c) arb_port \<Rightarrow> nat \<Rightarrow> hex \<Rightarrow> vault_preview \<Rightarrow> int \<Rightarrow> gate \<times> 'w
     \<Rightarrow> prepare_result outcome \<times> hex option \<times> gate \<times> 'w" where
  "acquire_in_slot cfg port i vaultId preview maxWbtcIn st =
     (case ap_ensureFunded port maxWbtcIn (snd st) of (funding, w1) \<Rightarrow>
        let (g1, _) = meanwhile cfg port AtFunding (fst st, w1) in
        case funding of
          Inl e \<Rightarrow> (Inl e, None, g1, w1)
        | Inr (Awaiting _) \<Rightarrow> (Inr PrepSkipped, None, settle cfg i abandoned g1, w1)
        | Inr Satisfied \<Rightarrow>
            (case ap_build port vaultId preview maxWbtcIn w1 of (built, w2) \<Rightarrow>
               let st2 = meanwhile cfg port AtBuild (g1, w2) in
               case built of
                 Inl e \<Rightarrow> (Inl e, None, st2)
               | Inr (call, auth) \<Rightarrow>
                   (let st3 = meanwhile cfg port AtEstimate st2 in
                    case ap_estimateGas port call (snd st3) of
                      Inl _ \<Rightarrow> (Inr PrepSkipped, auth, abandon_after_authorizing cfg port i auth st3)
                    | Inr _ \<Rightarrow>
                        (let (res, st4) = commit_acquisition cfg port i vaultId
                               (vp_amountExitBtcToAcquire preview) maxWbtcIn call auth st3
                         in (res, auth, st4)))))"

definition acq_action :: "arb_params \<Rightarrow> wire_value option \<Rightarrow> hex \<Rightarrow> vault_preview \<Rightarrow> int \<Rightarrow> token_spend \<Rightarrow> risk_action" where
  "acq_action pa stamp vaultId preview maxWbtcIn sp =
     \<lparr>ra_kind = ''vault-acquisition'', ra_subject = vaultId,
      ra_expectedProfit = Some (vp_amountVault preview - maxWbtcIn - pa_btcRedemptionCostSats pa),
      ra_dataTimestampMs = stamp, ra_spend = Some [sp]\<rparr>"

text \<open>The body of the \<open>try\<close>: also the slot it opened, if the gate allowed one.\<close>

definition try_acquire ::
  "risk_config \<Rightarrow> arb_params \<Rightarrow> ('w, 'c) arb_port \<Rightarrow> hex \<Rightarrow> wire_value option \<Rightarrow> gate \<times> 'w
     \<Rightarrow> prepare_result outcome \<times> nat option \<times> hex option \<times> gate \<times> 'w" where
  "try_acquire cfg pa port vaultId stamp st =
     (case ap_preview port vaultId (snd st) of
        Inl e \<Rightarrow> (Inl e, None, None, st)
      | Inr None \<Rightarrow> (Inr PrepSkipped, None, None, st)
      | Inr (Some preview) \<Rightarrow>
          if vp_amountProfitEst preview \<le> pa_btcRedemptionCostSats pa then (Inr PrepSkipped, None, None, st)
          else (case await (max_wbtc_in_with_slippage (vp_amountExitBtcToAcquire preview) (pa_maxSlippageBps pa))
                       (\<lambda>maxWbtcIn. await (ap_spend port maxWbtcIn (snd st)) (\<lambda>sp. Inr (maxWbtcIn, sp))) of
                  Inl e \<Rightarrow> (Inl e, None, None, st)
                | Inr (maxWbtcIn, sp) \<Rightarrow>
                    (case open_slot cfg (ap_now port (snd st)) (acq_action pa stamp vaultId preview maxWbtcIn sp) (fst st) of
                       (SlotBlocked _, g1) \<Rightarrow> (Inr PrepSkipped, None, None, g1, snd st)
                     | (SlotOpen i, g1) \<Rightarrow>
                         (let (res, auth, st1) = acquire_in_slot cfg port i vaultId preview maxWbtcIn (g1, snd st)
                          in (res, Some i, auth, st1)))))"

text \<open>The \<open>catch\<close>, then the \<open>finally\<close>, which spares a slot handed to the receipt phase.\<close>

definition prepare_and_send ::
  "risk_config \<Rightarrow> arb_params \<Rightarrow> ('w, 'c) arb_port \<Rightarrow> hex \<Rightarrow> wire_value option \<Rightarrow> gate \<times> 'w
     \<Rightarrow> prepare_result \<times> gate \<times> 'w" where
  "prepare_and_send cfg pa port vaultId stamp st =
     (let (res, slot, auth, st1) = try_acquire cfg pa port vaultId stamp st;
          (r, st2) = (case res of
             Inr r \<Rightarrow> (r, st1)
           | Inl _ \<Rightarrow> (PrepSkipped, case slot of None \<Rightarrow> st1 | Some i \<Rightarrow> arb_settle cfg port i (outcome False) auth st1))
      in case (r, slot) of
           (PrepSent e, _) \<Rightarrow> (r, st2)
         | (_, Some i) \<Rightarrow> (r, arb_settle cfg port i abandoned auth st2)
         | (_, None) \<Rightarrow> (r, st2))"

section \<open>The receipt phase\<close>

text \<open>What one receipt means for the gate and for the intent: nothing recorded when it never arrived.\<close>

definition acquisition_outcome ::
  "('w, 'c) arb_port \<Rightarrow> sent_acquisition \<Rightarrow> (hex \<times> receipt_status \<times> int) option \<Rightarrow> 'w
     \<Rightarrow> action_outcome \<times> string option option \<times> acquire_outcome" where
  "acquisition_outcome port e receipt w = (case receipt of
     None \<Rightarrow> (unresolved (sa_hash e), None, Skipped)
   | Some (h, status, b) \<Rightarrow>
       if h \<noteq> sa_hash e then (unresolved (sa_hash e), Some (Some (''replaced by '' @ h)), Skipped)
       else (case status of
          RcSuccess \<Rightarrow> ((outcome True)\<lparr>ao_txHash := Some h, ao_minedAtBlock := Some b\<rparr>, Some None, Acquired)
        | RcReverted \<Rightarrow>
            if was_vault_taken port (sa_vaultId e) w
            then (let v = spend_verdict port (sa_authorizationId e) w
                  in (with_verdict v ((outcome False)\<lparr>ao_contended := True, ao_txHash := Some h, ao_minedAtBlock := Some b\<rparr>),
                      Some (Some (case v of SpendUnknown \<Rightarrow> ''lost race (spend unknown)''
                        | Spent True \<Rightarrow> ''lost race (our authorization paid)'' | Spent False \<Rightarrow> ''lost race'')), Skipped))
            else if did_authorization_expire port b (sa_authorizationId e) w
            then (abandoned, Some (Some ''authorization expired''), Skipped)
            else (outcome False, Some (Some ''reverted''), Skipped)))"

definition finish_acquisition ::
  "risk_config \<Rightarrow> ('w, 'c) arb_port \<Rightarrow> sent_acquisition \<Rightarrow> (hex \<times> receipt_status \<times> int) option \<Rightarrow> gate \<times> 'w
     \<Rightarrow> acquire_outcome \<times> gate \<times> 'w" where
  "finish_acquisition cfg port e receipt st =
     (let st1 = meanwhile cfg port AtVerdict st;
          (o', recorded, answer) = acquisition_outcome port e receipt (snd st1);
          (g2, w2) = arb_settle cfg port (sa_slot e) o' (sa_authorizationId e) st1;
          w3 = (case (recorded, sa_intentId e) of
                  (Some failure, Some i) \<Rightarrow> ap_recordOutcome port i (sa_hash e) failure w2
                | _ \<Rightarrow> w2)
      in (answer, arb_settle cfg port (sa_slot e) ((outcome False)\<lparr>ao_spendUnknown := True\<rparr>)
            (sa_authorizationId e) (g2, w3)))"

definition await_receipt ::
  "risk_config \<Rightarrow> ('w, 'c) arb_port \<Rightarrow> sent_acquisition \<Rightarrow> gate \<times> 'w \<Rightarrow> acquire_outcome \<times> gate \<times> 'w" where
  "await_receipt cfg port e st =
     (let st1 = meanwhile cfg port AtReceipt st
      in case ap_receipt port (sa_hash e) (snd st1) of
           Inl _ \<Rightarrow> (Skipped, arb_settle cfg port (sa_slot e) (unresolved (sa_hash e)) (sa_authorizationId e) st1)
         | Inr receipt \<Rightarrow> finish_acquisition cfg port e receipt st1)"

text \<open>The single-vault entry point.\<close>

definition acquire_vault ::
  "risk_config \<Rightarrow> arb_params \<Rightarrow> ('w, 'c) arb_port \<Rightarrow> hex \<Rightarrow> wire_value option \<Rightarrow> gate \<times> 'w
     \<Rightarrow> acquire_outcome \<times> gate \<times> 'w" where
  "acquire_vault cfg pa port vaultId stamp st =
     (case prepare_and_send cfg pa port vaultId stamp st of
        (PrepSendError, st1) \<Rightarrow> (SendError, st1)
      | (PrepSkipped, st1) \<Rightarrow> (Skipped, st1)
      | (PrepSent e, st1) \<Rightarrow> await_receipt cfg port e st1)"

section \<open>The poll\<close>

fun acq_send_loop ::
  "risk_config \<Rightarrow> arb_params \<Rightarrow> ('w, 'c) arb_port \<Rightarrow> wire_value option \<Rightarrow> hex list \<Rightarrow> gate \<times> 'w
     \<Rightarrow> sent_acquisition list \<times> gate \<times> 'w" where
  "acq_send_loop cfg pa port stamp [] st = ([], st)"
| "acq_send_loop cfg pa port stamp (v # vs) st =
     (case prepare_and_send cfg pa port v stamp st of
        (PrepSent e, st1) \<Rightarrow>
          (let (sent, st2) = acq_send_loop cfg pa port stamp vs (meanwhile cfg port AtSleep st1) in (e # sent, st2))
      | (PrepSkipped, st1) \<Rightarrow> acq_send_loop cfg pa port stamp vs st1
      | (PrepSendError, st1) \<Rightarrow> ([], st1))"

fun acq_settle_loop ::
  "risk_config \<Rightarrow> ('w, 'c) arb_port \<Rightarrow> sent_acquisition list \<Rightarrow> gate \<times> 'w \<Rightarrow> gate \<times> 'w" where
  "acq_settle_loop cfg port [] st = st"
| "acq_settle_loop cfg port (e # es) st = acq_settle_loop cfg port es (snd (await_receipt cfg port e st))"

text \<open>The backstop of \<open>poll\<close>, over everything broadcast this cycle.\<close>

fun acq_backstop ::
  "risk_config \<Rightarrow> ('w, 'c) arb_port \<Rightarrow> sent_acquisition list \<Rightarrow> gate \<times> 'w \<Rightarrow> gate \<times> 'w" where
  "acq_backstop cfg port [] st = st"
| "acq_backstop cfg port (e # es) st = acq_backstop cfg port es
     (arb_settle cfg port (sa_slot e) (unresolved (sa_hash e)) (sa_authorizationId e) st)"

datatype vault_feed = VaultsUnavailable | VaultsOk "hex list" "wire_value option"

text \<open>\<open>fetchEscrowedVaults\<close>: a body that is not a list is unavailable, unusable elements are dropped.\<close>

definition fetch_escrowed_vaults ::
  "(escrowed_vault option list option \<times> wire_value option) outcome \<Rightarrow> vault_feed" where
  "fetch_escrowed_vaults body = (case body of
     Inl _ \<Rightarrow> VaultsUnavailable
   | Inr (None, _) \<Rightarrow> VaultsUnavailable
   | Inr (Some vs, stamp) \<Rightarrow> VaultsOk (map (the \<circ> ev_vaultId \<circ> the) (filter is_usable_vault vs)) stamp)"

definition arb_poll ::
  "risk_config \<Rightarrow> arb_params \<Rightarrow> ('w, 'c) arb_port \<Rightarrow> (gate \<times> 'w \<Rightarrow> unit outcome \<times> gate \<times> 'w) \<Rightarrow> vault_feed
     \<Rightarrow> gate \<times> 'w \<Rightarrow> string option \<times> nat list \<times> gate \<times> 'w" where
  "arb_poll cfg pa port refresh feed st = (case feed of
     VaultsUnavailable \<Rightarrow> (None, [], st)
   | VaultsOk [] _ \<Rightarrow> (None, [], st)
   | VaultsOk vs stamp \<Rightarrow>
       (case refresh st of
          (Inl e, st1) \<Rightarrow> (Some e, [], st1)
        | (Inr _, st1) \<Rightarrow>
            (let (sent, st2) = acq_send_loop cfg pa port stamp vs st1
             in (None, map sa_slot sent, acq_backstop cfg port sent (acq_settle_loop cfg port sent st2)))))"

section \<open>Every slot is settled\<close>

definition calm :: "gate \<Rightarrow> gate \<Rightarrow> bool" where
  "calm g g' \<longleftrightarrow> length (g_slots g') = length (g_slots g) \<and> (\<forall>i. slot_settled g i \<longrightarrow> slot_settled g' i)"

text \<open>Nobody else opens a slot, and handing an authorization over does not either.\<close>

definition quiet_port :: "('w, 'c) arb_port \<Rightarrow> bool" where
  "quiet_port port \<longleftrightarrow> (\<forall>pt w. list_all opens_nothing (ap_others port pt w)) \<and>
     (\<forall>auth ok b w. list_all opens_nothing (fst (ap_settleAuthorization port auth ok b w)))"

lemma calm_refl [simp]: "calm g g"
  by (simp add: calm_def)

lemma calm_trans: "calm g1 g2 \<Longrightarrow> calm g2 g3 \<Longrightarrow> calm g1 g3"
  by (simp add: calm_def)

lemma calm_settle: "calm g (settle cfg i o' g)"
  by (simp add: calm_def settle_length gate_slots.close_keeps(1))

lemma calm_run: "list_all opens_nothing ops \<Longrightarrow> calm g (gate_run cfg ops g)"
  by (simp add: calm_def gate_run_length gate_run_fold gate_slots.steps_keep(1))
     (metis gate_run_fold gate_run_length)

lemma calm_meanwhile: "quiet_port port \<Longrightarrow> calm (fst st) (fst (meanwhile cfg port pt st))"
  by (simp add: meanwhile_def quiet_port_def calm_run)

lemma arb_settle_fst:
  "fst (arb_settle cfg port i o' auth st) =
     gate_run cfg (fst (ap_settleAuthorization port auth (ao_ok o') (ao_minedAtBlock o') (snd st))) (settle cfg i o' (fst st))"
  by (simp add: arb_settle_def Let_def split_beta)

lemma calm_arb_settle: "quiet_port port \<Longrightarrow> calm (fst st) (fst (arb_settle cfg port i o' auth st))"
  unfolding arb_settle_fst quiet_port_def by (blast intro: calm_trans calm_settle calm_run)

lemma arb_settle_closes:
  "slot_known (fst st) i \<Longrightarrow> slot_settled (fst (arb_settle cfg port i o' auth st)) i"
  unfolding arb_settle_fst gate_run_fold by (intro gate_slots.steps_keep(1) gate_slots.close_closes)

lemma calm_abandon: "quiet_port port \<Longrightarrow> calm (fst st) (fst (abandon_after_authorizing cfg port i auth st))"
  unfolding abandon_after_authorizing_def Let_def by (blast intro: calm_trans calm_meanwhile calm_arb_settle)

lemma calm_known: "calm g g' \<Longrightarrow> slot_known g i \<longleftrightarrow> slot_known g' i"
  by (simp add: calm_def slot_known_def)


lemma commit_acquisition_calm:
  assumes q: "quiet_port port" and r: "commit_acquisition cfg port i v cost maxIn call auth st = (res, st')"
  shows "calm (fst st) (fst st')" "res = Inr (PrepSent e) \<Longrightarrow> sa_slot e = i"
proof -
  obtain cr w1 where c: "ap_commit port call v (snd st) = (cr, w1)" by force
  let ?st1 = "meanwhile cfg port AtCommit (fst st, w1)"
  have base: "calm (fst st) (fst ?st1)" using calm_meanwhile [OF q, of "(fst st, w1)"] by simp
  have "st' = ?st1 \<or> (\<exists>o'. st' = arb_settle cfg port i o' auth ?st1) \<or> st' = abandon_after_authorizing cfg port i auth ?st1"
    using r c by (auto simp: commit_acquisition_def Let_def split: sum.splits commit_result.splits)
  then show "calm (fst st) (fst st')"
    using base calm_arb_settle [OF q] calm_abandon [OF q] by (blast intro: calm_trans)
  show "res = Inr (PrepSent e) \<Longrightarrow> sa_slot e = i"
    using r c by (auto simp: commit_acquisition_def Let_def split: sum.splits commit_result.splits)
qed

lemma acquire_in_slot_calm:
  assumes q: "quiet_port port" and r: "acquire_in_slot cfg port i v preview maxIn st = (res, auth, st')"
  shows "calm (fst st) (fst st')" "res = Inr (PrepSent e) \<Longrightarrow> sa_slot e = i"
proof -
  obtain funding w1 where f: "ap_ensureFunded port maxIn (snd st) = (funding, w1)" by force
  obtain built w2 where b: "ap_build port v preview maxIn w1 = (built, w2)" by force
  let ?st1 = "meanwhile cfg port AtFunding (fst st, w1)"
  let ?st2 = "meanwhile cfg port AtBuild (fst ?st1, w2)"
  let ?st3 = "meanwhile cfg port AtEstimate ?st2"
  have w: "snd (meanwhile cfg port pt x) = snd x" for pt x by (simp add: meanwhile_def)
  have c1: "calm (fst st) (fst ?st1)" using calm_meanwhile [OF q, of "(fst st, w1)"] by simp
  have c2: "calm (fst st) (fst ?st2)"
    using calm_trans [OF c1 calm_meanwhile [OF q, of "(fst ?st1, w2)", simplified]] .
  have c3: "calm (fst st) (fst ?st3)" by (rule calm_trans [OF c2 calm_meanwhile [OF q]])
  show "calm (fst st) (fst st')" "res = Inr (PrepSent e) \<Longrightarrow> sa_slot e = i"
    using r f b c1 c2 c3 calm_trans [OF c1 calm_settle] calm_trans [OF c3 calm_abandon [OF q]]
      calm_trans [OF c3 commit_acquisition_calm(1) [OF q]] commit_acquisition_calm(2) [OF q]
    by (auto simp: acquire_in_slot_def Let_def split_beta w split: sum.splits allowance_result.splits)
      (metis prod.collapse)+
qed

lemma try_acquire_slots:
  assumes q: "quiet_port port" and r: "try_acquire cfg pa port v stamp st = (res, slot, auth, st')"
  shows "slot = None \<Longrightarrow> fst st' = fst st \<and> (\<forall>e. res \<noteq> Inr (PrepSent e))"
    "slot = Some i \<Longrightarrow> i = length (g_slots (fst st)) \<and> length (g_slots (fst st')) = Suc i \<and>
       (\<forall>j. slot_settled (fst st) j \<longrightarrow> slot_settled (fst st') j) \<and> (\<forall>e. res = Inr (PrepSent e) \<longrightarrow> sa_slot e = i)"
proof -
  show "slot = None \<Longrightarrow> fst st' = fst st \<and> (\<forall>e. res \<noteq> Inr (PrepSent e))"
    using r by (auto simp: try_acquire_def Let_def split: sum.splits option.splits if_splits prod.splits slot_ref.splits
        dest: open_slot_blocked_same)
  assume "slot = Some i"
  with r obtain now action g1 preview maxIn where o1: "open_slot cfg now action (fst st) = (SlotOpen i, g1)"
    and a: "acquire_in_slot cfg port i v preview maxIn (g1, snd st) = (res, auth, st')"
    by (auto simp: try_acquire_def Let_def split: sum.splits option.splits if_splits prod.splits slot_ref.splits)
  from acquire_in_slot_calm(1) [OF q a] acquire_in_slot_calm(2) [OF q a] open_slot_known [OF o1]
  show "i = length (g_slots (fst st)) \<and> length (g_slots (fst st')) = Suc i \<and>
       (\<forall>j. slot_settled (fst st) j \<longrightarrow> slot_settled (fst st') j) \<and> (\<forall>e. res = Inr (PrepSent e) \<longrightarrow> sa_slot e = i)"
    using gate_slots.step_keeps(1) [of "fst st" _ cfg "OpOpen now action"] o1 by (auto simp: calm_def)
qed

text \<open>Either the gate has no new slot, or one: sent and named in the answer, or settled.\<close>

lemma prepare_and_send_slots:
  assumes q: "quiet_port port" and r: "prepare_and_send cfg pa port v stamp st = (res, st')"
  shows "(case res of PrepSent e \<Rightarrow> False | _ \<Rightarrow> calm (fst st) (fst st')) \<or>
    (length (g_slots (fst st')) = Suc (length (g_slots (fst st))) \<and>
     (\<forall>j. slot_settled (fst st) j \<longrightarrow> slot_settled (fst st') j) \<and>
     (case res of PrepSent e \<Rightarrow> sa_slot e = length (g_slots (fst st)) | _ \<Rightarrow> slot_settled (fst st') (length (g_slots (fst st)))))"
proof -
  obtain tr slot auth st1 where t: "try_acquire cfg pa port v stamp st = (tr, slot, auth, st1)"
    using prod_cases4 by blast
  show ?thesis
  proof (cases slot)
    case None
    from try_acquire_slots(1) [OF q t None] r t None show ?thesis
      by (auto simp: prepare_and_send_def Let_def split: sum.splits prepare_result.splits prod.splits)
  next
    case (Some i)
    note i = try_acquire_slots(2) [OF q t Some]
    show ?thesis
    proof (cases "\<exists>e. tr = Inr (PrepSent e)")
      case True
      with r t Some i show ?thesis by (auto simp: prepare_and_send_def Let_def)
    next
      case False
      let ?st2 = "case tr of Inr _ \<Rightarrow> st1 | Inl _ \<Rightarrow> arb_settle cfg port i (outcome False) auth st1"
      have st': "st' = arb_settle cfg port i abandoned auth ?st2" and res: "\<forall>e. res \<noteq> PrepSent e"
        using r t Some False
        by (auto simp: prepare_and_send_def Let_def split: sum.splits prepare_result.splits prod.splits)
      have "calm (fst st1) (fst ?st2)" using calm_arb_settle [OF q] by (auto split: sum.split)
      then have c: "calm (fst st1) (fst st')" unfolding st' by (rule calm_trans) (rule calm_arb_settle [OF q])
      have "slot_known (fst ?st2) i"
        using i calm_known [OF \<open>calm (fst st1) (fst ?st2)\<close>, of i] by (simp add: slot_known_def)
      then have "slot_settled (fst st') i" unfolding st' by (rule arb_settle_closes)
      with c i res show ?thesis by (auto simp: calm_def split: prepare_result.split)
    qed
  qed
qed


definition accounted :: "sent_acquisition list \<Rightarrow> gate \<Rightarrow> gate \<Rightarrow> bool" where
  "accounted sent g g' \<longleftrightarrow> length (g_slots g) \<le> length (g_slots g') \<and>
     (\<forall>j. slot_settled g j \<longrightarrow> slot_settled g' j) \<and> (\<forall>e \<in> set sent. slot_known g' (sa_slot e)) \<and>
     (\<forall>j. length (g_slots g) \<le> j \<and> slot_known g' j \<longrightarrow> slot_settled g' j \<or> j \<in> sa_slot ` set sent)"

lemma accounted_calm: "calm g g' \<Longrightarrow> accounted [] g g'"
  by (auto simp: accounted_def calm_def slot_known_def)

lemma accounted_calm_trans:
  assumes "accounted sent g1 g2" "calm g2 g3" shows "accounted sent g1 g3"
  using assms calm_known [OF assms(2)] by (auto simp: accounted_def calm_def)

lemma accounted_trans:
  assumes "accounted s1 g1 g2" "accounted s2 g2 g3" shows "accounted (s1 @ s2) g1 g3"
proof -
  have "slot_settled g3 j \<or> j \<in> sa_slot ` set (s1 @ s2)" if "length (g_slots g1) \<le> j" "slot_known g3 j" for j
  proof (cases "slot_known g2 j")
    case True
    with assms that show ?thesis by (auto simp: accounted_def)
  next
    case False
    then have "length (g_slots g2) \<le> j" by (simp add: slot_known_def)
    with assms(2) that show ?thesis by (auto simp: accounted_def)
  qed
  with assms show ?thesis by (fastforce simp: accounted_def slot_known_def)
qed

lemma prepare_and_send_accounted:
  assumes "quiet_port port" "prepare_and_send cfg pa port v stamp st = (res, st')"
  shows "accounted (case res of PrepSent e \<Rightarrow> [e] | _ \<Rightarrow> []) (fst st) (fst st')"
  using prepare_and_send_slots [OF assms]
proof (elim disjE)
  assume "case res of PrepSent e \<Rightarrow> False | _ \<Rightarrow> calm (fst st) (fst st')"
  then show ?thesis by (cases res) (simp_all add: accounted_calm)
next
  assume a: "length (g_slots (fst st')) = Suc (length (g_slots (fst st))) \<and>
     (\<forall>j. slot_settled (fst st) j \<longrightarrow> slot_settled (fst st') j) \<and>
     (case res of PrepSent e \<Rightarrow> sa_slot e = length (g_slots (fst st)) | _ \<Rightarrow> slot_settled (fst st') (length (g_slots (fst st))))"
  then have "length (g_slots (fst st)) \<le> j \<and> slot_known (fst st') j \<longleftrightarrow> j = length (g_slots (fst st))" for j
    by (auto simp: slot_known_def)
  with a show ?thesis by (cases res) (auto simp: accounted_def)
qed

lemma acq_send_loop_accounted:
  assumes q: "quiet_port port"
  shows "acq_send_loop cfg pa port stamp vs st = (sent, st') \<Longrightarrow> accounted sent (fst st) (fst st')"
proof (induction vs arbitrary: st sent st')
  case Nil
  then show ?case by (simp add: accounted_calm)
next
  case (Cons v vs)
  obtain res st1 where p: "prepare_and_send cfg pa port v stamp st = (res, st1)"
    by (metis surj_pair)
  note acc = prepare_and_send_accounted [OF q p]
  show ?case
  proof (cases res)
    case (PrepSent e)
    obtain sent' st2 where l: "acq_send_loop cfg pa port stamp vs (meanwhile cfg port AtSleep st1) = (sent', st2)"
      by (metis surj_pair)
    have "accounted ([e] @ sent') (fst st) (fst st2)"
      using accounted_trans [OF accounted_calm_trans [OF acc calm_meanwhile [OF q]] Cons.IH [OF l]] PrepSent by simp
    with Cons.prems p PrepSent l show ?thesis by simp
  next
    case PrepSkipped
    with Cons.prems p have "accounted sent (fst st1) (fst st')" by (intro Cons.IH) simp
    from accounted_trans [OF acc this] PrepSkipped show ?thesis by simp
  next
    case PrepSendError
    with Cons.prems p acc show ?thesis by simp
  qed
qed

lemma calm_await_receipt:
  assumes q: "quiet_port port" shows "calm (fst st) (fst (snd (await_receipt cfg port e st)))"
proof -
  have w: "calm (fst (g, w)) (fst (arb_settle cfg port i o' auth (g, w)))" for g w i o' auth
    by (rule calm_arb_settle [OF q])
  have fin: "calm (fst st) (fst (snd (finish_acquisition cfg port e r st)))" for r st
    unfolding finish_acquisition_def Let_def split_beta snd_conv
    by (rule calm_trans [OF calm_meanwhile [OF q] calm_trans [OF calm_arb_settle [OF q] w [simplified]]])
  show ?thesis
    unfolding await_receipt_def Let_def
    using calm_trans [OF calm_meanwhile [OF q] calm_arb_settle [OF q]] calm_trans [OF calm_meanwhile [OF q] fin]
    by (auto split: sum.split)
qed

lemma acq_settle_loop_calm: "quiet_port port \<Longrightarrow> calm (fst st) (fst (acq_settle_loop cfg port es st))"
proof (induction es arbitrary: st)
  case (Cons e es)
  show ?case using calm_trans [OF calm_await_receipt Cons.IH] Cons.prems by simp
qed simp

lemma acq_backstop_calm: "quiet_port port \<Longrightarrow> calm (fst st) (fst (acq_backstop cfg port es st))"
proof (induction es arbitrary: st)
  case (Cons e es)
  show ?case using calm_trans [OF calm_arb_settle Cons.IH] Cons.prems by simp
qed simp

lemma acq_backstop_closes:
  assumes q: "quiet_port port"
  shows "\<forall>e \<in> set es. slot_known (fst st) (sa_slot e) \<Longrightarrow>
    \<forall>e \<in> set es. slot_settled (fst (acq_backstop cfg port es st)) (sa_slot e)"
proof (induction es arbitrary: st)
  case (Cons e es)
  let ?st1 = "arb_settle cfg port (sa_slot e) (unresolved (sa_hash e)) (sa_authorizationId e) st"
  have "\<forall>e' \<in> set es. slot_known (fst ?st1) (sa_slot e')"
    using Cons.prems calm_known [OF calm_arb_settle [OF q]] by auto
  moreover have "slot_settled (fst ?st1) (sa_slot e)" using Cons.prems by (intro arb_settle_closes) simp
  ultimately show ?case
    using Cons.IH [of ?st1] acq_backstop_calm [OF q, of ?st1 cfg es] by (auto simp: calm_def)
qed simp



section \<open>What a receipt means\<close>

text \<open>Reading a receipt never blames the bot for what is not its failure and never frees money that may
  have moved. The circuit breaker counts only a revert of our own transaction while the vault was still
  there to take and the authorization had not expired; the outflow stops counting only when our own
  transaction reverted and nothing says our authorization paid by another send.\<close>

theorem receipt_judged_fairly:
  "(let (o', recorded, answer) = acquisition_outcome port e receipt w;
        reverted = (\<exists>b. receipt = Some (sa_hash e, RcReverted, b));
        taken = was_vault_taken port (sa_vaultId e) w
    in (\<not> breaker_exempt o' \<and> \<not> ao_ok o' \<longleftrightarrow>
          reverted \<and> \<not> taken \<and>
          \<not> did_authorization_expire port (snd (snd (the receipt))) (sa_authorizationId e) w) \<and>
       (\<not> counts_as_spent o' \<longleftrightarrow>
          reverted \<and> (if taken then ap_spentWithoutUs port (sa_authorizationId e) w = Inr False else True)) \<and>
       (ao_ok o' \<longleftrightarrow> (\<exists>b. receipt = Some (sa_hash e, RcSuccess, b))) \<and>
       (recorded = None \<longleftrightarrow> receipt = None) \<and> (answer = Acquired \<longleftrightarrow> ao_ok o'))"
proof (cases receipt)
  case None
  then show ?thesis
    by (simp add: acquisition_outcome_def unresolved_def outcome_def breaker_exempt_def counts_as_spent_def)
next
  case (Some r)
  obtain h status b where r: "r = (h, status, b)" by (cases r)
  show ?thesis
    unfolding Some r acquisition_outcome_def
    by (cases status; cases "ap_spentWithoutUs port (sa_authorizationId e) w")
      (auto simp: unresolved_def outcome_def abandoned_def breaker_exempt_def counts_as_spent_def Let_def
        spend_verdict_def with_verdict_def split: if_splits)
qed


section \<open>The price of an acquisition\<close>

lemma commit_acquisition_sent:
  assumes "commit_acquisition cfg port i v cost maxIn call auth st = (Inr (PrepSent e), st')"
  shows "sa_currentDebt e = cost" "sa_maxWbtcIn e = maxIn" "sa_vaultId e = v"
  using assms by (auto simp: commit_acquisition_def Let_def split: prod.splits sum.splits commit_result.splits)

lemma acquire_in_slot_sent:
  assumes "acquire_in_slot cfg port i v preview maxIn st = (Inr (PrepSent e), auth, st')"
  shows "sa_currentDebt e = vp_amountExitBtcToAcquire preview" "sa_maxWbtcIn e = maxIn" "sa_vaultId e = v"
  using assms
  by (auto simp: acquire_in_slot_def Let_def split: prod.splits sum.splits allowance_result.splits
      dest: commit_acquisition_sent)


section \<open>Examples\<close>

text \<open>The world is the count of commits: the first is broadcast, the second fails ambiguously.\<close>

definition ex_arb_port :: "(nat, unit) arb_port" where
  "ex_arb_port = \<lparr>ap_now = (\<lambda>w. 5100), ap_others = (\<lambda>pt w. []),
     ap_preview = (\<lambda>v w. Inr (Some \<lparr>vp_amountVault = 30, vp_amountExitBtcToAcquire = 10, vp_amountProfitEst = 15\<rparr>)),
     ap_spend = (\<lambda>n w. Inr \<lparr>ta_owner = ''0xBOT'', ta_token = ''0xwbtc'', ts_amount = n, ts_accounting = None\<rparr>),
     ap_ensureFunded = (\<lambda>n w. (Inr Satisfied, w)), ap_build = (\<lambda>v p n w. (Inr ((), None), w)),
     ap_estimateGas = (\<lambda>c w. Inr ()),
     ap_commit = (\<lambda>c v w. (Inr (if w = 0 then Broadcast ''0xh'' None else AbortedAmbiguous ''0xg'' ''reset''), Suc w)),
     ap_acquirable = (\<lambda>v w. Inr False), ap_spentWithoutUs = (\<lambda>a w. Inr False),
     ap_authorizationExpired = (\<lambda>a b w. Inr False), ap_settleAuthorization = (\<lambda>a ok b w. ([], w)),
     ap_receipt = (\<lambda>h w. Inr None), ap_recordOutcome = (\<lambda>i h f w. w)\<rparr>"

definition ex_arb_params :: arb_params where
  "ex_arb_params = \<lparr>pa_maxSlippageBps = 1000, pa_btcRedemptionCostSats = 3\<rparr>"

definition ex_gate40 :: gate where
  "ex_gate40 = gate_run ex_cfg [OpSnapshot [(ex_account, 40)] 7 []] (create_gate ex_cfg)"

definition ex_arb_run :: "string option \<times> nat list \<times> gate \<times> nat" where
  "ex_arb_run = arb_poll ex_cfg ex_arb_params ex_arb_port (\<lambda>st. (Inr (), st))
     (VaultsOk [''0xv'', ''0xu''] (Some (WireInt 5000))) (ex_gate40, 0)"

lemma ex_arb_run_length: "length (g_slots (fst (snd (snd ex_arb_run)))) = 2" "length (g_slots ex_gate40) = 0"
  by code_simp+



end
