(* ===== verification/ArbFunding.thy ===== *)
theory ArbFunding
  imports ArbEngine JsNumbers
begin

text \<open>
  How an acquisition is paid for, \<open>packages/engine/src/arbitrage/funding\<close>: the signer's own balance
  (\<open>inventory.ts\<close>) or a treasury behind a router (\<open>router.ts\<close>, modelled in \<open>ArbRouter\<close>), the factory
  that picks one (\<open>index.ts\<close>) and the projection of the environment onto it (\<open>config.ts\<close>). Each mode
  turns a port that lacks funding into the port of the engine; the router mode adds its own state to the
  world.
\<close>

text \<open>A string that is neither undefined nor empty.\<close>

definition is_set :: "string option \<Rightarrow> bool" where
  "is_set v = (v \<noteq> None \<and> v \<noteq> Some [])"

section \<open>Paying from the signer\<close>

definition inventory_spend :: "address \<Rightarrow> address \<Rightarrow> int \<Rightarrow> token_spend" where
  "inventory_spend from wbtc maxWbtcIn =
     \<lparr>ta_owner = from, ta_token = wbtc, ts_amount = maxWbtcIn, ts_accounting = None\<rparr>"

datatype swap_call =
    SwapExitBtcForVault hex int
  | SwapExitBtcForVaultOnBehalf hex int address

definition inventory_acquisition :: "address option \<Rightarrow> hex \<Rightarrow> int \<Rightarrow> swap_call" where
  "inventory_acquisition keeper vaultId maxWbtcIn =
     (if is_set keeper then SwapExitBtcForVaultOnBehalf vaultId maxWbtcIn (the keeper)
      else SwapExitBtcForVault vaultId maxWbtcIn)"

definition inventory_refresh ::
  "address \<Rightarrow> address \<Rightarrow> int outcome \<Rightarrow> (address \<Rightarrow> int \<Rightarrow> int outcome) \<Rightarrow> hex set option outcome
     \<Rightarrow> (hex \<Rightarrow> receipt_read) \<Rightarrow> (hex \<Rightarrow> bool outcome) \<Rightarrow> gate \<Rightarrow> unit outcome \<times> gate" where
  "inventory_refresh from wbtc blockNumber balanceOf inFlight receipt known g =
     (case await blockNumber (\<lambda>block. await (balanceOf wbtc block) (\<lambda>balance.
            await (settled_outflows block inFlight receipt known g) (\<lambda>settled. Inr (block, balance, settled)))) of
        Inl e \<Rightarrow> (Inl e, g)
      | Inr (block, balance, settled) \<Rightarrow>
          (Inr (), apply_snapshot [(\<lparr>ta_owner = from, ta_token = wbtc\<rparr>, balance)] block settled g))"

text \<open>The transaction is the authorization: nothing outlives it, so nothing is asked about it.\<close>

definition inventory_funded ::
  "address \<Rightarrow> address \<Rightarrow> address option \<Rightarrow> (int \<Rightarrow> 'w \<Rightarrow> allowance_result outcome \<times> 'w)
     \<Rightarrow> ('w, swap_call) arb_port \<Rightarrow> ('w, swap_call) arb_port" where
  "inventory_funded from wbtc keeper ensureAllowance base = base\<lparr>
     ap_spend := (\<lambda>n w. Inr (inventory_spend from wbtc n)),
     ap_ensureFunded := ensureAllowance,
     ap_build := (\<lambda>v p n w. (Inr (inventory_acquisition keeper v n, None), w)),
     ap_spentWithoutUs := (\<lambda>a w. Inr False),
     ap_authorizationExpired := (\<lambda>a b w. Inr False),
     ap_settleAuthorization := (\<lambda>a ok b w. ([], w))\<rparr>"

section \<open>Paying from a treasury\<close>

record 'v router_env =
  re_block :: "'v \<Rightarrow> (int \<times> int) outcome"
  re_head :: "'v \<Rightarrow> int outcome"
  re_timestamp :: "'v \<Rightarrow> int \<Rightarrow> int outcome"
  re_logs :: "'v \<Rightarrow> log_reader"
  re_balance :: "'v \<Rightarrow> address \<Rightarrow> int \<Rightarrow> int outcome"
  re_allowance :: "'v \<Rightarrow> address \<Rightarrow> int \<Rightarrow> int outcome"
  re_sign :: "'v \<Rightarrow> relay_batch \<Rightarrow> hex outcome"
  re_digest :: "relay_batch \<Rightarrow> hex"

definition router_funded ::
  "router_deps \<Rightarrow> 'v router_env \<Rightarrow> ('v, relay_call) arb_port \<Rightarrow> (router \<times> 'v, relay_call) arb_port" where
  "router_funded d env base = \<lparr>
     ap_now = (\<lambda>w. ap_now base (snd w)),
     ap_others = (\<lambda>pt w. ap_others base pt (snd w)),
     ap_preview = (\<lambda>v w. ap_preview base v (snd w)),
     ap_spend = (\<lambda>n w. router_spend d n (fst w)),
     ap_ensureFunded = (\<lambda>n w. (Inr Satisfied, w)),
     ap_build = (\<lambda>v p n w. let (res, r') = router_build d (re_digest env) (re_block env (snd w)) (ap_now base (snd w))
                     (re_sign env (snd w)) v p n (fst w)
                   in (case res of Inl e \<Rightarrow> Inl e | Inr (call, i) \<Rightarrow> Inr (call, Some i), (r', snd w))),
     ap_estimateGas = (\<lambda>c w. ap_estimateGas base c (snd w)),
     ap_commit = (\<lambda>c v w. let (res, x') = ap_commit base c v (snd w) in (res, (fst w, x'))),
     ap_acquirable = (\<lambda>v w. ap_acquirable base v (snd w)),
     ap_spentWithoutUs = (\<lambda>a w. spent_without_us (re_head env (snd w)) (re_logs env (snd w)) a (fst w)),
     ap_authorizationExpired = (\<lambda>a b w. router_authorization_expired (re_timestamp env (snd w)) a b (fst w)),
     ap_settleAuthorization = (\<lambda>a ok b w. let (ops, r') = settle_authorization d a ok b (fst w)
                   in (case ops of Inl e \<Rightarrow> [] | Inr ops \<Rightarrow> ops, (r', snd w))),
     ap_receipt = (\<lambda>h w. ap_receipt base h (snd w)),
     ap_recordOutcome = (\<lambda>i h f w. (fst w, ap_recordOutcome base i h f (snd w)))\<rparr>"

definition router_funding_refresh ::
  "risk_config \<Rightarrow> router_deps \<Rightarrow> 'v router_env \<Rightarrow> gate \<times> router \<times> 'v \<Rightarrow> unit outcome \<times> gate \<times> router \<times> 'v" where
  "router_funding_refresh cfg d env st = (case st of (g, r, x) \<Rightarrow>
     let (res, ops, r') = router_refresh d (re_block env x) (re_balance env x) (re_allowance env x) (re_logs env x) r
     in (res, gate_run cfg ops g, r', x))"

section \<open>Choosing a mode\<close>

datatype funding_params = InventoryParams | RouterParams address int

definition build_arbitrage_funding_params ::
  "string \<Rightarrow> string option \<Rightarrow> string \<Rightarrow> funding_params outcome" where
  "build_arbitrage_funding_params funding routerAddress deadline =
     (if funding \<noteq> ''router''
      then (if is_set routerAddress
            then Inl (''ARBITRAGE_ROUTER_ADDRESS is set but ARBITRAGE_FUNDING is '' @ [CHR 0x22] @ funding @ [CHR 0x22] @ '', so the router configuration would be ignored and this bot would acquire vaults from its own WBTC. Set ARBITRAGE_FUNDING=router, or remove the router-only variables.'')
            else Inr InventoryParams)
      else if \<not> is_set routerAddress then Inl ''ARBITRAGE_FUNDING=router requires ARBITRAGE_ROUTER_ADDRESS''
      else (case parse_int deadline of
              None \<Rightarrow> Inl (''ARBITRAGE_RELAY_DEADLINE_SECONDS must be between 1 and 300, got '' @ [CHR 0x22] @ deadline @ [CHR 0x22])
            | Some n \<Rightarrow> if n \<le> 0 \<or> n > 300
                then Inl (''ARBITRAGE_RELAY_DEADLINE_SECONDS must be between 1 and 300, got '' @ [CHR 0x22] @ deadline @ [CHR 0x22])
                else Inr (RouterParams (the routerAddress) n)))"

datatype arb_mode = InventoryMode | RouterMode address address int

definition create_arbitrage_funding ::
  "funding_params option \<Rightarrow> bool \<Rightarrow> address option \<Rightarrow> arb_mode outcome" where
  "create_arbitrage_funding params auto keeper = (case or_default params InventoryParams of
     InventoryParams \<Rightarrow> Inr InventoryMode
   | RouterParams router deadline \<Rightarrow>
       if \<not> auto then Inl ''ARBITRAGE_FUNDING=router needs a key to authorize each acquisition, so it cannot run with EXECUTION_MODE=MANUAL.''
       else if \<not> is_set keeper then Inl ''ARBITRAGE_FUNDING=router requires VAULT_KEEPER_ADDRESS: the router only ever redeems on behalf of a registered keeper.''
       else Inr (RouterMode router (the keeper) deadline))"

section \<open>No signed batch is forgotten\<close>

text \<open>The batches the gate is still trusted to reserve for.\<close>

definition backed_ids :: "(hex \<times> authorization) list \<Rightarrow> hex set" where
  "backed_ids as = {i. \<exists>a. (i, a) \<in> set as \<and> au_backed a}"

definition trusted :: "hex set \<Rightarrow> router \<Rightarrow> bool" where
  "trusted S r \<longleftrightarrow> distinct (map fst (ro_authorizations r)) \<and> backed_ids (ro_authorizations r) \<subseteq> S"

lemma trusted_mono: "trusted S r \<Longrightarrow> S \<subseteq> T \<Longrightarrow> trusted T r"
  by (auto simp: trusted_def)

lemma backed_ids_set:
  "distinct (map fst as) \<Longrightarrow> backed_ids (alist_set k a as) = (if au_backed a then {k} else {}) \<union> (backed_ids as - {k})"
  unfolding backed_ids_def set_alist_set_distinct by auto

lemma backed_ids_absent: "map_of as k = None \<Longrightarrow> k \<notin> backed_ids as"
  by (force simp: backed_ids_def map_of_eq_None_iff)

lemma trusted_settle:
  assumes "trusted S r" "settle_authorization d auth consumed mined r = (ops, r')"
  shows "trusted (S - set_option auth) r'"
proof (cases "Option.bind auth (map_of (ro_authorizations r))")
  case None
  have "r' = r" using None assms(2) by (auto simp: settle_authorization_def split: option.splits)
  moreover have "set_option auth \<inter> backed_ids (ro_authorizations r) = {}"
    using None backed_ids_absent by (cases auth) auto
  ultimately show ?thesis using assms(1) by (auto simp: trusted_def)
next
  case (Some a)
  then obtain i where i: "auth = Some i" "map_of (ro_authorizations r) i = Some a" by (auto simp: bind_eq_Some_conv)
  then have r': "r' = r\<lparr>ro_authorizations := alist_set i (handed_over consumed mined a) (ro_authorizations r)\<rparr>"
    using assms(2) by (auto simp: settle_authorization_def Let_def)
  have "\<not> au_backed (handed_over consumed mined a)" by (simp add: handed_over_def Let_def)
  with assms(1) i(1) show ?thesis
    by (auto simp: trusted_def r' backed_ids_set distinct_alist_set)
qed

lemma trusted_build:
  assumes "trusted S r" "router_build d digest block now sign v p n r = (res, r')"
  shows "trusted (case res of Inl e \<Rightarrow> S | Inr (call, i) \<Rightarrow> insert i S) r'"
proof (cases res)
  case (Inl e)
  then have "r' = r" using assms(2) by (auto simp: router_build_def split: sum.splits prod.splits)
  with Inl assms(1) show ?thesis by simp
next
  case (Inr x)
  then obtain call i a where "x = (call, i)" "r' = r\<lparr>ro_authorizations := alist_set i a (ro_authorizations r)\<rparr>"
    using assms(2) by (auto simp: router_build_def split: sum.splits prod.splits)
  with Inr assms(1) show ?thesis by (auto simp: trusted_def backed_ids_set distinct_alist_set split: if_splits)
qed

lemma trusted_refresh:
  assumes "trusted S r" "router_refresh d block bal allow logs r = (res, ops, r')"
  shows "trusted S r'"
proof -
  have filtered: "trusted S r1" if "ro_authorizations r1 = filter P (ro_authorizations r)" for P r1
    using assms(1) that by (auto simp: trusted_def backed_ids_def distinct_filter_keys)
  show ?thesis
  proof (cases "ro_payer r")
    case None
    with assms show ?thesis by (auto simp: router_refresh_def payer_or_throw_def)
  next
    case (Some payer)
    from assms(2) Some show ?thesis
    proof (cases rule: router_refreshE)
      case unread
      with assms(1) show ?thesis by simp
    next
      case (failed n ts e)
      from retire_frame(3) [OF failed(1)] filtered show ?thesis by blast
    next
      case (finished n ts balance allowance r1)
      from retire_frame(3) [OF finished(2)] finished(3) filtered [of r'] show ?thesis by auto
    qed
  qed
qed

lemma trusted_arb_settle:
  assumes "trusted S (fst (snd st))"
  shows "trusted (S - set_option auth) (fst (snd (arb_settle cfg (router_funded d env base) i o' auth st)))"
proof -
  obtain ops r' where "settle_authorization d auth (ao_ok o') (ao_minedAtBlock o') (fst (snd st)) = (ops, r')"
    by (metis surj_pair)
  with trusted_settle [OF assms this] show ?thesis
    by (simp add: arb_settle_def router_funded_def Let_def split_beta)
qed

lemma meanwhile_world [simp]: "snd (meanwhile cfg port pt st) = snd st"
  by (simp add: meanwhile_def)

lemma trusted_abandon:
  "trusted S (fst (snd st)) \<Longrightarrow>
     trusted (S - set_option auth) (fst (snd (abandon_after_authorizing cfg (router_funded d env base) i auth st)))"
  unfolding abandon_after_authorizing_def Let_def by (rule trusted_arb_settle) simp


definition auth_of :: "prepare_result outcome \<Rightarrow> hex option \<Rightarrow> bool" where
  "auth_of res auth \<longleftrightarrow> (\<forall>e. res = Inr (PrepSent e) \<longrightarrow> sa_authorizationId e = auth)"

lemma trusted_commit_acquisition:
  assumes t: "trusted S (fst (snd st))"
    and r: "commit_acquisition cfg (router_funded d env base) i v cost maxIn call auth st = (res, st')"
  shows "trusted S (fst (snd st'))" "auth_of res auth"
proof -
  obtain cr x1 where c: "ap_commit base call v (snd (snd st)) = (cr, x1)" by (metis surj_pair)
  let ?st1 = "meanwhile cfg (router_funded d env base) AtCommit (fst st, fst (snd st), x1)"
  have k: "ap_commit (router_funded d env base) call v (snd st) = (cr, fst (snd st), x1)"
    using c by (simp add: router_funded_def)
  have t1: "trusted S (fst (snd ?st1))" using t by simp
  note run = r [unfolded commit_acquisition_def k prod.case Let_def]
  have "st' = ?st1 \<or> (\<exists>o'. st' = arb_settle cfg (router_funded d env base) i o' auth ?st1) \<or>
      st' = abandon_after_authorizing cfg (router_funded d env base) i auth ?st1"
    using run by (auto split: sum.splits commit_result.splits)
  then show "trusted S (fst (snd st'))"
    using t1 trusted_mono [OF trusted_arb_settle [OF t1] Diff_subset] trusted_mono [OF trusted_abandon [OF t1] Diff_subset]
    by blast
  show "auth_of res auth" using run by (auto simp: auth_of_def split: sum.splits commit_result.splits)
qed

lemma trusted_acquire_in_slot:
  assumes t: "trusted S (fst (snd st))"
    and r: "acquire_in_slot cfg (router_funded d env base) i v preview maxIn st = (res, auth, st')"
  shows "trusted (S \<union> set_option auth) (fst (snd st'))" "auth_of res auth"
proof -
  let ?port = "router_funded d env base"
  obtain built w2 where b: "ap_build ?port v preview maxIn (snd st) = (built, w2)" by (metis surj_pair)
  have f: "ap_ensureFunded ?port maxIn (snd st) = (Inr Satisfied, snd st)" by (simp add: router_funded_def)
  let ?st1 = "meanwhile cfg ?port AtFunding (fst st, snd st)"
  let ?st3 = "meanwhile cfg ?port AtEstimate (meanwhile cfg ?port AtBuild (fst ?st1, w2))"
  have "trusted (case built of Inl e \<Rightarrow> S | Inr (call, a) \<Rightarrow> S \<union> set_option a) (fst w2)"
  proof -
    obtain res' r' where "router_build d (re_digest env) (re_block env (snd (snd st))) (ap_now base (snd (snd st)))
        (re_sign env (snd (snd st))) v preview maxIn (fst (snd st)) = (res', r')" by (metis surj_pair)
    with trusted_build [OF t this] b show ?thesis
      by (auto simp: router_funded_def Let_def split: sum.splits prod.splits)
  qed
  note t2 = this
  note run = r [unfolded acquire_in_slot_def f prod.case Let_def split_beta sum.case allowance_result.case fst_conv b snd_conv]
  show "trusted (S \<union> set_option auth) (fst (snd st'))" "auth_of res auth"
  proof -
    have "trusted (S \<union> set_option auth) (fst (snd st')) \<and> auth_of res auth"
    proof (cases built)
      case (Inl e)
      with run t2 show ?thesis by (auto simp: auth_of_def)
    next
      case (Inr ca)
      obtain call a where ca: "ca = (call, a)" by (metis surj_pair)
      have t3: "trusted (S \<union> set_option a) (fst (snd ?st3))" using t2 Inr ca by simp
      show ?thesis
      proof (cases "ap_estimateGas ?port call (snd ?st3)")
        case (Inl e)
        with run Inr ca trusted_mono [OF trusted_abandon [OF t3] Diff_subset] show ?thesis by (auto simp: auth_of_def)
      next
        case g: (Inr u)
        obtain res' st4 where "commit_acquisition cfg ?port i v (vp_amountExitBtcToAcquire preview) maxIn call a ?st3 = (res', st4)"
          by (metis surj_pair)
        with trusted_commit_acquisition [OF t3 this] run Inr ca g show ?thesis by auto
      qed
    qed
    then show "trusted (S \<union> set_option auth) (fst (snd st'))" "auth_of res auth" by blast+
  qed
qed

lemma trusted_prepare_and_send:
  assumes t: "trusted S (fst (snd st))"
    and r: "prepare_and_send cfg pa (router_funded d env base) v stamp st = (res, st')"
  shows "trusted (case res of PrepSent e \<Rightarrow> S \<union> set_option (sa_authorizationId e) | _ \<Rightarrow> S) (fst (snd st'))"
proof -
  let ?port = "router_funded d env base"
  obtain tr slot auth st1 where attempt: "try_acquire cfg pa ?port v stamp st = (tr, slot, auth, st1)"
    using prod_cases4 by blast
  show ?thesis
  proof (cases slot)
    case None
    have "snd st1 = snd st \<and> (\<forall>e. tr \<noteq> Inr (PrepSent e))"
      using attempt None by (auto simp: try_acquire_def Let_def split: sum.splits option.splits if_splits prod.splits slot_ref.splits)
    with r attempt None t show ?thesis
      by (auto simp: prepare_and_send_def Let_def split: sum.splits prepare_result.splits prod.splits)
  next
    case (Some i)
    obtain g1 preview maxIn where "acquire_in_slot cfg ?port i v preview maxIn (g1, snd st) = (tr, auth, st1)"
      using attempt Some by (auto simp: try_acquire_def Let_def split: sum.splits option.splits if_splits prod.splits slot_ref.splits)
    from trusted_acquire_in_slot [OF _ this, of S] t
    have t1: "trusted (S \<union> set_option auth) (fst (snd st1))" and a: "auth_of tr auth" by simp_all
    show ?thesis
    proof (cases "\<exists>e. tr = Inr (PrepSent e)")
      case True
      with r attempt Some t1 a show ?thesis by (auto simp: prepare_and_send_def Let_def auth_of_def)
    next
      case False
      let ?st2 = "case tr of Inr _ \<Rightarrow> st1 | Inl _ \<Rightarrow> arb_settle cfg ?port i (outcome False) auth st1"
      have st': "st' = arb_settle cfg ?port i abandoned auth ?st2" and res: "\<forall>e. res \<noteq> PrepSent e"
        using r attempt Some False
        by (auto simp: prepare_and_send_def Let_def split: sum.splits prepare_result.splits prod.splits)
      have "trusted (S \<union> set_option auth) (fst (snd ?st2))"
        using t1 trusted_mono [OF trusted_arb_settle [OF t1] Diff_subset] by (auto split: sum.split)
      then have "trusted (S \<union> set_option auth - set_option auth) (fst (snd st'))"
        unfolding st' by (rule trusted_arb_settle)
      then have "trusted S (fst (snd st'))" by (rule trusted_mono) auto
      with res show ?thesis by (cases res) auto
    qed
  qed
qed


definition carried :: "sent_acquisition list \<Rightarrow> hex set" where
  "carried sent = (\<Union>e \<in> set sent. set_option (sa_authorizationId e))"

lemma trusted_send_loop:
  assumes "trusted S (fst (snd st))"
    and "acq_send_loop cfg pa (router_funded d env base) stamp vs st = (sent, st')"
  shows "trusted (S \<union> carried sent) (fst (snd st'))"
  using assms
proof (induction vs arbitrary: st sent S)
  case Nil
  then show ?case by (simp add: carried_def)
next
  case (Cons v vs)
  let ?port = "router_funded d env base"
  obtain res st1 where p: "prepare_and_send cfg pa ?port v stamp st = (res, st1)" by (metis surj_pair)
  note t = trusted_prepare_and_send [OF Cons.prems(1) p]
  show ?case
  proof (cases res)
    case (PrepSent e)
    obtain sent' st2 where l: "acq_send_loop cfg pa ?port stamp vs (meanwhile cfg ?port AtSleep st1) = (sent', st2)"
      by (metis surj_pair)
    with Cons.prems(2) p PrepSent have "sent = e # sent'" "st2 = st'" by simp_all
    with Cons.IH [of "S \<union> set_option (sa_authorizationId e)" "meanwhile cfg ?port AtSleep st1" sent'] t l PrepSent
    show ?thesis by (simp add: carried_def Un_assoc)
  next
    case PrepSkipped
    with Cons p t show ?thesis by auto
  next
    case PrepSendError
    with Cons.prems p t show ?thesis by (simp add: carried_def)
  qed
qed

lemma trusted_await_receipt:
  assumes t: "trusted S (fst (snd st))"
  shows "trusted S (fst (snd (snd (await_receipt cfg (router_funded d env base) e st))))"
proof -
  let ?port = "router_funded d env base"
  have settle: "trusted S (fst (snd (arb_settle cfg ?port i o' auth st)))" if "trusted S (fst (snd st))" for i o' auth st
    by (rule trusted_mono [OF trusted_arb_settle [OF that]]) blast
  have rec: "fst (ap_recordOutcome ?port i h f w) = fst w" for i h f w by (simp add: router_funded_def)
  have "trusted S (fst (snd (snd (finish_acquisition cfg ?port e rc st))))" if "trusted S (fst (snd st))" for rc st
    using settle [of "meanwhile cfg ?port AtVerdict st"] that
    unfolding finish_acquisition_def Let_def split_beta snd_conv
    by (intro settle) (auto simp: rec split: option.split)
  with t settle show ?thesis
    by (auto simp: await_receipt_def Let_def split: sum.split)
qed

lemma trusted_settle_loop:
  "trusted S (fst (snd st)) \<Longrightarrow> trusted S (fst (snd (acq_settle_loop cfg (router_funded d env base) es st)))"
  by (induction es arbitrary: st) (simp_all add: trusted_await_receipt)

lemma trusted_backstop:
  "trusted (S \<union> carried es) (fst (snd st)) \<Longrightarrow>
     trusted S (fst (snd (acq_backstop cfg (router_funded d env base) es st)))"
proof (induction es arbitrary: st)
  case (Cons e es)
  let ?st1 = "arb_settle cfg (router_funded d env base) (sa_slot e) (unresolved (sa_hash e)) (sa_authorizationId e) st"
  have "trusted (S \<union> carried es) (fst (snd ?st1))"
    by (rule trusted_mono [OF trusted_arb_settle [OF Cons.prems]]) (auto simp: carried_def)
  from Cons.IH [OF this] show ?case by simp
qed (simp add: carried_def)


definition ex_env :: "nat router_env" where
  "ex_env = \<lparr>re_block = (\<lambda>x. Inr (10, 5)), re_head = (\<lambda>x. Inr 10), re_timestamp = (\<lambda>x n. Inr 1000),
     re_logs = (\<lambda>x vs b e. Inr []), re_balance = (\<lambda>x p b. Inr 100), re_allowance = (\<lambda>x p b. Inr 90),
     re_sign = (\<lambda>x b. Inr ''sig''), re_digest = rb_vaultId\<rparr>"

definition ex_base :: "(nat, relay_call) arb_port" where
  "ex_base = \<lparr>ap_now = ap_now ex_arb_port, ap_others = ap_others ex_arb_port, ap_preview = ap_preview ex_arb_port,
     ap_spend = ap_spend ex_arb_port, ap_ensureFunded = ap_ensureFunded ex_arb_port,
     ap_build = (\<lambda>v p n w. (Inl ''unfunded'', w)), ap_estimateGas = (\<lambda>c w. Inr ()),
     ap_commit = (\<lambda>c v w. ap_commit ex_arb_port () v w), ap_acquirable = ap_acquirable ex_arb_port,
     ap_spentWithoutUs = ap_spentWithoutUs ex_arb_port, ap_authorizationExpired = ap_authorizationExpired ex_arb_port,
     ap_settleAuthorization = ap_settleAuthorization ex_arb_port, ap_receipt = ap_receipt ex_arb_port,
     ap_recordOutcome = ap_recordOutcome ex_arb_port\<rparr>"

definition ex_router_poll :: "string option \<times> nat list \<times> gate \<times> router \<times> nat" where
  "ex_router_poll = arb_poll ex_cfg ex_arb_params (router_funded ex_deps ex_env ex_base) (router_funding_refresh ex_cfg ex_deps ex_env)
     (VaultsOk [''0xv'', ''0xu''] (Some (WireInt 5000))) (create_gate ex_cfg, ex_router, 0)"

lemma ex_router_poll_batches:
  "map fst (ro_authorizations (fst (snd (snd (snd ex_router_poll))))) = [''0xv'', ''0xu'']"
  by code_simp


end
