(* ===== verification/SafeTx.thy ===== *)
theory SafeTx
  imports IntentStore JsNumbers "HOL-Library.List_Lexorder" "HOL-Library.Char_ord"
begin

text \<open>
  \<open>packages/execution/src/safe.ts\<close>, the chain-free half of Safe custody, and \<open>hashPayload\<close> of
  \<open>txSender.ts\<close>. What the ABI library computes is the record \<open>abi_lib\<close>: checksummed addresses, the
  EIP-712 hash of typed data, the calldata of \<open>execTransaction\<close> and its inverse, the hash of the
  encoded payload. \<open>abi_laws\<close> states what its documentation promises.
\<close>

section \<open>The library\<close>

record exec_args =
  xa_to :: address
  xa_value :: int
  xa_data :: hex
  xa_operation :: int
  xa_safeTxGas :: int
  xa_baseGas :: int
  xa_gasPrice :: int
  xa_gasToken :: address
  xa_refundReceiver :: address
  xa_signatures :: hex

datatype decoded_call = ExecTransaction exec_args | OtherCall string

record safe_typed_data =
  td_chainId :: int
  td_verifyingContract :: address
  td_to :: address
  td_value :: int
  td_data :: hex
  td_operation :: int
  td_safeTxGas :: int
  td_baseGas :: int
  td_gasPrice :: int
  td_gasToken :: address
  td_refundReceiver :: address
  td_nonce :: int

record abi_lib =
  al_getAddress :: "address \<Rightarrow> address outcome"
  al_hashTypedData :: "safe_typed_data \<Rightarrow> hex outcome"
  al_encodeExec :: "exec_args \<Rightarrow> hex outcome"
  al_decode :: "hex \<Rightarrow> decoded_call outcome"
  al_concatHex :: "hex list \<Rightarrow> hex"
  al_hashAbi :: "string \<times> int \<times> address \<times> hex \<times> int \<times> int \<Rightarrow> hex outcome"

text \<open>A checksummed address spells the same account and is its own checksum; calldata decodes to what
  was encoded, its byte strings in lower case.\<close>

definition checksummed :: "abi_lib \<Rightarrow> address \<Rightarrow> bool" where
  "checksummed lib a \<longleftrightarrow> al_getAddress lib a = Inr a"

definition abi_laws :: "abi_lib \<Rightarrow> bool" where
  "abi_laws lib \<longleftrightarrow>
     (\<forall>a c. al_getAddress lib a = Inr c \<longrightarrow> to_lower c = to_lower a \<and> checksummed lib c)
     \<and> (\<forall>x d. al_encodeExec lib x = Inr d \<and> checksummed lib (xa_to x) \<and> checksummed lib (xa_gasToken x)
          \<and> checksummed lib (xa_refundReceiver x)
          \<longrightarrow> al_decode lib d = Inr (ExecTransaction
               (x\<lparr>xa_data := to_lower (xa_data x), xa_signatures := to_lower (xa_signatures x)\<rparr>)))"

lemma abi_lawsD:
  assumes "abi_laws lib"
  shows "al_getAddress lib a = Inr c \<Longrightarrow> to_lower c = to_lower a"
    and "al_getAddress lib a = Inr c \<Longrightarrow> al_getAddress lib c = Inr c"
    and "al_encodeExec lib x = Inr d \<Longrightarrow> checksummed lib (xa_to x) \<Longrightarrow> checksummed lib (xa_gasToken x)
      \<Longrightarrow> checksummed lib (xa_refundReceiver x) \<Longrightarrow> al_decode lib d = Inr (ExecTransaction
        (x\<lparr>xa_data := to_lower (xa_data x), xa_signatures := to_lower (xa_signatures x)\<rparr>))"
  using assms unfolding abi_laws_def checksummed_def by blast+

definition PAYLOAD_HASH_VERSION :: string where
  "PAYLOAD_HASH_VERSION = ''aave-v4-bot-proposal-v1''"

definition hash_payload :: "abi_lib \<Rightarrow> proposed_tx \<Rightarrow> hex outcome" where
  "hash_payload lib p =
     await (al_getAddress lib (pt_to p)) (\<lambda>dst.
     await (big_int (pt_value p)) (\<lambda>v.
     await (big_int (or_default (pt_gasLimit p) ''0'')) (\<lambda>g.
       al_hashAbi lib (PAYLOAD_HASH_VERSION, pt_chainId p, dst, pt_data p, v, g))))"

text \<open>The two custody models.\<close>

datatype executor_kind = Eoa | SafeCustody

section \<open>Parameters and policy\<close>

definition ZERO_ADDRESS :: address where
  "ZERO_ADDRESS = ''0x0000000000000000000000000000000000000000''"

definition default_safe_tx_params :: "int \<Rightarrow> safe_tx_params" where
  "default_safe_tx_params n = \<lparr>sp_safeNonce = n, sp_operation = 0, sp_safeTxGas = ''0'', sp_baseGas = ''0'',
     sp_gasPrice = ''0'', sp_gasToken = ZERO_ADDRESS, sp_refundReceiver = ZERO_ADDRESS\<rparr>"

definition offending_fields :: "('a safe_tx_params_scheme) \<Rightarrow> string list" where
  "offending_fields p =
     (if sp_operation p \<noteq> 0 then [''operation '' @ show_int (sp_operation p) @ '' is not CALL''] else [])
   @ (if sp_safeTxGas p \<noteq> ''0'' then [''safeTxGas '' @ sp_safeTxGas p] else [])
   @ (if sp_baseGas p \<noteq> ''0'' then [''baseGas '' @ sp_baseGas p] else [])
   @ (if sp_gasPrice p \<noteq> ''0'' then [''gasPrice '' @ sp_gasPrice p] else [])
   @ (if to_lower (sp_gasToken p) \<noteq> ZERO_ADDRESS then [''gasToken '' @ sp_gasToken p] else [])
   @ (if to_lower (sp_refundReceiver p) \<noteq> ZERO_ADDRESS
      then [''refundReceiver '' @ sp_refundReceiver p] else [])"

definition assert_zero_gas_policy :: "('a safe_tx_params_scheme) \<Rightarrow> string \<Rightarrow> unit outcome" where
  "assert_zero_gas_policy p ctx =
     (if offending_fields p \<noteq> []
      then Inl (ctx @ '': SafeTx carries nonzero gas/refund fields ('' @ join '', '' (offending_fields p) @ '')'')
      else Inr ())"

definition zero_gas :: "('a safe_tx_params_scheme) \<Rightarrow> bool" where
  "zero_gas p \<longleftrightarrow> sp_operation p = 0 \<and> sp_safeTxGas p = ''0'' \<and> sp_baseGas p = ''0'' \<and> sp_gasPrice p = ''0''
     \<and> to_lower (sp_gasToken p) = ZERO_ADDRESS \<and> to_lower (sp_refundReceiver p) = ZERO_ADDRESS"

lemma assert_zero_gas_policy_iff: "assert_zero_gas_policy p ctx = Inr () \<longleftrightarrow> zero_gas p"
  by (auto simp: assert_zero_gas_policy_def zero_gas_def offending_fields_def)

lemma default_params_zero_gas: "zero_gas (default_safe_tx_params n)"
  by (simp add: zero_gas_def default_safe_tx_params_def ZERO_ADDRESS_def) code_simp

section \<open>Hashing, signing and encoding\<close>

definition safe_tx_typed_data ::
  "abi_lib \<Rightarrow> proposed_tx \<Rightarrow> ('a safe_tx_params_scheme) \<Rightarrow> address \<Rightarrow> int \<Rightarrow> safe_typed_data outcome" where
  "safe_tx_typed_data lib inner p safe chainId =
     await (al_getAddress lib safe) (\<lambda>vc.
     await (al_getAddress lib (pt_to inner)) (\<lambda>dst.
     await (big_int (pt_value inner)) (\<lambda>v.
     await (big_int (sp_safeTxGas p)) (\<lambda>sg.
     await (big_int (sp_baseGas p)) (\<lambda>bg.
     await (big_int (sp_gasPrice p)) (\<lambda>gp.
     await (al_getAddress lib (sp_gasToken p)) (\<lambda>gt.
     await (al_getAddress lib (sp_refundReceiver p)) (\<lambda>rr.
       Inr \<lparr>td_chainId = chainId, td_verifyingContract = vc, td_to = dst, td_value = v,
            td_data = pt_data inner, td_operation = sp_operation p, td_safeTxGas = sg, td_baseGas = bg,
            td_gasPrice = gp, td_gasToken = gt, td_refundReceiver = rr, td_nonce = sp_safeNonce p\<rparr>))))))))"

definition compute_safe_tx_hash ::
  "abi_lib \<Rightarrow> proposed_tx \<Rightarrow> ('a safe_tx_params_scheme) \<Rightarrow> address \<Rightarrow> int \<Rightarrow> hex outcome" where
  "compute_safe_tx_hash lib inner p safe chainId =
     await (safe_tx_typed_data lib inner p safe chainId) (al_hashTypedData lib)"

definition build_safe_execution ::
  "abi_lib \<Rightarrow> proposed_tx \<Rightarrow> address \<Rightarrow> int \<Rightarrow> int \<Rightarrow> string \<Rightarrow> safe_execution outcome" where
  "build_safe_execution lib inner safe chainId safeNonce version =
     (let p = default_safe_tx_params safeNonce in
      await (compute_safe_tx_hash lib inner p safe chainId) (\<lambda>h.
        Inr (safe_tx_params.extend p (safe_execution.fields version h))))"

text \<open>Owner signatures in ascending order of the owner. One signature needs no comparison, so its
  owner is not checked; with several, one malformed owner fails the call. For equal owners the
  comparator is inconsistent and the order is the engine's: here the sort is stable.\<close>

definition encode_safe_signatures :: "abi_lib \<Rightarrow> (address \<times> hex) list \<Rightarrow> hex outcome" where
  "encode_safe_signatures lib sigs =
     (if length sigs \<le> 1 then Inr (al_concatHex lib (map snd sigs))
      else await (await_all (\<lambda>s. await (al_getAddress lib (fst s)) (\<lambda>o'. Inr (to_lower o', snd s))) sigs) (\<lambda>keyed.
        Inr (al_concatHex lib (map snd (sort_key fst keyed)))))"

definition encode_exec_transaction ::
  "abi_lib \<Rightarrow> proposed_tx \<Rightarrow> ('a safe_tx_params_scheme) \<Rightarrow> hex \<Rightarrow> hex outcome" where
  "encode_exec_transaction lib inner p signatures =
     await (al_getAddress lib (pt_to inner)) (\<lambda>dst.
     await (big_int (pt_value inner)) (\<lambda>v.
     await (big_int (sp_safeTxGas p)) (\<lambda>sg.
     await (big_int (sp_baseGas p)) (\<lambda>bg.
     await (big_int (sp_gasPrice p)) (\<lambda>gp.
     await (al_getAddress lib (sp_gasToken p)) (\<lambda>gt.
     await (al_getAddress lib (sp_refundReceiver p)) (\<lambda>rr.
       al_encodeExec lib \<lparr>xa_to = dst, xa_value = v, xa_data = pt_data inner, xa_operation = sp_operation p,
         xa_safeTxGas = sg, xa_baseGas = bg, xa_gasPrice = gp, xa_gasToken = gt, xa_refundReceiver = rr,
         xa_signatures = signatures\<rparr>)))))))"

record decoded_exec =
  dx_to :: address
  dx_value :: string
  dx_data :: hex
  dx_params :: safe_tx_params
  dx_signatures :: hex

definition decode_exec_transaction :: "abi_lib \<Rightarrow> hex \<Rightarrow> decoded_exec outcome" where
  "decode_exec_transaction lib d =
     await (al_decode lib d) (\<lambda>call. case call of
       OtherCall name \<Rightarrow> Inl (''expected execTransaction calldata, got '' @ name)
     | ExecTransaction a \<Rightarrow>
         await (al_getAddress lib (xa_to a)) (\<lambda>dst.
         await (al_getAddress lib (xa_gasToken a)) (\<lambda>gt.
         await (al_getAddress lib (xa_refundReceiver a)) (\<lambda>rr.
           Inr \<lparr>dx_to = dst, dx_value = show_int (xa_value a), dx_data = xa_data a,
             dx_params = \<lparr>sp_safeNonce = -1, sp_operation = xa_operation a,
               sp_safeTxGas = show_int (xa_safeTxGas a), sp_baseGas = show_int (xa_baseGas a),
               sp_gasPrice = show_int (xa_gasPrice a), sp_gasToken = gt, sp_refundReceiver = rr\<rparr>,
             dx_signatures = xa_signatures a\<rparr>))))"

section \<open>Laws of the codec\<close>

lemma encode_exec_transactionE:
  assumes "encode_exec_transaction lib inner p sigs = Inr d"
  obtains dst v sg bg gp gt rr where
    "al_getAddress lib (pt_to inner) = Inr dst" "big_int (pt_value inner) = Inr v"
    "big_int (sp_safeTxGas p) = Inr sg" "big_int (sp_baseGas p) = Inr bg" "big_int (sp_gasPrice p) = Inr gp"
    "al_getAddress lib (sp_gasToken p) = Inr gt" "al_getAddress lib (sp_refundReceiver p) = Inr rr"
    "al_encodeExec lib \<lparr>xa_to = dst, xa_value = v, xa_data = pt_data inner, xa_operation = sp_operation p,
       xa_safeTxGas = sg, xa_baseGas = bg, xa_gasPrice = gp, xa_gasToken = gt, xa_refundReceiver = rr,
       xa_signatures = sigs\<rparr> = Inr d"
  using assms unfolding encode_exec_transaction_def by (auto simp: await_eq_Inr)

lemma decode_encode_exec:
  assumes "abi_laws lib" "encode_exec_transaction lib inner p sigs = Inr d"
  obtains dst v sg bg gp gt rr where
    "al_getAddress lib (pt_to inner) = Inr dst" "big_int (pt_value inner) = Inr v"
    "big_int (sp_safeTxGas p) = Inr sg" "big_int (sp_baseGas p) = Inr bg" "big_int (sp_gasPrice p) = Inr gp"
    "al_getAddress lib (sp_gasToken p) = Inr gt" "al_getAddress lib (sp_refundReceiver p) = Inr rr"
    "decode_exec_transaction lib d = Inr \<lparr>dx_to = dst, dx_value = show_int v, dx_data = to_lower (pt_data inner),
       dx_params = \<lparr>sp_safeNonce = -1, sp_operation = sp_operation p, sp_safeTxGas = show_int sg,
         sp_baseGas = show_int bg, sp_gasPrice = show_int gp, sp_gasToken = gt, sp_refundReceiver = rr\<rparr>,
       dx_signatures = to_lower sigs\<rparr>"
  using assms(2)
proof (rule encode_exec_transactionE)
  fix dst v sg bg gp gt rr
  let ?x = "\<lparr>xa_to = dst, xa_value = v, xa_data = pt_data inner, xa_operation = sp_operation p,
       xa_safeTxGas = sg, xa_baseGas = bg, xa_gasPrice = gp, xa_gasToken = gt, xa_refundReceiver = rr,
       xa_signatures = sigs\<rparr>"
  assume ok: "al_getAddress lib (pt_to inner) = Inr dst" "big_int (pt_value inner) = Inr v"
    "big_int (sp_safeTxGas p) = Inr sg" "big_int (sp_baseGas p) = Inr bg" "big_int (sp_gasPrice p) = Inr gp"
    "al_getAddress lib (sp_gasToken p) = Inr gt" "al_getAddress lib (sp_refundReceiver p) = Inr rr"
    and enc: "al_encodeExec lib ?x = Inr d"
  note c = abi_lawsD(2) [OF assms(1) ok(1)] abi_lawsD(2) [OF assms(1) ok(6)] abi_lawsD(2) [OF assms(1) ok(7)]
  have "al_decode lib d = Inr (ExecTransaction
      (?x\<lparr>xa_data := to_lower (pt_data inner), xa_signatures := to_lower sigs\<rparr>))"
    using abi_lawsD(3) [OF assms(1) enc] c by (simp add: checksummed_def)
  then have "decode_exec_transaction lib d = Inr \<lparr>dx_to = dst, dx_value = show_int v,
       dx_data = to_lower (pt_data inner),
       dx_params = \<lparr>sp_safeNonce = -1, sp_operation = sp_operation p, sp_safeTxGas = show_int sg,
         sp_baseGas = show_int bg, sp_gasPrice = show_int gp, sp_gasToken = gt, sp_refundReceiver = rr\<rparr>,
       dx_signatures = to_lower sigs\<rparr>"
    using c by (simp add: decode_exec_transaction_def)
  with ok show thesis by (rule that)
qed

text \<open>C26: decoding an \<open>execTransaction\<close> recovers what was encoded. Whatever inner call, parameters and
  signatures are encoded, decoding the calldata gives the same callee, amount and calldata, the same
  operation, gas and refund fields and the same signatures; only the Safe nonce, which is not in the
  calldata, comes back as the sentinel \<open>-1\<close>.\<close>

theorem exec_transaction_roundtrip:
  assumes "abi_laws lib" "encode_exec_transaction lib inner p sigs = Inr d"
  shows "\<exists>x. decode_exec_transaction lib d = Inr x
    \<and> to_lower (dx_to x) = to_lower (pt_to inner) \<and> big_int (dx_value x) = big_int (pt_value inner)
    \<and> dx_data x = to_lower (pt_data inner) \<and> dx_signatures x = to_lower sigs
    \<and> sp_safeNonce (dx_params x) = -1 \<and> sp_operation (dx_params x) = sp_operation p
    \<and> big_int (sp_safeTxGas (dx_params x)) = big_int (sp_safeTxGas p)
    \<and> big_int (sp_baseGas (dx_params x)) = big_int (sp_baseGas p)
    \<and> big_int (sp_gasPrice (dx_params x)) = big_int (sp_gasPrice p)
    \<and> to_lower (sp_gasToken (dx_params x)) = to_lower (sp_gasToken p)
    \<and> to_lower (sp_refundReceiver (dx_params x)) = to_lower (sp_refundReceiver p)"
  by (rule decode_encode_exec [OF assms]) (auto dest: abi_lawsD(1) [OF assms(1)])

section \<open>A concrete library for the examples\<close>

text \<open>One \<open>execTransaction\<close> call is encodable, addresses are checksummed in lower case and hashes are
  the text they commit to.\<close>

definition ex_inner :: proposed_tx where
  "ex_inner = \<lparr>pt_chainId = 1, pt_to = ''0xC0'', pt_data = ''0xF00d'', pt_value = ''7'', pt_gasLimit = None\<rparr>"

definition ex_exec_args :: exec_args where
  "ex_exec_args = \<lparr>xa_to = ''0xc0'', xa_value = 7, xa_data = ''0xF00d'', xa_operation = 0, xa_safeTxGas = 0,
     xa_baseGas = 0, xa_gasPrice = 0, xa_gasToken = ZERO_ADDRESS, xa_refundReceiver = ZERO_ADDRESS,
     xa_signatures = ''0x51''\<rparr>"

definition ex_lib :: abi_lib where
  "ex_lib = \<lparr>al_getAddress = (\<lambda>a. Inr (to_lower a)),
     al_hashTypedData = (\<lambda>t. Inr (''0xs'' @ show_int (td_nonce t))),
     al_encodeExec = (\<lambda>x. if x = ex_exec_args then Inr ''0x6a76'' else Inl ''not encodable''),
     al_decode = (\<lambda>d. if d = ''0x6a76''
        then Inr (ExecTransaction (ex_exec_args\<lparr>xa_data := ''0xf00d''\<rparr>)) else Inr (OtherCall ''transfer'')),
     al_concatHex = (\<lambda>hs. ''0x'' @ concat (map (drop 2) hs)),
     al_hashAbi = (\<lambda>(v, c, a, d, n, g). Inr (''0xh'' @ a @ d))\<rparr>"

lemma ex_lib_laws: "abi_laws ex_lib"
proof -
  have low: "to_lower ''0xF00d'' = ''0xf00d''" "to_lower ''0x51'' = ''0x51''" by code_simp+
  have "xa_data ex_exec_args = ''0xF00d''" "xa_signatures ex_exec_args = ''0x51''"
    by (simp_all add: ex_exec_args_def)
  then show ?thesis
    by (auto simp: abi_laws_def ex_lib_def checksummed_def low split: if_splits)
qed

theorem exec_transaction_roundtrip_witness:
  "\<exists>x. decode_exec_transaction ex_lib ''0x6a76'' = Inr x \<and> big_int (dx_value x) = Inr 7
    \<and> dx_data x = to_lower ''0xF00d'' \<and> sp_safeNonce (dx_params x) = -1"
proof -
  have "encode_exec_transaction ex_lib ex_inner (default_safe_tx_params 3) ''0x51'' = Inr ''0x6a76''"
    by code_simp
  from exec_transaction_roundtrip [OF ex_lib_laws this] show ?thesis
    by (auto simp: ex_inner_def) code_simp
qed

end
