(* ===== verification/Operator.thy ===== *)
theory Operator
  imports SafeTx StoreProps
begin

text \<open>
  The operator's command line, \<open>services/operator-cli/src\<close>: the commands of \<open>operations.ts\<close> over the
  store, the signer of \<open>signer.ts\<close> and reads of the chain. A command makes its store calls one at a
  time; what every other process does to the store between two of them is a list of calls, as is the
  clock each call reads. What a command asks the signer to put on the wire is part of its result.
\<close>

section \<open>The context of a command\<close>

record exec_log =
  xl_eventName :: string
  xl_txHash :: "hex option"
  xl_transactionHash :: "hex option"

record chain_tx =
  ct_from :: address
  ct_to :: "address option"
  ct_input :: hex
  ct_value :: int

record chain_view =
  cv_safeNonce :: "int outcome"
  cv_blockNumber :: "int outcome"
  cv_logsFrom :: "int \<Rightarrow> exec_log list outcome"
  cv_transaction :: "hex \<Rightarrow> chain_tx outcome"

record operator_signer =
  os_address :: address
  os_buildEnvelope :: "proposed_tx \<Rightarrow> safe_envelope option outcome"
  os_send :: "proposed_tx \<Rightarrow> safe_envelope option \<Rightarrow> hex outcome"

record 'db operator_context =
  oc_store :: "'db store_ops"
  oc_lib :: abi_lib
  oc_signer :: operator_signer
  oc_chain :: chain_view
  oc_executor :: address
  oc_kind :: executor_kind
  oc_chainId :: int

text \<open>What a command meets between its store calls: \<open>oe_others k\<close> is what the rest of the world does to
  the store before the command's call number \<open>k + 1\<close>, \<open>oe_clock k\<close> the time that call reads.\<close>

record op_env =
  oe_others :: "nat \<Rightarrow> (millis \<times> store_op) list"
  oe_clock :: "nat \<Rightarrow> millis"

definition eq_text :: "string \<Rightarrow> string \<Rightarrow> bool" where
  "eq_text a b \<longleftrightarrow> to_lower a = to_lower b"

fun status_word :: "intent_status \<Rightarrow> string" where
  "status_word Proposed = ''proposed''"
| "status_word Claimed = ''claimed''"
| "status_word Pending = ''pending''"
| "status_word Submitted = ''submitted''"
| "status_word Confirmed = ''confirmed''"
| "status_word Failed = ''failed''"
| "status_word Superseded = ''superseded''"
| "status_word Expired = ''expired''"

definition load_intent :: "'db operator_context \<Rightarrow> string \<Rightarrow> 'db \<Rightarrow> tx_intent outcome" where
  "load_intent ctx i db = (case so_lookup (oc_store ctx) db i of
     None \<Rightarrow> Inl (''no intent with id '' @ i) | Some row \<Rightarrow> Inr row)"

section \<open>Checks on a stored proposal\<close>

definition verify_proposal :: "'db operator_context \<Rightarrow> tx_intent \<Rightarrow> (proposed_tx \<times> hex) outcome" where
  "verify_proposal ctx row =
     (case (ti_payload row, ti_payloadHash row) of
        (Some payload, Some h) \<Rightarrow>
          if h = '''' then Inl (''intent '' @ ti_id row @ '' is not a MANUAL proposal (no payload to sign)'')
          else await (hash_payload (oc_lib ctx) payload) (\<lambda>recomputed.
            if recomputed \<noteq> h
            then Inl (''payload hash mismatch for '' @ ti_id row @ '': stored '' @ h @ '', recomputed ''
                   @ recomputed @ '' -- refusing (tampered record?)'')
            else if pt_chainId payload \<noteq> oc_chainId ctx
            then Inl (''chain mismatch for '' @ ti_id row @ '': payload chainId '' @ show_int (pt_chainId payload)
                   @ '' != configured '' @ show_int (oc_chainId ctx))
            else Inr (payload, h))
      | _ \<Rightarrow> Inl (''intent '' @ ti_id row @ '' is not a MANUAL proposal (no payload to sign)''))"

definition assert_signer_is_executor :: "'db operator_context \<Rightarrow> unit outcome" where
  "assert_signer_is_executor ctx =
     (if \<not> eq_text (os_address (oc_signer ctx)) (oc_executor ctx)
      then Inl (''signer '' @ os_address (oc_signer ctx) @ '' does not match MANUAL_EXECUTOR_ADDRESS ''
             @ oc_executor ctx)
      else Inr ())"

definition assert_safe_envelope_intact ::
  "'db operator_context \<Rightarrow> string \<Rightarrow> proposed_tx \<Rightarrow> safe_envelope \<Rightarrow> unit outcome" where
  "assert_safe_envelope_intact ctx i payload envelope =
     await (assert_zero_gas_policy envelope (''intent '' @ i)) (\<lambda>_.
     await (compute_safe_tx_hash (oc_lib ctx) payload envelope (oc_executor ctx) (oc_chainId ctx)) (\<lambda>recomputed.
       if recomputed \<noteq> se_safeTxHash envelope
       then Inl (''recomputed safeTxHash '' @ recomputed @ '' != persisted '' @ se_safeTxHash envelope
              @ '' for '' @ i @ '' -- refusing (tampered envelope?)'')
       else Inr ()))"

definition is_envelope_next ::
  "'db operator_context \<Rightarrow> string \<Rightarrow> safe_envelope \<Rightarrow> bool outcome" where
  "is_envelope_next ctx i envelope =
     await (cv_safeNonce (oc_chain ctx)) (\<lambda>live.
       if live < sp_safeNonce envelope
       then Inl (''Safe nonce for '' @ i @ '' is ahead of the chain: the envelope reserved ''
              @ show_int (sp_safeNonce envelope) @ '', the Safe is at '' @ show_int live
              @ '' -- refusing to show a hash to sign. A Safe nonce only goes up, so this envelope was changed after the claim.'')
       else Inr (live = sp_safeNonce envelope))"

section \<open>Did this SafeTx execute?\<close>

text \<open>\<open>findSafeExecutionByHash\<close> of \<open>packages/chain/src/queries.ts\<close>.\<close>

definition SAFE_SCAN_REORG_MARGIN_BLOCKS :: int where
  "SAFE_SCAN_REORG_MARGIN_BLOCKS = 12"

record safe_execution_found =
  sx_txHash :: hex
  sx_success :: bool

fun scan_executions :: "hex \<Rightarrow> exec_log list \<Rightarrow> safe_execution_found option" where
  "scan_executions h [] = None"
| "scan_executions h (l # ls) =
     (case (xl_txHash l, xl_transactionHash l) of
        (Some emitted, Some tx) \<Rightarrow>
          if emitted \<noteq> '''' \<and> eq_text emitted h \<and> tx \<noteq> ''''
          then Some \<lparr>sx_txHash = tx, sx_success = (xl_eventName l = ''ExecutionSuccess'')\<rparr>
          else scan_executions h ls
      | _ \<Rightarrow> scan_executions h ls)"

definition safe_scan_from :: "int \<Rightarrow> int \<Rightarrow> int" where
  "safe_scan_from anchor head =
     (let bounded = (if anchor > head then head else anchor)
      in if bounded > SAFE_SCAN_REORG_MARGIN_BLOCKS then bounded - SAFE_SCAN_REORG_MARGIN_BLOCKS else 0)"

definition find_safe_execution_by_hash ::
  "chain_view \<Rightarrow> hex \<Rightarrow> int \<Rightarrow> safe_execution_found option outcome" where
  "find_safe_execution_by_hash chain h anchor =
     await (cv_blockNumber chain) (\<lambda>head.
     await (cv_logsFrom chain (safe_scan_from anchor head)) (\<lambda>logs.
       Inr (scan_executions h logs)))"

section \<open>What a claim reserves\<close>

datatype retained = Live | Dead

definition classify_retained_envelope ::
  "'db operator_context \<Rightarrow> string \<Rightarrow> proposed_tx \<Rightarrow> safe_envelope \<Rightarrow> retained outcome" where
  "classify_retained_envelope ctx i payload envelope =
     await (assert_safe_envelope_intact ctx i payload envelope) (\<lambda>_.
     await (cv_safeNonce (oc_chain ctx)) (\<lambda>live.
       if live < sp_safeNonce envelope
       then Inl (''Safe nonce for '' @ i @ '' is ahead of the chain: the envelope reserved ''
              @ show_int (sp_safeNonce envelope) @ '', the Safe is at '' @ show_int live @ '' -- refusing. A Safe nonce only goes up, so this envelope was changed after the claim.'')
       else if live = sp_safeNonce envelope then Inr Live
       else await (find_safe_execution_by_hash (oc_chain ctx) (se_safeTxHash envelope) (en_claimBlock envelope))
         (\<lambda>executed. case executed of
            Some x \<Rightarrow> Inl (''the SafeTx '' @ se_safeTxHash envelope @ '' reserved for '' @ i
              @ '' already executed (tx '' @ sx_txHash x @ '') -- record it with `confirm '' @ i @ '' --tx '' @ sx_txHash x
              @ ''`, not a new claim'')
          | None \<Rightarrow> Inr Dead)))"

definition envelope_for_claim ::
  "'db operator_context \<Rightarrow> string \<Rightarrow> tx_intent \<Rightarrow> proposed_tx \<Rightarrow> safe_envelope option outcome" where
  "envelope_for_claim ctx i row payload =
     (case oc_kind ctx of
        Eoa \<Rightarrow> Inr None
      | SafeCustody \<Rightarrow> (case ti_safeEnvelope row of
          None \<Rightarrow> os_buildEnvelope (oc_signer ctx) payload
        | Some env \<Rightarrow> await (classify_retained_envelope ctx i payload env) (\<lambda>r.
            case r of Live \<Rightarrow> Inr (Some env) | Dead \<Rightarrow> os_buildEnvelope (oc_signer ctx) payload)))"

definition other_live_safe :: "string \<Rightarrow> tx_intent list \<Rightarrow> tx_intent option" where
  "other_live_safe i rows = find (\<lambda>r. ti_id r \<noteq> i \<and> ti_safeEnvelope r \<noteq> None) rows"

text \<open>Two reads of the store, the second after what others do in between.\<close>

definition assert_no_other_live_safe_claim ::
  "'db operator_context \<Rightarrow> string \<Rightarrow> (millis \<times> store_op) list \<Rightarrow> 'db \<Rightarrow> unit outcome" where
  "assert_no_other_live_safe_claim ctx i between db =
     (case oc_kind ctx of
        Eoa \<Rightarrow> Inr ()
      | SafeCustody \<Rightarrow>
          (case other_live_safe i (so_proposals (oc_store ctx) None db
                 @ so_reconcile (oc_store ctx) (store_run (oc_store ctx) between db)) of
             Some r \<Rightarrow> Inl (''another Safe intent ('' @ ti_id r @ '', '' @ status_word (ti_status r) @ '') is already in flight -- v1 handles one Safe SafeTx at a time; confirm/release/fail it first'')
           | None \<Rightarrow> Inr ()))"

section \<open>Commands\<close>

definition list_proposals :: "'db operator_context \<Rightarrow> string option \<Rightarrow> 'db \<Rightarrow> tx_intent list" where
  "list_proposals ctx action db = so_proposals (oc_store ctx) action db"

record proposal_view =
  pv_row :: tx_intent
  pv_payloadHash :: hex
  pv_payload :: proposed_tx
  pv_ageMs :: int
  pv_safeTxHash :: "hex option"
  pv_safeTxHashIsPreview :: "bool option"
  pv_safeNonce :: "int option"
  pv_safeTxIsNext :: "bool option"

definition show_safe_part ::
  "'db operator_context \<Rightarrow> tx_intent \<Rightarrow> proposed_tx \<Rightarrow> (hex option \<times> bool \<times> int option \<times> bool option) outcome" where
  "show_safe_part ctx row payload =
     (case (oc_kind ctx, ti_safeEnvelope row) of
        (Eoa, e) \<Rightarrow> Inr (map_option se_safeTxHash e, False, map_option sp_safeNonce e, None)
      | (SafeCustody, Some e) \<Rightarrow>
          await (assert_safe_envelope_intact ctx (ti_id row) payload e) (\<lambda>_.
          await (is_envelope_next ctx (ti_id row) e) (\<lambda>next'.
            Inr (Some (se_safeTxHash e), False, Some (sp_safeNonce e), Some next')))
      | (SafeCustody, None) \<Rightarrow>
          await (os_buildEnvelope (oc_signer ctx) payload) (\<lambda>preview.
            Inr (map_option se_safeTxHash preview, True, map_option sp_safeNonce preview, None)))"

definition show_proposal :: "'db operator_context \<Rightarrow> millis \<Rightarrow> string \<Rightarrow> 'db \<Rightarrow> proposal_view outcome" where
  "show_proposal ctx now i db =
     await (load_intent ctx i db) (\<lambda>row.
     await (verify_proposal ctx row) (\<lambda>(payload, h).
     await (show_safe_part ctx row payload) (\<lambda>(safeTxHash, preview, nonce, next').
       Inr \<lparr>pv_row = row, pv_payloadHash = h, pv_payload = payload, pv_ageMs = now - ti_updatedAt row,
         pv_safeTxHash = safeTxHash,
         pv_safeTxHashIsPreview = (if safeTxHash \<in> {None, Some ''''} then None else Some preview),
         pv_safeNonce = nonce, pv_safeTxIsNext = next'\<rparr>)))"

text \<open>The part \<open>claim\<close> and \<open>broadcast\<close> share, from the loaded row to the envelope: the refusal of a
  second live SafeTx reads the store twice, after \<open>oe_others 1\<close> and \<open>oe_others 2\<close>. The state returned
  is the one the claim itself will meet, after \<open>oe_others 3\<close>.\<close>

definition at_claim :: "'db operator_context \<Rightarrow> op_env \<Rightarrow> 'db \<Rightarrow> 'db" where
  "at_claim ctx env db = store_run (oc_store ctx) (oe_others env 1 @ oe_others env 2 @ oe_others env 3) db"

definition reserve_envelope ::
  "'db operator_context \<Rightarrow> op_env \<Rightarrow> string \<Rightarrow> tx_intent \<Rightarrow> proposed_tx \<Rightarrow> 'db \<Rightarrow> safe_envelope option outcome" where
  "reserve_envelope ctx env i row payload db =
     await (assert_no_other_live_safe_claim ctx i (oe_others env 2)
              (store_run (oc_store ctx) (oe_others env 1) db)) (\<lambda>_.
       envelope_for_claim ctx i row payload)"

definition claim_command ::
  "'db operator_context \<Rightarrow> op_env \<Rightarrow> string \<Rightarrow> 'db \<Rightarrow> (claim_failure + tx_intent) outcome \<times> 'db" where
  "claim_command ctx env i db =
     (case await (load_intent ctx i db) (\<lambda>row.
             await (verify_proposal ctx row) (\<lambda>(payload, h).
             await (assert_signer_is_executor ctx) (\<lambda>_.
             await (reserve_envelope ctx env i row payload db) (\<lambda>envelope. Inr (h, envelope))))) of
        Inl e \<Rightarrow> (Inl e, at_claim ctx env db)
      | Inr (h, envelope) \<Rightarrow>
          (case so_claimProposal (oc_store ctx) (oe_clock env 3) i h envelope (at_claim ctx env db) of
             (ClaimOk row, db') \<Rightarrow> (Inr (Inr row), db')
           | (ClaimRefused reason _, db') \<Rightarrow> (Inr (Inl reason), db')))"

text \<open>\<open>broadcast\<close>, with what it asked the signer to send.\<close>

type_synonym sends = "(proposed_tx \<times> safe_envelope option) list"

definition claim_error :: "string \<Rightarrow> claim_failure \<Rightarrow> string" where
  "claim_error i reason = ''cannot claim '' @ i @ '': '' @ (case reason of
     NotFound \<Rightarrow> ''not-found'' | NotProposed \<Rightarrow> ''not-proposed'' | HashMismatch \<Rightarrow> ''hash-mismatch'')"

definition send_and_record ::
  "'db operator_context \<Rightarrow> op_env \<Rightarrow> string \<Rightarrow> proposed_tx \<Rightarrow> hex \<Rightarrow> tx_intent \<Rightarrow> 'db
     \<Rightarrow> hex outcome \<times> sends \<times> 'db" where
  "send_and_record ctx env i payload h claimed db =
     (let envelope = ti_safeEnvelope claimed; sent = [(payload, envelope)];
          db1 = store_run (oc_store ctx) (oe_others env 4) db in
      case os_send (oc_signer ctx) payload envelope of
        Inl e \<Rightarrow> (Inl e, sent, db1)
      | Inr tx \<Rightarrow>
          (case so_markBroadcast (oc_store ctx) (oe_clock env 4) i tx h db1 of
             (True, db2) \<Rightarrow> (Inr tx, sent, db2)
           | (False, db2) \<Rightarrow> (Inl (''tx '' @ tx @ '' was broadcast for '' @ i
               @ '' but markBroadcast was refused (state changed) -- reconcile with: operator-cli confirm '' @ i @ '' --tx '' @ tx), sent, db2)))"

definition broadcast_command ::
  "'db operator_context \<Rightarrow> op_env \<Rightarrow> string \<Rightarrow> 'db \<Rightarrow> hex outcome \<times> sends \<times> 'db" where
  "broadcast_command ctx env i db =
     (case await (load_intent ctx i db) (\<lambda>row.
             await (verify_proposal ctx row) (\<lambda>(payload, h).
             await (assert_signer_is_executor ctx) (\<lambda>_.
               if ti_status row \<noteq> Proposed
               then Inl (''cannot broadcast '' @ i @ '' in status '' @ status_word (ti_status row)
                 @ '' -- only a fresh proposal may be broadcast (use `confirm --tx` if it was already sent, else `release`)'')
               else await (reserve_envelope ctx env i row payload db) (\<lambda>envelope.
                 Inr (payload, h, envelope))))) of
        Inl e \<Rightarrow> (Inl e, [], at_claim ctx env db)
      | Inr (payload, h, envelope) \<Rightarrow>
          (case so_claimProposal (oc_store ctx) (oe_clock env 3) i h envelope (at_claim ctx env db) of
             (ClaimRefused reason _, db') \<Rightarrow> (Inl (claim_error i reason), [], db')
           | (ClaimOk row, db') \<Rightarrow> send_and_record ctx env i payload h row db'))"

section \<open>Recording a transaction sent elsewhere\<close>

definition verify_eoa_tx :: "'db operator_context \<Rightarrow> proposed_tx \<Rightarrow> chain_tx \<Rightarrow> unit outcome" where
  "verify_eoa_tx ctx payload tx =
     (if \<not> eq_text (ct_from tx) (oc_executor ctx)
      then Inl (''tx.from '' @ ct_from tx @ '' != executor '' @ oc_executor ctx)
      else if (case ct_to tx of None \<Rightarrow> True | Some a \<Rightarrow> a = '''' \<or> \<not> eq_text a (pt_to payload))
      then Inl (''tx.to '' @ or_default (ct_to tx) ''null'' @ '' != payload.to '' @ pt_to payload)
      else if \<not> eq_text (ct_input tx) (pt_data payload)
      then Inl ''tx calldata does not match the proposal payload''
      else await (big_int (pt_value payload)) (\<lambda>v.
        if ct_value tx \<noteq> v then Inl ''tx value does not match the proposal payload'' else Inr ()))"

definition verify_safe_tx ::
  "'db operator_context \<Rightarrow> tx_intent \<Rightarrow> proposed_tx \<Rightarrow> chain_tx \<Rightarrow> unit outcome" where
  "verify_safe_tx ctx row payload tx =
     (if (case ct_to tx of None \<Rightarrow> True | Some a \<Rightarrow> a = '''' \<or> \<not> eq_text a (oc_executor ctx))
      then Inl (''tx.to '' @ or_default (ct_to tx) ''null'' @ '' != Safe '' @ oc_executor ctx)
      else case ti_safeEnvelope row of
        None \<Rightarrow> Inl (''intent '' @ ti_id row @ '' has no Safe envelope -- claim it first'')
      | Some envelope \<Rightarrow>
          await (decode_exec_transaction (oc_lib ctx) (ct_input tx)) (\<lambda>x.
            if \<not> eq_text (dx_to x) (pt_to payload) then Inl ''execTransaction inner `to` != payload''
            else if \<not> eq_text (dx_data x) (pt_data payload) then Inl ''execTransaction inner calldata != payload''
            else if dx_value x \<noteq> pt_value payload then Inl ''execTransaction inner value != payload''
            else await (assert_zero_gas_policy ((dx_params x)\<lparr>sp_safeNonce := sp_safeNonce envelope\<rparr>)
                     (''execTransaction for '' @ ti_id row)) (\<lambda>_.
              assert_safe_envelope_intact ctx (ti_id row) payload envelope)))"

text \<open>\<open>confirm\<close>: \<open>oe_others 1\<close> happens between the load and the record.\<close>

definition confirm_command ::
  "'db operator_context \<Rightarrow> op_env \<Rightarrow> string \<Rightarrow> hex \<Rightarrow> 'db \<Rightarrow> unit outcome \<times> 'db" where
  "confirm_command ctx env i tx db =
     (let db1 = store_run (oc_store ctx) (oe_others env 1) db in
      case await (load_intent ctx i db) (\<lambda>row.
             await (verify_proposal ctx row) (\<lambda>(payload, h).
               if ti_status row \<noteq> Claimed then Inl (''confirm requires a claimed proposal ('' @ i @ '' is '' @ status_word (ti_status row)
                 @ '') -- run `claim '' @ i @ ''` first'')
               else await (cv_transaction (oc_chain ctx) tx) (\<lambda>t.
                 await (case oc_kind ctx of Eoa \<Rightarrow> verify_eoa_tx ctx payload t
                        | SafeCustody \<Rightarrow> verify_safe_tx ctx row payload t) (\<lambda>_. Inr h)))) of
        Inl e \<Rightarrow> (Inl e, db1)
      | Inr h \<Rightarrow>
          (case so_markBroadcast (oc_store ctx) (oe_clock env 1) i tx h db1 of
             (True, db2) \<Rightarrow> (Inr (), db2)
           | (False, db2) \<Rightarrow> (Inl (''markBroadcast refused for '' @ i @ '' in status '' @ status_word Claimed
               @ '' -- claim it first (operator-cli claim '' @ i @ '')''), db2)))"

section \<open>Recovery\<close>

definition assert_not_executed ::
  "'db operator_context \<Rightarrow> string \<Rightarrow> proposed_tx \<Rightarrow> safe_envelope \<Rightarrow> unit outcome" where
  "assert_not_executed ctx i payload envelope =
     await (assert_safe_envelope_intact ctx i payload envelope) (\<lambda>_.
     await (find_safe_execution_by_hash (oc_chain ctx) (se_safeTxHash envelope) (en_claimBlock envelope))
       (\<lambda>executed. case executed of
          Some x \<Rightarrow> Inl (''the SafeTx '' @ se_safeTxHash envelope @ '' already executed (tx '' @ sx_txHash x
              @ '') -- record it with `confirm '' @ i @ '' --tx '' @ sx_txHash x @ ''`, not `release`'')
        | None \<Rightarrow> Inr ()))"

definition release_command :: "'db operator_context \<Rightarrow> op_env \<Rightarrow> string \<Rightarrow> 'db \<Rightarrow> unit outcome \<times> 'db" where
  "release_command ctx env i db =
     (let db1 = store_run (oc_store ctx) (oe_others env 1) db in
      case await (load_intent ctx i db) (\<lambda>row.
             await (verify_proposal ctx row) (\<lambda>(payload, h).
               if ti_status row \<noteq> Claimed then Inl (''only a claimed proposal can be released ('' @ i @ '' is '' @ status_word (ti_status row) @ '')'')
               else await (case (oc_kind ctx, ti_safeEnvelope row) of
                      (SafeCustody, Some e) \<Rightarrow> assert_not_executed ctx i payload e
                    | _ \<Rightarrow> Inr ()) (\<lambda>_. Inr h))) of
        Inl e \<Rightarrow> (Inl e, db1)
      | Inr h \<Rightarrow>
          (case so_release (oc_store ctx) (oe_clock env 1) i h db1 of
             (True, db2) \<Rightarrow> (Inr (), db2)
           | (False, db2) \<Rightarrow> (Inl (''release refused for '' @ i @ '' (state changed)''), db2)))"

definition fail_command ::
  "'db operator_context \<Rightarrow> op_env \<Rightarrow> string \<Rightarrow> string option \<Rightarrow> 'db \<Rightarrow> unit outcome \<times> 'db" where
  "fail_command ctx env i reason db =
     (let db1 = store_run (oc_store ctx) (oe_others env 1) db in
      case await (load_intent ctx i db) (\<lambda>row.
             await (verify_proposal ctx row) (\<lambda>(payload, h).
               case (oc_kind ctx, ti_safeEnvelope row) of
                 (SafeCustody, Some e) \<Rightarrow> await (classify_retained_envelope ctx i payload e) (\<lambda>verdict.
                     case verdict of
                       Live \<Rightarrow> Inl (''cannot fail '' @ i @ '': the SafeTx '' @ se_safeTxHash e
                         @ '' it reserved is still executable at Safe nonce '' @ show_int (sp_safeNonce e)
                         @ ''. If owners signed it, it can execute after this row is gone. Execute it and `confirm`, or consume that nonce (reject it in the Safe UI), then fail.'')
                     | Dead \<Rightarrow> Inr ())
               | _ \<Rightarrow> Inr ())) of
        Inl e \<Rightarrow> (Inl e, db1)
      | Inr _ \<Rightarrow>
          (case so_fail (oc_store ctx) (oe_clock env 1) i
                  (Some (or_default reason ''failed by operator'')) db1 of
             (True, db2) \<Rightarrow> (Inr (), db2)
           | (False, db2) \<Rightarrow> (Inl (''fail refused for '' @ i @ '' (already terminal?)''), db2)))"

section \<open>The signers\<close>

text \<open>\<open>createEoaOperatorSigner\<close> and \<open>createSafeOperatorSigner\<close> of \<open>signer.ts\<close>. The wallet puts a call
  (callee, calldata, amount) on the wire; an owner signs typed data.\<close>

definition eoa_signer :: "address \<Rightarrow> (address \<Rightarrow> hex \<Rightarrow> int \<Rightarrow> hex outcome) \<Rightarrow> operator_signer" where
  "eoa_signer account wallet = \<lparr>os_address = account, os_buildEnvelope = (\<lambda>_. Inr None),
     os_send = (\<lambda>inner _. await (big_int (pt_value inner)) (wallet (pt_to inner) (pt_data inner)))\<rparr>"

record safe_signer_deps =
  sd_safe :: address
  sd_owners :: "(address \<times> (safe_typed_data \<Rightarrow> hex outcome)) list"
  sd_relayer :: "(address \<Rightarrow> hex \<Rightarrow> int \<Rightarrow> hex outcome) option"
  sd_nonce :: "int outcome"
  sd_blockNumber :: "int outcome"
  sd_version :: "string outcome"
  sd_hashOnChain :: "proposed_tx \<Rightarrow> safe_tx_params \<Rightarrow> hex outcome"
  sd_chainId :: int

definition safe_build_envelope :: "abi_lib \<Rightarrow> safe_signer_deps \<Rightarrow> proposed_tx \<Rightarrow> safe_envelope outcome" where
  "safe_build_envelope lib d inner =
     await (sd_nonce d) (\<lambda>n.
     await (sd_blockNumber d) (\<lambda>b.
     (let version = (case sd_version d of Inl _ \<Rightarrow> ''unknown'' | Inr v \<Rightarrow> v) in
      await (build_safe_execution lib inner (sd_safe d) (sd_chainId d) n version) (\<lambda>execution.
      await (big_int (pt_value inner)) (\<lambda>_.
      await (sd_hashOnChain d inner (safe_tx_params.truncate execution)) (\<lambda>onChain.
        if \<not> eq_text onChain (se_safeTxHash execution)
        then Inl (sd_safe d @ '' hashes this SafeTx as '' @ onChain @ '', not '' @ se_safeTxHash execution
          @ '' (reported version '' @ version @ ''). This bot signs the v1.3.0+ EIP-712 domain; a Safe older than that hashes differently, and an envelope recorded under the wrong hash cannot be found again on chain -- which is what stops the same action executing twice. Point MANUAL_EXECUTOR_ADDRESS at a Safe v1.3.0 or later.'')
        else Inr (safe_execution.extend execution (safe_envelope.fields b))))))))"

definition safe_send ::
  "abi_lib \<Rightarrow> safe_signer_deps \<Rightarrow> proposed_tx \<Rightarrow> safe_envelope option \<Rightarrow> hex outcome" where
  "safe_send lib d inner envelope =
     (case envelope of
        None \<Rightarrow> Inl ''safe custody requires a persisted envelope to broadcast''
      | Some env \<Rightarrow> (case (sd_owners d, sd_relayer d) of
          (o' # os, Some wallet) \<Rightarrow>
            await (safe_tx_typed_data lib inner env (sd_safe d) (sd_chainId d)) (\<lambda>td.
            await (await_all (\<lambda>(owner, sign). await (sign td) (\<lambda>sig. Inr (owner, sig))) (o' # os)) (\<lambda>sigs.
            await (encode_safe_signatures lib sigs) (\<lambda>signatures.
            await (encode_exec_transaction lib inner env signatures) (\<lambda>data.
              wallet (sd_safe d) data 0))))
        | _ \<Rightarrow> Inl ''no Safe owner keys configured -- set SAFE_OWNER_KEY_REFS to broadcast, or sign in the Safe UI and use `confirm --tx`''))"

definition safe_signer :: "abi_lib \<Rightarrow> safe_signer_deps \<Rightarrow> operator_signer" where
  "safe_signer lib d = \<lparr>os_address = sd_safe d,
     os_buildEnvelope = (\<lambda>inner. await (safe_build_envelope lib d inner) (\<lambda>e. Inr (Some e))),
     os_send = safe_send lib d\<rparr>"

section \<open>What the checks establish\<close>

definition verified :: "'db operator_context \<Rightarrow> tx_intent \<Rightarrow> proposed_tx \<Rightarrow> hex \<Rightarrow> bool" where
  "verified ctx row p h \<longleftrightarrow> ti_payload row = Some p \<and> ti_payloadHash row = Some h
     \<and> hash_payload (oc_lib ctx) p = Inr h \<and> pt_chainId p = oc_chainId ctx"

lemma verify_proposal_Inr: "verify_proposal ctx row = Inr (p, h) \<longleftrightarrow> verified ctx row p h \<and> h \<noteq> ''''"
  by (auto simp: verify_proposal_def verified_def await_eq_Inr split: option.splits if_splits)

definition envelope_intact :: "'db operator_context \<Rightarrow> proposed_tx \<Rightarrow> safe_envelope \<Rightarrow> bool" where
  "envelope_intact ctx p e \<longleftrightarrow> zero_gas e
     \<and> compute_safe_tx_hash (oc_lib ctx) p e (oc_executor ctx) (oc_chainId ctx) = Inr (se_safeTxHash e)"

lemma assert_safe_envelope_intact_Inr:
  "assert_safe_envelope_intact ctx i p e = Inr u \<longleftrightarrow> envelope_intact ctx p e"
  by (auto simp: assert_safe_envelope_intact_def envelope_intact_def await_eq_Inr assert_zero_gas_policy_iff)

definition executed_log :: "hex \<Rightarrow> exec_log \<Rightarrow> bool" where
  "executed_log h l \<longleftrightarrow> (case (xl_txHash l, xl_transactionHash l) of
     (Some emitted, Some tx) \<Rightarrow> emitted \<noteq> '''' \<and> eq_text emitted h \<and> tx \<noteq> '''' | _ \<Rightarrow> False)"

lemma scan_executions_None: "scan_executions h logs = None \<longleftrightarrow> (\<forall>l \<in> set logs. \<not> executed_log h l)"
  by (induction h logs rule: scan_executions.induct)
    (auto simp: executed_log_def split: option.splits if_splits)

text \<open>The chain shows no execution of the envelope's SafeTx from a dozen blocks below the claim on; and
  the Safe's nonce has left it behind, so it can never execute again.\<close>

definition unexecuted :: "'db operator_context \<Rightarrow> safe_envelope \<Rightarrow> bool" where
  "unexecuted ctx e \<longleftrightarrow> (case cv_blockNumber (oc_chain ctx) of Inl _ \<Rightarrow> False | Inr head \<Rightarrow>
     (case cv_logsFrom (oc_chain ctx) (safe_scan_from (en_claimBlock e) head) of Inl _ \<Rightarrow> False
      | Inr logs \<Rightarrow> list_all (\<lambda>l. \<not> executed_log (se_safeTxHash e) l) logs))"

definition spent_unused :: "'db operator_context \<Rightarrow> safe_envelope \<Rightarrow> bool" where
  "spent_unused ctx e \<longleftrightarrow> unexecuted ctx e
     \<and> (case cv_safeNonce (oc_chain ctx) of Inl _ \<Rightarrow> False | Inr live \<Rightarrow> sp_safeNonce e < live)"

definition still_next :: "'db operator_context \<Rightarrow> safe_envelope \<Rightarrow> bool" where
  "still_next ctx e \<longleftrightarrow> cv_safeNonce (oc_chain ctx) = Inr (sp_safeNonce e)"

lemma find_safe_execution_none:
  "find_safe_execution_by_hash (oc_chain ctx) (se_safeTxHash e) (en_claimBlock e) = Inr None
     \<longleftrightarrow> unexecuted ctx e"
  by (simp add: find_safe_execution_by_hash_def unexecuted_def await_def scan_executions_None list_all_iff
      split: sum.split)

lemma classify_retained_envelope_Inr:
  assumes "classify_retained_envelope ctx i p e = Inr r"
  shows "envelope_intact ctx p e \<and> (case r of Live \<Rightarrow> still_next ctx e | Dead \<Rightarrow> spent_unused ctx e)"
  using assms
  by (auto simp: classify_retained_envelope_def await_eq_Inr assert_safe_envelope_intact_Inr still_next_def
      spent_unused_def find_safe_execution_none split: if_splits option.splits)

lemma assert_not_executed_Inr:
  "assert_not_executed ctx i p e = Inr u \<longleftrightarrow> envelope_intact ctx p e \<and> unexecuted ctx e"
  by (auto simp: assert_not_executed_def await_eq_Inr assert_safe_envelope_intact_Inr
      find_safe_execution_none [symmetric] split: option.splits)

text \<open>The wiring of \<open>index.ts\<close>: a Safe's context signs with the Safe itself on the configured chain.\<close>

definition safe_wired :: "'db operator_context \<Rightarrow> bool" where
  "safe_wired ctx \<longleftrightarrow> (case oc_kind ctx of Eoa \<Rightarrow> True | SafeCustody \<Rightarrow>
     (\<exists>d. oc_signer ctx = safe_signer (oc_lib ctx) d \<and> sd_safe d = oc_executor ctx \<and> sd_chainId d = oc_chainId ctx))"

lemma zero_gas_cong:
  "zero_gas (safe_execution.extend x m) = zero_gas x"
  "zero_gas (safe_tx_params.extend y m') = zero_gas y"
  by (simp_all add: zero_gas_def safe_execution.defs safe_tx_params.defs)

lemma typed_data_cong:
  "safe_tx_typed_data lib p (safe_execution.extend x m) safe c = safe_tx_typed_data lib p x safe c"
  "safe_tx_typed_data lib p (safe_tx_params.extend y m') safe c = safe_tx_typed_data lib p y safe c"
  by (simp_all add: safe_tx_typed_data_def safe_execution.defs safe_tx_params.defs)

lemma safe_build_envelope_intact:
  assumes "safe_build_envelope (oc_lib ctx) d p = Inr e"
    and "sd_safe d = oc_executor ctx" "sd_chainId d = oc_chainId ctx"
  shows "envelope_intact ctx p e"
proof -
  obtain n b x where x: "build_safe_execution (oc_lib ctx) p (sd_safe d) (sd_chainId d) n
      (case sd_version d of Inl _ \<Rightarrow> ''unknown'' | Inr v \<Rightarrow> v) = Inr x"
    and e: "e = safe_execution.extend x (safe_envelope.fields b)"
    using assms(1) by (auto simp: safe_build_envelope_def Let_def await_eq_Inr split: if_splits)
  obtain v h where h: "compute_safe_tx_hash (oc_lib ctx) p (default_safe_tx_params n) (sd_safe d) (sd_chainId d) = Inr h"
    and xd: "x = safe_tx_params.extend (default_safe_tx_params n) (safe_execution.fields v h)"
    using x by (auto simp: build_safe_execution_def Let_def await_eq_Inr)
  have "se_safeTxHash e = h" by (simp add: e xd safe_execution.defs safe_tx_params.defs)
  then show ?thesis
    using h assms(2,3) default_params_zero_gas [of n]
    by (simp add: envelope_intact_def e zero_gas_cong compute_safe_tx_hash_def typed_data_cong)
      (simp add: xd zero_gas_cong typed_data_cong)
qed

lemma not_Live [simp]: "x \<noteq> Live \<longleftrightarrow> x = Dead"
  by (cases x) auto

lemma envelope_for_claim_Inr:
  assumes "envelope_for_claim ctx i row p = Inr r"
  shows "oc_kind ctx = SafeCustody \<Longrightarrow> ti_safeEnvelope row = Some e \<Longrightarrow>
      envelope_intact ctx p e \<and> (r = Some e \<and> still_next ctx e \<or> spent_unused ctx e)"
    and "oc_kind ctx = SafeCustody \<Longrightarrow> safe_wired ctx \<Longrightarrow> \<exists>e. r = Some e \<and> envelope_intact ctx p e"
    and "oc_kind ctx = Eoa \<Longrightarrow> r = None"
  using assms
  by (auto simp: envelope_for_claim_def await_eq_Inr safe_wired_def safe_signer_def
      dest!: classify_retained_envelope_Inr safe_build_envelope_intact
      split: option.splits retained.splits executor_kind.splits)

section \<open>The claim as a lease\<close>

text \<open>The calls that can take a claimed or broadcast row back: a release, a failure, a transition.\<close>

fun frees :: "string \<Rightarrow> store_op \<Rightarrow> bool" where
  "frees k (DoRelease i h) = (i = k)"
| "frees k (DoFail i e) = (i = k)"
| "frees k (DoTransition i to m e) = (i = k)"
| "frees k _ = False"

lemma leased_row_run:
  assumes "ti_status r \<in> {Claimed, Submitted}" "list_all (\<lambda>(now, op). \<not> frees k op) cs"
  shows "\<exists>r'. row_run stored cs k (Some r) = Some r' \<and> ti_status r' \<in> {Claimed, Submitted}"
  using assms
proof (induction cs arbitrary: r)
  case (Cons c cs)
  obtain now op where c: "c = (now, op)" by force
  have "\<exists>r'. row_effect stored now op k (Some r) = Some r' \<and> ti_status r' \<in> {Claimed, Submitted}"
    using Cons.prems unfolding c
    by (cases op) (auto simp: revive_def is_live_def status_sets sweeps_def)
  with Cons c show ?case by fastforce
qed simp

context intent_table begin

lemma claim_ok:
  assumes "wf db" "so_claimProposal ops now k h e db = (ClaimOk r, db')"
  obtains r0 where "so_lookup ops db k = Some r0" "ti_status r0 = Proposed" "ti_payloadHash r0 = Some h"
    "r = r0\<lparr>ti_status := Claimed, ti_safeEnvelope := e, ti_updatedAt := now\<rparr>" "so_lookup ops db' k = Some r"
proof -
  have a: "fst (store_apply ops now (DoClaim k h e) db) = ResClaim (ClaimOk r)"
    and d: "snd (store_apply ops now (DoClaim k h e) db) = db'" using assms(2) by simp_all
  obtain r0 where r0: "so_lookup ops db k = Some r0" "ti_status r0 = Proposed" "ti_payloadHash r0 = Some h"
    "r = r0\<lparr>ti_status := Claimed, ti_safeEnvelope := e, ti_updatedAt := now\<rparr>"
    using apply_result [OF assms(1), of now "DoClaim k h e"] a
    by (auto split: option.splits if_splits)
  have "so_lookup ops db' k = Some r"
    using apply_effect [OF assms(1), of now "DoClaim k h e" k] r0 unfolding d by simp
  with r0 that show thesis by blast
qed

lemma claim_taken:
  assumes "wf db" "so_lookup ops db k = Some r" "ti_status r \<noteq> Proposed"
  shows "\<exists>c. fst (so_claimProposal ops now k h e db) = ClaimRefused NotProposed c"
  using apply_result [OF assms(1), of now "DoClaim k h e"] assms(2,3) by (simp add: split_beta)

lemma leased_kept:
  assumes "wf db" "so_claimProposal ops now k h e db = (ClaimOk r, db')"
    and "list_all (\<lambda>(now, op). \<not> frees k op) cs"
  shows "\<exists>r'. so_lookup ops (store_run ops cs db') k = Some r' \<and> ti_status r' \<noteq> Proposed"
proof -
  obtain r0 where "r = r0\<lparr>ti_status := Claimed, ti_safeEnvelope := e, ti_updatedAt := now\<rparr>"
    "so_lookup ops db' k = Some r"
    using claim_ok [OF assms(1,2)] by metis
  moreover have "wf db'" using wf_apply [OF assms(1), of now "DoClaim k h e"] assms(2) by simp
  ultimately show ?thesis
    using leased_row_run [OF _ assms(3), of r] by (fastforce simp: run_lookup)
qed

lemma mark_ok:
  assumes "wf db" "so_markBroadcast ops now k tx h db = (True, db')"
  obtains r0 where "so_lookup ops db k = Some r0" "ti_status r0 = Claimed" "ti_payloadHash r0 = Some h"
    "so_lookup ops db' k = Some (r0\<lparr>ti_status := Submitted, ti_txHash := Some tx, ti_updatedAt := now\<rparr>)"
proof -
  have a: "fst (store_apply ops now (DoMark k tx h) db) = ResBool True"
    and d: "snd (store_apply ops now (DoMark k tx h) db) = db'" using assms(2) by simp_all
  obtain r0 where r0: "so_lookup ops db k = Some r0" "ti_status r0 = Claimed" "ti_payloadHash r0 = Some h"
    "ti_txHash r0 = None"
    using apply_result [OF assms(1), of now "DoMark k tx h"] a by (auto split: option.splits)
  have "so_lookup ops db' k = Some (r0\<lparr>ti_status := Submitted, ti_txHash := Some tx, ti_updatedAt := now\<rparr>)"
    using apply_effect [OF assms(1), of now "DoMark k tx h" k] r0 unfolding d by simp
  with r0 that show thesis by blast
qed

end

section \<open>Properties of the commands\<close>

lemma send_and_record_sent: "fst (snd (send_and_record ctx env i p h r db)) = [(p, ti_safeEnvelope r)]"
  by (simp add: send_and_record_def Let_def split: sum.split prod.split bool.split)

lemma broadcast_sentE:
  assumes "broadcast_command ctx env i db = (res, sent, db')" "sent \<noteq> []"
  obtains row p h e r dbc where
    "so_lookup (oc_store ctx) db i = Some row" "verified ctx row p h" "ti_status row = Proposed"
    "eq_text (os_address (oc_signer ctx)) (oc_executor ctx)" "envelope_for_claim ctx i row p = Inr e"
    "so_claimProposal (oc_store ctx) (oe_clock env 3) i h e (at_claim ctx env db) = (ClaimOk r, dbc)"
    "sent = [(p, ti_safeEnvelope r)]"
proof -
  let ?pre = "await (load_intent ctx i db) (\<lambda>row.
             await (verify_proposal ctx row) (\<lambda>(payload, h).
             await (assert_signer_is_executor ctx) (\<lambda>_.
               if ti_status row \<noteq> Proposed
               then Inl (''cannot broadcast '' @ i @ '' in status '' @ status_word (ti_status row)
                 @ '' -- only a fresh proposal may be broadcast (use `confirm --tx` if it was already sent, else `release`)'')
               else await (reserve_envelope ctx env i row payload db) (\<lambda>envelope.
                 Inr (payload, h, envelope)))))"
  obtain p h e where pre: "?pre = Inr (p, h, e)"
    using assms unfolding broadcast_command_def by (cases ?pre) auto
  obtain row where row: "load_intent ctx i db = Inr row" "verify_proposal ctx row = Inr (p, h)"
    "assert_signer_is_executor ctx = Inr ()" "ti_status row = Proposed"
    "reserve_envelope ctx env i row p db = Inr e"
    using pre by (auto simp: await_eq_Inr split: if_splits)
  obtain r dbc where c: "so_claimProposal (oc_store ctx) (oe_clock env 3) i h e (at_claim ctx env db) = (ClaimOk r, dbc)"
    "send_and_record ctx env i p h r dbc = (res, sent, db')"
    using assms pre unfolding broadcast_command_def
    by (auto split: prod.splits claim_result.splits)
  have "sent = [(p, ti_safeEnvelope r)]" using send_and_record_sent [of ctx env i p h r dbc] c(2) by simp
  with c row show thesis
    by (intro that [of row p h e r dbc])
      (auto simp: load_intent_def verify_proposal_Inr assert_signer_is_executor_def reserve_envelope_def
        await_eq_Inr split: option.splits if_splits)
qed

lemma at_claim_wf: "oc_store ctx = pg_ops \<Longrightarrow> pg_wf db \<Longrightarrow> pg_wf (at_claim ctx env db)"
  unfolding at_claim_def by (simp add: pg.run_wf)

text \<open>C24: the operator's key signs only what the bot proposed. Whatever \<open>broadcast\<close> asks the signer to
  send is the payload of the stored row, its content hash recomputed and equal to the stored one, on
  the configured chain, from the identity the proposal was simulated as; at the moment the lease is
  taken the row is still a proposal with that very hash; and in Safe custody it goes out wrapped in
  a zero-refund \<open>CALL\<close> whose recomputed hash is the envelope's.\<close>

theorem broadcast_signs_only_the_proposal:
  assumes "oc_store ctx = pg_ops" "safe_wired ctx" "db = store_run pg_ops before pg_empty"
    and "broadcast_command ctx env i db = (res, sent, db')" "(p, e) \<in> set sent"
  shows "\<exists>row h row'. pg_lookup db i = Some row \<and> verified ctx row p h
    \<and> eq_text (os_address (oc_signer ctx)) (oc_executor ctx)
    \<and> pg_lookup (at_claim ctx env db) i = Some row' \<and> ti_status row' = Proposed \<and> ti_payloadHash row' = Some h
    \<and> (case oc_kind ctx of Eoa \<Rightarrow> e = None | SafeCustody \<Rightarrow> \<exists>x. e = Some x \<and> envelope_intact ctx p x)"
proof -
  have wf: "pg_wf db" unfolding assms(3) by (simp add: pg.run_wf pg_wf_empty)
  obtain row h e0 r dbc where b: "so_lookup (oc_store ctx) db i = Some row" "verified ctx row p h"
    "eq_text (os_address (oc_signer ctx)) (oc_executor ctx)" "envelope_for_claim ctx i row p = Inr e0"
    "so_claimProposal (oc_store ctx) (oe_clock env 3) i h e0 (at_claim ctx env db) = (ClaimOk r, dbc)"
    "e = ti_safeEnvelope r"
  proof (rule broadcast_sentE [OF assms(4)])
    show "sent \<noteq> []" using assms(5) by auto
  qed (use assms(5) that in auto)
  obtain r0 where r0: "pg_lookup (at_claim ctx env db) i = Some r0" "ti_status r0 = Proposed"
    "ti_payloadHash r0 = Some h" "r = r0\<lparr>ti_status := Claimed, ti_safeEnvelope := e0, ti_updatedAt := oe_clock env 3\<rparr>"
    using pg.claim_ok [OF at_claim_wf [OF assms(1) wf] b(5) [unfolded assms(1)], unfolded pg_lookup_ops]
    by blast
  have "case oc_kind ctx of Eoa \<Rightarrow> e = None | SafeCustody \<Rightarrow> \<exists>x. e = Some x \<and> envelope_intact ctx p x"
    using envelope_for_claim_Inr(2,3) [OF b(4)] assms(2) r0(4) b(6) by (cases "oc_kind ctx") auto
  with b r0 assms(1) show ?thesis
    by (intro exI [of _ row] exI [of _ h] exI [of _ r0]) (simp add: pg_lookup_ops)
qed

text \<open>The claim is the broadcast lease. Once any operator's claim of a row has won, no other
  operator's broadcast of that row sends anything, whether it starts afterwards or was already
  between its reads and its own claim, until someone releases, fails or moves the row.\<close>

theorem broadcast_lease:
  assumes "oc_store ctx = pg_ops"
    and "before @ oe_others env 1 @ oe_others env 2 @ oe_others env 3 = xs @ (t, DoClaim i h e) # ys"
    and "fst (store_apply pg_ops t (DoClaim i h e) (store_run pg_ops xs pg_empty)) = ResClaim (ClaimOk r)"
    and "list_all (\<lambda>(now, op). \<not> frees i op) ys"
    and "broadcast_command ctx env i (store_run pg_ops before pg_empty) = (res, sent, db')"
  shows "sent = []"
proof (rule ccontr)
  let ?db = "store_run pg_ops before pg_empty" and ?dx = "store_run pg_ops xs pg_empty"
  have at: "at_claim ctx env ?db = store_run pg_ops ys (snd (store_apply pg_ops t (DoClaim i h e) ?dx))"
    using arg_cong [OF assms(2), of "\<lambda>l. store_run pg_ops l pg_empty"] assms(1)
    by (simp add: at_claim_def del: store_apply.simps)
  assume "sent \<noteq> []"
  then obtain h' e' r' dbc where
    mine: "so_claimProposal (oc_store ctx) (oe_clock env 3) i h' e' (at_claim ctx env ?db) = (ClaimOk r', dbc)"
    by (rule broadcast_sentE [OF assms(5)])
  have wx: "pg_wf ?dx" by (simp add: pg.run_wf pg_wf_empty)
  have win: "so_claimProposal pg_ops t i h e ?dx = (ClaimOk r, snd (store_apply pg_ops t (DoClaim i h e) ?dx))"
    using assms(3) by (auto simp: split_beta prod_eq_iff)
  obtain r1 where taken: "so_lookup pg_ops (at_claim ctx env ?db) i = Some r1" "ti_status r1 \<noteq> Proposed"
    using pg.leased_kept [OF wx win assms(4)] unfolding at by blast
  have "pg_wf (at_claim ctx env ?db)"
    unfolding at by (intro pg.run_wf pg.wf_apply wx)
  from pg.claim_taken [OF this taken, of "oe_clock env 3" h' e'] mine assms(1) show False
    by simp
qed

definition matches_eoa :: "'db operator_context \<Rightarrow> proposed_tx \<Rightarrow> chain_tx \<Rightarrow> bool" where
  "matches_eoa ctx p t \<longleftrightarrow> eq_text (ct_from t) (oc_executor ctx)
     \<and> (case ct_to t of None \<Rightarrow> False | Some a \<Rightarrow> eq_text a (pt_to p))
     \<and> eq_text (ct_input t) (pt_data p) \<and> big_int (pt_value p) = Inr (ct_value t)"

definition matches_safe :: "'db operator_context \<Rightarrow> tx_intent \<Rightarrow> proposed_tx \<Rightarrow> chain_tx \<Rightarrow> bool" where
  "matches_safe ctx row p t \<longleftrightarrow>
     (case ct_to t of None \<Rightarrow> False | Some a \<Rightarrow> eq_text a (oc_executor ctx))
     \<and> (case ti_safeEnvelope row of None \<Rightarrow> False | Some e \<Rightarrow> envelope_intact ctx p e)
     \<and> (case decode_exec_transaction (oc_lib ctx) (ct_input t) of Inl _ \<Rightarrow> False
        | Inr x \<Rightarrow> eq_text (dx_to x) (pt_to p) \<and> eq_text (dx_data x) (pt_data p) \<and> dx_value x = pt_value p
            \<and> zero_gas (dx_params x))"

lemma zero_gas_nonce [simp]: "zero_gas (x\<lparr>sp_safeNonce := n\<rparr>) = zero_gas x"
  by (simp add: zero_gas_def)

lemma verify_eoa_tx_ok: "verify_eoa_tx ctx p t = Inr u \<Longrightarrow> matches_eoa ctx p t"
  by (auto simp: verify_eoa_tx_def matches_eoa_def await_eq_Inr split: if_splits option.splits)

lemma verify_safe_tx_ok: "verify_safe_tx ctx row p t = Inr u \<Longrightarrow> matches_safe ctx row p t"
  by (auto simp: verify_safe_tx_def matches_safe_def await_eq_Inr assert_zero_gas_policy_iff
      assert_safe_envelope_intact_Inr split: if_splits option.splits)

lemma confirm_okE:
  assumes "confirm_command ctx env i tx db = (Inr u, db')"
  obtains row p h t where
    "so_lookup (oc_store ctx) db i = Some row" "verified ctx row p h" "ti_status row = Claimed"
    "cv_transaction (oc_chain ctx) tx = Inr t"
    "case oc_kind ctx of Eoa \<Rightarrow> matches_eoa ctx p t | SafeCustody \<Rightarrow> matches_safe ctx row p t"
    "so_markBroadcast (oc_store ctx) (oe_clock env 1) i tx h
       (store_run (oc_store ctx) (oe_others env 1) db) = (True, db')"
  using assms that
  by (fastforce simp: confirm_command_def Let_def load_intent_def verify_proposal_Inr await_eq_Inr
      split: sum.splits prod.splits bool.splits option.splits if_splits executor_kind.splits
      dest: verify_eoa_tx_ok verify_safe_tx_ok)

text \<open>A reported transaction is recorded only if the chain shows it to be the claimed proposal. After
  a \<open>confirm\<close> that succeeds, the transaction fetched under the reported hash is the executor calling
  the proposed callee with the proposed calldata and amount (or, in Safe custody, the Safe executing
  that inner call with zeroed gas and refund fields, the stored envelope being intact), the row was a
  claim when loaded and when written, and it is now submitted under that hash.\<close>

theorem confirm_records_the_proposal:
  assumes "oc_store ctx = pg_ops" "db = store_run pg_ops before pg_empty"
    and "confirm_command ctx env i tx db = (Inr (), db')"
  shows "\<exists>row p h t row' row''. pg_lookup db i = Some row \<and> ti_status row = Claimed \<and> verified ctx row p h
    \<and> cv_transaction (oc_chain ctx) tx = Inr t
    \<and> (case oc_kind ctx of Eoa \<Rightarrow> matches_eoa ctx p t | SafeCustody \<Rightarrow> matches_safe ctx row p t)
    \<and> pg_lookup (store_run pg_ops (oe_others env 1) db) i = Some row' \<and> ti_status row' = Claimed
    \<and> pg_lookup db' i = Some row'' \<and> ti_status row'' = Submitted \<and> ti_txHash row'' = Some tx
    \<and> ti_payloadHash row'' = Some h"
proof -
  have wf: "pg_wf (store_run pg_ops (oe_others env 1) db)"
    unfolding assms(2) by (intro pg.run_wf pg_wf_empty)
  obtain row p h t where c: "pg_lookup db i = Some row" "verified ctx row p h" "ti_status row = Claimed"
    "cv_transaction (oc_chain ctx) tx = Inr t"
    "case oc_kind ctx of Eoa \<Rightarrow> matches_eoa ctx p t | SafeCustody \<Rightarrow> matches_safe ctx row p t"
    and m: "so_markBroadcast pg_ops (oe_clock env 1) i tx h (store_run pg_ops (oe_others env 1) db) = (True, db')"
    using confirm_okE [OF assms(3), unfolded assms(1) pg_lookup_ops] by blast
  obtain r0 where r0: "pg_lookup (store_run pg_ops (oe_others env 1) db) i = Some r0" "ti_status r0 = Claimed"
    "ti_payloadHash r0 = Some h"
    "pg_lookup db' i = Some (r0\<lparr>ti_status := Submitted, ti_txHash := Some tx, ti_updatedAt := oe_clock env 1\<rparr>)"
    using pg.mark_ok [OF wf m, unfolded pg_lookup_ops] by blast
  show ?thesis
    using c r0 by (intro exI [of _ row] exI [of _ p] exI [of _ h] exI [of _ t] exI [of _ r0]
        exI [of _ "r0\<lparr>ti_status := Submitted, ti_txHash := Some tx, ti_updatedAt := oe_clock env 1\<rparr>"]) simp
qed

lemma execution_verifies:
  assumes "abi_laws (oc_lib ctx)" "ti_safeEnvelope row = Some e" "envelope_intact ctx p e"
    and "pt_value p = show_int v"
    and "encode_exec_transaction (oc_lib ctx) p e sigs = Inr d"
    and "ct_to t = Some to'" "to' \<noteq> ''''" "eq_text to' (oc_executor ctx)" "ct_input t = d"
  shows "verify_safe_tx ctx row p t = Inr ()"
  using assms(1,5)
proof (rule decode_encode_exec)
  fix dst v' sg bg gp gt rr
  assume a: "al_getAddress (oc_lib ctx) (pt_to p) = Inr dst" "big_int (pt_value p) = Inr v'"
    "big_int (sp_safeTxGas e) = Inr sg" "big_int (sp_baseGas e) = Inr bg" "big_int (sp_gasPrice e) = Inr gp"
    "al_getAddress (oc_lib ctx) (sp_gasToken e) = Inr gt" "al_getAddress (oc_lib ctx) (sp_refundReceiver e) = Inr rr"
    and dec: "decode_exec_transaction (oc_lib ctx) d = Inr \<lparr>dx_to = dst, dx_value = show_int v',
       dx_data = to_lower (pt_data p), dx_params = \<lparr>sp_safeNonce = -1, sp_operation = sp_operation e,
         sp_safeTxGas = show_int sg, sp_baseGas = show_int bg, sp_gasPrice = show_int gp, sp_gasToken = gt,
         sp_refundReceiver = rr\<rparr>, dx_signatures = to_lower sigs\<rparr>"
  have z: "zero_gas e" using assms(3) by (simp add: envelope_intact_def)
  have zero: "show_int 0 = ''0''" "big_int ''0'' = Inr 0" by code_simp+
  have n: "v' = v" "sg = 0" "bg = 0" "gp = 0"
    using a(2-5) z assms(4) by (auto simp: zero_gas_def zero)
  have "to_lower gt = ZERO_ADDRESS" "to_lower rr = ZERO_ADDRESS" "to_lower dst = to_lower (pt_to p)"
    using z a(1,6,7) abi_lawsD(1) [OF assms(1)] by (auto simp: zero_gas_def)
  then have pol: "assert_zero_gas_policy \<lparr>sp_safeNonce = sp_safeNonce e, sp_operation = sp_operation e,
         sp_safeTxGas = show_int sg, sp_baseGas = show_int bg, sp_gasPrice = show_int gp, sp_gasToken = gt,
         sp_refundReceiver = rr\<rparr> c = Inr ()" for c
    using z unfolding assert_zero_gas_policy_iff n by (simp add: zero_gas_def zero)
  show ?thesis
    using assms(2-4,6-9) dec n \<open>to_lower dst = to_lower (pt_to p)\<close>
    by (simp add: verify_safe_tx_def eq_text_def pol [unfolded n] assert_safe_envelope_intact_Inr)
qed

text \<open>The operator's own execution is one \<open>confirm\<close> accepts. With a payload whose amount is a plain
  decimal and an intact envelope, the calldata the Safe signer would broadcast for the claim, sent to
  the Safe by anyone, passes the checks: no claim that was executed as fixed is stuck.\<close>

theorem own_execution_confirms:
  assumes "abi_laws (oc_lib ctx)" "ti_safeEnvelope row = Some e" "envelope_intact ctx p e"
    and "pt_value p = show_int v"
    and "encode_exec_transaction (oc_lib ctx) p e sigs = Inr d"
    and "ct_to t = Some to'" "to' \<noteq> ''''" "eq_text to' (oc_executor ctx)" "ct_input t = d"
  shows "verify_safe_tx ctx row p t = Inr ()"
  by (rule execution_verifies [OF assms])

text \<open>C25: a SafeTx that may still execute is never given up. For a row of Safe custody that carries an
  envelope: a new claim reuses the very same SafeTx while the Safe is at its nonce, and reserves
  another only when the Safe's nonce has passed it and no execution of it is on chain; the row is
  failed only in that second case; and a claim is released only if its SafeTx has not executed.\<close>

theorem safe_tx_never_given_up:
  assumes "oc_store ctx = pg_ops" "oc_kind ctx = SafeCustody"
    and "db = store_run pg_ops before pg_empty" "pg_lookup db i = Some row" "ti_safeEnvelope row = Some e"
  shows "(case fst (claim_command ctx env i db) of
       Inr (Inr row') \<Rightarrow> ti_safeEnvelope row' = Some e \<and> still_next ctx e \<or> spent_unused ctx e
     | _ \<Rightarrow> True)
    \<and> (case fst (fail_command ctx env i reason db) of Inr _ \<Rightarrow> spent_unused ctx e | _ \<Rightarrow> True)
    \<and> (case fst (release_command ctx env i db) of Inr _ \<Rightarrow> unexecuted ctx e | _ \<Rightarrow> True)"
proof (intro conjI)
  have wf: "pg_wf db" unfolding assms(3) by (simp add: pg.run_wf pg_wf_empty)
  have load: "load_intent ctx i db = Inr row" using assms(1,4) by (simp add: load_intent_def pg_lookup_ops)
  show "case fst (fail_command ctx env i reason db) of Inr _ \<Rightarrow> spent_unused ctx e | _ \<Rightarrow> True"
    using assms(2,5) load
    by (auto simp: fail_command_def Let_def await_def split: sum.splits prod.splits retained.splits
        dest!: classify_retained_envelope_Inr)
  show "case fst (release_command ctx env i db) of Inr _ \<Rightarrow> unexecuted ctx e | _ \<Rightarrow> True"
    using assms(2,5) load
    by (auto simp: release_command_def Let_def await_def assert_not_executed_Inr
        split: sum.splits prod.splits if_splits)
  show "case fst (claim_command ctx env i db) of
       Inr (Inr row') \<Rightarrow> ti_safeEnvelope row' = Some e \<and> still_next ctx e \<or> spent_unused ctx e | _ \<Rightarrow> True"
  proof (cases "claim_command ctx env i db")
    case (Pair res db')
    show ?thesis
    proof (cases "\<exists>row'. res = Inr (Inr row')")
      case True
      then obtain row' p h r where c: "res = Inr (Inr row')" "envelope_for_claim ctx i row p = Inr r"
        "so_claimProposal pg_ops (oe_clock env 3) i h r (at_claim ctx env db) = (ClaimOk row', db')"
        using Pair load assms(1)
        by (fastforce simp: claim_command_def await_eq_Inr reserve_envelope_def
            split: sum.splits prod.splits claim_result.splits)
      have "ti_safeEnvelope row' = r"
        using pg.claim_ok [OF at_claim_wf [OF assms(1) wf] c(3)] by fastforce
      with envelope_for_claim_Inr(1) [OF c(2) assms(2,5)] c(1) Pair show ?thesis by auto
    qed (auto simp: Pair split: sum.splits)
  qed
qed

section \<open>Examples\<close>

definition ex_deps_safe :: safe_signer_deps where
  "ex_deps_safe = \<lparr>sd_safe = ''0xSafe'', sd_owners = [(''0xo1'', \<lambda>td. Inr ''0x51'')],
     sd_relayer = Some (\<lambda>dst d v. Inr ''0xtx''), sd_nonce = Inr 3, sd_blockNumber = Inr 100,
     sd_version = Inr ''1.3.0'', sd_hashOnChain = (\<lambda>p x. Inr (''0xs'' @ show_int (sp_safeNonce x))),
     sd_chainId = 1\<rparr>"

definition ex_tx :: chain_tx where
  "ex_tx = \<lparr>ct_from = ''0xo1'', ct_to = Some ''0xsafe'', ct_input = ''0x6a76'', ct_value = 0\<rparr>"

definition ex_ctx :: "pg_db operator_context" where
  "ex_ctx = \<lparr>oc_store = pg_ops, oc_lib = ex_lib, oc_signer = safe_signer ex_lib ex_deps_safe,
     oc_chain = \<lparr>cv_safeNonce = Inr 3, cv_blockNumber = Inr 110, cv_logsFrom = (\<lambda>_. Inr []),
       cv_transaction = (\<lambda>_. Inr ex_tx)\<rparr>,
     oc_executor = ''0xSafe'', oc_kind = SafeCustody, oc_chainId = 1\<rparr>"

definition ex_env :: op_env where
  "ex_env = \<lparr>oe_others = (\<lambda>_. []), oe_clock = (\<lambda>n. 20 + int n)\<rparr>"

definition ex_hash :: hex where "ex_hash = ''0xh0xc00xF00d''"

definition ex_reserved :: safe_envelope where
  "ex_reserved = \<lparr>sp_safeNonce = 3, sp_operation = 0, sp_safeTxGas = ''0'', sp_baseGas = ''0'',
     sp_gasPrice = ''0'', sp_gasToken = ZERO_ADDRESS, sp_refundReceiver = ZERO_ADDRESS,
     se_safeVersion = ''1.3.0'', se_safeTxHash = ''0xs3'', en_claimBlock = 100\<rparr>"

lemma ex_ctx_wired: "safe_wired ex_ctx" "oc_store ex_ctx = pg_ops" "oc_kind ex_ctx = SafeCustody"
  by (auto simp: safe_wired_def ex_ctx_def ex_deps_safe_def)

theorem broadcast_signs_only_the_proposal_witness:
  "\<exists>row h. pg_lookup (store_run pg_ops [(1, DoPropose (ex_intent ''0xPos'') ex_inner ex_hash)] pg_empty)
     ex_id = Some row \<and> verified ex_ctx row ex_inner h"
proof -
  let ?db = "store_run pg_ops [(1, DoPropose (ex_intent ''0xPos'') ex_inner ex_hash)] pg_empty"
  have sent: "fst (snd (broadcast_command ex_ctx ex_env ex_id ?db)) = [(ex_inner, Some ex_reserved)]"
    by code_simp
  obtain res db' where "broadcast_command ex_ctx ex_env ex_id ?db = (res, [(ex_inner, Some ex_reserved)], db')"
    using sent by (metis prod.collapse)
  from broadcast_signs_only_the_proposal [OF ex_ctx_wired(2,1) refl this, of ex_inner "Some ex_reserved"]
  show ?thesis by auto
qed

definition ex_proposed :: "(millis \<times> store_op) list" where
  "ex_proposed = [(1, DoPropose (ex_intent ''0xPos'') ex_inner ex_hash)]"

definition ex_claimed :: "(millis \<times> store_op) list" where
  "ex_claimed = ex_proposed @ [(2, DoClaim ex_id ex_hash (Some ex_reserved))]"

lemma ex_claimed_row:
  obtains row where "pg_lookup (store_run pg_ops ex_claimed pg_empty) ex_id = Some row"
    "ti_safeEnvelope row = Some ex_reserved"
proof -
  have "map_option ti_safeEnvelope (pg_lookup (store_run pg_ops ex_claimed pg_empty) ex_id) =
      Some (Some ex_reserved)" by code_simp
  then show thesis by (auto intro: that)
qed

theorem broadcast_lease_witness:
  "fst (snd (broadcast_command ex_ctx
     (ex_env\<lparr>oe_others := (\<lambda>_. [])(1 := [(2, DoClaim ex_id ex_hash (Some ex_reserved))])\<rparr>)
     ex_id (store_run pg_ops ex_proposed pg_empty))) = []"
proof -
  let ?env = "ex_env\<lparr>oe_others := (\<lambda>_. [])(1 := [(2, DoClaim ex_id ex_hash (Some ex_reserved))])\<rparr>"
  let ?db = "store_run pg_ops ex_proposed pg_empty"
  have "case fst (store_apply pg_ops 2 (DoClaim ex_id ex_hash (Some ex_reserved)) ?db) of
      ResClaim (ClaimOk r) \<Rightarrow> True | _ \<Rightarrow> False" by code_simp
  then obtain r where r: "fst (store_apply pg_ops 2 (DoClaim ex_id ex_hash (Some ex_reserved)) ?db) =
      ResClaim (ClaimOk r)" by (auto split: store_result.splits claim_result.splits)
  obtain res sent db' where b: "broadcast_command ex_ctx ?env ex_id ?db = (res, sent, db')"
    by (metis prod.collapse)
  have "sent = []"
    by (rule broadcast_lease [OF ex_ctx_wired(2) _ r _ b, of "[]"]) simp_all
  with b show ?thesis by simp
qed

theorem confirm_records_the_proposal_witness:
  "\<exists>row. pg_lookup (snd (confirm_command ex_ctx ex_env ex_id ''0xtx'' (store_run pg_ops ex_claimed pg_empty)))
     ex_id = Some row \<and> ti_status row = Submitted \<and> ti_txHash row = Some ''0xtx''"
proof -
  let ?c = "confirm_command ex_ctx ex_env ex_id ''0xtx'' (store_run pg_ops ex_claimed pg_empty)"
  have "fst ?c = Inr ()" by code_simp
  then have "?c = (Inr (), snd ?c)" by (metis prod.collapse)
  from confirm_records_the_proposal [OF ex_ctx_wired(2) refl this] show ?thesis by blast
qed

theorem own_execution_confirms_witness:
  "\<exists>row. pg_lookup (store_run pg_ops ex_claimed pg_empty) ex_id = Some row
    \<and> verify_safe_tx ex_ctx row ex_inner ex_tx = Inr ()"
proof -
  obtain row where row: "pg_lookup (store_run pg_ops ex_claimed pg_empty) ex_id = Some row"
    "ti_safeEnvelope row = Some ex_reserved" by (rule ex_claimed_row)
  have lib: "oc_lib ex_ctx = ex_lib" by (simp add: ex_ctx_def)
  have "assert_safe_envelope_intact ex_ctx ex_id ex_inner ex_reserved = Inr ()" by code_simp
  then have intact: "envelope_intact ex_ctx ex_inner ex_reserved" by (simp add: assert_safe_envelope_intact_Inr)
  have enc: "encode_exec_transaction (oc_lib ex_ctx) ex_inner ex_reserved ''0x51'' = Inr ''0x6a76''" by code_simp
  have v: "pt_value ex_inner = show_int 7" by code_simp
  have t: "ct_to ex_tx = Some ''0xsafe''" "ct_input ex_tx = ''0x6a76''" by (simp_all add: ex_tx_def)
  have e: "eq_text ''0xsafe'' (oc_executor ex_ctx)" by code_simp
  have "verify_safe_tx ex_ctx row ex_inner ex_tx = Inr ()"
    by (rule own_execution_confirms [OF _ row(2) intact v enc t(1) _ e t(2)]) (simp_all add: lib ex_lib_laws)
  with row show ?thesis by blast
qed

theorem safe_tx_never_given_up_witness:
  "case fst (claim_command ex_ctx ex_env ex_id
      (store_run pg_ops (ex_claimed @ [(3, DoRelease ex_id ex_hash)]) pg_empty)) of
     Inr (Inr row) \<Rightarrow> ti_safeEnvelope row = Some ex_reserved | _ \<Rightarrow> False"
proof -
  let ?db = "store_run pg_ops (ex_claimed @ [(3, DoRelease ex_id ex_hash)]) pg_empty"
  have "map_option ti_safeEnvelope (pg_lookup ?db ex_id) = Some (Some ex_reserved)" by code_simp
  then obtain row where row: "pg_lookup ?db ex_id = Some row" "ti_safeEnvelope row = Some ex_reserved" by auto
  have ok: "case fst (claim_command ex_ctx ex_env ex_id ?db) of Inr (Inr _) \<Rightarrow> True | _ \<Rightarrow> False"
    by code_simp
  have "\<not> spent_unused ex_ctx ex_reserved"
    by (simp add: spent_unused_def ex_ctx_def ex_reserved_def)
  with ok safe_tx_never_given_up [OF ex_ctx_wired(2,3) refl row, of ex_env None] show ?thesis
    by (auto split: sum.splits)
qed

text \<open>The calldata does not carry the nonce: an execution of the same inner call under any other nonce,
  that is of another SafeTx, passes the very same checks.\<close>

lemma other_nonce_confirms:
  assumes "abi_laws (oc_lib ctx)" "ti_safeEnvelope row = Some e" "envelope_intact ctx p e"
    and "pt_value p = show_int v"
    and "encode_exec_transaction (oc_lib ctx) p (e\<lparr>sp_safeNonce := n\<rparr>) sigs = Inr d"
    and "ct_to t = Some to'" "to' \<noteq> ''''" "eq_text to' (oc_executor ctx)" "ct_input t = d"
  shows "matches_safe ctx row p t"
proof -
  have "encode_exec_transaction (oc_lib ctx) p (e\<lparr>sp_safeNonce := n\<rparr>) sigs =
      encode_exec_transaction (oc_lib ctx) p e sigs"
    by (simp add: encode_exec_transaction_def)
  with assms(5) show ?thesis
    by (intro verify_safe_tx_ok [OF execution_verifies [OF assms(1-4) _ assms(6-9)]]) simp
qed

end
