(* ===== verification/Indexer.thy ===== *)
theory Indexer
  imports Complex_Main RiskGate JsNumbers
begin

text \<open>
  Reading the indexer: the retry policy of \<open>packages/chain/src/retry.ts\<close>, the client of
  \<open>packages/engine/src/shared/indexerClient.ts\<close> with its wait at boot, and the lag guard of
  \<open>shared/indexer.ts\<close> with its settings (\<open>packages/config/src/indexer.ts\<close>). The network, the random
  jitter and the clock are functions of the number of the call. Delays are rationals: the code's
  doubles round them, which the \<open>min\<close> with the maximum is immune to.
\<close>

section \<open>Retrying\<close>

record retry_config =
  ry_maxAttempts :: int
  ry_initialDelayMs :: rat
  ry_maxDelayMs :: rat
  ry_backoffMultiplier :: rat
  ry_timeoutMs :: int

definition DEFAULT_RETRY_CONFIG :: retry_config where
  "DEFAULT_RETRY_CONFIG = \<lparr>ry_maxAttempts = 3, ry_initialDelayMs = 1000, ry_maxDelayMs = 30000,
     ry_backoffMultiplier = 2, ry_timeoutMs = 10000\<rparr>"

definition calculate_delay :: "rat \<Rightarrow> nat \<Rightarrow> retry_config \<Rightarrow> rat" where
  "calculate_delay random attempt cfg =
     (let exponentialDelay = ry_initialDelayMs cfg * ry_backoffMultiplier cfg ^ attempt;
          jitter = random * (3 / 10) * exponentialDelay
      in min (exponentialDelay + jitter) (ry_maxDelayMs cfg))"

text \<open>The loop of \<open>withRetry\<close>: \<open>fn k\<close> is what attempt \<open>k\<close> does. The result comes with the number of
  attempts made and the delays slept. With no attempt allowed the code throws \<open>undefined\<close>: \<open>None\<close>.\<close>

function retry_from ::
  "retry_config \<Rightarrow> (nat \<Rightarrow> 'a outcome) \<Rightarrow> (nat \<Rightarrow> rat) \<Rightarrow> nat \<Rightarrow> string option
     \<Rightarrow> (string option + 'a) \<times> nat \<times> rat list" where
  "retry_from cfg fn random attempt lastError =
     (if int attempt < ry_maxAttempts cfg
      then (case fn attempt of
              Inr x \<Rightarrow> (Inr x, Suc attempt, [])
            | Inl e \<Rightarrow>
                if int attempt = ry_maxAttempts cfg - 1 then (Inl (Some e), Suc attempt, [])
                else let (r, calls, ds) = retry_from cfg fn random (Suc attempt) (Some e)
                     in (r, calls, calculate_delay (random attempt) attempt cfg # ds))
      else (Inl lastError, attempt, []))"
  by pat_completeness auto

termination
  by (relation "measure (\<lambda>(cfg, fn, random, attempt, lastError). nat (ry_maxAttempts cfg - int attempt))") auto

declare retry_from.simps [simp del]

definition with_retry ::
  "retry_config \<Rightarrow> (nat \<Rightarrow> 'a outcome) \<Rightarrow> (nat \<Rightarrow> rat) \<Rightarrow> (string option + 'a) \<times> nat \<times> rat list" where
  "with_retry cfg fn random = retry_from cfg fn random 0 None"

record response =
  rp_status :: int
  rp_statusText :: string
  rp_json :: "string outcome"

definition rp_ok :: "response \<Rightarrow> bool" where
  "rp_ok r \<longleftrightarrow> 200 \<le> rp_status r \<and> rp_status r \<le> 299"

text \<open>\<open>fetch k t\<close>: attempt \<open>k\<close> under a timeout of \<open>t\<close> milliseconds.\<close>

definition fetch_attempt :: "(nat \<Rightarrow> int \<Rightarrow> response outcome) \<Rightarrow> retry_config \<Rightarrow> nat \<Rightarrow> response outcome" where
  "fetch_attempt fetch cfg k = await (fetch k (ry_timeoutMs cfg)) (\<lambda>r.
     if \<not> rp_ok r \<and> rp_status r \<ge> 500
     then Inl (''HTTP '' @ show_int (rp_status r) @ '': '' @ rp_statusText r) else Inr r)"

definition fetch_with_retry ::
  "retry_config \<Rightarrow> (nat \<Rightarrow> int \<Rightarrow> response outcome) \<Rightarrow> (nat \<Rightarrow> rat)
     \<Rightarrow> (string option + response) \<times> nat \<times> rat list" where
  "fetch_with_retry cfg fetch random = with_retry cfg (fetch_attempt fetch cfg) random"

definition error_text :: "string option \<Rightarrow> string" where
  "error_text e = or_default e ''undefined''"

definition fetch_json_with_retry ::
  "string \<Rightarrow> retry_config \<Rightarrow> (nat \<Rightarrow> int \<Rightarrow> response outcome) \<Rightarrow> (nat \<Rightarrow> rat) \<Rightarrow> string outcome" where
  "fetch_json_with_retry url cfg fetch random =
     (case fst (fetch_with_retry cfg fetch random) of
        Inl e \<Rightarrow> Inl (error_text e)
      | Inr r \<Rightarrow> if \<not> rp_ok r
          then Inl (''HTTP '' @ show_int (rp_status r) @ '' '' @ rp_statusText r @ '' from '' @ url)
          else rp_json r)"

section \<open>Waiting for the backfill\<close>

text \<open>What a wait did: the timeouts it probed with, the times it slept, whether it warned.\<close>

record wait_log =
  wl_probes :: "int list"
  wl_rests :: "int list"
  wl_warned :: bool

text \<open>The loop of \<open>waitUntilReady\<close>. The clock is read three times a turn (\<open>clk i\<close> is reading \<open>i\<close>),
  \<open>probe j t\<close> is what probe \<open>j\<close> with timeout \<open>t\<close> answers. A loop that never ends is \<open>None\<close>.\<close>

partial_function (option) wait_from ::
  "int \<Rightarrow> (nat \<Rightarrow> millis) \<Rightarrow> (nat \<Rightarrow> int \<Rightarrow> bool) \<Rightarrow> millis \<Rightarrow> nat \<Rightarrow> wait_log \<Rightarrow> (bool \<times> wait_log) option" where
  "wait_from poll clk probe deadline j lg =
     (if clk (3 * j + 1) < deadline
      then let t = min poll (max 0 (deadline - clk (3 * j + 2)));
               lg1 = lg\<lparr>wl_probes := wl_probes lg @ [t]\<rparr>
           in if probe j t then Some (True, lg1)
              else wait_from poll clk probe deadline (Suc j)
                (lg1\<lparr>wl_warned := True,
                   wl_rests := wl_rests lg @ [min poll (max 0 (deadline - clk (3 * j + 3)))]\<rparr>)
      else Some (False, lg))"

definition wait_until_ready ::
  "int \<Rightarrow> int option \<Rightarrow> (nat \<Rightarrow> millis) \<Rightarrow> (nat \<Rightarrow> int \<Rightarrow> bool) \<Rightarrow> (bool \<times> wait_log) option" where
  "wait_until_ready timeoutMs pollIntervalMs clk probe =
     wait_from (or_default pollIntervalMs 2000) clk probe (clk 0 + timeoutMs) 0
       \<lparr>wl_probes = [], wl_rests = [], wl_warned = False\<rparr>"

section \<open>The lag guard\<close>

record indexer_status =
  is_blockNumber :: int
  is_blockTimestampMs :: millis

text \<open>An entry of the \<open>/status\<close> body; an id that is no number is \<open>None\<close>.\<close>

record ponder_entry =
  pe_id :: "int option"
  pe_number :: int
  pe_timestamp :: int

datatype lag_verdict = LagOk int | Lagging int string | LagUnknown string

definition select_chain_status :: "ponder_entry list \<Rightarrow> int \<Rightarrow> indexer_status option outcome" where
  "select_chain_status body chainId =
     (let matches = filter (\<lambda>e. pe_id e = Some chainId) body in
      if length matches > 1
      then Inl (''indexer /status reports '' @ show_nat (length matches) @ '' entries for chain '' @ show_int chainId)
      else case matches of
        [] \<Rightarrow> Inr None
      | m # _ \<Rightarrow> Inr (Some \<lparr>is_blockNumber = pe_number m, is_blockTimestampMs = pe_timestamp m * 1000\<rparr>))"

definition assess_indexer_lag :: "indexer_status option \<Rightarrow> int \<Rightarrow> int \<Rightarrow> lag_verdict" where
  "assess_indexer_lag status rpcHead maxLagBlocks = (case status of
     None \<Rightarrow> LagUnknown ''indexer reports no progress for this chain''
   | Some s \<Rightarrow>
       let lagBlocks = (if rpcHead > is_blockNumber s then rpcHead - is_blockNumber s else 0) in
       if lagBlocks > maxLagBlocks
       then Lagging lagBlocks (''indexer is '' @ show_int lagBlocks @ '' blocks behind the chain (limit ''
              @ show_int maxLagBlocks @ '')'')
       else LagOk lagBlocks)"

record indexer_config =
  ig_maxLagBlocks :: "int option"
  ig_haltAfterMs :: int
  ig_readyTimeoutMs :: "int option"

record indexer_guard =
  ig_unusableSince :: "millis option"
  ig_halted :: bool

definition fresh_guard :: indexer_guard where
  "fresh_guard = \<lparr>ig_unusableSince = None, ig_halted = False\<rparr>"

definition guard_bad ::
  "indexer_config \<Rightarrow> millis \<Rightarrow> string \<Rightarrow> indexer_guard \<times> gate \<Rightarrow> bool \<times> indexer_guard \<times> gate" where
  "guard_bad cfg atMs reason st = (case st of (s, g) \<Rightarrow>
     let since = or_default (ig_unusableSince s) atMs;
         s1 = s\<lparr>ig_unusableSince := Some since\<rparr>;
         unusableMs = atMs - since
     in if \<not> ig_halted s1 \<and> unusableMs \<ge> ig_haltAfterMs cfg
        then (False, s1\<lparr>ig_halted := True\<rparr>,
              halt (''indexer unusable for '' @ show_int unusableMs @ ''ms: '' @ reason) g)
        else (False, s1, g))"

text \<open>One check: the two reads, and the time \<open>bad\<close> reads.\<close>

record check =
  ck_body :: "ponder_entry list outcome"
  ck_head :: "int outcome"
  ck_at :: millis

definition check_verdict :: "int \<Rightarrow> int \<Rightarrow> check \<Rightarrow> lag_verdict outcome" where
  "check_verdict chainId maxLag c =
     await (ck_body c) (\<lambda>body. await (ck_head c) (\<lambda>head.
       await (select_chain_status body chainId) (\<lambda>status. Inr (assess_indexer_lag status head maxLag))))"

definition indexer_ok ::
  "int \<Rightarrow> indexer_config \<Rightarrow> check \<Rightarrow> indexer_guard \<times> gate \<Rightarrow> bool \<times> indexer_guard \<times> gate" where
  "indexer_ok chainId cfg c st = (case ig_maxLagBlocks cfg of
     None \<Rightarrow> (True, st)
   | Some maxLag \<Rightarrow> (case check_verdict chainId maxLag c of
       Inl e \<Rightarrow> guard_bad cfg (ck_at c) (''could not read indexer status: '' @ e) st
     | Inr (LagUnknown reason) \<Rightarrow> guard_bad cfg (ck_at c) reason st
     | Inr (Lagging lag reason) \<Rightarrow> guard_bad cfg (ck_at c) reason st
     | Inr (LagOk lag) \<Rightarrow> (True, (fst st)\<lparr>ig_unusableSince := None, ig_halted := False\<rparr>, snd st)))"

definition build_indexer_config :: "string option \<Rightarrow> string \<Rightarrow> string option \<Rightarrow> indexer_config outcome" where
  "build_indexer_config maxLag haltMs readyMs =
     await (case maxLag of None \<Rightarrow> Inr None | Some s \<Rightarrow> await (big_int s) (\<lambda>n. Inr (Some n))) (\<lambda>lag.
       Inr \<lparr>ig_maxLagBlocks = lag, ig_haltAfterMs = or_default (parse_int haltMs) 0,
         ig_readyTimeoutMs = (case readyMs of None \<Rightarrow> None | Some s \<Rightarrow> parse_int s)\<rparr>)"

section \<open>Retries are bounded\<close>

lemma delay_capped: "calculate_delay random attempt cfg \<le> ry_maxDelayMs cfg"
  by (simp add: calculate_delay_def Let_def)

lemma retry_from_spec:
  assumes "int attempt < ry_maxAttempts cfg" "retry_from cfg fn random attempt lst = (r, calls, ds)"
  shows "attempt < calls \<and> int calls \<le> ry_maxAttempts cfg \<and> length ds = calls - Suc attempt
    \<and> (\<forall>k. attempt \<le> k \<and> Suc k < calls \<longrightarrow> (\<exists>e. fn k = Inl e))
    \<and> (case fn (calls - 1) of Inr x \<Rightarrow> r = Inr x
       | Inl e \<Rightarrow> r = Inl (Some e) \<and> int calls = ry_maxAttempts cfg)
    \<and> (\<forall>d \<in> set ds. d \<le> ry_maxDelayMs cfg)"
  using assms
proof (induction cfg fn random attempt lst arbitrary: r calls ds rule: retry_from.induct)
  case (1 cfg fn random attempt lst)
  show ?case
  proof (cases "fn attempt")
    case (Inr x)
    then show ?thesis using 1(2,3) by (subst (asm) retry_from.simps) auto
  next
    case (Inl e)
    show ?thesis
    proof (cases "int attempt = ry_maxAttempts cfg - 1")
      case True
      then show ?thesis using 1(2,3) Inl by (subst (asm) retry_from.simps) auto
    next
      case False
      obtain ds' where ds': "retry_from cfg fn random (Suc attempt) (Some e) = (r, calls, ds')"
        "ds = calculate_delay (random attempt) attempt cfg # ds'"
        using 1(2,3) Inl False by (subst (asm) retry_from.simps) (auto split: prod.splits)
      have "int (Suc attempt) < ry_maxAttempts cfg" using False 1(2) by simp
      from 1(1) [OF 1(2) Inl False this ds'(1)] ds'(2) Inl delay_capped show ?thesis
        by (auto simp: le_less_Suc_eq not_less_eq_eq dest: le_imp_less_or_eq)
    qed
  qed
qed

text \<open>A retried call is bounded. It is attempted at least once and at most \<open>maxAttempts\<close> times; every
  attempt before the last failed; its answer is the last attempt's, and an error is thrown only when
  the attempts are used up; it sleeps once between two attempts, never longer than \<open>maxDelayMs\<close>, so in
  all at most \<open>(maxAttempts - 1) * maxDelayMs\<close>.\<close>

theorem retry_bounded:
  assumes "1 \<le> ry_maxAttempts cfg" "0 \<le> ry_maxDelayMs cfg" "with_retry cfg fn random = (r, calls, ds)"
  shows "1 \<le> calls \<and> int calls \<le> ry_maxAttempts cfg \<and> length ds = calls - 1
    \<and> (\<forall>k. Suc k < calls \<longrightarrow> (\<exists>e. fn k = Inl e))
    \<and> (case fn (calls - 1) of Inr x \<Rightarrow> r = Inr x
       | Inl e \<Rightarrow> r = Inl (Some e) \<and> int calls = ry_maxAttempts cfg)
    \<and> sum_list ds \<le> of_int (ry_maxAttempts cfg - 1) * ry_maxDelayMs cfg"
proof -
  note spec = retry_from_spec [OF _ assms(3) [unfolded with_retry_def], simplified]
  have s: "length ds = calls - 1" "1 \<le> calls" "int calls \<le> ry_maxAttempts cfg"
    "\<forall>d \<in> set ds. d \<le> ry_maxDelayMs cfg" using spec assms(1) by auto
  have "sum_list ds \<le> of_nat (length ds) * ry_maxDelayMs cfg"
    using s(4) by (induction ds) (auto simp: algebra_simps)
  also have "\<dots> \<le> of_int (ry_maxAttempts cfg - 1) * ry_maxDelayMs cfg"
  proof (rule mult_right_mono)
    have "int (length ds) \<le> ry_maxAttempts cfg - 1" using s(1-3) by linarith
    then show "(of_nat (length ds) :: rat) \<le> of_int (ry_maxAttempts cfg - 1)"
      by (metis of_int_le_iff of_int_of_nat_eq)
  qed (rule assms(2))
  finally show ?thesis using spec assms(1) by (auto simp: Suc_le_eq)
qed

theorem retry_bounded_witness:
  "sum_list (snd (snd (with_retry DEFAULT_RETRY_CONFIG
      (\<lambda>k. if k < 2 then Inl ''down'' else Inr k) (\<lambda>_. 1 / 2)))) \<le> of_int (3 - 1) * 30000"
proof -
  let ?w = "with_retry DEFAULT_RETRY_CONFIG (\<lambda>k. if k < 2 then Inl ''down'' else Inr k) (\<lambda>_. 1 / 2)"
  obtain r calls ds where w: "?w = (r, calls, ds)" by (rule prod_cases3)
  have "1 \<le> ry_maxAttempts DEFAULT_RETRY_CONFIG" "0 \<le> ry_maxDelayMs DEFAULT_RETRY_CONFIG"
    by (simp_all add: DEFAULT_RETRY_CONFIG_def)
  from retry_bounded [OF this w] show ?thesis by (simp add: w) (simp add: DEFAULT_RETRY_CONFIG_def)
qed

section \<open>The wait at boot ends\<close>

text \<open>A clock that never goes back and on which a sleep lasts as long as asked.\<close>

definition sleeps_honoured :: "int \<Rightarrow> millis \<Rightarrow> (nat \<Rightarrow> millis) \<Rightarrow> bool" where
  "sleeps_honoured poll deadline clk \<longleftrightarrow> (\<forall>i j. i \<le> j \<longrightarrow> clk i \<le> clk j)
     \<and> (\<forall>j. clk (3 * j + 3) + min poll (max 0 (deadline - clk (3 * j + 3))) \<le> clk (3 * j + 4))"

definition in_budget :: "int \<Rightarrow> wait_log \<Rightarrow> bool" where
  "in_budget poll lg \<longleftrightarrow> (\<forall>t \<in> set (wl_probes lg) \<union> set (wl_rests lg). 0 \<le> t \<and> t \<le> poll)"

lemma turn_advances:
  assumes "sleeps_honoured poll deadline clk" "0 \<le> poll"
  shows "min deadline (clk 0 + int j * poll) \<le> clk (3 * j + 1)"
proof (induction j)
  case 0
  have "clk 0 \<le> clk 1" using assms(1) by (simp add: sleeps_honoured_def)
  then show ?case by simp
next
  case (Suc j)
  have m: "clk (3 * j + 1) \<le> clk (3 * j + 3)"
    and s: "clk (3 * j + 3) + min poll (max 0 (deadline - clk (3 * j + 3))) \<le> clk (3 * j + 4)"
    using assms(1) by (simp_all add: sleeps_honoured_def)
  have "3 * Suc j + 1 = 3 * j + 4" by simp
  with Suc m s assms(2) show ?case by (auto simp: min_def max_def algebra_simps split: if_splits)
qed

lemma wait_from_ends:
  assumes "sleeps_honoured poll deadline clk" "0 < poll" "deadline = clk 0 + timeoutMs"
    and "in_budget poll lg" "length (wl_probes lg) = j" "\<forall>k < j. \<not> probe k (wl_probes lg ! k)"
    and "int j * poll < timeoutMs + poll \<or> j = 0"
  shows "\<exists>b lg'. wait_from poll clk probe deadline j lg = Some (b, lg') \<and> in_budget poll lg'
    \<and> (int (length (wl_probes lg')) * poll < timeoutMs + poll \<or> wl_probes lg' = [])
    \<and> (if b then wl_probes lg' \<noteq> [] \<and> probe (length (wl_probes lg') - 1) (hd (rev (wl_probes lg')))
       else deadline \<le> clk (3 * length (wl_probes lg') + 1)
         \<and> (\<forall>k < length (wl_probes lg'). \<not> probe k (wl_probes lg' ! k)))"
  using assms(4-7)
proof (induction "nat (timeoutMs - int j * poll)" arbitrary: j lg rule: less_induct)
  case less
  show ?case
  proof (cases "clk (3 * j + 1) < deadline")
    case False
    then show ?thesis using less.prems by (subst wait_from.simps) (auto split: if_splits)
  next
    case True
    let ?t = "min poll (max 0 (deadline - clk (3 * j + 2)))"
    let ?lg1 = "lg\<lparr>wl_probes := wl_probes lg @ [?t]\<rparr>"
    let ?lg2 = "?lg1\<lparr>wl_warned := True, wl_rests := wl_rests lg @ [min poll (max 0 (deadline - clk (3 * j + 3)))]\<rparr>"
    have j: "int j * poll < timeoutMs"
      using turn_advances [OF assms(1), of j] True assms(2,3) by (auto simp: min_def split: if_splits)
    then have j': "int (Suc j) * poll < timeoutMs + poll" by (simp add: algebra_simps)
    have w1: "in_budget poll ?lg1" "in_budget poll ?lg2"
      using less.prems(1) assms(2) by (auto simp: in_budget_def)
    show ?thesis
    proof (cases "probe j ?t")
      case True': True
      have "int (Suc (length (wl_probes lg))) * poll < timeoutMs + poll" using j' less.prems(2) by simp
      then show ?thesis
        using True True' w1(1) less.prems(2) by (subst wait_from.simps) (auto simp: Let_def)
    next
      case False
      have dec: "nat (timeoutMs - int (Suc j) * poll) < nat (timeoutMs - int j * poll)"
        using j assms(2) by (simp add: algebra_simps)
      have eq: "wait_from poll clk probe deadline j lg = wait_from poll clk probe deadline (Suc j) ?lg2"
        using True False by (subst wait_from.simps) (simp add: Let_def)
      have "\<forall>k < Suc j. \<not> probe k (wl_probes ?lg2 ! k)"
        using False less.prems(2,3) by (auto simp: less_Suc_eq nth_append)
      from less.hyps [OF dec w1(2) _ this] less.prems(2) j' show ?thesis unfolding eq by simp
    qed
  qed
qed

text \<open>C27: waiting for the indexer at boot always ends. On a clock that does not go back, with sleeps that
  last as long as asked, \<open>waitUntilReady\<close> returns after fewer than \<open>timeout / poll + 1\<close> probes; each
  probe and each sleep is within the poll interval; it says ready only if its last probe, under the
  timeout it was given, said so, and gives up only past the deadline with every probe refused.\<close>

theorem boot_wait_ends:
  assumes "sleeps_honoured poll (clk 0 + timeoutMs) clk" "0 < poll"
  shows "\<exists>b lg. wait_until_ready timeoutMs (Some poll) clk probe = Some (b, lg) \<and> in_budget poll lg
    \<and> (int (length (wl_probes lg)) * poll < timeoutMs + poll \<or> wl_probes lg = [])
    \<and> (if b then wl_probes lg \<noteq> [] \<and> probe (length (wl_probes lg) - 1) (hd (rev (wl_probes lg)))
       else clk 0 + timeoutMs \<le> clk (3 * length (wl_probes lg) + 1)
         \<and> list_all (\<lambda>k. \<not> probe k (wl_probes lg ! k)) [0..<length (wl_probes lg)])"
proof -
  let ?lg0 = "\<lparr>wl_probes = [], wl_rests = [], wl_warned = False\<rparr>"
  have l: "list_all P [0..<n] \<longleftrightarrow> (\<forall>k < n. P k)" for P n by (auto simp: list_all_iff)
  have "in_budget poll ?lg0" by (simp add: in_budget_def)
  from wait_from_ends [OF assms refl this, of 0 probe] show ?thesis
    unfolding wait_until_ready_def l by simp
qed

theorem boot_wait_ends_witness:
  "\<exists>b lg. wait_until_ready 10 (Some 4) (\<lambda>i. 4 * int ((i + 2) div 3)) (\<lambda>_ _. False) = Some (b, lg)
    \<and> int (length (wl_probes lg)) * 4 < 10 + 4"
proof -
  have "sleeps_honoured 4 (4 * int ((0 + 2) div 3) + 10) (\<lambda>i. 4 * int ((i + 2) div 3))"
    by (auto simp: sleeps_honoured_def div_le_mono algebra_simps)
  from boot_wait_ends [OF this, of "\<lambda>_ _. False"] show ?thesis by fastforce
qed

section \<open>The guard halts once per streak\<close>

definition trusted :: "int \<Rightarrow> int \<Rightarrow> check \<Rightarrow> bool" where
  "trusted chainId maxLag c \<longleftrightarrow>
     (case (ck_body c, ck_head c) of
        (Inr body, Inr head) \<Rightarrow> (case filter (\<lambda>e. pe_id e = Some chainId) body of
            [e] \<Rightarrow> max 0 (head - pe_number e) \<le> maxLag | _ \<Rightarrow> False)
      | _ \<Rightarrow> False)"

lemma check_verdict_trusted:
  "trusted chainId maxLag c \<longleftrightarrow> (case check_verdict chainId maxLag c of Inr (LagOk _) \<Rightarrow> True | _ \<Rightarrow> False)"
  by (auto simp: trusted_def check_verdict_def await_def select_chain_status_def assess_indexer_lag_def Let_def
      max_def split: sum.splits list.splits)

text \<open>The guard's state after the checks so far, each made with whatever the gate then was.\<close>

fun guard_after :: "int \<Rightarrow> indexer_config \<Rightarrow> (check \<times> gate) list \<Rightarrow> indexer_guard \<Rightarrow> indexer_guard" where
  "guard_after chainId cfg [] s = s"
| "guard_after chainId cfg ((c, g) # cs) s =
     guard_after chainId cfg cs (fst (snd (indexer_ok chainId cfg c (s, g))))"

text \<open>The checks since the last one that trusted the indexer.\<close>

definition streak :: "(check \<Rightarrow> bool) \<Rightarrow> check list \<Rightarrow> check list" where
  "streak good cs = rev (takeWhile (\<lambda>c. \<not> good c) (rev cs))"

definition unusable_for :: "check list \<Rightarrow> check \<Rightarrow> int" where
  "unusable_for bad c = ck_at c - ck_at (hd (bad @ [c]))"

definition crosses :: "int \<Rightarrow> check list \<Rightarrow> check \<Rightarrow> bool" where
  "crosses haltAfter bad c \<longleftrightarrow> haltAfter \<le> unusable_for bad c
     \<and> list_all (\<lambda>c'. ck_at c' - ck_at (hd bad) < haltAfter) bad"

lemma streak_snoc: "streak good (cs @ [c]) = (if good c then [] else streak good cs @ [c])"
  by (simp add: streak_def)

lemma guard_after_append [simp]:
  "guard_after chainId cfg (xs @ ys) s = guard_after chainId cfg ys (guard_after chainId cfg xs s)"
  by (induction chainId cfg xs s rule: guard_after.induct) auto

text \<open>One check against the summary of a streak of bad ones.\<close>

definition describes :: "int \<Rightarrow> check list \<Rightarrow> indexer_guard \<Rightarrow> bool" where
  "describes haltAfter bad s \<longleftrightarrow>
     ig_unusableSince s = (case bad of [] \<Rightarrow> None | c # _ \<Rightarrow> Some (ck_at c))
     \<and> ig_halted s = (\<not> list_all (\<lambda>c'. ck_at c' - ck_at (hd bad) < haltAfter) bad)"

lemma guard_bad_describes:
  assumes "describes (ig_haltAfterMs cfg) bad s"
  shows "guard_bad cfg (ck_at c) reason (s, g) =
     (False, \<lparr>ig_unusableSince = Some (ck_at (hd (bad @ [c]))),
        ig_halted = (ig_halted s \<or> crosses (ig_haltAfterMs cfg) bad c)\<rparr>,
      if crosses (ig_haltAfterMs cfg) bad c
      then halt (''indexer unusable for '' @ show_int (unusable_for bad c) @ ''ms: '' @ reason) g else g)"
  using assms
  by (cases s; cases bad) (auto simp: describes_def guard_bad_def Let_def crosses_def unusable_for_def)

lemma describes_step:
  assumes "describes (ig_haltAfterMs cfg) bad s"
  shows "describes (ig_haltAfterMs cfg) (bad @ [c])
     \<lparr>ig_unusableSince = Some (ck_at (hd (bad @ [c]))), ig_halted = (ig_halted s \<or> crosses (ig_haltAfterMs cfg) bad c)\<rparr>"
  using assms
  by (cases bad) (auto simp: describes_def crosses_def unusable_for_def)

lemma indexer_ok_bad:
  assumes "ig_maxLagBlocks cfg = Some maxLag"
  obtains reason where "indexer_ok chainId cfg c (s, g) =
     (if trusted chainId maxLag c then (True, s\<lparr>ig_unusableSince := None, ig_halted := False\<rparr>, g)
      else guard_bad cfg (ck_at c) reason (s, g))"
proof (cases "check_verdict chainId maxLag c")
  case (Inl e)
  with assms show ?thesis by (intro that) (simp add: indexer_ok_def check_verdict_trusted)
next
  case (Inr v)
  with assms show ?thesis
    by (cases v) (intro that, simp add: indexer_ok_def check_verdict_trusted)+
qed

lemma indexer_ok_cases:
  fixes cfg :: indexer_config
  assumes "describes (ig_haltAfterMs cfg) bad s" "ig_maxLagBlocks cfg = Some maxLag"
  shows "\<exists>reason. indexer_ok chainId cfg c (s, g) =
     (if trusted chainId maxLag c then (True, fresh_guard, g)
      else (False, \<lparr>ig_unusableSince = Some (ck_at (hd (bad @ [c]))),
          ig_halted = (ig_halted s \<or> crosses (ig_haltAfterMs cfg) bad c)\<rparr>,
        if crosses (ig_haltAfterMs cfg) bad c then halt reason g else g))"
  by (rule indexer_ok_bad [OF assms(2), of chainId c s g])
    (auto simp: guard_bad_describes [OF assms(1)] fresh_guard_def)

lemma guard_after_describes:
  assumes "ig_maxLagBlocks cfg = Some maxLag"
  shows "describes (ig_haltAfterMs cfg) (streak (trusted chainId maxLag) (map fst hist))
     (guard_after chainId cfg hist fresh_guard)"
proof (induction hist rule: rev_induct)
  case Nil
  show ?case by (simp add: describes_def streak_def fresh_guard_def)
next
  case (snoc x hist)
  obtain c g where x: "x = (c, g)" by force
  from indexer_ok_cases [OF snoc assms, of chainId c g] describes_step [OF snoc, of c] show ?case
    by (auto simp: x streak_snoc) (simp add: describes_def fresh_guard_def)
qed

text \<open>The lag guard fails closed and halts once per outage. With a lag limit configured, a check lets
  the cycle run only if the status and the head could be read, the status names this chain exactly
  once and the chain is at most the limit ahead. Whatever checks came before and whatever became of
  the gate between them, a check halts the gate exactly if it is the first of the current unbroken run
  of bad checks to come \<open>haltAfterMs\<close> or more after the run began; every other check leaves it alone.\<close>

theorem indexer_guard_halts_once:
  shows "case indexer_ok chainId (cfg\<lparr>ig_maxLagBlocks := Some maxLag\<rparr>) c
      (guard_after chainId (cfg\<lparr>ig_maxLagBlocks := Some maxLag\<rparr>) hist fresh_guard, g) of (ok, s', g') \<Rightarrow>
    (ok \<longleftrightarrow> trusted chainId maxLag c)
    \<and> (if \<not> trusted chainId maxLag c \<and> crosses (ig_haltAfterMs cfg) (streak (trusted chainId maxLag) (map fst hist)) c
       then g_state g' = HALTED else g' = g)"
proof -
  let ?cfg = "cfg\<lparr>ig_maxLagBlocks := Some maxLag\<rparr>"
  have m: "ig_maxLagBlocks ?cfg = Some maxLag" by simp
  have h: "g_state (halt r g) = HALTED" for r
    by (simp add: halt_def halt_with_def emit_def Let_def)
  obtain reason where eq: "indexer_ok chainId ?cfg c (guard_after chainId ?cfg hist fresh_guard, g) =
     (if trusted chainId maxLag c then (True, fresh_guard, g)
      else (False, \<lparr>ig_unusableSince = Some (ck_at (hd (streak (trusted chainId maxLag) (map fst hist) @ [c]))),
          ig_halted = (ig_halted (guard_after chainId ?cfg hist fresh_guard)
            \<or> crosses (ig_haltAfterMs ?cfg) (streak (trusted chainId maxLag) (map fst hist)) c)\<rparr>,
        if crosses (ig_haltAfterMs ?cfg) (streak (trusted chainId maxLag) (map fst hist)) c
        then halt reason g else g))"
    using indexer_ok_cases [OF guard_after_describes [OF m, of chainId hist] m] by blast
  show ?thesis unfolding eq by (simp add: h)
qed

end
