(* ===== verification/Config.thy ===== *)
theory Config
  imports RiskGate SafeTx
begin

text \<open>
  Reading the environment, \<open>packages/config/src\<close>: the field schemas of \<open>schemas.ts\<close>, the risk settings
  of \<open>risk.ts\<close> and the runtime settings of \<open>runtime.ts\<close>. The environment is a map from names to text; a
  schema is a predicate on text, as a value is kept as text until its builder reads it. The schema
  library collects every issue before the process exits; here a parse fails with the first. The
  origin of a URL is the platform's, and an argument.
\<close>

section \<open>Field schemas\<close>

type_synonym env = "string \<Rightarrow> string option"

definition is_hex_char :: "char \<Rightarrow> bool" where
  "is_hex_char c \<longleftrightarrow> c \<in> set ''0123456789abcdefABCDEF''"

definition hex_of_length :: "nat \<Rightarrow> string \<Rightarrow> bool" where
  "hex_of_length n s \<longleftrightarrow> length s = n + 2 \<and> take 2 s = ''0x'' \<and> list_all is_hex_char (drop 2 s)"

definition address_schema :: "string \<Rightarrow> bool" where
  "address_schema = hex_of_length 40"

definition bytes32_schema :: "string \<Rightarrow> bool" where
  "bytes32_schema = hex_of_length 64"

definition DIGITS :: "string \<Rightarrow> bool" where
  "DIGITS s \<longleftrightarrow> s \<noteq> [] \<and> list_all is_digit_char s"

definition MAX_SAFE :: int where
  "MAX_SAFE = 9007199254740991"

definition fits_in_number :: "string \<Rightarrow> bool" where
  "fits_in_number v \<longleftrightarrow> \<not> DIGITS v \<or> digits_value v \<le> MAX_SAFE"

text \<open>\<open>Number.parseInt(v, 10)\<close> of a value a schema has admitted, so never \<open>NaN\<close>.\<close>

definition number_of :: "string \<Rightarrow> int" where
  "number_of v = or_default (parse_int v) 0"

definition positive_int_schema :: "string \<Rightarrow> bool" where
  "positive_int_schema v \<longleftrightarrow> DIGITS v \<and> fits_in_number v \<and> number_of v > 0"

definition non_negative_int_schema :: "string \<Rightarrow> bool" where
  "non_negative_int_schema v \<longleftrightarrow> DIGITS v \<and> fits_in_number v"

definition int_in_range_schema :: "int \<Rightarrow> int \<Rightarrow> string \<Rightarrow> bool" where
  "int_in_range_schema lo hi v \<longleftrightarrow> DIGITS v
     \<and> (if \<not> fits_in_number v then False else lo \<le> number_of v \<and> number_of v \<le> hi)"

definition port_schema :: "string \<Rightarrow> bool" where
  "port_schema = int_in_range_schema 1 65535"

definition positive_big_int_schema :: "string \<Rightarrow> bool" where
  "positive_big_int_schema v \<longleftrightarrow> DIGITS v \<and> digits_value v > 0"

definition non_negative_big_int_schema :: "string \<Rightarrow> bool" where
  "non_negative_big_int_schema = DIGITS"

definition bps_schema :: "string \<Rightarrow> bool" where
  "bps_schema = int_in_range_schema 0 10000"

definition one_of :: "string list \<Rightarrow> string \<Rightarrow> bool" where
  "one_of choices v \<longleftrightarrow> v \<in> set choices"

definition nonempty_schema :: "string \<Rightarrow> bool" where
  "nonempty_schema v \<longleftrightarrow> v \<noteq> []"

text \<open>\<open>split\<close> at every occurrence of a character.\<close>

fun split_at :: "char \<Rightarrow> string \<Rightarrow> string list" where
  "split_at c [] = [[]]"
| "split_at c (x # xs) =
     (if x = c then [] # split_at c xs
      else case split_at c xs of y # ys \<Rightarrow> (x # y) # ys | [] \<Rightarrow> [[x]])"

definition address_list_schema :: "string \<Rightarrow> string list outcome" where
  "address_list_schema s =
     (let as = filter (\<lambda>a. a \<noteq> []) (map trim (split_at (CHR '','') s))
      in if list_all address_schema as then Inr as else Inl ''must be a 0x-prefixed 20-byte hex address'')"

text \<open>\<open>parseEnv\<close>: an empty variable counts as unset, then each field is its schema's.\<close>

definition cleaned :: "env \<Rightarrow> env" where
  "cleaned env k = (case env k of None \<Rightarrow> None | Some v \<Rightarrow> if v = [] then None else Some v)"

definition required :: "(string \<Rightarrow> bool) \<Rightarrow> env \<Rightarrow> string \<Rightarrow> string outcome" where
  "required schema env k = (case cleaned env k of
     None \<Rightarrow> Inl (k @ '': Required'') | Some v \<Rightarrow> if schema v then Inr v else Inl (k @ '': Invalid''))"

definition optional :: "(string \<Rightarrow> bool) \<Rightarrow> env \<Rightarrow> string \<Rightarrow> string option outcome" where
  "optional schema env k = (case cleaned env k of
     None \<Rightarrow> Inr None | Some v \<Rightarrow> if schema v then Inr (Some v) else Inl (k @ '': Invalid''))"

definition defaulted :: "(string \<Rightarrow> bool) \<Rightarrow> string \<Rightarrow> env \<Rightarrow> string \<Rightarrow> string outcome" where
  "defaulted schema d env k = await (optional schema env k) (\<lambda>v. Inr (or_default v d))"

section \<open>Risk settings\<close>

definition code_hash_schema :: "string \<Rightarrow> bool" where
  "code_hash_schema = hex_of_length 64"

fun code_hash_entries :: "string list \<Rightarrow> (string \<times> string) list outcome" where
  "code_hash_entries [] = Inr []"
| "code_hash_entries (pair # rest) =
     (if pair = [] then code_hash_entries rest
      else if CHR ''='' \<notin> set pair then Inl (pair @ '' must be address=hash'')
      else await (code_hash_entries rest) (\<lambda>es.
        Inr ((trim (takeWhile (\<lambda>c. c \<noteq> CHR ''='') pair), trim (tl (dropWhile (\<lambda>c. c \<noteq> CHR ''='') pair))) # es)))"

text \<open>\<open>Object.fromEntries\<close>: a repeated key keeps its place and takes the last value.\<close>

definition from_entries :: "(string \<times> string) list \<Rightarrow> (string \<times> string) list" where
  "from_entries es = fold (\<lambda>(k, v) m. alist_set k v m) es []"

definition code_hash_map_schema :: "string \<Rightarrow> (address \<times> hex) list outcome" where
  "code_hash_map_schema raw =
     await (code_hash_entries (map trim (split_at (CHR '','') raw))) (\<lambda>entries.
       if entries = [] then Inl ''is set but names no contract -- it must list at least one address=hash pair, or be unset''
       else let m = from_entries entries in
         if list_all (\<lambda>(a, h). address_schema a \<and> code_hash_schema h) m then Inr m
         else Inl ''must be a 0x-prefixed 32-byte hash'')"

record risk_env =
  re_maxConsecutiveFailures :: "string option"
  re_minProfit :: "string option"
  re_maxDataStalenessMs :: "string option"
  re_maxInFlight :: "string option"
  re_startHalted :: "string option"
  re_expectedCodeHashes :: "(address \<times> hex) list option"
  re_codeCheckIntervalMs :: string
  re_controlTokenRef :: "string option"
  re_controlPort :: string
  re_controlHost :: string

definition parse_risk_env :: "env \<Rightarrow> risk_env outcome" where
  "parse_risk_env env =
     await (optional positive_int_schema env ''RISK_MAX_CONSECUTIVE_FAILURES'') (\<lambda>failures.
     await (optional non_negative_big_int_schema env ''RISK_MIN_PROFIT'') (\<lambda>profit.
     await (optional positive_int_schema env ''RISK_MAX_DATA_STALENESS_MS'') (\<lambda>staleness.
     await (optional positive_int_schema env ''RISK_MAX_IN_FLIGHT'') (\<lambda>inFlight.
     await (optional (one_of [''true'', ''false'']) env ''RISK_START_HALTED'') (\<lambda>halted.
     await (case cleaned env ''RISK_EXPECTED_CODE_HASHES'' of None \<Rightarrow> Inr None
            | Some raw \<Rightarrow> await (code_hash_map_schema raw) (\<lambda>m. Inr (Some m))) (\<lambda>hashes.
     await (defaulted positive_int_schema ''300000'' env ''RISK_CODE_CHECK_INTERVAL_MS'') (\<lambda>interval.
     await (optional nonempty_schema env ''RISK_CONTROL_TOKEN_REF'') (\<lambda>tokenRef.
     await (defaulted port_schema ''9095'' env ''RISK_CONTROL_PORT'') (\<lambda>port.
     await (defaulted nonempty_schema ''127.0.0.1'' env ''RISK_CONTROL_HOST'') (\<lambda>host.
       Inr \<lparr>re_maxConsecutiveFailures = failures, re_minProfit = profit, re_maxDataStalenessMs = staleness,
         re_maxInFlight = inFlight, re_startHalted = halted, re_expectedCodeHashes = hashes,
         re_codeCheckIntervalMs = interval, re_controlTokenRef = tokenRef, re_controlPort = port,
         re_controlHost = host\<rparr>))))))))))"

record risk_settings =
  rs_risk :: risk_config
  rs_codeCheckIntervalMs :: int
  rs_controlTokenRef :: "string option"
  rs_controlPort :: int
  rs_controlHost :: string

definition build_risk_config :: "risk_env \<Rightarrow> risk_settings outcome" where
  "build_risk_config env =
     (let startHalted = (re_startHalted env = Some ''true'') in
      if startHalted \<and> or_default (re_controlTokenRef env) [] = []
      then Inl ''RISK_START_HALTED=true requires RISK_CONTROL_TOKEN_REF: without the kill-switch endpoint the bot boots HALTED on every restart and can never be resumed.''
      else await (case re_minProfit env of None \<Rightarrow> Inr None | Some s \<Rightarrow> await (big_int s) (\<lambda>n. Inr (Some n))) (\<lambda>minProfit.
        Inr \<lparr>rs_risk = \<lparr>rc_maxConsecutiveFailures = map_option (nat \<circ> number_of) (re_maxConsecutiveFailures env),
               rc_minProfit = minProfit,
               rc_maxDataStalenessMs = map_option number_of (re_maxDataStalenessMs env),
               rc_maxInFlight = map_option number_of (re_maxInFlight env),
               rc_expectedCodeHashes = re_expectedCodeHashes env, rc_startHalted = startHalted\<rparr>,
             rs_codeCheckIntervalMs = number_of (re_codeCheckIntervalMs env),
             rs_controlTokenRef = re_controlTokenRef env,
             rs_controlPort = number_of (re_controlPort env), rs_controlHost = re_controlHost env\<rparr>))"

definition assert_profit_floor_enforceable :: "risk_settings \<Rightarrow> bool \<Rightarrow> unit outcome" where
  "assert_profit_floor_enforceable settings unpriced =
     (if rc_minProfit (rs_risk settings) = None \<or> \<not> unpriced then Inr ()
      else Inl ''RISK_MIN_PROFIT is set but this process runs an inventory-funded liquidation engine, which cannot supply an expected profit -- the floor would apply to arbitrage only and leave every liquidation ungated. Unset RISK_MIN_PROFIT, switch the liquidation engine to flash funding (LIQUIDATION_FUNDING=flash), or run without the liquidation engine (arbitrageur: unset ADAPTER_ADDRESS + LENS_ADDRESS).'')"

section \<open>Runtime settings\<close>

definition MAX_HORIZON_BLOCKS :: int where "MAX_HORIZON_BLOCKS = 7200"

definition PROTECT_STATUS_URL :: string where "PROTECT_STATUS_URL = ''https://protect.flashbots.net''"

definition PROTECT_HORIZON_BLOCKS :: int where "PROTECT_HORIZON_BLOCKS = 25"

definition MAX_RELAY_TIMEOUT_MS :: int where "MAX_RELAY_TIMEOUT_MS = 120000"

record runtime_env =
  ev_SECRETS_PROVIDER :: string
  ev_SIGNER_SOURCE :: string
  ev_SIGNER_KEY_REF :: "string option"
  ev_KMS_KEY_ID :: "string option"
  ev_SIGNER_ADDRESS :: "string option"
  ev_AWS_REGION :: "string option"
  ev_SUBMITTER :: string
  ev_FLASHBOTS_PROTECT_URL :: "string option"
  ev_FLASHBOTS_STATUS_URL :: string
  ev_PRIVATE_MIN_PRIORITY_FEE_WEI :: "string option"
  ev_PRIVATE_RELAY_HORIZON_BLOCKS :: string
  ev_PRIVATE_RECLAIM_MARGIN_BLOCKS :: string
  ev_PRIVATE_SUBMIT_TIMEOUT_MS :: string
  ev_PRIVATE_STATUS_TIMEOUT_MS :: string
  ev_DATABASE_URL :: "string option"
  ev_PERSISTENCE_SCHEMA :: "string option"
  ev_NOTIFIER :: string
  ev_SLACK_WEBHOOK_REF :: "string option"
  ev_EXECUTION_MODE :: string
  ev_MANUAL_EXECUTOR_ADDRESS :: "string option"
  ev_MANUAL_EXECUTOR_KIND :: "string option"
  ev_MANUAL_INTENT_TTL_MS :: string
  ev_MANUAL_INTENT_STUCK_MS :: string

text \<open>\<open>runtimeEnvFields\<close>; whether text is a URL is the schema library's, an argument.\<close>

definition parse_runtime_env :: "(string \<Rightarrow> bool) \<Rightarrow> env \<Rightarrow> runtime_env outcome" where
  "parse_runtime_env is_url env =
     await (defaulted (one_of [''env'', ''aws'']) ''env'' env ''SECRETS_PROVIDER'') (\<lambda>secrets.
     await (defaulted (one_of [''local'', ''aws'']) ''local'' env ''SIGNER_SOURCE'') (\<lambda>source.
     await (optional nonempty_schema env ''SIGNER_KEY_REF'') (\<lambda>keyRef.
     await (optional nonempty_schema env ''KMS_KEY_ID'') (\<lambda>kms.
     await (optional address_schema env ''SIGNER_ADDRESS'') (\<lambda>signerAddress.
     await (optional nonempty_schema env ''AWS_REGION'') (\<lambda>region.
     await (defaulted (one_of [''public'', ''flashbots-protect'']) ''public'' env ''SUBMITTER'') (\<lambda>submitter.
     await (optional is_url env ''FLASHBOTS_PROTECT_URL'') (\<lambda>protectUrl.
     await (defaulted is_url PROTECT_STATUS_URL env ''FLASHBOTS_STATUS_URL'') (\<lambda>statusUrl.
     await (optional positive_big_int_schema env ''PRIVATE_MIN_PRIORITY_FEE_WEI'') (\<lambda>fee.
     await (defaulted (int_in_range_schema 1 MAX_HORIZON_BLOCKS) ''25'' env ''PRIVATE_RELAY_HORIZON_BLOCKS'') (\<lambda>horizon.
     await (defaulted (int_in_range_schema 1 MAX_HORIZON_BLOCKS) ''3'' env ''PRIVATE_RECLAIM_MARGIN_BLOCKS'') (\<lambda>margin.
     await (defaulted (int_in_range_schema 1 MAX_RELAY_TIMEOUT_MS) ''8000'' env ''PRIVATE_SUBMIT_TIMEOUT_MS'') (\<lambda>submitMs.
     await (defaulted (int_in_range_schema 1 MAX_RELAY_TIMEOUT_MS) ''2000'' env ''PRIVATE_STATUS_TIMEOUT_MS'') (\<lambda>statusMs.
     await (optional nonempty_schema env ''DATABASE_URL'') (\<lambda>db.
     await (optional nonempty_schema env ''PERSISTENCE_SCHEMA'') (\<lambda>schema.
     await (defaulted (one_of [''none'', ''slack'']) ''none'' env ''NOTIFIER'') (\<lambda>notifier.
     await (optional nonempty_schema env ''SLACK_WEBHOOK_REF'') (\<lambda>webhook.
     await (defaulted (one_of [''AUTO'', ''MANUAL'']) ''AUTO'' env ''EXECUTION_MODE'') (\<lambda>mode.
     await (optional address_schema env ''MANUAL_EXECUTOR_ADDRESS'') (\<lambda>executor.
     await (optional (one_of [''eoa'', ''safe'']) env ''MANUAL_EXECUTOR_KIND'') (\<lambda>kind.
     await (defaulted non_negative_int_schema ''10800000'' env ''MANUAL_INTENT_TTL_MS'') (\<lambda>ttl.
     await (defaulted non_negative_int_schema ''3600000'' env ''MANUAL_INTENT_STUCK_MS'') (\<lambda>stuck.
       Inr \<lparr>ev_SECRETS_PROVIDER = secrets, ev_SIGNER_SOURCE = source, ev_SIGNER_KEY_REF = keyRef,
         ev_KMS_KEY_ID = kms, ev_SIGNER_ADDRESS = signerAddress, ev_AWS_REGION = region,
         ev_SUBMITTER = submitter, ev_FLASHBOTS_PROTECT_URL = protectUrl, ev_FLASHBOTS_STATUS_URL = statusUrl,
         ev_PRIVATE_MIN_PRIORITY_FEE_WEI = fee, ev_PRIVATE_RELAY_HORIZON_BLOCKS = horizon,
         ev_PRIVATE_RECLAIM_MARGIN_BLOCKS = margin, ev_PRIVATE_SUBMIT_TIMEOUT_MS = submitMs,
         ev_PRIVATE_STATUS_TIMEOUT_MS = statusMs, ev_DATABASE_URL = db, ev_PERSISTENCE_SCHEMA = schema,
         ev_NOTIFIER = notifier, ev_SLACK_WEBHOOK_REF = webhook, ev_EXECUTION_MODE = mode,
         ev_MANUAL_EXECUTOR_ADDRESS = executor, ev_MANUAL_EXECUTOR_KIND = kind,
         ev_MANUAL_INTENT_TTL_MS = ttl, ev_MANUAL_INTENT_STUCK_MS = stuck\<rparr>)))))))))))))))))))))))"

definition build_notifier_config :: "runtime_env \<Rightarrow> (string \<times> string option) outcome" where
  "build_notifier_config env =
     (if ev_NOTIFIER env = ''slack'' \<and> or_default (ev_SLACK_WEBHOOK_REF env) [] = []
      then Inl ''NOTIFIER=slack requires SLACK_WEBHOOK_REF (a secret reference)''
      else Inr (ev_NOTIFIER env, ev_SLACK_WEBHOOK_REF env))"

definition build_secrets_config :: "runtime_env \<Rightarrow> string \<times> string option" where
  "build_secrets_config env = (ev_SECRETS_PROVIDER env, ev_AWS_REGION env)"

definition build_persistence_config :: "runtime_env \<Rightarrow> (string \<times> string option) option" where
  "build_persistence_config env = (case ev_DATABASE_URL env of
     None \<Rightarrow> None | Some url \<Rightarrow> if url = [] then None else Some (url, ev_PERSISTENCE_SCHEMA env))"

record relay_settings =
  rl_rpcUrl :: string
  rl_statusUrl :: string
  rl_minPriorityFeeWei :: int
  rl_relayHorizonBlocks :: int
  rl_reclaimMarginBlocks :: int
  rl_submitTimeoutMs :: int
  rl_statusTimeoutMs :: int

datatype submitter_settings = PublicMempool | FlashbotsProtect relay_settings

definition reads_protect_status :: "(string \<Rightarrow> string option) \<Rightarrow> string \<Rightarrow> bool" where
  "reads_protect_status origin statusUrl = (case (origin statusUrl, origin PROTECT_STATUS_URL) of
     (Some a, Some b) \<Rightarrow> a = b | _ \<Rightarrow> statusUrl = PROTECT_STATUS_URL)"

definition relay_only_vars :: "runtime_env \<Rightarrow> (string \<times> string option) list" where
  "relay_only_vars env = [(''FLASHBOTS_PROTECT_URL'', ev_FLASHBOTS_PROTECT_URL env),
     (''PRIVATE_MIN_PRIORITY_FEE_WEI'', ev_PRIVATE_MIN_PRIORITY_FEE_WEI env)]"

definition names_set :: "(string \<times> string option) list \<Rightarrow> string list" where
  "names_set vars = map fst (filter (\<lambda>(_, v). v \<noteq> None) vars)"

definition build_submitter_config ::
  "(string \<Rightarrow> string option) \<Rightarrow> runtime_env \<Rightarrow> submitter_settings outcome" where
  "build_submitter_config origin env =
     (if ev_SUBMITTER env \<noteq> ''flashbots-protect''
      then (if names_set (relay_only_vars env) \<noteq> []
            then Inl (join '', '' (names_set (relay_only_vars env)) @ '' set but SUBMITTER is '' @ ev_SUBMITTER env)
            else Inr PublicMempool)
      else let missing = map fst (filter (\<lambda>(_, v). v = None) (relay_only_vars env)) in
        if missing \<noteq> [] then Inl (''SUBMITTER=flashbots-protect requires '' @ join '', '' missing)
        else if or_default (ev_DATABASE_URL env) [] = []
        then Inl ''SUBMITTER=flashbots-protect requires DATABASE_URL -- a privately-submitted transaction is invisible to our own node, so without persisted intents nothing fences the nonce against reuse''
        else let relayHorizonBlocks = number_of (ev_PRIVATE_RELAY_HORIZON_BLOCKS env) in
          if reads_protect_status origin (ev_FLASHBOTS_STATUS_URL env) \<and> relayHorizonBlocks < PROTECT_HORIZON_BLOCKS
          then Inl (''PRIVATE_RELAY_HORIZON_BLOCKS='' @ show_int relayHorizonBlocks @ '' is below the ~'' @ show_int PROTECT_HORIZON_BLOCKS
             @ '' blocks Flashbots Protect keeps offering a transaction, and FLASHBOTS_STATUS_URL points at Protect. When a status probe fails or reports nothing, that window is the only thing fencing the nonce -- set it to at least ''
             @ show_int PROTECT_HORIZON_BLOCKS @ '', or name the status endpoint of the relay you are actually using.'')
          else await (big_int (the (ev_PRIVATE_MIN_PRIORITY_FEE_WEI env))) (\<lambda>fee.
            Inr (FlashbotsProtect \<lparr>rl_rpcUrl = the (ev_FLASHBOTS_PROTECT_URL env),
              rl_statusUrl = ev_FLASHBOTS_STATUS_URL env, rl_minPriorityFeeWei = fee,
              rl_relayHorizonBlocks = relayHorizonBlocks,
              rl_reclaimMarginBlocks = number_of (ev_PRIVATE_RECLAIM_MARGIN_BLOCKS env),
              rl_submitTimeoutMs = number_of (ev_PRIVATE_SUBMIT_TIMEOUT_MS env),
              rl_statusTimeoutMs = number_of (ev_PRIVATE_STATUS_TIMEOUT_MS env)\<rparr>)))"

datatype execution_settings =
    AutoMode submitter_settings
  | ManualMode address executor_kind int int

definition is_text :: "string option \<Rightarrow> bool" where
  "is_text v \<longleftrightarrow> v \<noteq> None \<and> v \<noteq> Some []"

definition stray_relay :: "runtime_env \<Rightarrow> string list" where
  "stray_relay env =
     (if ev_SUBMITTER env = ''flashbots-protect'' then [''SUBMITTER=flashbots-protect''] else [])
     @ names_set (relay_only_vars env)"

definition signer_vars :: "runtime_env \<Rightarrow> bool \<Rightarrow> string list" where
  "signer_vars env keyPresent =
     (if ev_SIGNER_SOURCE env = ''aws'' then [''SIGNER_SOURCE=aws''] else [])
     @ (if is_text (ev_SIGNER_KEY_REF env) then [''SIGNER_KEY_REF''] else [])
     @ (if is_text (ev_KMS_KEY_ID env) then [''KMS_KEY_ID''] else [])
     @ (if is_text (ev_SIGNER_ADDRESS env) then [''SIGNER_ADDRESS''] else [])
     @ (if keyPresent then [''the signing-key env var''] else [])"

definition build_execution_config ::
  "(string \<Rightarrow> string option) \<Rightarrow> runtime_env \<Rightarrow> bool \<Rightarrow> execution_settings outcome" where
  "build_execution_config origin env keyPresent =
     (if ev_EXECUTION_MODE env = ''AUTO''
      then await (build_submitter_config origin env) (\<lambda>s. Inr (AutoMode s))
      else if stray_relay env \<noteq> []
      then Inl (''EXECUTION_MODE=MANUAL does not broadcast -- an operator signs and sends with their own wallet, so '' @ join '', '' (stray_relay env)
        @ '' protects nothing and this bot cannot enforce it. Unset '' @ (if length (stray_relay env) = 1 then ''it'' else ''them'') @ '', or run AUTO.'')
      else if \<not> is_text (ev_MANUAL_EXECUTOR_ADDRESS env)
      then Inl ''EXECUTION_MODE=MANUAL requires MANUAL_EXECUTOR_ADDRESS (the EOA that will broadcast)''
      else if \<not> is_text (ev_DATABASE_URL env)
      then Inl ''EXECUTION_MODE=MANUAL requires DATABASE_URL -- proposals must be persisted''
      else if \<not> is_text (ev_MANUAL_EXECUTOR_KIND env)
      then Inl ''EXECUTION_MODE=MANUAL requires MANUAL_EXECUTOR_KIND (eoa | safe) -- the operator's custody model''
      else if signer_vars env keyPresent \<noteq> []
      then Inl (''EXECUTION_MODE=MANUAL is keyless and must hold no signing key -- unset ''
             @ join '', '' (signer_vars env keyPresent))
      else Inr (ManualMode (the (ev_MANUAL_EXECUTOR_ADDRESS env))
        (if ev_MANUAL_EXECUTOR_KIND env = Some ''safe'' then SafeCustody else Eoa)
        (number_of (ev_MANUAL_INTENT_TTL_MS env)) (number_of (ev_MANUAL_INTENT_STUCK_MS env))))"

section \<open>What an admitted value is\<close>

lemma digits_value_snoc: "digits_value (s @ [c]) = digits_value s * 10 + digit_value c"
  by (simp add: digits_value_def)

lemma digits_value_nonneg: "list_all is_digit_char s \<Longrightarrow> 0 \<le> digits_value s"
proof (induction s rule: rev_induct)
  case (snoc c s)
  then have "0 \<le> digit_value c" by (auto simp: is_digit_char_def digit_value_def)
  with snoc show ?case by (simp add: digits_value_snoc)
qed (simp add: digits_value_def)

lemma parse_int_digits: "DIGITS s \<Longrightarrow> parse_int s = Some (digits_value s)"
proof -
  assume d: "DIGITS s"
  then obtain c cs where s: "s = c # cs" "is_digit_char c" by (cases s) (auto simp: DIGITS_def)
  then have "c \<noteq> CHR ''-''" "c \<noteq> CHR ''+''" by (auto simp: is_digit_char_def)
  moreover have t: "takeWhile is_digit_char (c # cs) = c # cs"
    using d by (simp add: s DIGITS_def list_all_iff takeWhile_eq_all_conv del: takeWhile.simps)
  ultimately show ?thesis unfolding s parse_int_def Let_def list.case if_False prod.case by (simp add: t del: takeWhile.simps)
qed

lemma number_of_digits: "DIGITS s \<Longrightarrow> number_of s = digits_value s"
  by (simp add: number_of_def parse_int_digits)

lemma schema_bounds:
  "positive_int_schema v \<Longrightarrow> 0 < number_of v \<and> number_of v \<le> MAX_SAFE"
  "non_negative_int_schema v \<Longrightarrow> 0 \<le> number_of v \<and> number_of v \<le> MAX_SAFE"
  "int_in_range_schema lo hi v \<Longrightarrow> lo \<le> number_of v \<and> number_of v \<le> hi"
  by (auto simp: positive_int_schema_def non_negative_int_schema_def int_in_range_schema_def fits_in_number_def
      number_of_digits DIGITS_def digits_value_nonneg split: if_splits)

lemma digit_char_radix: "is_digit_char c \<Longrightarrow> radix_digit c = digit_value c \<and> digit_value c < 10"
  by (auto simp: is_digit_char_def radix_digit_def digit_value_def Let_def)

lemma radix_text_digits:
  assumes "DIGITS s"
  shows "radix_text 10 s = Some (digits_value s)"
proof -
  have "fold (\<lambda>c n. n * 10 + radix_digit c) s k = fold (\<lambda>c n. n * 10 + digit_value c) s k" for k
    using assms by (intro fold_cong) (auto simp: DIGITS_def list_all_iff digit_char_radix)
  then show ?thesis
    using assms by (auto simp: radix_text_def digits_value_def DIGITS_def list_all_iff digit_char_radix)
qed

lemma big_int_digits:
  assumes "DIGITS s"
  shows "big_int s = Inr (digits_value s)"
proof -
  have sub: "s \<noteq> []" "set s \<subseteq> set ''0123456789''"
    using assms unfolding DIGITS_def list_all_iff is_digit_char_def by blast+
  have "\<not> is_space c" if "c \<in> set s" for c
    by (rule digit_chars(4) [OF subsetD [OF sub(2) that]])
  then have "trim s = s" by (intro trim_id) blast
  with big_int_literal_digits [OF sub] radix_text_digits [OF assms] show ?thesis by (simp add: big_int_def)
qed

lemma optional_InrD: "optional schema env k = Inr (Some v) \<Longrightarrow> schema v"
  by (auto simp: optional_def split: option.splits if_splits)

lemma defaulted_InrD: "defaulted schema d env k = Inr v \<Longrightarrow> schema d \<Longrightarrow> schema v"
  by (auto simp: defaulted_def await_eq_Inr optional_def or_default_def split: option.splits if_splits)

lemma default_values:
  "int_in_range_schema 1 MAX_HORIZON_BLOCKS ''25''" "int_in_range_schema 1 MAX_HORIZON_BLOCKS ''3''"
  "int_in_range_schema 1 MAX_RELAY_TIMEOUT_MS ''8000''" "int_in_range_schema 1 MAX_RELAY_TIMEOUT_MS ''2000''"
  "non_negative_int_schema ''10800000''" "non_negative_int_schema ''3600000''"
  "positive_int_schema ''300000''" "port_schema ''9095''" "nonempty_schema ''127.0.0.1''"
  by code_simp+

lemma parse_runtime_env_fields:
  assumes "parse_runtime_env is_url env = Inr e"
  shows "defaulted (int_in_range_schema 1 MAX_HORIZON_BLOCKS) ''25'' env ''PRIVATE_RELAY_HORIZON_BLOCKS'' =
      Inr (ev_PRIVATE_RELAY_HORIZON_BLOCKS e)"
    "defaulted (int_in_range_schema 1 MAX_HORIZON_BLOCKS) ''3'' env ''PRIVATE_RECLAIM_MARGIN_BLOCKS'' =
      Inr (ev_PRIVATE_RECLAIM_MARGIN_BLOCKS e)"
    "defaulted (int_in_range_schema 1 MAX_RELAY_TIMEOUT_MS) ''8000'' env ''PRIVATE_SUBMIT_TIMEOUT_MS'' =
      Inr (ev_PRIVATE_SUBMIT_TIMEOUT_MS e)"
    "defaulted (int_in_range_schema 1 MAX_RELAY_TIMEOUT_MS) ''2000'' env ''PRIVATE_STATUS_TIMEOUT_MS'' =
      Inr (ev_PRIVATE_STATUS_TIMEOUT_MS e)"
    "defaulted non_negative_int_schema ''10800000'' env ''MANUAL_INTENT_TTL_MS'' = Inr (ev_MANUAL_INTENT_TTL_MS e)"
    "defaulted non_negative_int_schema ''3600000'' env ''MANUAL_INTENT_STUCK_MS'' = Inr (ev_MANUAL_INTENT_STUCK_MS e)"
    "defaulted is_url PROTECT_STATUS_URL env ''FLASHBOTS_STATUS_URL'' = Inr (ev_FLASHBOTS_STATUS_URL e)"
    "optional is_url env ''FLASHBOTS_PROTECT_URL'' = Inr (ev_FLASHBOTS_PROTECT_URL e)"
    "optional positive_big_int_schema env ''PRIVATE_MIN_PRIORITY_FEE_WEI'' = Inr (ev_PRIVATE_MIN_PRIORITY_FEE_WEI e)"
    "optional address_schema env ''MANUAL_EXECUTOR_ADDRESS'' = Inr (ev_MANUAL_EXECUTOR_ADDRESS e)"
  by (insert assms, unfold parse_runtime_env_def, (elim await_InrE, simp only: sum.inject, erule subst, simp)+)

lemma parse_runtime_env_ok:
  assumes "parse_runtime_env is_url env = Inr e" "is_url PROTECT_STATUS_URL"
  shows "int_in_range_schema 1 MAX_HORIZON_BLOCKS (ev_PRIVATE_RELAY_HORIZON_BLOCKS e)"
    "int_in_range_schema 1 MAX_HORIZON_BLOCKS (ev_PRIVATE_RECLAIM_MARGIN_BLOCKS e)"
    "int_in_range_schema 1 MAX_RELAY_TIMEOUT_MS (ev_PRIVATE_SUBMIT_TIMEOUT_MS e)"
    "int_in_range_schema 1 MAX_RELAY_TIMEOUT_MS (ev_PRIVATE_STATUS_TIMEOUT_MS e)"
    "non_negative_int_schema (ev_MANUAL_INTENT_TTL_MS e)" "non_negative_int_schema (ev_MANUAL_INTENT_STUCK_MS e)"
    "is_url (ev_FLASHBOTS_STATUS_URL e)"
    "ev_FLASHBOTS_PROTECT_URL e = Some u \<Longrightarrow> is_url u"
    "ev_PRIVATE_MIN_PRIORITY_FEE_WEI e = Some w \<Longrightarrow> positive_big_int_schema w"
    "ev_MANUAL_EXECUTOR_ADDRESS e = Some a \<Longrightarrow> address_schema a"
  using parse_runtime_env_fields [OF assms(1)] defaulted_InrD default_values assms(2) optional_InrD
  by metis+

section \<open>What a process can boot with\<close>

lemma names_set_relay: "names_set (relay_only_vars env) = [] \<longleftrightarrow>
    ev_FLASHBOTS_PROTECT_URL env = None \<and> ev_PRIVATE_MIN_PRIORITY_FEE_WEI env = None"
  by (auto simp: names_set_def relay_only_vars_def)

lemma build_submitter_public:
  "build_submitter_config origin env = Inr PublicMempool \<Longrightarrow> ev_SUBMITTER env \<noteq> ''flashbots-protect''
     \<and> ev_FLASHBOTS_PROTECT_URL env = None \<and> ev_PRIVATE_MIN_PRIORITY_FEE_WEI env = None"
  by (auto simp: build_submitter_config_def names_set_relay Let_def await_eq_Inr split: if_splits)

lemma build_submitter_private:
  assumes "build_submitter_config origin env = Inr (FlashbotsProtect r)"
  obtains url fee w where "ev_SUBMITTER env = ''flashbots-protect''" "is_text (ev_DATABASE_URL env)"
    "ev_FLASHBOTS_PROTECT_URL env = Some url" "ev_PRIVATE_MIN_PRIORITY_FEE_WEI env = Some w" "big_int w = Inr fee"
    "reads_protect_status origin (ev_FLASHBOTS_STATUS_URL env) \<Longrightarrow> 25 \<le> rl_relayHorizonBlocks r"
    "r = \<lparr>rl_rpcUrl = url, rl_statusUrl = ev_FLASHBOTS_STATUS_URL env, rl_minPriorityFeeWei = fee,
       rl_relayHorizonBlocks = number_of (ev_PRIVATE_RELAY_HORIZON_BLOCKS env),
       rl_reclaimMarginBlocks = number_of (ev_PRIVATE_RECLAIM_MARGIN_BLOCKS env),
       rl_submitTimeoutMs = number_of (ev_PRIVATE_SUBMIT_TIMEOUT_MS env),
       rl_statusTimeoutMs = number_of (ev_PRIVATE_STATUS_TIMEOUT_MS env)\<rparr>"
  using assms that
  by (auto simp: build_submitter_config_def relay_only_vars_def names_set_def Let_def await_eq_Inr is_text_def
      or_default_def PROTECT_HORIZON_BLOCKS_def split: if_splits option.splits)

lemma build_execution_manual:
  assumes "build_execution_config origin env key = Inr (ManualMode a k ttl stuck)"
  shows "stray_relay env = []" "ev_MANUAL_EXECUTOR_ADDRESS env = Some a" "is_text (ev_DATABASE_URL env)"
    "signer_vars env key = []" "ttl = number_of (ev_MANUAL_INTENT_TTL_MS env)"
    "stuck = number_of (ev_MANUAL_INTENT_STUCK_MS env)" "is_text (ev_MANUAL_EXECUTOR_KIND env)"
    "k = (if ev_MANUAL_EXECUTOR_KIND env = Some ''safe'' then SafeCustody else Eoa)"
  using assms by (auto simp: build_execution_config_def await_eq_Inr is_text_def split: if_splits)

lemma build_execution_auto:
  "build_execution_config origin env key = Inr (AutoMode s) \<Longrightarrow> build_submitter_config origin env = Inr s"
  by (auto simp: build_execution_config_def await_eq_Inr split: if_splits)

text \<open>A process that boots does what its environment says about keys and privacy. A MANUAL process
  has no signing key, named or present, a database, a declared custody model and no relay setting; a
  process that broadcasts publicly was given no relay setting; one that broadcasts privately has a
  database to fence its nonces with and, when it reads the status of Flashbots Protect, a horizon no
  shorter than the relay's window.\<close>

theorem execution_settings_sound:
  assumes "build_execution_config origin env keyPresent = Inr s"
  shows "case s of
      ManualMode a k ttl stuck \<Rightarrow> \<not> keyPresent \<and> ev_SIGNER_SOURCE env \<noteq> ''aws''
        \<and> \<not> is_text (ev_SIGNER_KEY_REF env) \<and> \<not> is_text (ev_KMS_KEY_ID env) \<and> \<not> is_text (ev_SIGNER_ADDRESS env)
        \<and> is_text (ev_DATABASE_URL env) \<and> is_text (ev_MANUAL_EXECUTOR_KIND env)
        \<and> ev_SUBMITTER env \<noteq> ''flashbots-protect'' \<and> ev_FLASHBOTS_PROTECT_URL env = None
        \<and> ev_PRIVATE_MIN_PRIORITY_FEE_WEI env = None
    | AutoMode PublicMempool \<Rightarrow> ev_SUBMITTER env \<noteq> ''flashbots-protect''
        \<and> ev_FLASHBOTS_PROTECT_URL env = None \<and> ev_PRIVATE_MIN_PRIORITY_FEE_WEI env = None
    | AutoMode (FlashbotsProtect r) \<Rightarrow> is_text (ev_DATABASE_URL env)
        \<and> (if reads_protect_status origin (ev_FLASHBOTS_STATUS_URL env)
           then 25 \<le> rl_relayHorizonBlocks r else True)"
proof (cases s)
  case (ManualMode a k ttl stuck)
  with assms build_execution_manual(1,3,4,7) [of origin env keyPresent a k ttl stuck] show ?thesis
    by (auto simp: stray_relay_def signer_vars_def names_set_relay split: if_splits)
next
  case (AutoMode sub)
  with assms have b: "build_submitter_config origin env = Inr sub" by (simp add: build_execution_auto)
  show ?thesis
  proof (cases sub)
    case PublicMempool
    with b AutoMode build_submitter_public show ?thesis by fastforce
  next
    case (FlashbotsProtect r)
    from b [unfolded this] show ?thesis
      by (rule build_submitter_private) (simp add: AutoMode FlashbotsProtect)
  qed
qed

text \<open>C28: every number a process boots with is in its range. Whatever the environment holds, if it passes
  the schemas and the builder, the private submission settings have a positive fee floor, block counts
  within a day of blocks, network deadlines within two minutes and well-formed endpoints; a MANUAL
  process has a well-formed executor address and non-negative periods that survive as numbers.\<close>

theorem boot_settings_typed:
  assumes "parse_runtime_env is_url env = Inr e" "is_url PROTECT_STATUS_URL"
    and "build_execution_config origin e keyPresent = Inr s"
  shows "case s of
      ManualMode a k ttl stuck \<Rightarrow> address_schema a \<and> ttl \<in> {0..MAX_SAFE} \<and> stuck \<in> {0..MAX_SAFE}
    | AutoMode PublicMempool \<Rightarrow> True
    | AutoMode (FlashbotsProtect r) \<Rightarrow> 0 < rl_minPriorityFeeWei r
        \<and> rl_relayHorizonBlocks r \<in> {1..7200} \<and> rl_reclaimMarginBlocks r \<in> {1..7200}
        \<and> rl_submitTimeoutMs r \<in> {1..120000} \<and> rl_statusTimeoutMs r \<in> {1..120000}
        \<and> is_url (rl_rpcUrl r) \<and> is_url (rl_statusUrl r)"
proof (cases s)
  case (ManualMode a k ttl stuck)
  note m = build_execution_manual [OF assms(3) [unfolded ManualMode]]
  have "address_schema a" using parse_runtime_env_ok(10) [OF assms(1,2) m(2)] .
  with m(5,6) schema_bounds(2) [OF parse_runtime_env_ok(5) [OF assms(1,2)]]
    schema_bounds(2) [OF parse_runtime_env_ok(6) [OF assms(1,2)]] show ?thesis
    by (simp add: ManualMode)
next
  case (AutoMode sub)
  with assms(3) have b: "build_submitter_config origin e = Inr sub" by (simp add: build_execution_auto)
  show ?thesis
  proof (cases sub)
    case PublicMempool
    then show ?thesis by (simp add: AutoMode)
  next
    case (FlashbotsProtect r)
    from b [unfolded this] show ?thesis
    proof (rule build_submitter_private)
      fix url fee w
      assume p: "ev_FLASHBOTS_PROTECT_URL e = Some url" "ev_PRIVATE_MIN_PRIORITY_FEE_WEI e = Some w"
        "big_int w = Inr fee"
        and r: "r = \<lparr>rl_rpcUrl = url, rl_statusUrl = ev_FLASHBOTS_STATUS_URL e, rl_minPriorityFeeWei = fee,
          rl_relayHorizonBlocks = number_of (ev_PRIVATE_RELAY_HORIZON_BLOCKS e),
          rl_reclaimMarginBlocks = number_of (ev_PRIVATE_RECLAIM_MARGIN_BLOCKS e),
          rl_submitTimeoutMs = number_of (ev_PRIVATE_SUBMIT_TIMEOUT_MS e),
          rl_statusTimeoutMs = number_of (ev_PRIVATE_STATUS_TIMEOUT_MS e)\<rparr>"
      note ok = parse_runtime_env_ok [OF assms(1,2)]
      have fee: "0 < fee"
        using ok(9) [OF p(2)] p(3) by (simp add: positive_big_int_schema_def big_int_digits)
      show ?thesis
        using fee ok(7) ok(8) [OF p(1)] schema_bounds(3) [OF ok(1)] schema_bounds(3) [OF ok(2)]
          schema_bounds(3) [OF ok(3)] schema_bounds(3) [OF ok(4)]
        by (simp add: AutoMode FlashbotsProtect r MAX_HORIZON_BLOCKS_def MAX_RELAY_TIMEOUT_MS_def)
    qed
  qed
qed

definition ex_is_url :: "string \<Rightarrow> bool" where
  "ex_is_url s \<longleftrightarrow> take 8 s = ''https://''"

definition ex_environment :: env where
  "ex_environment = map_of [(''SUBMITTER'', ''flashbots-protect''), (''FLASHBOTS_PROTECT_URL'', ''https://rpc''),
     (''PRIVATE_MIN_PRIORITY_FEE_WEI'', ''2000000000''), (''DATABASE_URL'', ''postgres://bot''),
     (''SIGNER_KEY_REF'', ''''), (''RISK_MAX_IN_FLIGHT'', ''4''), (''RISK_MIN_PROFIT'', ''0''),
     (''RISK_EXPECTED_CODE_HASHES'', '' 0x'' @ replicate 40 (CHR ''a'') @ '' = 0x'' @ replicate 64 (CHR ''B'') @ '', '')]"

lemma ex_boots:
  obtains e r where "parse_runtime_env ex_is_url ex_environment = Inr e"
    "build_execution_config (\<lambda>_. None) e True = Inr (AutoMode (FlashbotsProtect r))"
    "rl_submitTimeoutMs r = 8000" "ev_FLASHBOTS_STATUS_URL e = PROTECT_STATUS_URL"
proof -
  have "case parse_runtime_env ex_is_url ex_environment of
      Inr e \<Rightarrow> (case build_execution_config (\<lambda>_. None) e True of
        Inr (AutoMode (FlashbotsProtect r)) \<Rightarrow> rl_submitTimeoutMs r = 8000
          \<and> ev_FLASHBOTS_STATUS_URL e = PROTECT_STATUS_URL | _ \<Rightarrow> False)
    | Inl _ \<Rightarrow> False" by code_simp
  then show thesis
    by (auto split: sum.splits execution_settings.splits submitter_settings.splits intro: that)
qed

theorem execution_settings_sound_witness:
  "\<exists>e r. parse_runtime_env ex_is_url ex_environment = Inr e
    \<and> build_execution_config (\<lambda>_. None) e True = Inr (AutoMode (FlashbotsProtect r))
    \<and> is_text (ev_DATABASE_URL e) \<and> 25 \<le> rl_relayHorizonBlocks r"
proof -
  obtain e r where e: "parse_runtime_env ex_is_url ex_environment = Inr e"
    "build_execution_config (\<lambda>_. None) e True = Inr (AutoMode (FlashbotsProtect r))"
    "ev_FLASHBOTS_STATUS_URL e = PROTECT_STATUS_URL" by (rule ex_boots)
  from execution_settings_sound [OF e(2)] e show ?thesis by (auto simp: reads_protect_status_def)
qed

theorem boot_settings_typed_witness:
  "\<exists>e r. parse_runtime_env ex_is_url ex_environment = Inr e
    \<and> build_execution_config (\<lambda>_. None) e True = Inr (AutoMode (FlashbotsProtect r))
    \<and> rl_relayHorizonBlocks r \<in> {1..7200} \<and> 0 < rl_minPriorityFeeWei r"
proof -
  obtain e r where e: "parse_runtime_env ex_is_url ex_environment = Inr e"
    "build_execution_config (\<lambda>_. None) e True = Inr (AutoMode (FlashbotsProtect r))" by (rule ex_boots)
  have "ex_is_url PROTECT_STATUS_URL" by code_simp
  from boot_settings_typed [OF e(1) this e(2)] e show ?thesis by auto
qed

section \<open>Risk settings\<close>

lemma fold_set_distinct:
  "distinct (map fst acc) \<Longrightarrow> distinct (map fst (fold (\<lambda>(k, v) m. alist_set k v m) es acc))"
  by (induction es arbitrary: acc) (simp_all add: distinct_alist_set split_beta)

lemma alist_set_not_Nil: "alist_set k v m \<noteq> []"
  by (cases m) (auto split: if_splits)

lemma fold_set_not_Nil: "acc \<noteq> [] \<or> es \<noteq> [] \<Longrightarrow> fold (\<lambda>(k, v) m. alist_set k v m) es acc \<noteq> []"
  by (induction es arbitrary: acc) (simp_all add: alist_set_not_Nil split_beta)

lemma code_hash_map_ok:
  assumes "code_hash_map_schema raw = Inr m"
  shows "m \<noteq> []" "distinct (map fst m)" "list_all (\<lambda>(a, h). address_schema a \<and> code_hash_schema h) m"
proof -
  obtain ents where "ents \<noteq> []" "m = from_entries ents"
    and ok: "list_all (\<lambda>(a, h). address_schema a \<and> code_hash_schema h) m"
    using assms by (auto simp: code_hash_map_schema_def await_eq_Inr Let_def split: if_splits)
  then show "m \<noteq> []" "distinct (map fst m)"
    by (simp_all add: from_entries_def fold_set_not_Nil fold_set_distinct)
  show "list_all (\<lambda>(a, h). address_schema a \<and> code_hash_schema h) m" by (rule ok)
qed

lemma parse_risk_env_fields:
  assumes "parse_risk_env env = Inr e"
  shows "optional positive_int_schema env ''RISK_MAX_CONSECUTIVE_FAILURES'' = Inr (re_maxConsecutiveFailures e)"
    "optional positive_int_schema env ''RISK_MAX_IN_FLIGHT'' = Inr (re_maxInFlight e)"
    "(case cleaned env ''RISK_EXPECTED_CODE_HASHES'' of None \<Rightarrow> Inr None
            | Some raw \<Rightarrow> await (code_hash_map_schema raw) (\<lambda>m. Inr (Some m))) = Inr (re_expectedCodeHashes e)"
    "defaulted positive_int_schema ''300000'' env ''RISK_CODE_CHECK_INTERVAL_MS'' = Inr (re_codeCheckIntervalMs e)"
    "defaulted port_schema ''9095'' env ''RISK_CONTROL_PORT'' = Inr (re_controlPort e)"
  by (insert assms, unfold parse_risk_env_def, (elim await_InrE, simp only: sum.inject, erule subst, simp)+)

text \<open>A risk setting is off only when its variable is unset. If the environment passes the schemas and
  the builder, the gate's breaker and exposure cap are present exactly when their variables are set,
  and then positive; pinned bytecode is present exactly when the variable is set, and then names at
  least one contract, none twice, each with a well-formed address and hash; and a process that boots
  halted has a token to be resumed with.\<close>

theorem risk_settings_sound:
  assumes "parse_risk_env env = Inr e" "build_risk_config e = Inr s"
  shows "(case (cleaned env ''RISK_MAX_CONSECUTIVE_FAILURES'', rc_maxConsecutiveFailures (rs_risk s)) of
       (None, None) \<Rightarrow> True | (Some _, Some n) \<Rightarrow> 0 < n | _ \<Rightarrow> False)
    \<and> (case (cleaned env ''RISK_MAX_IN_FLIGHT'', rc_maxInFlight (rs_risk s)) of
       (None, None) \<Rightarrow> True | (Some _, Some n) \<Rightarrow> 0 < n | _ \<Rightarrow> False)
    \<and> (case (cleaned env ''RISK_EXPECTED_CODE_HASHES'', rc_expectedCodeHashes (rs_risk s)) of
       (None, None) \<Rightarrow> True
     | (Some _, Some m) \<Rightarrow> m \<noteq> [] \<and> distinct (map fst m)
         \<and> list_all (\<lambda>(a, h). address_schema a \<and> code_hash_schema h) m
     | _ \<Rightarrow> False)
    \<and> (if rc_startHalted (rs_risk s) then is_text (rs_controlTokenRef s) else True)
    \<and> 0 < rs_codeCheckIntervalMs s \<and> rs_controlPort s \<in> {1..65535}"
proof -
  note f = parse_risk_env_fields [OF assms(1)]
  have s: "rc_maxConsecutiveFailures (rs_risk s) = map_option (nat \<circ> number_of) (re_maxConsecutiveFailures e)"
    "rc_maxInFlight (rs_risk s) = map_option number_of (re_maxInFlight e)"
    "rc_expectedCodeHashes (rs_risk s) = re_expectedCodeHashes e"
    "rs_codeCheckIntervalMs s = number_of (re_codeCheckIntervalMs e)"
    "rs_controlPort s = number_of (re_controlPort e)"
    "rc_startHalted (rs_risk s) \<Longrightarrow> is_text (rs_controlTokenRef s)"
    using assms(2)
    by (auto simp: build_risk_config_def Let_def await_eq_Inr is_text_def or_default_def split: if_splits option.splits)
  have b: "0 < rs_codeCheckIntervalMs s" "rs_controlPort s \<in> {1..65535}"
    using schema_bounds(1) [OF defaulted_InrD [OF f(4) default_values(7)]]
      schema_bounds(3) [OF defaulted_InrD [OF f(5) default_values(8), unfolded port_schema_def]] s(4,5)
    by simp_all
  have o: "case (cleaned env k, v) of (None, None) \<Rightarrow> True | (Some _, Some x) \<Rightarrow> 0 < number_of x | _ \<Rightarrow> False"
    if "optional positive_int_schema env k = Inr v" for k v
    using that schema_bounds(1) [of "the (cleaned env k)"]
    by (simp add: optional_def split: option.splits if_splits) (metis option.inject option.distinct(1))
  have c: "case (cleaned env ''RISK_EXPECTED_CODE_HASHES'', re_expectedCodeHashes e) of (None, None) \<Rightarrow> True
     | (Some _, Some m) \<Rightarrow> m \<noteq> [] \<and> distinct (map fst m) \<and> list_all (\<lambda>(a, h). address_schema a \<and> code_hash_schema h) m
     | _ \<Rightarrow> False"
  proof (cases "cleaned env ''RISK_EXPECTED_CODE_HASHES''")
    case None
    then show ?thesis using f(3) by simp
  next
    case (Some raw)
    then obtain m where "re_expectedCodeHashes e = Some m" "code_hash_map_schema raw = Inr m"
      using f(3) by (auto simp: await_eq_Inr) (metis)
    with Some code_hash_map_ok show ?thesis by simp
  qed
  show ?thesis
    using o [OF f(1)] o [OF f(2)] c b s
    by (simp only: o_apply) (auto split: option.splits)
qed

theorem risk_settings_sound_witness:
  "\<exists>e s m. parse_risk_env ex_environment = Inr e \<and> build_risk_config e = Inr s
    \<and> rc_maxInFlight (rs_risk s) = Some 4 \<and> rc_expectedCodeHashes (rs_risk s) = Some m \<and> m \<noteq> []"
proof -
  have "case parse_risk_env ex_environment of
      Inr e \<Rightarrow> (case build_risk_config e of Inr s \<Rightarrow> rc_maxInFlight (rs_risk s) = Some 4 | Inl _ \<Rightarrow> False)
    | Inl _ \<Rightarrow> False" by code_simp
  then obtain e s where e: "parse_risk_env ex_environment = Inr e" "build_risk_config e = Inr s"
    "rc_maxInFlight (rs_risk s) = Some 4" by (auto split: sum.splits)
  have "\<exists>raw. cleaned ex_environment ''RISK_EXPECTED_CODE_HASHES'' = Some raw"
    by (simp add: cleaned_def ex_environment_def)
  with risk_settings_sound [OF e(1,2)] e show ?thesis by (auto split: option.splits)
qed

end
