(* ===== verification/Boot.thy ===== *)
theory Boot
  imports Config RiskControl RiskHalting CrashSafety Executor
begin

text \<open>
  Starting a process: the code-hash guard and the risk runtime (\<open>packages/risk/src/guard.ts\<close>,
  \<open>runtime.ts\<close>), then \<open>packages/runtime/src/index.ts\<close>, which builds the one gate and the one executor.
  What the boot reads of the world is a record: the chain id, the signing key's account, the executor
  account's code and Safe interface, the node and the relay, and whether the control port could be bound.
  Timers, metrics and log lines are left out; a later pass of the guard is an operation of the gate's runs.
\<close>

section \<open>The risk runtime\<close>

text \<open>\<open>startCodeHashGuard\<close>: the boot check. A probe that fails is reported, not thrown.\<close>

definition start_code_hash_guard :: "risk_config \<Rightarrow> (address \<Rightarrow> code_read) \<Rightarrow> gate \<Rightarrow> gate" where
  "start_code_hash_guard cfg read g = fst (verify_code cfg (g_codeHashHaltSeq g) read g)"

record risk_runtime =
  rt_gate :: gate
  rt_checks :: bool
  rt_control :: "string option"

text \<open>\<open>startControlServer\<close>: \<open>bound\<close> is what listening on the configured address gave, on failure the
  socket's error code. Faults of a live server are logged and change nothing.\<close>

definition start_control_server :: "string \<Rightarrow> int \<Rightarrow> unit outcome \<Rightarrow> unit outcome" where
  "start_control_server host port bound = (case bound of
     Inl code \<Rightarrow> Inl (''the kill switch could not bind '' @ host @ '':'' @ show_int port @ '' ('' @ code
       @ '') -- refusing to trade without the control endpoint RISK_CONTROL_TOKEN_REF asked for. Check RISK_CONTROL_HOST is an address on this machine and RISK_CONTROL_PORT is free and unprivileged.'')
   | Inr _ \<Rightarrow> Inr ())"

definition start_risk_runtime ::
  "risk_settings \<Rightarrow> (address \<Rightarrow> code_read) \<Rightarrow> (string \<Rightarrow> string outcome) \<Rightarrow> unit outcome
     \<Rightarrow> risk_runtime outcome" where
  "start_risk_runtime settings read getSecret bound =
     (let cfg = rs_risk settings; g0 = create_gate cfg;
          pinned = (rc_expectedCodeHashes cfg \<noteq> None);
          g1 = (if pinned then start_code_hash_guard cfg read g0 else g0)
      in await (resolve_control_token (rs_controlTokenRef settings) getSecret) (\<lambda>token.
         await (case token of None \<Rightarrow> Inr ()
                | Some _ \<Rightarrow> start_control_server (rs_controlHost settings) (rs_controlPort settings) bound) (\<lambda>_.
           Inr \<lparr>rt_gate = g1, rt_checks = pinned, rt_control = token\<rparr>)))"

definition assert_can_broadcast :: "gate \<Rightarrow> string \<Rightarrow> unit outcome" where
  "assert_can_broadcast g action =
     (if g_state g = HALTED
      then Inl (''risk gate is HALTED -- refusing to broadcast '' @ action @ '' ('' @ g_haltReason g @ '')'')
      else Inr ())"

section \<open>The executor\<close>

record submission =
  sb_reader :: chain_reader
  sb_reclaimMarginBlocks :: int
  sb_horizonBlocks :: int
  sb_minPriorityFeeWei :: int

definition build_submission ::
  "chain_reader \<Rightarrow> (hex \<Rightarrow> relay_status outcome) \<Rightarrow> submitter_settings \<Rightarrow> submission option" where
  "build_submission node relay settings = (case settings of
     PublicMempool \<Rightarrow> None
   | FlashbotsProtect r \<Rightarrow> Some \<lparr>sb_reader = relay_aware_reader node relay,
       sb_reclaimMarginBlocks = rl_reclaimMarginBlocks r, sb_horizonBlocks = rl_relayHorizonBlocks r,
       sb_minPriorityFeeWei = rl_minPriorityFeeWei r\<rparr>)"

record boot_world =
  bw_chainId :: "int outcome"
  bw_signer :: "address outcome"
  bw_code :: "address \<Rightarrow> hex option outcome"
  bw_threshold :: "address \<Rightarrow> int outcome"
  bw_safeNonce :: "address \<Rightarrow> int outcome"
  bw_node :: chain_reader
  bw_relay :: "hex \<Rightarrow> relay_status outcome"
  bw_codeHash :: "address \<Rightarrow> code_read"
  bw_controlBound :: "unit outcome"
  bw_now :: millis

definition assert_custody :: "boot_world \<Rightarrow> address \<Rightarrow> executor_kind \<Rightarrow> unit outcome" where
  "assert_custody w addr kind =
     await (bw_code w addr) (\<lambda>code.
       let hasCode = (code \<noteq> None \<and> code \<noteq> Some ''0x'') in
       case kind of
         Eoa \<Rightarrow> if hasCode then Inl (''MANUAL_EXECUTOR_KIND=eoa but '' @ addr @ '' has contract code -- set MANUAL_EXECUTOR_KIND=safe or fix the address'') else Inr ()
       | SafeCustody \<Rightarrow>
           if \<not> hasCode then Inl (''MANUAL_EXECUTOR_KIND=safe but '' @ addr @ '' has no contract code'')
           else (case await (bw_threshold w addr) (\<lambda>_. bw_safeNonce w addr) of
             Inl e \<Rightarrow> Inl (''MANUAL_EXECUTOR_KIND=safe but '' @ addr @ '' does not answer the Safe interface (getThreshold/nonce): '' @ e)
           | Inr _ \<Rightarrow> Inr ()))"

text \<open>What a process executes with: an AUTO executor has its signer and nonce authority, a MANUAL one an
  identity and its two periods, and nothing to sign with.\<close>

datatype booted =
    BootedAuto address allocator "submission option"
  | BootedManual address executor_kind int int

definition build_executor ::
  "execution_settings \<Rightarrow> boot_world \<Rightarrow> int \<Rightarrow> 'db store_ops option \<Rightarrow> 'db \<Rightarrow> booted outcome \<times> 'db" where
  "build_executor execution w chainId store db = (case execution of
     ManualMode addr kind ttl stuck \<Rightarrow>
       (case store of
          None \<Rightarrow> (Inl ''MANUAL execution requires a StateStore (DATABASE_URL)'', db)
        | Some ops \<Rightarrow>
            (case so_bind ops chainId addr db of
               (Inl e, db1) \<Rightarrow> (Inl e, db1)
             | (Inr _, db1) \<Rightarrow> (await (assert_custody w addr kind) (\<lambda>_. Inr (BootedManual addr kind ttl stuck)), db1)))
   | AutoMode submitter \<Rightarrow>
       (case bw_signer w of
          Inl e \<Rightarrow> (Inl e, db)
        | Inr signer \<Rightarrow>
            (case (case store of None \<Rightarrow> (Inr (), db) | Some ops \<Rightarrow> so_bind ops chainId signer db) of
               (Inl e, db1) \<Rightarrow> (Inl e, db1)
             | (Inr _, db1) \<Rightarrow>
                 (let sub = build_submission (bw_node w) (bw_relay w) submitter;
                      reader = (case sub of None \<Rightarrow> bw_node w | Some s \<Rightarrow> sb_reader s);
                      (seeded, al) = resync_nonces store reader signer (bw_now w) None
                        (map_option sb_reclaimMarginBlocks sub) db1 (create_allocator Map.empty)
                  in (await seeded (\<lambda>_. Inr (BootedAuto signer al sub)), db1)))))"

text \<open>\<open>bootstrapService\<close>: the gate, with its boot check, stands before the executor is built. The sends
  of an AUTO executor ask \<open>assert_can_broadcast\<close> about the gate as it is then.\<close>

definition bootstrap_service ::
  "risk_settings \<Rightarrow> execution_settings \<Rightarrow> boot_world \<Rightarrow> (string \<Rightarrow> string outcome) \<Rightarrow> 'db store_ops option \<Rightarrow> 'db
     \<Rightarrow> (risk_runtime \<times> booted) outcome \<times> 'db" where
  "bootstrap_service settings execution w getSecret store db =
     (case await (bw_chainId w) (\<lambda>chainId.
             await (start_risk_runtime settings (bw_codeHash w) getSecret (bw_controlBound w)) (\<lambda>rt. Inr (chainId, rt))) of
        Inl e \<Rightarrow> (Inl e, db)
      | Inr (chainId, rt) \<Rightarrow>
          (let (b, db1) = build_executor execution w chainId store db
           in (await b (\<lambda>x. Inr (rt, x)), db1)))"

section \<open>What a booted process may do\<close>

lemma start_risk_runtime_InrE:
  assumes "start_risk_runtime settings read getSecret bound = Inr rt"
  obtains "rt_gate rt = (if rc_expectedCodeHashes (rs_risk settings) \<noteq> None
      then start_code_hash_guard (rs_risk settings) read (create_gate (rs_risk settings))
      else create_gate (rs_risk settings))" "rt_control rt \<noteq> None \<Longrightarrow> bound = Inr ()"
  using assms by (auto simp: start_risk_runtime_def start_control_server_def Let_def await_eq_Inr split: option.splits sum.splits)

lemma halt_with_halted [simp]: "g_state (halt_with why c g) = HALTED"
  by (simp add: halt_with_def Let_def emit_def)

lemma guard_keeps_halt:
  "g_state g = HALTED \<Longrightarrow> g_state (start_code_hash_guard cfg read g) = HALTED"
  by (auto simp: start_code_hash_guard_def verify_code_def Let_def split: option.split)

lemma unverified_halts:
  assumes "mismatched cfg rd \<or> probe_failed cfg rd"
  shows "g_state (start_code_hash_guard cfg rd (create_gate cfg)) = HALTED"
proof (cases "mismatched cfg rd")
  case True
  from verify_mismatched [OF this] show ?thesis by (metis start_code_hash_guard_def fst_conv halt_with_halted)
next
  case False
  with assms have "probe_failed cfg rd" by blast
  from verify_failed [OF False this, of "g_codeHashHaltSeq (create_gate cfg)" "create_gate cfg"]
  show ?thesis by (simp add: start_code_hash_guard_def) (simp add: create_gate_def)
qed


definition ex_settings :: risk_settings where
  "ex_settings = \<lparr>rs_risk = \<lparr>rc_maxConsecutiveFailures = None, rc_minProfit = None, rc_maxDataStalenessMs = None,
       rc_maxInFlight = Some 4, rc_expectedCodeHashes = Some [(''0xAda'', ''0xAB'')], rc_startHalted = False\<rparr>,
     rs_codeCheckIntervalMs = 300000, rs_controlTokenRef = None, rs_controlPort = 9095,
     rs_controlHost = ''127.0.0.1''\<rparr>"


lemma pg_bind_ok:
  assumes "pg_bind c a db = (Inr u, db')"
  shows "pg_owner db' = Some (c, to_lower a)" "pg_rows db' = pg_rows db"
    "pg_owner db = None \<or> pg_owner db = Some (c, to_lower a)"
  using assms by (cases "pg_owner db"; auto simp: pg_bind_def Let_def split: option.splits if_splits prod.splits)+

lemma build_executor_InrE:
  assumes "build_executor execution w c (Some ops) db = (Inr b, db')"
  obtains (manual) addr kind ttl stuck where "execution = ManualMode addr kind ttl stuck"
      "so_bind ops c addr db = (Inr (), db')" "b = BootedManual addr kind ttl stuck" "assert_custody w addr kind = Inr ()"
  | (auto) submitter signer al sub where "execution = AutoMode submitter" "bw_signer w = Inr signer"
      "so_bind ops c signer db = (Inr (), db')" "sub = build_submission (bw_node w) (bw_relay w) submitter"
      "resync_nonces (Some ops) (case sub of None \<Rightarrow> bw_node w | Some s \<Rightarrow> sb_reader s) signer (bw_now w) None
         (map_option sb_reclaimMarginBlocks sub) db' (create_allocator Map.empty) = (Inr (), al)"
      "b = BootedAuto signer al sub"
proof (cases execution)
  case (ManualMode addr kind ttl stuck)
  with assms manual show ?thesis
    by (auto simp: build_executor_def await_eq_Inr split: sum.splits prod.splits)
next
  case (AutoMode submitter)
  with assms auto show ?thesis
    by (auto simp: build_executor_def await_eq_Inr Let_def split: sum.splits prod.splits)
qed

definition booted_as :: "booted \<Rightarrow> address" where
  "booted_as b = (case b of BootedAuto signer _ _ \<Rightarrow> signer | BootedManual addr _ _ _ \<Rightarrow> addr)"


definition ex_world :: boot_world where
  "ex_world = \<lparr>bw_chainId = Inr 1, bw_signer = Inr ''0xBot'', bw_code = (\<lambda>_. Inr None),
     bw_threshold = (\<lambda>_. Inl ''no Safe''), bw_safeNonce = (\<lambda>_. Inl ''no Safe''), bw_node = ex_trailing,
     bw_relay = (\<lambda>_. Inl ''no relay''), bw_codeHash = (\<lambda>_. CodeHash ''0xab''), bw_controlBound = Inr (), bw_now = 100\<rparr>"


end
