(* ===== verification/PositionIndex.thy ===== *)
theory PositionIndex
  imports Prelude
begin

text \<open>
  What the indexer keeps (\<open>services/ponder\<close>): the three tables of \<open>ponder.schema.ts\<close>, the event handlers
  of \<open>Spoke.ts\<close>, \<open>Adapter.ts\<close> and \<open>VaultSwap.ts\<close>, and the choice of index modes. Ponder delivers the
  events one at a time in chain order; a table is an association list from its primary key.
\<close>

section \<open>Index modes\<close>

record index_env =
  ie_SPOKE_ADDRESS :: "string option"
  ie_ADAPTER_ADDRESS :: "string option"
  ie_VAULT_SWAP_ADDRESS :: "string option"

record indexing_modes =
  im_liquidation :: bool
  im_arbitrage :: bool

text \<open>\<open>!!value\<close>: neither absent nor empty.\<close>

definition truthy :: "string option \<Rightarrow> bool" where
  "truthy v \<longleftrightarrow> v \<noteq> None \<and> v \<noteq> Some []"

definition resolve_indexing_modes :: "index_env \<Rightarrow> indexing_modes outcome" where
  "resolve_indexing_modes env =
     (let hasSpoke = truthy (ie_SPOKE_ADDRESS env); hasAdapter = truthy (ie_ADAPTER_ADDRESS env) in
      if hasSpoke \<noteq> hasAdapter
      then Inl ''Liquidation indexing requires BOTH SPOKE_ADDRESS and ADAPTER_ADDRESS (set both or neither).''
      else let indexLiquidation = (hasAdapter \<and> hasSpoke); indexArbitrage = truthy (ie_VAULT_SWAP_ADDRESS env) in
        if \<not> indexLiquidation \<and> \<not> indexArbitrage
        then Inl (''Enable at least one index mode: set ADAPTER_ADDRESS + SPOKE_ADDRESS (liquidation) and/or VAULT_SWAP_ADDRESS (arbitrage).'')
        else Inr \<lparr>im_liquidation = indexLiquidation, im_arbitrage = indexArbitrage\<rparr>)"

section \<open>Share accounting\<close>

definition apply_supply :: "int option \<Rightarrow> int \<Rightarrow> int" where
  "apply_supply currentShares suppliedShares = or_default currentShares 0 + suppliedShares"

definition apply_withdraw :: "int option \<Rightarrow> int \<Rightarrow> int option" where
  "apply_withdraw currentShares withdrawnShares = (case currentShares of
     None \<Rightarrow> None
   | Some n \<Rightarrow> (let nextShares = n - withdrawnShares in if nextShares \<le> 0 then None else Some nextShares))"

definition apply_liquidation :: "int option \<Rightarrow> int \<Rightarrow> int option" where
  "apply_liquidation currentShares collateralSharesToLiquidate = (case currentShares of
     None \<Rightarrow> None
   | Some n \<Rightarrow> (let nextShares = n - collateralSharesToLiquidate in
       if nextShares \<le> 0 then None else Some nextShares))"

section \<open>The tables and the handlers\<close>

record position_row =
  pr_suppliedShares :: int
  pr_createdAt :: int
  pr_updatedAt :: int

record proxy_row =
  px_borrower :: address
  px_createdAt :: int

record escrow_row =
  er_createdAt :: int

record index_db =
  db_position :: "(address \<times> position_row) list"
  db_proxyMapping :: "(address \<times> proxy_row) list"
  db_escrowedVault :: "(hex \<times> escrow_row) list"

definition empty_db :: index_db where
  "empty_db = \<lparr>db_position = [], db_proxyMapping = [], db_escrowedVault = []\<rparr>"

datatype chain_event =
    Supply (ev_user: address) (ev_shares: int)
  | Withdraw (ev_user: address) (ev_shares: int)
  | LiquidationCall (ev_user: address) (ev_shares: int)
  | UserProxyCreated (ev_user: address) (ev_proxy: address)
  | AddedVault (ev_vault: hex)
  | RemovedVault (ev_vault: hex)

definition on_supply :: "address \<Rightarrow> int \<Rightarrow> int \<Rightarrow> index_db \<Rightarrow> index_db" where
  "on_supply proxyAddress suppliedShares timestamp db = db\<lparr>db_position := AList.update proxyAddress
     (case map_of (db_position db) proxyAddress of
        None \<Rightarrow> \<lparr>pr_suppliedShares = suppliedShares, pr_createdAt = timestamp, pr_updatedAt = timestamp\<rparr>
      | Some row \<Rightarrow> row\<lparr>pr_suppliedShares := apply_supply (Some (pr_suppliedShares row)) suppliedShares,
                        pr_updatedAt := timestamp\<rparr>)
     (db_position db)\<rparr>"

text \<open>The end both decrementing handlers share: no row left with nothing in it.\<close>

definition store_shares :: "address \<Rightarrow> position_row \<Rightarrow> int option \<Rightarrow> int \<Rightarrow> index_db \<Rightarrow> index_db" where
  "store_shares proxyAddress existing newShares timestamp db = (case newShares of
     None \<Rightarrow> db\<lparr>db_position := AList.delete proxyAddress (db_position db)\<rparr>
   | Some n \<Rightarrow> db\<lparr>db_position := AList.update proxyAddress
       (existing\<lparr>pr_suppliedShares := n, pr_updatedAt := timestamp\<rparr>) (db_position db)\<rparr>)"

definition on_withdraw :: "address \<Rightarrow> int \<Rightarrow> int \<Rightarrow> index_db \<Rightarrow> index_db" where
  "on_withdraw proxyAddress withdrawnShares timestamp db = (case map_of (db_position db) proxyAddress of
     None \<Rightarrow> db
   | Some existing \<Rightarrow> store_shares proxyAddress existing
       (apply_withdraw (Some (pr_suppliedShares existing)) withdrawnShares) timestamp db)"

definition on_liquidation_call :: "address \<Rightarrow> int \<Rightarrow> int \<Rightarrow> index_db \<Rightarrow> index_db" where
  "on_liquidation_call proxyAddress collateralSharesLiquidated timestamp db =
     (case map_of (db_position db) proxyAddress of
        None \<Rightarrow> db
      | Some existing \<Rightarrow> store_shares proxyAddress existing
          (apply_liquidation (Some (pr_suppliedShares existing)) collateralSharesLiquidated) timestamp db)"

definition on_user_proxy_created :: "address \<Rightarrow> address \<Rightarrow> int \<Rightarrow> index_db \<Rightarrow> index_db" where
  "on_user_proxy_created borrower proxyAddress timestamp db =
     (if map_of (db_proxyMapping db) proxyAddress \<noteq> None then db
      else db\<lparr>db_proxyMapping := AList.update proxyAddress
        \<lparr>px_borrower = borrower, px_createdAt = timestamp\<rparr> (db_proxyMapping db)\<rparr>)"

definition on_added_vault :: "hex \<Rightarrow> int \<Rightarrow> index_db \<Rightarrow> index_db" where
  "on_added_vault vaultId timestamp db =
     (if map_of (db_escrowedVault db) vaultId \<noteq> None then db
      else db\<lparr>db_escrowedVault := AList.update vaultId \<lparr>er_createdAt = timestamp\<rparr> (db_escrowedVault db)\<rparr>)"

definition on_removed_vault :: "hex \<Rightarrow> index_db \<Rightarrow> index_db" where
  "on_removed_vault vaultId db = db\<lparr>db_escrowedVault := AList.delete vaultId (db_escrowedVault db)\<rparr>"

text \<open>A handler runs only in the mode that registers it.\<close>

definition handle_event :: "indexing_modes \<Rightarrow> chain_event \<times> int \<Rightarrow> index_db \<Rightarrow> index_db" where
  "handle_event modes et db = (case et of (ev, t) \<Rightarrow> (case ev of
     Supply u n \<Rightarrow> if im_liquidation modes then on_supply u n t db else db
   | Withdraw u n \<Rightarrow> if im_liquidation modes then on_withdraw u n t db else db
   | LiquidationCall u n \<Rightarrow> if im_liquidation modes then on_liquidation_call u n t db else db
   | UserProxyCreated u p \<Rightarrow> if im_liquidation modes then on_user_proxy_created u p t db else db
   | AddedVault v \<Rightarrow> if im_arbitrage modes then on_added_vault v t db else db
   | RemovedVault v \<Rightarrow> if im_arbitrage modes then on_removed_vault v db else db))"

definition index_events :: "indexing_modes \<Rightarrow> (chain_event \<times> int) list \<Rightarrow> index_db" where
  "index_events modes evs = fold (handle_event modes) evs empty_db"

section \<open>The tables mirror the chain\<close>

text \<open>What the contracts hold: the shares of a position, and the vaults in escrow.\<close>

record chain_view =
  cv_shares :: "address \<Rightarrow> int"
  cv_escrow :: "hex set"

fun chain_step :: "chain_event \<Rightarrow> chain_view \<Rightarrow> chain_view" where
  "chain_step (Supply u n) c = c\<lparr>cv_shares := (cv_shares c)(u := cv_shares c u + n)\<rparr>"
| "chain_step (Withdraw u n) c = c\<lparr>cv_shares := (cv_shares c)(u := cv_shares c u - n)\<rparr>"
| "chain_step (LiquidationCall u n) c = c\<lparr>cv_shares := (cv_shares c)(u := cv_shares c u - n)\<rparr>"
| "chain_step (UserProxyCreated u p) c = c"
| "chain_step (AddedVault v) c = c\<lparr>cv_escrow := insert v (cv_escrow c)\<rparr>"
| "chain_step (RemovedVault v) c = c\<lparr>cv_escrow := cv_escrow c - {v}\<rparr>"

text \<open>What the contracts can emit: nobody takes out more shares than the position has, and a supply
  mints some.\<close>

fun chain_allows :: "chain_view \<Rightarrow> chain_event \<Rightarrow> bool" where
  "chain_allows c (Supply u n) \<longleftrightarrow> 0 < n"
| "chain_allows c (Withdraw u n) \<longleftrightarrow> 0 \<le> n \<and> n \<le> cv_shares c u"
| "chain_allows c (LiquidationCall u n) \<longleftrightarrow> 0 \<le> n \<and> n \<le> cv_shares c u"
| "chain_allows c _ \<longleftrightarrow> True"

fun chain_run :: "chain_view \<Rightarrow> chain_event list \<Rightarrow> chain_view option" where
  "chain_run c [] = Some c"
| "chain_run c (e # es) = (if chain_allows c e then chain_run (chain_step e c) es else None)"

definition genesis :: chain_view where
  "genesis = \<lparr>cv_shares = \<lambda>_. 0, cv_escrow = {}\<rparr>"

definition indexed_shares :: "index_db \<Rightarrow> address \<Rightarrow> int" where
  "indexed_shares db p = (case map_of (db_position db) p of None \<Rightarrow> 0 | Some r \<Rightarrow> pr_suppliedShares r)"

text \<open>The positions table and the escrow table are keyed, and no position row is empty.\<close>

definition positions_ok :: "index_db \<Rightarrow> bool" where
  "positions_ok db \<longleftrightarrow> (\<forall>p r. map_of (db_position db) p = Some r \<longrightarrow> 0 < pr_suppliedShares r)
     \<and> distinct (map fst (db_position db))"

definition mirrors :: "index_db \<Rightarrow> chain_view \<Rightarrow> bool" where
  "mirrors db c \<longleftrightarrow> positions_ok db \<and> (\<forall>p. indexed_shares db p = cv_shares c p)
     \<and> distinct (map fst (db_escrowedVault db)) \<and> fst ` set (db_escrowedVault db) = cv_escrow c"

definition both_modes :: indexing_modes where
  "both_modes = \<lparr>im_liquidation = True, im_arbitrage = True\<rparr>"

lemmas accounting_defs = apply_supply_def apply_withdraw_def apply_liquidation_def store_shares_def Let_def

lemma supply_shares:
  "indexed_shares (on_supply u n t db) p = (if p = u then indexed_shares db u + n else indexed_shares db p)"
  by (simp add: indexed_shares_def on_supply_def update_conv' accounting_defs split: option.split)

lemma supply_ok:
  assumes "positions_ok db" "0 < n"
  shows "positions_ok (on_supply u n t db)"
proof -
  have "0 < pr_suppliedShares r + n" if "map_of (db_position db) u = Some r" for r
    using assms that by (simp add: positions_ok_def add_pos_pos)
  then show ?thesis using assms
    by (simp add: positions_ok_def on_supply_def update_conv' distinct_update accounting_defs
        del: map_of_eq_Some_iff split: option.split)
qed

lemma withdraw_liquidation: "on_liquidation_call = on_withdraw"
  unfolding fun_eq_iff on_liquidation_call_def on_withdraw_def apply_liquidation_def apply_withdraw_def by simp

lemma withdraw_shares:
  assumes "n \<le> indexed_shares db u" "0 \<le> n"
  shows "indexed_shares (on_withdraw u n t db) p = (if p = u then indexed_shares db u - n else indexed_shares db p)"
  using assms
  by (simp add: indexed_shares_def on_withdraw_def update_conv' delete_conv' accounting_defs
      del: map_of_eq_Some_iff split: option.splits)

lemma withdraw_ok: "positions_ok db \<Longrightarrow> positions_ok (on_withdraw u n t db)"
  by (simp add: positions_ok_def on_withdraw_def update_conv' delete_conv' distinct_update distinct_delete
      accounting_defs del: map_of_eq_Some_iff split: option.split)

lemma others_keep_positions:
  "db_position (on_user_proxy_created u p t db) = db_position db"
  "db_position (on_added_vault v t db) = db_position db"
  "db_position (on_removed_vault v db) = db_position db"
  "db_escrowedVault (on_user_proxy_created u p t db) = db_escrowedVault db"
  "db_escrowedVault (on_supply u n t db) = db_escrowedVault db"
  "db_escrowedVault (on_withdraw u n t db) = db_escrowedVault db"
  by (simp_all add: on_user_proxy_created_def on_added_vault_def on_removed_vault_def on_supply_def
      on_withdraw_def store_shares_def split: option.split)

lemma added_vault:
  assumes "distinct (map fst (db_escrowedVault db))"
  shows "distinct (map fst (db_escrowedVault (on_added_vault v t db)))"
    "fst ` set (db_escrowedVault (on_added_vault v t db)) = insert v (fst ` set (db_escrowedVault db))"
  using assms by (auto simp: on_added_vault_def distinct_update dom_update simp del: map_of_eq_Some_iff
      dest!: map_of_SomeD intro: rev_image_eqI)

lemma removed_vault:
  assumes "distinct (map fst (db_escrowedVault db))"
  shows "distinct (map fst (db_escrowedVault (on_removed_vault v db)))"
    "fst ` set (db_escrowedVault (on_removed_vault v db)) = fst ` set (db_escrowedVault db) - {v}"
  using assms by (auto simp: on_removed_vault_def AList.delete_eq distinct_map_filter image_iff)

lemma others_keep_shares:
  "positions_ok (on_user_proxy_created u p t db) = positions_ok db"
  "positions_ok (on_added_vault v t db) = positions_ok db"
  "positions_ok (on_removed_vault v db) = positions_ok db"
  "indexed_shares (on_user_proxy_created u p t db) q = indexed_shares db q"
  "indexed_shares (on_added_vault v t db) q = indexed_shares db q"
  "indexed_shares (on_removed_vault v db) q = indexed_shares db q"
  by (simp_all add: positions_ok_def indexed_shares_def others_keep_positions)

lemma handle_event_mirrors:
  assumes "mirrors db c" "chain_allows c e"
  shows "mirrors (handle_event both_modes (e, t) db) (chain_step e c)"
  using assms
  by (cases e) (simp_all add: mirrors_def handle_event_def both_modes_def withdraw_liquidation supply_shares
      supply_ok withdraw_shares withdraw_ok others_keep_positions others_keep_shares added_vault removed_vault)

lemma fold_mirrors:
  assumes "mirrors db c" "chain_run c (map fst evs) = Some c'"
  shows "mirrors (fold (handle_event both_modes) evs db) c'"
  using assms
proof (induction evs arbitrary: db c)
  case (Cons et evs)
  then show ?case
    by (cases et) (auto intro!: Cons.IH [OF handle_event_mirrors] split: if_splits)
qed simp


definition sample_events :: "(chain_event \<times> int) list" where
  "sample_events = [(Supply ''p'' 100, 1), (AddedVault ''v'', 2), (LiquidationCall ''p'' 40, 3),
     (Supply ''q'' 5, 4), (Withdraw ''q'' 5, 5), (AddedVault ''w'', 6), (RemovedVault ''v'', 7)]"


text \<open>An indexer started in the middle of the chain: an event of a position it never saw supplied
  changes nothing, and what it lists is never empty.\<close>

lemma unseen_position_ignored:
  "map_of (db_position db) u = None \<Longrightarrow> on_withdraw u n t db = db \<and> on_liquidation_call u n t db = db"
  by (simp add: on_withdraw_def on_liquidation_call_def)

text \<open>The first proxy created for an address keeps its borrower.\<close>

lemma first_borrower_kept:
  "map_of (db_proxyMapping db) p = Some row
   \<Longrightarrow> map_of (db_proxyMapping (on_user_proxy_created u p' t db)) p = Some row"
  by (auto simp: on_user_proxy_created_def update_conv' simp del: map_of_eq_Some_iff)

lemma indexing_modes_iff:
  "resolve_indexing_modes env = Inr m \<longleftrightarrow>
     truthy (ie_SPOKE_ADDRESS env) = truthy (ie_ADAPTER_ADDRESS env)
     \<and> im_liquidation m = truthy (ie_ADAPTER_ADDRESS env) \<and> im_arbitrage m = truthy (ie_VAULT_SWAP_ADDRESS env)
     \<and> (im_liquidation m \<or> im_arbitrage m)"
  by (cases m) (auto simp: resolve_indexing_modes_def Let_def)

end
