(* ===== verification/Probes.thy ===== *)
theory Probes
  imports PositionIndex JsNumbers
begin

text \<open>
  The indexer's API (\<open>services/ponder/src\<close>): classification of reverts (\<open>probeFaults.ts\<close>), probing in
  batches (\<open>probePositions.ts\<close>), previewing vaults (\<open>previewVaults.ts\<close>) and the routes of
  \<open>api/index.ts\<close>. An RPC read at the pinned block is a function of its arguments. A loop over offsets
  that would not end, which a batch size of zero causes, is \<open>None\<close>.
\<close>

section \<open>Reverts\<close>

text \<open>What a rejected call carries. For a \<open>BaseError\<close> the walk along the causes finds a revert or
  none; of it the code reads the decoded name and the reason.\<close>

record revert =
  rv_errorName :: "string option"
  rv_reason :: "string option"

datatype thrown = BaseErr string "revert option" | PlainError string | NoError string

fun as_revert :: "thrown \<Rightarrow> revert option" where
  "as_revert (BaseErr _ r) = r"
| "as_revert _ = None"

definition LENS_HEALTHY_POSITION_ERROR :: string where
  "LENS_HEALTHY_POSITION_ERROR = ''PositionNotLiquidatable''"

definition is_healthy_position_revert :: "thrown \<Rightarrow> bool" where
  "is_healthy_position_revert e \<longleftrightarrow> Option.bind (as_revert e) rv_errorName = Some LENS_HEALTHY_POSITION_ERROR"

definition VAULT_GONE_ERRORS :: "string list" where
  "VAULT_GONE_ERRORS = [''VaultNotAcquirable'', ''InvalidEscrowedVaultStatus'']"

definition is_vault_gone_revert :: "thrown \<Rightarrow> bool" where
  "is_vault_gone_revert e = (case Option.bind (as_revert e) rv_errorName of
     None \<Rightarrow> False | Some n \<Rightarrow> n \<in> set VAULT_GONE_ERRORS)"

definition describe_revert :: "thrown \<Rightarrow> string" where
  "describe_revert e = (case as_revert e of
     Some revert \<Rightarrow> (case rv_errorName revert of
         Some name \<Rightarrow> if name \<noteq> ''Error'' \<and> name \<noteq> ''Panic'' then name else or_default (rv_reason revert) name
       | None \<Rightarrow> or_default (rv_reason revert) ''revert with no data'')
   | None \<Rightarrow> (case e of
       BaseErr m _ \<Rightarrow> takeWhile (\<lambda>c. c \<noteq> CHR 0x0A) m
     | PlainError m \<Rightarrow> takeWhile (\<lambda>c. c \<noteq> CHR 0x0A) m
     | NoError s \<Rightarrow> s))"

record fault_tally =
  ft_counts :: "(string \<times> nat) list"
  ft_faulted :: nat

definition new_tally :: fault_tally where
  "new_tally = \<lparr>ft_counts = [], ft_faulted = 0\<rparr>"

definition record_fault :: "thrown \<Rightarrow> fault_tally \<Rightarrow> fault_tally" where
  "record_fault e t = (let cause = describe_revert e in
     t\<lparr>ft_faulted := ft_faulted t + 1,
       ft_counts := AList.update cause (or_default (map_of (ft_counts t) cause) 0 + 1) (ft_counts t)\<rparr>)"

definition tally_summary :: "fault_tally \<Rightarrow> string" where
  "tally_summary t = join ''; ''
     (map (\<lambda>(cause, n). show_nat n @ CHR 0xD7 # CHR '' '' # cause)
        (sort_key (\<lambda>(cause, n). - int n) (ft_counts t)))"

section \<open>Probing in batches\<close>

definition ESTIMATE_CALLDATA_BYTES :: nat where "ESTIMATE_CALLDATA_BYTES = 36"
definition PROBES_PER_CALL :: nat where "PROBES_PER_CALL = 15"
definition MULTICALL_BATCH_BYTES :: nat where
  "MULTICALL_BATCH_BYTES = PROBES_PER_CALL * ESTIMATE_CALLDATA_BYTES"
definition PROBE_CHUNK_SIZE :: nat where "PROBE_CHUNK_SIZE = 25"

text \<open>The batch size and whether the setting was refused.\<close>

definition resolve_chunk_size :: "string option \<Rightarrow> nat \<times> bool" where
  "resolve_chunk_size raw = (case raw of None \<Rightarrow> (PROBE_CHUNK_SIZE, False)
   | Some s \<Rightarrow>
       if trim s = [] then (PROBE_CHUNK_SIZE, False)
       else (case number_integer s of
           None \<Rightarrow> (PROBE_CHUNK_SIZE, True)
         | Some parsed \<Rightarrow> if parsed < 1 then (PROBE_CHUNK_SIZE, True) else (nat parsed, False)))"

datatype 't probe = Success 't | Failure thrown

datatype 't chunked_probe = Probed "'t probe" | Unscanned thrown

definition count_mismatch :: "nat \<Rightarrow> nat \<Rightarrow> string \<Rightarrow> thrown" where
  "count_mismatch got wanted what = PlainError (''batch returned '' @ show_nat got @ '' result(s) for ''
     @ show_nat wanted @ '' '' @ what @ ''(s)'')"

text \<open>One turn of the loop: the probes of a batch, and the error its failure is reported with.\<close>

definition probe_batch ::
  "('i list \<Rightarrow> nat \<Rightarrow> thrown + 't probe list) \<Rightarrow> 'i list \<Rightarrow> nat \<Rightarrow> 't chunked_probe list \<times> thrown option" where
  "probe_batch runChunk chunk offset = (case runChunk chunk offset of
     Inl error \<Rightarrow> (map (\<lambda>_. Unscanned error) chunk, Some error)
   | Inr results \<Rightarrow>
       if length results \<noteq> length chunk
       then let error = count_mismatch (length results) (length chunk) ''item''
            in (map (\<lambda>_. Unscanned error) chunk, Some error)
       else (map Probed results, None))"

text \<open>The loop of \<open>probeInChunks\<close>, with the calls of \<open>onChunkFailure\<close> it makes.\<close>

partial_function (option) probe_from ::
  "nat \<Rightarrow> ('i list \<Rightarrow> nat \<Rightarrow> thrown + 't probe list) \<Rightarrow> 'i list \<Rightarrow> nat
     \<Rightarrow> 't chunked_probe list \<Rightarrow> (nat \<times> nat \<times> thrown) list
     \<Rightarrow> ('t chunked_probe list \<times> (nat \<times> nat \<times> thrown) list) option" where
  "probe_from chunkSize runChunk items offset probes warned =
     (if offset < length items
      then let chunk = take chunkSize (drop offset items);
               (ps, failed) = probe_batch runChunk chunk offset
           in probe_from chunkSize runChunk items (offset + chunkSize) (probes @ ps)
                (case failed of None \<Rightarrow> warned | Some e \<Rightarrow> warned @ [(offset, length chunk, e)])
      else Some (probes, warned))"

definition probe_in_chunks ::
  "'i list \<Rightarrow> ('i list \<Rightarrow> nat \<Rightarrow> thrown + 't probe list) \<Rightarrow> nat
     \<Rightarrow> ('t chunked_probe list \<times> (nat \<times> nat \<times> thrown) list) option" where
  "probe_in_chunks items runChunk chunkSize = probe_from chunkSize runChunk items 0 [] []"

section \<open>Candidates and the summary\<close>

text \<open>A candidate is a position with its borrower.\<close>

type_synonym candidate = "(address \<times> position_row) \<times> address"

definition borrower_of :: "(address \<times> proxy_row) list \<Rightarrow> address \<Rightarrow> address option" where
  "borrower_of proxyMappings p =
     map_of (rev (map (\<lambda>(proxy, m). (to_lower proxy, px_borrower m)) proxyMappings)) (to_lower p)"

definition select_probe_candidates ::
  "(address \<times> position_row) list \<Rightarrow> (address \<times> proxy_row) list \<Rightarrow> candidate list \<times> nat" where
  "select_probe_candidates positions proxyMappings =
     (let candidates = concat (map (\<lambda>position. case borrower_of proxyMappings (fst position) of
            None \<Rightarrow> [] | Some borrower \<Rightarrow> if borrower = [] then [] else [(position, borrower)]) positions)
      in (candidates, length positions - length candidates))"

record ('c, 't) probe_summary =
  ps_succeeded :: "('c \<times> 't) list"
  ps_checked :: nat
  ps_unscanned :: nat
  ps_faults :: fault_tally

text \<open>One turn of the \<open>forEach\<close>: the successes, the tally and the number never probed.\<close>

definition sort_probe ::
  "'c \<times> 't chunked_probe \<Rightarrow> ('c \<times> 't) list \<times> fault_tally \<times> nat \<Rightarrow> ('c \<times> 't) list \<times> fault_tally \<times> nat" where
  "sort_probe cp acc = (case (cp, acc) of ((c, p), (ok, faults, unprobed)) \<Rightarrow> (case p of
     Probed (Success v) \<Rightarrow> (ok @ [(c, v)], faults, unprobed)
   | Unscanned _ \<Rightarrow> (ok, faults, unprobed + 1)
   | Probed (Failure e) \<Rightarrow>
       if \<not> is_healthy_position_revert e then (ok, record_fault e faults, unprobed) else (ok, faults, unprobed)))"

definition summarize_probes ::
  "'c list \<Rightarrow> 't chunked_probe list \<Rightarrow> ('c, 't) probe_summary outcome" where
  "summarize_probes candidates probes =
     (if length probes \<noteq> length candidates
      then Inl (show_nat (length probes) @ '' probe(s) for '' @ show_nat (length candidates) @ '' candidate(s)'')
      else let (ok, faults, unprobed) = fold sort_probe (zip candidates probes) ([], new_tally, 0);
               unscanned = unprobed + ft_faulted faults
           in Inr \<lparr>ps_succeeded = ok, ps_checked = length candidates - unscanned,
                ps_unscanned = unscanned, ps_faults = faults\<rparr>)"

section \<open>Previews in batches\<close>

record 't vault_previews =
  vp_previews :: "'t list"
  vp_gone :: nat
  vp_failures :: "(hex \<times> thrown) list"
  vp_batchError :: "thrown option"

definition no_previews :: "'t vault_previews" where
  "no_previews = \<lparr>vp_previews = [], vp_gone = 0, vp_failures = [], vp_batchError = None\<rparr>"

text \<open>What one settled single-vault read adds.\<close>

definition settle_preview :: "hex \<times> (thrown + 't list) \<Rightarrow> 't vault_previews \<Rightarrow> 't vault_previews" where
  "settle_preview idr out = (case idr of (vaultId, result) \<Rightarrow> (case result of
     Inr (v # _) \<Rightarrow> out\<lparr>vp_previews := vp_previews out @ [v]\<rparr>
   | Inr [] \<Rightarrow> out\<lparr>vp_failures := vp_failures out @ [(vaultId, NoError ''empty response'')]\<rparr>
   | Inl e \<Rightarrow> if is_vault_gone_revert e then out\<lparr>vp_gone := vp_gone out + 1\<rparr>
              else out\<lparr>vp_failures := vp_failures out @ [(vaultId, e)]\<rparr>))"

definition preview_batch ::
  "(hex list \<Rightarrow> thrown + 't list) \<Rightarrow> hex list \<Rightarrow> 't vault_previews \<Rightarrow> 't vault_previews" where
  "preview_batch preview chunk out =
     (let attempt = (case preview chunk of
            Inl e \<Rightarrow> Inl e
          | Inr results \<Rightarrow> if length results \<noteq> length chunk
              then Inl (count_mismatch (length results) (length chunk) ''vault'') else Inr results)
      in case attempt of
           Inr results \<Rightarrow> out\<lparr>vp_previews := vp_previews out @ results\<rparr>
         | Inl e \<Rightarrow> fold settle_preview (map (\<lambda>vaultId. (vaultId, preview [vaultId])) chunk)
             (out\<lparr>vp_batchError := or_else (vp_batchError out) (Some e)\<rparr>))"

partial_function (option) preview_from ::
  "nat \<Rightarrow> (hex list \<Rightarrow> thrown + 't list) \<Rightarrow> hex list \<Rightarrow> nat \<Rightarrow> 't vault_previews \<Rightarrow> 't vault_previews option" where
  "preview_from chunkSize preview vaultIds offset out =
     (if offset < length vaultIds
      then preview_from chunkSize preview vaultIds (offset + chunkSize)
             (preview_batch preview (take chunkSize (drop offset vaultIds)) out)
      else Some out)"

definition preview_in_chunks ::
  "hex list \<Rightarrow> (hex list \<Rightarrow> thrown + 't list) \<Rightarrow> nat \<Rightarrow> 't vault_previews option" where
  "preview_in_chunks vaultIds preview chunkSize = preview_from chunkSize preview vaultIds 0 no_previews"

section \<open>The routes\<close>

type_synonym estimate = "int \<times> int \<times> int \<times> int \<times> hex \<times> int"

record vault_info =
  vi_vaultId :: hex
  vi_amountVault :: int
  vi_amountDebt :: int
  vi_amountInterest :: int
  vi_amountExitBtcEquivalent :: int
  vi_amountExitBtcToAcquire :: int
  vi_amountProfitEst :: int
  vi_amountDeficitEst :: int

text \<open>The public client: the code at an address, the latest block (number and seconds), and the reads at
  a block, \<open>None\<close> the latest.\<close>

record public_client =
  pc_getCode :: "address \<Rightarrow> thrown + hex option"
  pc_getBlock :: "thrown + int option \<times> int"
  pc_multicall :: "address \<Rightarrow> nat \<Rightarrow> int option \<Rightarrow> address \<Rightarrow> address list \<Rightarrow> thrown + estimate probe list"
  pc_estimate :: "int option \<Rightarrow> address \<Rightarrow> address \<Rightarrow> thrown + estimate"
  pc_preview :: "int option \<Rightarrow> address \<Rightarrow> hex list \<Rightarrow> thrown + vault_info list"

definition multicall3_address :: "string option \<Rightarrow> address" where
  "multicall3_address env = (if truthy env then or_default env [] else ''0xcA11bde05977b3631167028862bE2a173976CA11'')"

text \<open>The answer and the cache after it.\<close>

definition is_multicall_supported ::
  "public_client \<Rightarrow> address \<Rightarrow> bool option \<Rightarrow> bool \<times> bool option" where
  "is_multicall_supported client addr cache = (case cache of
     Some b \<Rightarrow> (b, cache)
   | None \<Rightarrow> (case pc_getCode client addr of
       Inr code \<Rightarrow> (let b = truthy code \<and> code \<noteq> Some ''0x'' in (b, Some b))
     | Inl e \<Rightarrow> (False, Some False)))"

record block_ref =
  br_blockNumber :: int
  br_dataTimestampMs :: millis

definition read_block_ref :: "public_client \<Rightarrow> block_ref option" where
  "read_block_ref client = (case pc_getBlock client of
     Inl e \<Rightarrow> None
   | Inr (number, timestamp) \<Rightarrow> (case number of None \<Rightarrow> None
       | Some n \<Rightarrow> Some \<lparr>br_blockNumber = n, br_dataTimestampMs = timestamp * 1000\<rparr>))"

record liquidatable_entry =
  le_proxyAddress :: address
  le_borrower :: address
  le_debtReserveId :: string
  le_debtToCover :: string
  le_vaultId :: hex
  le_suppliedShares :: string

text \<open>Fields the answer to an empty table leaves out are \<open>None\<close>.\<close>

record liquidatable_body =
  lb_liquidatable :: "liquidatable_entry list"
  lb_total :: nat
  lb_checked :: nat
  lb_unscanned :: "nat option"
  lb_unmapped :: "nat option"
  lb_scanMs :: "millis option"
  lb_dataTimestampMs :: "millis option"

definition to_entry :: "candidate \<times> estimate \<Rightarrow> liquidatable_entry" where
  "to_entry cv = (case cv of (((proxy, row), borrower), (debtReserveId, debtToCover, _, _, vaultId, _)) \<Rightarrow>
     \<lparr>le_proxyAddress = proxy, le_borrower = borrower, le_debtReserveId = show_int debtReserveId,
      le_debtToCover = show_int debtToCover, le_vaultId = vaultId,
      le_suppliedShares = show_int (pr_suppliedShares row)\<rparr>)"

definition candidate_proxy :: "candidate \<Rightarrow> address" where
  "candidate_proxy c = fst (fst c)"

definition multicall_chunk ::
  "public_client \<Rightarrow> address \<Rightarrow> address \<Rightarrow> int option \<Rightarrow> candidate list \<Rightarrow> nat \<Rightarrow> thrown + estimate probe list" where
  "multicall_chunk client multicall3 lens blockNumber chunk offset =
     pc_multicall client multicall3 MULTICALL_BATCH_BYTES blockNumber lens (map candidate_proxy chunk)"

definition read_chunk ::
  "public_client \<Rightarrow> address \<Rightarrow> int option \<Rightarrow> candidate list \<Rightarrow> nat \<Rightarrow> thrown + estimate probe list" where
  "read_chunk client lens blockNumber chunk offset =
     Inr (map (\<lambda>c. case pc_estimate client blockNumber lens (candidate_proxy c) of
                 Inr v \<Rightarrow> Success v | Inl e \<Rightarrow> Failure e) chunk)"

text \<open>\<open>GET /liquidatable-positions\<close>: the status with the error or the body, and the multicall cache.\<close>

definition liquidatable_positions ::
  "public_client option \<Rightarrow> string option \<Rightarrow> address \<Rightarrow> nat \<Rightarrow> index_db \<Rightarrow> millis \<Rightarrow> bool option
     \<Rightarrow> ((int \<times> (string + liquidatable_body)) outcome \<times> bool option) option" where
  "liquidatable_positions publicClient lensAddress multicall3 chunkSize db scanMs cache =
     (case publicClient of
        None \<Rightarrow> Some (Inr (500, Inl ''No public client configured''), cache)
      | Some client \<Rightarrow>
     if \<not> truthy lensAddress then Some (Inr (500, Inl ''LENS_ADDRESS not configured''), cache)
     else if db_position db = []
     then Some (Inr (200, Inr \<lparr>lb_liquidatable = [], lb_total = 0, lb_checked = 0, lb_unscanned = None,
            lb_unmapped = None, lb_scanMs = None, lb_dataTimestampMs = None\<rparr>), cache)
     else
       let lens = or_default lensAddress [];
           blockRef = read_block_ref client;
           blockNumber = map_option br_blockNumber blockRef;
           (candidates, unmapped) = select_probe_candidates (db_position db) (db_proxyMapping db);
           (supported, cache') = is_multicall_supported client multicall3 cache
       in case probe_in_chunks candidates
              (if supported then multicall_chunk client multicall3 lens blockNumber
               else read_chunk client lens blockNumber) chunkSize of
            None \<Rightarrow> None
          | Some (probes, _) \<Rightarrow> Some (await (summarize_probes candidates probes) (\<lambda>s.
              let liquidatable = map to_entry (ps_succeeded s) in
              Inr (200, Inr \<lparr>lb_liquidatable = liquidatable, lb_total = length liquidatable,
                lb_checked = ps_checked s, lb_unscanned = Some (ps_unscanned s), lb_unmapped = Some unmapped,
                lb_scanMs = Some scanMs, lb_dataTimestampMs = map_option br_dataTimestampMs blockRef\<rparr>)), cache'))"

record api_vault =
  av_vaultId :: hex
  av_btcAmount :: string
  av_currentDebt :: string
  av_isProfitable :: bool
  av_createdAt :: string

definition to_api_vault :: "(hex \<times> escrow_row) list \<Rightarrow> vault_info \<Rightarrow> api_vault" where
  "to_api_vault vaults info =
     \<lparr>av_vaultId = vi_vaultId info, av_btcAmount = show_int (vi_amountVault info),
      av_currentDebt = show_int (vi_amountExitBtcToAcquire info), av_isProfitable = (vi_amountProfitEst info > 0),
      av_createdAt = or_default (map_option (show_int \<circ> er_createdAt) (map_of vaults (vi_vaultId info))) ''0''\<rparr>"

record escrowed_body =
  eb_vaults :: "api_vault list"
  eb_total :: nat
  eb_failedVaultsCount :: nat
  eb_dataTimestampMs :: "millis option"

text \<open>\<open>GET /escrowed-vaults\<close>.\<close>

definition escrowed_vaults ::
  "public_client option \<Rightarrow> string option \<Rightarrow> index_db \<Rightarrow> (int \<times> (string + escrowed_body)) option" where
  "escrowed_vaults publicClient vaultSwapAddress db = (case publicClient of
     None \<Rightarrow> Some (500, Inl ''No public client configured'')
   | Some client \<Rightarrow>
     if \<not> truthy vaultSwapAddress then Some (500, Inl ''VAULT_SWAP_ADDRESS not configured'')
     else if db_escrowedVault db = []
     then Some (200, Inr \<lparr>eb_vaults = [], eb_total = 0, eb_failedVaultsCount = 0, eb_dataTimestampMs = None\<rparr>)
     else
       let vaults = db_escrowedVault db;
           blockRef = read_block_ref client;
           preview = pc_preview client (map_option br_blockNumber blockRef) (or_default vaultSwapAddress [])
       in case preview_in_chunks (map fst vaults) preview PROBE_CHUNK_SIZE of
            None \<Rightarrow> None
          | Some r \<Rightarrow>
              let enrichedVaults = map (to_api_vault vaults) (vp_previews r) in
              Some (if length enrichedVaults > 0 \<or> length (vp_failures r) = 0 then 200 else 500,
                Inr \<lparr>eb_vaults = enrichedVaults, eb_total = length enrichedVaults,
                  eb_failedVaultsCount = length (vp_failures r),
                  eb_dataTimestampMs = map_option br_dataTimestampMs blockRef\<rparr>))"

text \<open>The debugging routes.\<close>

definition positions_route :: "index_db \<Rightarrow> (address \<times> position_row) list \<times> nat" where
  "positions_route db = (db_position db, length (db_position db))"

definition escrowed_vaults_raw :: "index_db \<Rightarrow> (hex \<times> escrow_row) list \<times> nat" where
  "escrowed_vaults_raw db = (db_escrowedVault db, length (db_escrowedVault db))"

section \<open>Batches keep the order and end\<close>

text \<open>What the code says of the item at \<open>i\<close>: its batch's answer, or that it was never probed.\<close>

definition item_probe ::
  "('i list \<Rightarrow> nat \<Rightarrow> thrown + 't probe list) \<Rightarrow> nat \<Rightarrow> 'i list \<Rightarrow> nat \<Rightarrow> 't chunked_probe" where
  "item_probe runChunk chunkSize items i =
     (let offset = i div chunkSize * chunkSize; chunk = take chunkSize (drop offset items)
      in case runChunk chunk offset of
           Inl e \<Rightarrow> Unscanned e
         | Inr results \<Rightarrow> if length results = length chunk then Probed (results ! (i - offset))
             else Unscanned (count_mismatch (length results) (length chunk) ''item''))"

lemma probe_batch_length [simp]: "length (fst (probe_batch runChunk chunk offset)) = length chunk"
  by (auto simp: probe_batch_def Let_def split: sum.split)

lemma probe_batch_nth:
  assumes "k < length (take cs (drop (j * cs) items))" "0 < cs"
  shows "fst (probe_batch runChunk (take cs (drop (j * cs) items)) (j * cs)) ! k
    = item_probe runChunk cs items (j * cs + k)"
proof -
  have "(j * cs + k) div cs = j" using assms by simp
  then show ?thesis using assms
    by (auto simp: probe_batch_def item_probe_def Let_def nth_map split: sum.split)
qed

text \<open>The batches of a list from batch \<open>j\<close> on, each with its offset.\<close>

lemma probe_from_spec:
  assumes "0 < cs" "probes = map (item_probe runChunk cs items) [0..<min (j * cs) (length items)]"
  shows "\<exists>warned'. probe_from cs runChunk items (j * cs) probes warned
    = Some (map (item_probe runChunk cs items) [0..<length items], warned')"
  using assms(2)
proof (induction "length items - j * cs" arbitrary: j probes warned rule: less_induct)
  case less
  show ?case
  proof (cases "j * cs < length items")
    case False
    then show ?thesis using less.prems by (subst probe_from.simps) (simp add: min_def)
  next
    case True
    let ?chunk = "take cs (drop (j * cs) items)"
    obtain ps failed where b: "probe_batch runChunk ?chunk (j * cs) = (ps, failed)" by fastforce
    have len: "length ps = min cs (length items - j * cs)"
      using probe_batch_length [of runChunk ?chunk "j * cs"] b by simp
    have "probes @ ps = map (item_probe runChunk cs items) [0..<min (Suc j * cs) (length items)]"
    proof (rule nth_equalityI)
      show "length (probes @ ps) = length (map (item_probe runChunk cs items) [0..<min (Suc j * cs) (length items)])"
        using less.prems len True by (auto simp: min_def)
      fix i assume i: "i < length (probes @ ps)"
      show "(probes @ ps) ! i = map (item_probe runChunk cs items) [0..<min (Suc j * cs) (length items)] ! i"
      proof (cases "i < j * cs")
        case True
        with i \<open>j * cs < length items\<close> less.prems len show ?thesis by (simp add: nth_append min_def)
      next
        case False
        have k: "i - j * cs < length ?chunk" using i len less.prems False True by (auto simp: min_def split: if_splits)
        then have "ps ! (i - j * cs) = item_probe runChunk cs items i"
          using probe_batch_nth [OF k assms(1), of runChunk] b False by simp
        moreover have "length probes = j * cs" using less.prems True by simp
        moreover have "i < min (Suc j * cs) (length items)"
          using i len less.prems True by (auto simp: min_def split: if_splits)
        ultimately show ?thesis using False by (simp add: nth_append del: mult_Suc)
      qed
    qed
    moreover have "length items - Suc j * cs < length items - j * cs" using True assms(1) by simp
    ultimately show ?thesis
      using less.hyps [of "Suc j" "probes @ ps"] True b
      by (subst probe_from.simps) (simp add: Let_def add.commute)
  qed
qed

lemma probe_in_chunks_eq:
  assumes "0 < cs"
  shows "\<exists>warned. probe_in_chunks items runChunk cs
    = Some (map (item_probe runChunk cs items) [0..<length items], warned)"
  using probe_from_spec [OF assms, of "[]" runChunk items 0] by (simp add: probe_in_chunks_def)

text \<open>The size a setting resolves to is never zero, so the loop ends on any setting.\<close>

lemma resolve_chunk_size_pos: "0 < fst (resolve_chunk_size raw)"
  by (auto simp: resolve_chunk_size_def PROBE_CHUNK_SIZE_def split: option.split)

lemma resolve_chunk_size_iff:
  "snd (resolve_chunk_size (Some s)) \<longleftrightarrow> trim s \<noteq> [] \<and> (case number_integer s of None \<Rightarrow> True | Some n \<Rightarrow> n < 1)"
  by (auto simp: resolve_chunk_size_def split: option.split)

text \<open>A scan in batches answers for every item, in order, and a failed batch never reads as an
  answer. Whatever \<open>POSITION_PROBE_CHUNK_SIZE\<close> says, the loop ends with one entry per item: the result its own
  batch returned at its place, or \<open>unscanned\<close> if that batch rejected or returned a wrong number of
  results.\<close>

theorem failed_batch_is_unscanned:
  fixes items :: "'i list" and runChunk :: "'i list \<Rightarrow> nat \<Rightarrow> thrown + 't probe list"
  shows "case probe_in_chunks items runChunk (fst (resolve_chunk_size raw)) of
     None \<Rightarrow> False
   | Some (probes, warned) \<Rightarrow> length probes = length items
       \<and> list_all (\<lambda>i.
            let chunkSize = fst (resolve_chunk_size raw);
                offset = i div chunkSize * chunkSize;
                chunk = take chunkSize (drop offset items)
            in probes ! i = (case runChunk chunk offset of
                 Inl e \<Rightarrow> Unscanned e
               | Inr results \<Rightarrow> if length results = length chunk then Probed (results ! (i - offset))
                   else Unscanned (count_mismatch (length results) (length chunk) ''item'')))
          [0..<length items]"
  using probe_in_chunks_eq [OF resolve_chunk_size_pos, of items runChunk raw]
  by (auto simp: list_all_iff item_probe_def [symmetric] item_probe_def Let_def)

section \<open>No candidates is never inferred from a failure\<close>

definition found :: "'c \<times> 't chunked_probe \<Rightarrow> ('c \<times> 't) list" where
  "found cp = (case cp of (c, Probed (Success v)) \<Rightarrow> [(c, v)] | _ \<Rightarrow> [])"

definition gap :: "'c \<times> 't chunked_probe \<Rightarrow> bool" where
  "gap cp = (case snd cp of Unscanned _ \<Rightarrow> True | Probed (Success _) \<Rightarrow> False
     | Probed (Failure e) \<Rightarrow> \<not> is_healthy_position_revert e)"

lemma fold_sort_probe:
  "\<exists>f' u'. fold sort_probe cps (ok, f, u) = (ok @ concat (map found cps), f', u')
     \<and> u' + ft_faulted f' = u + ft_faulted f + length (filter gap cps)"
proof (induction cps arbitrary: ok f u)
  case (Cons cp cps)
  show ?case
    by (rule exE [OF Cons.IH [of "fst (sort_probe cp (ok, f, u))" "fst (snd (sort_probe cp (ok, f, u)))"
          "snd (snd (sort_probe cp (ok, f, u)))"]])
      (cases cp; auto simp: sort_probe_def found_def gap_def record_fault_def Let_def
        split: chunked_probe.splits probe.splits if_splits)
qed simp

lemma summarize_probes_eq:
  assumes "length probes = length candidates"
  shows "\<exists>f. summarize_probes candidates probes = Inr
     \<lparr>ps_succeeded = concat (map found (zip candidates probes)),
      ps_checked = length candidates - length (filter gap (zip candidates probes)),
      ps_unscanned = length (filter gap (zip candidates probes)), ps_faults = f\<rparr>"
  using assms fold_sort_probe [of "zip candidates probes" "[]" new_tally 0]
  by (fastforce simp: summarize_probes_def new_tally_def Let_def)

lemma candidates_iff:
  "(pr, b) \<in> set (fst (select_probe_candidates positions maps))
   \<longleftrightarrow> pr \<in> set positions \<and> borrower_of maps (fst pr) = Some b \<and> b \<noteq> []"
  by (force simp: select_probe_candidates_def Let_def split: option.splits if_splits)

lemma candidates_counted:
  "length (fst (select_probe_candidates positions maps)) + snd (select_probe_candidates positions maps)
   = length positions"
proof -
  have "length (concat (map (\<lambda>position. case borrower_of maps (fst position) of
      None \<Rightarrow> [] | Some borrower \<Rightarrow> if borrower = [] then [] else [(position, borrower)]) positions)) \<le> length positions"
    by (induction positions) (auto split: option.split)
  then show ?thesis by (simp add: select_probe_candidates_def Let_def)
qed

text \<open>What the lens documents: an estimate is the position's, and the healthy-position error is only raised for a
  healthy position (\<open>truth p = None\<close>); through the aggregate the answer at a place is the call's at that
  place. Any other failure says nothing.\<close>

definition answers :: "(address \<Rightarrow> estimate option) \<Rightarrow> address \<Rightarrow> estimate probe \<Rightarrow> bool" where
  "answers truth p r = (case r of Success v \<Rightarrow> truth p = Some v
     | Failure e \<Rightarrow> is_healthy_position_revert e \<longrightarrow> truth p = None)"

definition lens_truthful ::
  "public_client \<Rightarrow> int option \<Rightarrow> address \<Rightarrow> (address \<Rightarrow> estimate option) \<Rightarrow> bool" where
  "lens_truthful client block lens truth \<longleftrightarrow>
     (\<forall>p. answers truth p (case pc_estimate client block lens p of Inr v \<Rightarrow> Success v | Inl e \<Rightarrow> Failure e))
   \<and> (\<forall>mc bytes ps rs. pc_multicall client mc bytes block lens ps = Inr rs \<and> length rs = length ps \<longrightarrow>
        (\<forall>i < length ps. answers truth (ps ! i) (rs ! i)))"

lemma item_probe_answers:
  assumes "lens_truthful client block lens truth" "0 < cs" "i < length cands"
    and "item_probe (if supported then multicall_chunk client mc lens block else read_chunk client lens block)
           cs cands i = Probed r"
  shows "answers truth (candidate_proxy (cands ! i)) r"
proof -
  let ?o = "i div cs * cs" let ?chunk = "take cs (drop (i div cs * cs) cands)"
  have o: "?o \<le> i" "i - ?o < cs" using assms(2) by (simp_all add: minus_div_mult_eq_mod)
  then have k: "i - ?o < length ?chunk" "?chunk ! (i - ?o) = cands ! i"
    using assms(3) by (simp_all del: times_div_less_eq_dividend div_times_less_eq_dividend)
  obtain results where rs: "(if supported then multicall_chunk client mc lens block else read_chunk client lens block)
      ?chunk ?o = Inr results" "length results = length ?chunk" "r = results ! (i - ?o)"
    using assms(4) by (auto simp: item_probe_def Let_def split: sum.splits if_splits)
  show ?thesis
  proof (cases supported)
    case True
    then have "answers truth (map candidate_proxy ?chunk ! (i - ?o)) (results ! (i - ?o))"
      using rs(1,2) k(1) assms(1) [unfolded lens_truthful_def, THEN conjunct2, rule_format,
          of mc MULTICALL_BATCH_BYTES "map candidate_proxy ?chunk" results "i - ?o"]
      by (simp add: multicall_chunk_def)
    with rs k show ?thesis by simp
  next
    case False
    with rs k assms(1) show ?thesis by (auto simp: read_chunk_def lens_truthful_def)
  qed
qed

text \<open>The entries a full answer lists.\<close>

definition true_entries :: "index_db \<Rightarrow> (address \<Rightarrow> estimate option) \<Rightarrow> liquidatable_entry set" where
  "true_entries db truth = {to_entry ((pr, b), v) | pr b v. pr \<in> set (db_position db)
     \<and> borrower_of (db_proxyMapping db) (fst pr) = Some b \<and> b \<noteq> [] \<and> truth (fst pr) = Some v}"

lemma scan_entries:
  fixes cands :: "candidate list"
  assumes "\<And>i r. i < length cands \<Longrightarrow> probes ! i = Probed r \<Longrightarrow> answers truth (candidate_proxy (cands ! i)) r"
    and "length probes = length cands"
  shows "(c, v) \<in> set (concat (map found (zip cands probes))) \<Longrightarrow> c \<in> set cands \<and> truth (candidate_proxy c) = Some v"
    and "filter gap (zip cands probes) = [] \<Longrightarrow> c \<in> set cands \<Longrightarrow> truth (candidate_proxy c) = Some v
      \<Longrightarrow> (c, v) \<in> set (concat (map found (zip cands probes)))"
proof -
  assume "(c, v) \<in> set (concat (map found (zip cands probes)))"
  then obtain i where "i < length cands" "cands ! i = c" "probes ! i = Probed (Success v)"
    using assms(2) by (auto simp: set_zip found_def split: chunked_probe.splits probe.splits)
  with assms(1) [of i "Success v"] show "c \<in> set cands \<and> truth (candidate_proxy c) = Some v"
    by (auto simp: answers_def)
next
  assume g: "filter gap (zip cands probes) = []" and c: "c \<in> set cands" "truth (candidate_proxy c) = Some v"
  from c(1) obtain i where i: "i < length cands" "cands ! i = c" by (auto simp: in_set_conv_nth)
  then have m: "(c, probes ! i) \<in> set (zip cands probes)" using assms(2) by (auto simp: set_zip)
  with g have "\<not> gap (c, probes ! i)" by (auto simp: filter_empty_conv)
  then have "probes ! i = Probed (Success v)"
    using assms(1) [OF i(1)] i c(2)
    by (auto simp: gap_def answers_def split: chunked_probe.splits probe.splits)
  then have "(c, v) \<in> set (found (c, probes ! i))" by (simp add: found_def)
  with m show "(c, v) \<in> set (concat (map found (zip cands probes)))" by (auto intro!: bexI)
qed

text \<open>C31: a quiet market is never inferred from a failure. With a client and a lens configured the route
  always answers 200; every position is counted once, as checked, unscanned or without a borrower; every
  entry is a position the lens says is liquidatable at the pinned block, with its own borrower; and when
  nothing is reported unscanned, no liquidatable position with a borrower is missing. The reads are those of
  a truthful lens (\<open>lens_truthful\<close>), which may fail anywhere.\<close>

theorem quiet_market_is_real:
  assumes "lens \<noteq> []" "lens_truthful client (map_option br_blockNumber (read_block_ref client)) lens truth"
  shows "\<exists>body cache'.
      liquidatable_positions (Some client) (Some lens) mc (fst (resolve_chunk_size raw)) db scanMs cache
        = Some (Inr (200, Inr body), cache')
    \<and> lb_checked body + or_default (lb_unscanned body) 0 + or_default (lb_unmapped body) 0 = length (db_position db)
    \<and> set (lb_liquidatable body) \<subseteq> true_entries db truth
    \<and> (or_default (lb_unscanned body) 0 = 0 \<longrightarrow> true_entries db truth \<subseteq> set (lb_liquidatable body))"
proof (cases "db_position db = []")
  case True
  then show ?thesis using assms(1) by (simp add: liquidatable_positions_def truthy_def true_entries_def)
next
  case False
  let ?b = "map_option br_blockNumber (read_block_ref client)" and ?cs = "fst (resolve_chunk_size raw)"
  obtain cands unm where sel: "select_probe_candidates (db_position db) (db_proxyMapping db) = (cands, unm)" by fastforce
  obtain sup cache' where mcs: "is_multicall_supported client mc cache = (sup, cache')" by fastforce
  let ?run = "if sup then multicall_chunk client mc lens ?b else read_chunk client lens ?b"
  define probes where "probes = map (item_probe ?run ?cs cands) [0..<length cands]"
  obtain warned where pc: "probe_in_chunks cands ?run ?cs = Some (probes, warned)"
    using probe_in_chunks_eq [OF resolve_chunk_size_pos] unfolding probes_def by blast
  have len: "length probes = length cands" by (simp add: probes_def)
  obtain f where s: "summarize_probes cands probes = Inr
     \<lparr>ps_succeeded = concat (map found (zip cands probes)),
      ps_checked = length cands - length (filter gap (zip cands probes)),
      ps_unscanned = length (filter gap (zip cands probes)), ps_faults = f\<rparr>"
    using summarize_probes_eq [OF len] by blast
  have ans: "answers truth (candidate_proxy (cands ! i)) r" if "i < length cands" "probes ! i = Probed r" for i r
    using item_probe_answers [OF assms(2) resolve_chunk_size_pos that(1)] that by (simp add: probes_def)
  have cand: "((pr, b) \<in> set cands) = (pr \<in> set (db_position db)
      \<and> borrower_of (db_proxyMapping db) (fst pr) = Some b \<and> b \<noteq> [])" for pr b
    using candidates_iff [of pr b "db_position db" "db_proxyMapping db"] by (simp add: sel)
  have counted: "length cands + unm = length (db_position db)"
    using candidates_counted [of "db_position db" "db_proxyMapping db"] by (simp add: sel)
  have gaps: "length (filter gap (zip cands probes)) \<le> length cands"
    by (rule order_trans [OF length_filter_le]) (simp add: len)
  have sound: "set (map to_entry (concat (map found (zip cands probes)))) \<subseteq> true_entries db truth"
    using scan_entries(1) [OF ans len] cand
    by (fastforce simp: true_entries_def candidate_proxy_def simp del: set_concat)
  have complete: "true_entries db truth \<subseteq> set (map to_entry (concat (map found (zip cands probes))))"
    if "filter gap (zip cands probes) = []"
    using scan_entries(2) [OF ans len that] cand
    by (fastforce simp: true_entries_def candidate_proxy_def simp del: set_concat)
  show ?thesis using False assms(1) gaps counted sound complete
    by (simp add: liquidatable_positions_def truthy_def sel mcs pc s del: set_map set_concat)
qed

definition sample_truth :: "address \<Rightarrow> estimate option" where
  "sample_truth p = (if p = ''p'' then Some (1, 50, 0, 0, ''v'', 9) else None)"

definition healthy_revert :: thrown where
  "healthy_revert = BaseErr ''reverted'' (Some \<lparr>rv_errorName = Some ''PositionNotLiquidatable'', rv_reason = None\<rparr>)"

definition sample_client :: public_client where
  "sample_client = \<lparr>pc_getCode = \<lambda>_. Inr (Some ''0x6001''), pc_getBlock = Inr (Some 77, 1000),
     pc_multicall = \<lambda>_ _ _ _ ps. Inr (map (\<lambda>p. case sample_truth p of
         Some v \<Rightarrow> Success v | None \<Rightarrow> Failure (if p = ''q'' then healthy_revert else PlainError ''timeout'')) ps),
     pc_estimate = \<lambda>_ _ p. (case sample_truth p of Some v \<Rightarrow> Inr v | None \<Rightarrow> Inl healthy_revert),
     pc_preview = \<lambda>_ _ _. Inl healthy_revert\<rparr>"

definition sample_db :: index_db where
  "sample_db = fold (handle_event both_modes)
     [(Supply ''p'' 5, 1), (UserProxyCreated ''alice'' ''p'', 1), (Supply ''q'' 6, 2),
      (UserProxyCreated ''bob'' ''q'', 2), (Supply ''r'' 7, 3)] empty_db"

lemma sample_truthful: "lens_truthful sample_client block lens sample_truth"
  by (auto simp: lens_truthful_def answers_def sample_client_def split: option.split)

theorem quiet_market_is_real_witness:
  "\<exists>body cache'. liquidatable_positions (Some sample_client) (Some ''lens'') ''mc'' (fst (resolve_chunk_size (Some ''2'')))
       sample_db 3 None = Some (Inr (200, Inr body), cache')
     \<and> lb_checked body + or_default (lb_unscanned body) 0 + or_default (lb_unmapped body) 0 = 3"
proof -
  have "length (db_position sample_db) = 3" by code_simp
  with quiet_market_is_real [of "''lens''", OF _ sample_truthful, of "''mc''" "Some ''2''" sample_db 3 None]
  show ?thesis by auto
qed

section \<open>Batched previews are the single ones\<close>

text \<open>The read answers for its vaults in order, and for one of them as it would alone.\<close>

definition preview_in_order :: "(hex list \<Rightarrow> thrown + 't list) \<Rightarrow> bool" where
  "preview_in_order preview \<longleftrightarrow> (\<forall>ids rs. preview ids = Inr rs \<and> length rs = length ids \<longrightarrow>
     (\<forall>i < length ids. preview [ids ! i] = Inr [rs ! i]))"

text \<open>The reference: every vault read alone.\<close>

definition preview_each :: "(hex list \<Rightarrow> thrown + 't list) \<Rightarrow> hex list \<Rightarrow> 't vault_previews \<Rightarrow> 't vault_previews" where
  "preview_each preview ids out = fold settle_preview (map (\<lambda>v. (v, preview [v])) ids) out"

lemma settle_keeps_error:
  "settle_preview ir (out\<lparr>vp_batchError := e\<rparr>) = (settle_preview ir out)\<lparr>vp_batchError := e\<rparr>"
  by (cases ir) (auto simp: settle_preview_def split: sum.split list.split)

lemma fold_settle_keeps_error:
  "fold settle_preview irs (out\<lparr>vp_batchError := e\<rparr>) = (fold settle_preview irs out)\<lparr>vp_batchError := e\<rparr>"
  by (induction irs arbitrary: out) (simp_all add: settle_keeps_error)

lemma preview_each_all_ok:
  assumes "length rs = length ids" "\<And>i. i < length ids \<Longrightarrow> preview [ids ! i] = Inr [rs ! i]"
  shows "preview_each preview ids out = out\<lparr>vp_previews := vp_previews out @ rs\<rparr>"
  using assms
proof (induction ids rs arbitrary: out rule: list_induct2')
  case (4 v ids r rs)
  have "preview [v] = Inr [r]" "\<And>i. i < length ids \<Longrightarrow> preview [ids ! i] = Inr [rs ! i]"
    using 4(3) [of 0] 4(3) [of "Suc _"] by auto
  with 4(1) [of "settle_preview (v, preview [v]) out"] 4(2) show ?case
    by (simp add: preview_each_def settle_preview_def)
qed (simp_all add: preview_each_def)

lemma preview_batch_each:
  assumes "preview_in_order preview"
  shows "\<exists>e. preview_batch preview chunk out = (preview_each preview chunk out)\<lparr>vp_batchError := e\<rparr>"
proof (cases "\<exists>rs. preview chunk = Inr rs \<and> length rs = length chunk")
  case True
  then obtain rs where rs: "preview chunk = Inr rs" "length rs = length chunk" by blast
  with assms have "preview_each preview chunk out = out\<lparr>vp_previews := vp_previews out @ rs\<rparr>"
    by (intro preview_each_all_ok) (auto simp: preview_in_order_def)
  with rs have "preview_batch preview chunk out
      = (preview_each preview chunk out)\<lparr>vp_batchError := vp_batchError out\<rparr>"
    by (simp add: preview_batch_def Let_def)
  then show ?thesis by blast
next
  case False
  then show ?thesis
    by (auto simp: preview_batch_def Let_def preview_each_def fold_settle_keeps_error split: sum.split)
qed

lemma preview_from_each:
  assumes "preview_in_order preview" "0 < cs"
  shows "\<exists>e. preview_from cs preview ids offset out
    = Some ((preview_each preview (drop offset ids) out)\<lparr>vp_batchError := e\<rparr>)"
proof (induction "length ids - offset" arbitrary: offset out rule: less_induct)
  case less
  show ?case
  proof (cases "offset < length ids")
    case False
    then have "preview_from cs preview ids offset out
        = Some ((preview_each preview (drop offset ids) out)\<lparr>vp_batchError := vp_batchError out\<rparr>)"
      by (subst preview_from.simps) (simp add: preview_each_def)
    then show ?thesis by blast
  next
    case True
    let ?chunk = "take cs (drop offset ids)"
    obtain e where e: "preview_batch preview ?chunk out = (preview_each preview ?chunk out)\<lparr>vp_batchError := e\<rparr>"
      using preview_batch_each [OF assms(1)] by blast
    have step: "preview_from cs preview ids offset out
        = preview_from cs preview ids (offset + cs) (preview_batch preview ?chunk out)"
      using True by (subst preview_from.simps) simp
    have "length ids - (offset + cs) < length ids - offset" using True assms(2) by simp
    from less.hyps [OF this] obtain e' where e':
      "preview_from cs preview ids (offset + cs) (preview_batch preview ?chunk out)
       = Some ((preview_each preview (drop (offset + cs) ids) (preview_batch preview ?chunk out))\<lparr>vp_batchError := e'\<rparr>)"
      by blast
    have d: "drop offset ids = ?chunk @ drop (offset + cs) ids"
      using append_take_drop_id [of cs "drop offset ids"] by (simp add: add.commute)
    have each: "preview_each preview (drop offset ids) out
        = preview_each preview (drop (offset + cs) ids) (preview_each preview ?chunk out)"
      by (rule trans [OF arg_cong [OF d, of "\<lambda>l. preview_each preview l out"]]) (simp add: preview_each_def)
    have "preview_from cs preview ids offset out
        = Some ((preview_each preview (drop offset ids) out)\<lparr>vp_batchError := e'\<rparr>)"
      unfolding step unfolding e' unfolding each e by (simp add: preview_each_def fold_settle_keeps_error)
    then show ?thesis by blast
  qed
qed

lemma preview_each_counts:
  "length (vp_previews (preview_each preview ids out)) + vp_gone (preview_each preview ids out)
     + length (vp_failures (preview_each preview ids out))
   = length (vp_previews out) + vp_gone out + length (vp_failures out) + length ids"
proof (induction ids arbitrary: out)
  case (Cons v ids)
  have "length (vp_previews (settle_preview (v, preview [v]) out)) + vp_gone (settle_preview (v, preview [v]) out)
     + length (vp_failures (settle_preview (v, preview [v]) out))
   = Suc (length (vp_previews out) + vp_gone out + length (vp_failures out))"
    by (auto simp: settle_preview_def split: sum.split list.split)
  with Cons [of "settle_preview (v, preview [v]) out"] show ?case by (simp add: preview_each_def)
qed (simp add: preview_each_def)

text \<open>Reading escrowed vaults in batches gives what reading each of them alone would: the same previews
  in the same order, the same departed vaults and the same failures, so a vault that left escrow costs no
  other vault its place in the answer, whatever the batch size. Every vault is counted once.\<close>

theorem batched_previews_are_single:
  assumes "preview_in_order preview" "0 < chunkSize"
  shows "case preview_in_chunks ids preview chunkSize of None \<Rightarrow> False
    | Some r \<Rightarrow> r\<lparr>vp_batchError := None\<rparr> = fold settle_preview (map (\<lambda>v. (v, preview [v])) ids) no_previews
        \<and> length (vp_previews r) + vp_gone r + length (vp_failures r) = length ids"
proof -
  obtain e where e: "preview_in_chunks ids preview chunkSize
      = Some ((preview_each preview ids no_previews)\<lparr>vp_batchError := e\<rparr>)"
    using preview_from_each [OF assms, of ids 0 no_previews] by (auto simp: preview_in_chunks_def)
  have "(preview_each preview ids no_previews)\<lparr>vp_batchError := None\<rparr> = preview_each preview ids no_previews"
    using fold_settle_keeps_error [of _ None no_previews, symmetric]
    by (simp add: preview_each_def no_previews_def)
  with e preview_each_counts [of preview ids no_previews] show ?thesis
    by (simp add: preview_each_def) (simp add: no_previews_def)
qed

definition sample_preview :: "hex list \<Rightarrow> thrown + nat list" where
  "sample_preview ids = (if ''gone'' \<in> set ids
     then Inl (BaseErr ''reverted'' (Some \<lparr>rv_errorName = Some ''VaultNotAcquirable'', rv_reason = None\<rparr>))
     else Inr (map length ids))"

theorem batched_previews_are_single_witness:
  "case preview_in_chunks [''a'', ''bb'', ''gone'', ''ccc''] sample_preview 2 of None \<Rightarrow> False
    | Some r \<Rightarrow> r\<lparr>vp_batchError := None\<rparr> = \<lparr>vp_previews = [1, 2, 3], vp_gone = 1, vp_failures = [], vp_batchError = None\<rparr>
        \<and> length (vp_previews r) + vp_gone r + length (vp_failures r) = 4"
proof -
  have o: "preview_in_order sample_preview"
    by (auto simp: preview_in_order_def sample_preview_def split: if_splits)
  have n: "length [''a'', ''bb'', ''gone'', ''ccc''] = 4" by simp
  have f: "fold settle_preview (map (\<lambda>v. (v, sample_preview [v])) [''a'', ''bb'', ''gone'', ''ccc'']) no_previews
      = \<lparr>vp_previews = [1, 2, 3], vp_gone = 1, vp_failures = [], vp_batchError = None\<rparr>"
    by (simp add: sample_preview_def no_previews_def settle_preview_def is_vault_gone_revert_def VAULT_GONE_ERRORS_def)
  show ?thesis
    using batched_previews_are_single [OF o, of 2 "[''a'', ''bb'', ''gone'', ''ccc'']"] unfolding n f
    by (simp only: zero_less_numeral simp_thms)
qed

text \<open>The route fails only when something broke: an empty answer with status 200 means every indexed vault
  has left escrow.\<close>

lemma escrowed_vaults_status:
  assumes "vs \<noteq> []" "db_escrowedVault db \<noteq> []"
    and "escrowed_vaults (Some client) (Some vs) db = Some (status, Inr body)"
  shows "status = 500 \<longleftrightarrow> eb_vaults body = [] \<and> 0 < eb_failedVaultsCount body"
  using assms by (auto simp: escrowed_vaults_def truthy_def Let_def split: option.splits if_splits)

end
