(* ===== verification/DbAuth.thy ===== *)
theory DbAuth
  imports JsNumbers
begin

text \<open>
  IAM database authentication of the indexer (\<open>services/ponder/src/dbAuth.ts\<close>). A parsed URL is a value,
  as the platform's URL parser gives it; the AWS signer and the \<open>pg\<close> driver are parameters. A \<open>pg\<close> instance
  is named by the identity of its \<open>defaults\<close> object.
\<close>

section \<open>The operations\<close>

datatype db_auth_mode = PasswordMode | IamMode

record db_url =
  du_protocol :: string
  du_username :: string
  du_password :: string
  du_hostname :: string
  du_port :: string
  du_params :: "(string \<times> string) list"

record iam_target =
  it_hostname :: string
  it_port :: "int option"
  it_username :: string
  it_region :: "string option"

type_synonym environment = "string \<Rightarrow> string option"

definition OVERRIDING_QUERY_KEYS :: "string list" where
  "OVERRIDING_QUERY_KEYS = [''user'', ''password'', ''host'', ''port'', ''ssl'']"

definition quoted :: "string \<Rightarrow> string" where
  "quoted s = CHR 0x22 # s @ [CHR 0x22]"

definition parse_db_auth_mode :: "string option \<Rightarrow> db_auth_mode outcome" where
  "parse_db_auth_mode raw = (case raw of None \<Rightarrow> Inr PasswordMode
   | Some s \<Rightarrow>
       if s = [] \<or> s = ''password'' then Inr PasswordMode
       else if s = ''iam'' then Inr IamMode
       else Inl (''DB_AUTH must be '' @ quoted ''password'' @ '' or '' @ quoted ''iam'' @ '', got '' @ quoted s))"

text \<open>The loop over the query keys: the first one refused, if any.\<close>

fun refuse_keys :: "string list \<Rightarrow> string list \<Rightarrow> unit outcome" where
  "refuse_keys seen [] = Inr ()"
| "refuse_keys seen (key # keys) =
     (if key \<in> set seen
      then Inl (''DB_AUTH=iam: DATABASE_URL repeats the query parameter '' @ quoted key
             @ ''; the driver keeps the last value, remove the duplicate'')
      else if key \<in> set OVERRIDING_QUERY_KEYS
      then Inl (''DB_AUTH=iam: DATABASE_URL must not carry '' @ quoted key
             @ '' as a query parameter; the driver would let it replace the URL's own value'')
      else refuse_keys (key # seen) keys)"

text \<open>\<open>URLSearchParams.get\<close> is \<^const>\<open>map_of\<close>, the first value. \<open>decode\<close> is \<open>decodeURIComponent\<close>; a port that is
  no number is \<open>None\<close> (NaN).\<close>

definition iam_target_from_url ::
  "(string \<Rightarrow> string outcome) \<Rightarrow> (string \<Rightarrow> bool) \<Rightarrow> db_url option \<Rightarrow> environment \<Rightarrow> iam_target outcome" where
  "iam_target_from_url decode existsSync parsed env = (case parsed of
     None \<Rightarrow> Inl ''DB_AUTH=iam: DATABASE_URL is not a valid URL''
   | Some url \<Rightarrow>
       if du_protocol url \<noteq> ''postgresql:'' \<and> du_protocol url \<noteq> ''postgres:''
       then Inl ''DB_AUTH=iam: DATABASE_URL must use the postgresql:// scheme''
       else if du_password url \<noteq> []
       then Inl ''DB_AUTH=iam: DATABASE_URL carries a password; a password in the URL overrides the IAM token, remove it''
       else if du_username url = []
       then Inl ''DB_AUTH=iam: DATABASE_URL has no user; the token is issued for one database user''
       else if du_hostname url = []
       then Inl ''DB_AUTH=iam: DATABASE_URL has no host''
       else await (refuse_keys [] (map fst (du_params url))) (\<lambda>_.
         let sslmode = map_of (du_params url) ''sslmode'' in
         if sslmode \<noteq> Some ''verify-full''
         then Inl (''DB_AUTH=iam: DATABASE_URL must set sslmode=verify-full (got '' @ or_default sslmode ''none''
                @ ''); an IAM token is a bearer credential and must only reach the verified server'')
         else (case map_of (du_params url) ''sslrootcert'' of
             None \<Rightarrow> Inl ''DB_AUTH=iam: DATABASE_URL must set sslrootcert=<RDS CA bundle>; Node's default trust store does not contain the RDS certificate authority''
           | Some sslrootcert \<Rightarrow>
               if sslrootcert = [] then Inl ''DB_AUTH=iam: DATABASE_URL must set sslrootcert=<RDS CA bundle>; Node's default trust store does not contain the RDS certificate authority''
               else if \<not> existsSync sslrootcert
               then Inl (''DB_AUTH=iam: sslrootcert file not found: '' @ sslrootcert)
               else if du_port url = [] \<and> env ''PGPORT'' \<noteq> None
               then Inl ''DB_AUTH=iam: DATABASE_URL has no port and PGPORT is set; the driver would connect to the PGPORT port while the token is signed for another, put the port in the URL''
               else await (decode (du_username url)) (\<lambda>username.
                 Inr \<lparr>it_hostname = du_hostname url,
                   it_port = (if du_port url \<noteq> [] then number_integer (du_port url) else Some 5432),
                   it_username = username, it_region = None\<rparr>))))"

text \<open>The defaults hooked, in the order of the loop; the code returns their number.\<close>

definition install_password_hook :: "nat list \<Rightarrow> nat list" where
  "install_password_hook modules = fold (\<lambda>m seen. if m \<in> set seen then seen else seen @ [m]) modules []"

text \<open>\<open>sign t\<close> is the signer made for \<open>t\<close> minting its first token; a factory or a signer that rejects is
  \<open>Inl\<close>. \<open>pgModules\<close> are the instances given, \<open>ponderPg\<close> the one Ponder resolves. The result is the mode, and
  in IAM mode the target of the hook and the defaults that carry it.\<close>

definition install_database_auth ::
  "(string \<Rightarrow> string outcome) \<Rightarrow> (string \<Rightarrow> bool) \<Rightarrow> (iam_target \<Rightarrow> string outcome)
     \<Rightarrow> nat list option \<Rightarrow> nat option \<Rightarrow> string option \<Rightarrow> db_url option \<Rightarrow> environment
     \<Rightarrow> (db_auth_mode \<times> (iam_target \<times> nat list) option) outcome" where
  "install_database_auth decode existsSync sign pgModules ponderPg databaseUrl parsed env =
     await (parse_db_auth_mode (env ''DB_AUTH'')) (\<lambda>mode.
     if mode \<noteq> IamMode then Inr (mode, None)
     else if databaseUrl = None \<or> databaseUrl = Some []
     then Inl ''DB_AUTH=iam: DATABASE_URL is not set (neither in the environment nor in the resolved secret); iam mode needs the shared Postgres, refusing to start on local storage''
     else if env ''PGPASSWORD'' \<noteq> None
     then Inl ''DB_AUTH=iam: PGPASSWORD is set; it would override the IAM token, unset it''
     else if env ''NODE_TLS_REJECT_UNAUTHORIZED'' = Some ''0''
     then Inl ''DB_AUTH=iam: NODE_TLS_REJECT_UNAUTHORIZED=0 is set; it turns off the certificate check that sslmode=verify-full asks for and would send the IAM token to an unverified server, unset it''
     else await (iam_target_from_url decode existsSync parsed env) (\<lambda>target0.
       let target = target0\<lparr>it_region := or_else (env ''AWS_REGION'') (env ''AWS_DEFAULT_REGION'')\<rparr> in
       await (sign target) (\<lambda>token.
         case pgModules of
           Some modules \<Rightarrow> Inr (mode, Some (target, install_password_hook modules))
         | None \<Rightarrow> (case ponderPg of
             None \<Rightarrow> Inl ''DB_AUTH=iam: ponder's pg module could not be resolved from node_modules/ponder, so no pool would carry the token hook''
           | Some pg \<Rightarrow> Inr (mode, Some (target, install_password_hook [pg]))))))"

section \<open>The token goes where it was signed for\<close>

text \<open>What the driver documents. It copies every query parameter over the URL's own parts, the last
  duplicate winning; an empty password falls back to \<open>PGPASSWORD\<close>, then to the default, and an empty port to
  \<open>PGPORT\<close>, then to 5432; the server is verified under \<open>verify-full\<close> unless \<open>ssl\<close> or the environment turns it
  off.\<close>

datatype pg_password = GivenPassword string | DefaultPassword

record pg_conn =
  pgc_host :: string
  pgc_port :: string
  pgc_user :: string
  pgc_password :: pg_password
  pgc_verified :: bool

definition last_param :: "db_url \<Rightarrow> string \<Rightarrow> string option" where
  "last_param url k = map_of (rev (du_params url)) k"

definition non_empty :: "string \<Rightarrow> string option" where
  "non_empty s = (if s = [] then None else Some s)"

definition pg_laws :: "(db_url \<Rightarrow> environment \<Rightarrow> pg_conn) \<Rightarrow> bool" where
  "pg_laws connect \<longleftrightarrow> (\<forall>url env.
     pgc_host (connect url env) = or_default (last_param url ''host'') (du_hostname url)
   \<and> pgc_user (connect url env) = or_default (last_param url ''user'') (du_username url)
   \<and> pgc_port (connect url env)
       = or_default (non_empty (or_default (last_param url ''port'') (du_port url))) (or_default (env ''PGPORT'') ''5432'')
   \<and> pgc_password (connect url env)
       = (case or_else (non_empty (or_default (last_param url ''password'') (du_password url))) (env ''PGPASSWORD'') of
            Some p \<Rightarrow> GivenPassword p | None \<Rightarrow> DefaultPassword)
   \<and> (pgc_verified (connect url env)
       \<longleftrightarrow> last_param url ''sslmode'' = Some ''verify-full'' \<and> last_param url ''ssl'' = None
          \<and> env ''NODE_TLS_REJECT_UNAUTHORIZED'' \<noteq> Some ''0''))"

lemma refuse_keys_ok:
  "refuse_keys seen keys = Inr () \<longleftrightarrow>
     distinct keys \<and> set keys \<inter> (set seen \<union> set OVERRIDING_QUERY_KEYS) = {}"
  by (induction keys arbitrary: seen) auto

lemma last_param_first:
  "distinct (map fst (du_params url)) \<Longrightarrow> last_param url k = map_of (du_params url) k"
proof -
  assume "distinct (map fst (du_params url))"
  then have "last_param url k = Some v \<longleftrightarrow> map_of (du_params url) k = Some v" for v
    by (simp add: last_param_def rev_map [symmetric])
  then show ?thesis by (metis not_None_eq)
qed

lemma last_param_None: "k \<notin> set (map fst (du_params url)) \<Longrightarrow> last_param url k = None"
  unfolding last_param_def by (simp add: map_of_eq_None_iff)

lemma iam_target_ok:
  assumes "iam_target_from_url decode existsSync parsed env = Inr t"
  obtains url where "parsed = Some url" "du_password url = []" "du_hostname url \<noteq> []"
    "distinct (map fst (du_params url))" "set (map fst (du_params url)) \<inter> set OVERRIDING_QUERY_KEYS = {}"
    "map_of (du_params url) ''sslmode'' = Some ''verify-full''"
    "du_port url = [] \<longrightarrow> env ''PGPORT'' = None"
    "it_hostname t = du_hostname url" "decode (du_username url) = Inr (it_username t)"
    "it_port t = (if du_port url \<noteq> [] then number_integer (du_port url) else Some 5432)"
  using assms
  by (auto simp: iam_target_from_url_def await_eq_Inr refuse_keys_ok Let_def split: option.splits if_splits)

lemma port_5432: "number_integer ''5432'' = Some 5432"
  by code_simp

text \<open>In IAM mode the token reaches only the server and user it was signed for. If the boot accepts the
  configuration, every connection the driver opens takes its password from the hook, goes to the
  host, port and user of the token's target, and verifies that server.\<close>

theorem iam_token_reaches_its_target:
  assumes "pg_laws connect"
    and "install_database_auth decode existsSync sign pgModules ponderPg databaseUrl (Some url) env
           = Inr (IamMode, Some (target, hooked))"
  shows "pgc_password (connect url env) = DefaultPassword
    \<and> pgc_host (connect url env) = it_hostname target
    \<and> number_integer (pgc_port (connect url env)) = it_port target
    \<and> decode (pgc_user (connect url env)) = Inr (it_username target)
    \<and> pgc_verified (connect url env)"
proof -
  obtain t where t: "iam_target_from_url decode existsSync (Some url) env = Inr t"
    and env: "env ''PGPASSWORD'' = None" "env ''NODE_TLS_REJECT_UNAUTHORIZED'' \<noteq> Some ''0''"
    and same: "it_hostname target = it_hostname t" "it_port target = it_port t" "it_username target = it_username t"
    using assms(2)
    by (auto simp: install_database_auth_def await_eq_Inr Let_def split: if_splits option.splits)
  from t obtain u where "Some url = Some u"
    and ok: "du_password u = []" "distinct (map fst (du_params u))"
      "set (map fst (du_params u)) \<inter> set OVERRIDING_QUERY_KEYS = {}"
      "map_of (du_params u) ''sslmode'' = Some ''verify-full''"
      "du_port u = [] \<longrightarrow> env ''PGPORT'' = None" "it_hostname t = du_hostname u"
      "decode (du_username u) = Inr (it_username t)"
      "it_port t = (if du_port u \<noteq> [] then number_integer (du_port u) else Some 5432)"
    by (rule iam_target_ok) blast
  then have [simp]: "u = url" by simp
  have none: "last_param url k = None" if "k \<in> set OVERRIDING_QUERY_KEYS" for k
    using ok(3) that by (intro last_param_None) auto
  show ?thesis
    using assms(1) env same ok none [of "''host''"] none [of "''user''"] none [of "''port''"]
      none [of "''password''"] none [of "''ssl''"] last_param_first [OF ok(2), of "''sslmode''"]
    by (auto simp: pg_laws_def OVERRIDING_QUERY_KEYS_def non_empty_def port_5432)
qed

definition pg_connect :: "db_url \<Rightarrow> environment \<Rightarrow> pg_conn" where
  "pg_connect url env =
     \<lparr>pgc_host = or_default (last_param url ''host'') (du_hostname url),
      pgc_port = or_default (non_empty (or_default (last_param url ''port'') (du_port url)))
        (or_default (env ''PGPORT'') ''5432''),
      pgc_user = or_default (last_param url ''user'') (du_username url),
      pgc_password = (case or_else (non_empty (or_default (last_param url ''password'') (du_password url)))
          (env ''PGPASSWORD'') of Some p \<Rightarrow> GivenPassword p | None \<Rightarrow> DefaultPassword),
      pgc_verified = (last_param url ''sslmode'' = Some ''verify-full'' \<and> last_param url ''ssl'' = None
          \<and> env ''NODE_TLS_REJECT_UNAUTHORIZED'' \<noteq> Some ''0'')\<rparr>"

definition sample_url :: db_url where
  "sample_url = \<lparr>du_protocol = ''postgresql:'', du_username = ''ponder'', du_password = [], du_hostname = ''db.rds'',
     du_port = [], du_params = [(''sslmode'', ''verify-full''), (''sslrootcert'', ''/ca.pem'')]\<rparr>"

theorem iam_token_reaches_its_target_witness:
  "pgc_password (pg_connect sample_url [''DB_AUTH'' \<mapsto> ''iam'']) = DefaultPassword
    \<and> number_integer (pgc_port (pg_connect sample_url [''DB_AUTH'' \<mapsto> ''iam''])) = Some 5432"
proof -
  have l: "pg_laws pg_connect" by (simp add: pg_laws_def pg_connect_def)
  have "install_database_auth Inr (\<lambda>f. f = ''/ca.pem'') (\<lambda>_. Inr ''token'') None (Some 1) (Some ''url'') (Some sample_url)
      [''DB_AUTH'' \<mapsto> ''iam''] = Inr (IamMode, Some (\<lparr>it_hostname = ''db.rds'', it_port = Some 5432,
        it_username = ''ponder'', it_region = None\<rparr>, [1]))"
    by (simp add: install_database_auth_def parse_db_auth_mode_def iam_target_from_url_def sample_url_def
        OVERRIDING_QUERY_KEYS_def install_password_hook_def)
  from iam_token_reaches_its_target [OF l this] show ?thesis by simp
qed

text \<open>A second query value never reaches the driver unseen: what the boot checks is what it uses.\<close>

lemma repeated_key_refused:
  "\<not> distinct (map fst (du_params url)) \<Longrightarrow> \<exists>e. refuse_keys [] (map fst (du_params url)) = Inl e"
  using refuse_keys_ok [of "[]" "map fst (du_params url)"] by (cases "refuse_keys [] (map fst (du_params url))") auto

end
