(* ===== verification/ChainReads.thy ===== *)
theory ChainReads
  imports Reconcile StoreProps Operator Indexer
begin

text \<open>
  Reading the chain through a node: the queries of \<open>packages/chain/src/queries.ts\<close>, the reader
  \<open>createChainReader\<close> binds them into (\<open>shared/liveness.ts\<close>), the token metadata cache of \<open>tokens.ts\<close>, the
  transport's policy and observer (\<open>instrumentedTransport.ts\<close>) and the wait for a receipt
  (\<open>packages/execution/src/receipt.ts\<close>). A node is a record of what each request answers; a rejection
  says whether the client raised it as "not found" or the request itself failed.
\<close>

section \<open>Queries\<close>

datatype rpc_error = ReceiptAbsent string | TxAbsent string | RpcFailure string

fun rpc_message :: "rpc_error \<Rightarrow> string" where
  "rpc_message (ReceiptAbsent m) = m"
| "rpc_message (TxAbsent m) = m"
| "rpc_message (RpcFailure m) = m"

record node =
  nd_code :: "address \<Rightarrow> hex option outcome"
  nd_receipt :: "hex \<Rightarrow> rpc_error + (receipt_status \<times> safe_event list)"
  nd_transaction :: "hex \<Rightarrow> rpc_error + unit"
  nd_transactionCount :: "address \<Rightarrow> nonce_tag \<Rightarrow> int outcome"
  nd_blockNumber :: "int outcome"
  nd_logs :: "address \<Rightarrow> int \<Rightarrow> exec_log list outcome"

text \<open>\<open>readCodeHash\<close>: an absent code is an answer, a failed read is not.\<close>

definition read_code_hash :: "(hex \<Rightarrow> hex) \<Rightarrow> node \<Rightarrow> address \<Rightarrow> hex option outcome" where
  "read_code_hash keccak nd addr = await (nd_code nd addr) (\<lambda>code.
     Inr (case code of None \<Rightarrow> None | Some c \<Rightarrow> if c = ''0x'' then None else Some (keccak c)))"

definition get_receipt_status :: "node \<Rightarrow> hex \<Rightarrow> receipt_status option outcome" where
  "get_receipt_status nd h = (case nd_receipt nd h of
     Inr (status, _) \<Rightarrow> Inr (Some (if status = RcSuccess then RcSuccess else RcReverted))
   | Inl (ReceiptAbsent _) \<Rightarrow> Inr None
   | Inl e \<Rightarrow> Inl (rpc_message e))"

definition is_tx_known :: "node \<Rightarrow> hex \<Rightarrow> bool outcome" where
  "is_tx_known nd h = (case nd_transaction nd h of
     Inr _ \<Rightarrow> Inr True
   | Inl (TxAbsent _) \<Rightarrow> Inr False
   | Inl e \<Rightarrow> Inl (rpc_message e))"

definition node_view :: "node \<Rightarrow> address \<Rightarrow> chain_view" where
  "node_view nd safe = \<lparr>cv_safeNonce = Inl '''', cv_blockNumber = nd_blockNumber nd,
     cv_logsFrom = nd_logs nd safe, cv_transaction = \<lambda>_. Inl ''''\<rparr>"

text \<open>\<open>getSafeExecution\<close> takes any failed receipt read as "no receipt yet".\<close>

definition get_safe_execution :: "node \<Rightarrow> hex \<Rightarrow> address \<Rightarrow> hex \<Rightarrow> safe_outcome option outcome" where
  "get_safe_execution nd txHash safe safeTxHash =
     Inr (judge_safe_receipt (case nd_receipt nd txHash of Inl _ \<Rightarrow> None | Inr r \<Rightarrow> Some r) safe safeTxHash)"

definition create_chain_reader :: "node \<Rightarrow> chain_reader" where
  "create_chain_reader nd = \<lparr>cr_receiptStatus = get_receipt_status nd,
     cr_nonce = nd_transactionCount nd,
     cr_blockNumber = nd_blockNumber nd,
     cr_isKnown = is_tx_known nd,
     cr_isKnownToNode = None,
     cr_safeExecution = get_safe_execution nd,
     cr_findSafe = (\<lambda>safe safeTxHash anchor.
       await (find_safe_execution_by_hash (node_view nd safe) safeTxHash anchor) (\<lambda>found.
         Inr (map_option (\<lambda>f. (sx_txHash f, sx_success f)) found)))\<rparr>"

section \<open>Token metadata\<close>

record token_meta =
  tk_symbol :: string
  tk_decimals :: int

definition read_token_meta :: "(address \<Rightarrow> string outcome) \<Rightarrow> (address \<Rightarrow> int outcome) \<Rightarrow> address \<Rightarrow> token_meta outcome" where
  "read_token_meta symbol decimals token = await (symbol token) (\<lambda>s. await (decimals token) (\<lambda>d.
     Inr \<lparr>tk_symbol = s, tk_decimals = d\<rparr>))"

text \<open>\<open>TokenMetaCache.get\<close>: a read that fails is not cached.\<close>

definition token_cache_get ::
  "(address \<Rightarrow> token_meta outcome) \<Rightarrow> address \<Rightarrow> (address \<rightharpoonup> token_meta) \<Rightarrow> token_meta outcome \<times> (address \<rightharpoonup> token_meta)" where
  "token_cache_get read token cache = (case cache token of
     Some hit \<Rightarrow> (Inr hit, cache)
   | None \<Rightarrow> (case read token of Inl e \<Rightarrow> (Inl e, cache) | Inr meta \<Rightarrow> (Inr meta, cache(token \<mapsto> meta))))"

section \<open>The transport\<close>

record transport_policy =
  tp_retryCount :: int
  tp_retryDelay :: rat
  tp_timeout :: "int option"

text \<open>The policy as given: the timeout, which has a default elsewhere, apart.\<close>

definition to_transport_policy :: "retry_config \<Rightarrow> int option \<Rightarrow> transport_policy" where
  "to_transport_policy retry timeoutMs = \<lparr>tp_retryCount = max 0 (ry_maxAttempts retry - 1),
     tp_retryDelay = ry_initialDelayMs retry, tp_timeout = timeoutMs\<rparr>"

text \<open>A request body as its parser reads it: one call or a batch, each with its \<open>method\<close> if that is text.
  A body that does not parse, or that is no text, is observed as nothing: the hook swallows the error.\<close>

datatype rpc_body = OneCall "string option" | BatchOf "string option list"

definition observe_body :: "(string \<Rightarrow> rpc_body option) \<Rightarrow> string option \<Rightarrow> string list" where
  "observe_body parse body = (case Option.bind body parse of
     None \<Rightarrow> []
   | Some (OneCall m) \<Rightarrow> List.map_filter id [m]
   | Some (BatchOf ms) \<Rightarrow> List.map_filter id ms)"

section \<open>Waiting for a receipt\<close>

definition RECEIPT_TIMEOUT_MESSAGE :: string where
  "RECEIPT_TIMEOUT_MESSAGE = ''Transaction receipt timeout''"

text \<open>\<open>Promise.race\<close> of the receipt, which settles at a time or never, and the timer.\<close>

definition wait_for_receipt :: "(millis \<times> 'r outcome) option \<Rightarrow> millis \<Rightarrow> 'r option outcome" where
  "wait_for_receipt receipt timeoutMs =
     (let first = (case receipt of
            Some (t, r) \<Rightarrow> if t < timeoutMs then r else Inl RECEIPT_TIMEOUT_MESSAGE
          | None \<Rightarrow> Inl RECEIPT_TIMEOUT_MESSAGE)
      in case first of
           Inr r \<Rightarrow> Inr (Some r)
         | Inl e \<Rightarrow> if e = RECEIPT_TIMEOUT_MESSAGE then Inr None else Inl e)"

section \<open>A failed read decides nothing\<close>

lemma receipt_absent_iff: "get_receipt_status nd h = Inr None \<longleftrightarrow> (\<exists>m. nd_receipt nd h = Inl (ReceiptAbsent m))"
  by (auto simp: get_receipt_status_def split: sum.splits rpc_error.splits prod.splits)

lemma unknown_iff: "is_tx_known nd h = Inr False \<longleftrightarrow> (\<exists>m. nd_transaction nd h = Inl (TxAbsent m))"
  by (auto simp: is_tx_known_def split: sum.splits rpc_error.splits)

lemma no_code_iff:
  "read_code_hash keccak nd a = Inr None \<longleftrightarrow> nd_code nd a = Inr None \<or> nd_code nd a = Inr (Some ''0x'')"
  by (cases "nd_code nd a") (auto simp: read_code_hash_def split: option.splits)

lemma receipt_wait_never_hangs:
  "wait_for_receipt receipt ms = Inr None \<or> (\<exists>t r. receipt = Some (t, r) \<and> t < ms \<and> wait_for_receipt receipt ms = map_sum id Some r)"
  by (auto simp: wait_for_receipt_def Let_def split: option.split sum.split)

lemma token_cache_stable:
  "fst (token_cache_get read token cache) = Inr m
   \<Longrightarrow> token_cache_get read' token (snd (token_cache_get read token cache))
     = (Inr m, snd (token_cache_get read token cache))"
  by (auto simp: token_cache_get_def split: option.splits sum.splits)

lemma read_pass_reader:
  "read_pass reader signer now g m sending repair is = Inr ps \<Longrightarrow> lc_reader (ps_liveness ps) = reader"
  by (auto simp: read_pass_def await_eq_Inr split: prod.splits)

text \<open>Without the receipt, or with a transaction that cannot be looked up where the verdict needs it, a
  broadcast row has no resolution.\<close>

lemma unreadable_receipt_unresolved:
  assumes "nd_receipt nd h = Inl (RpcFailure e)" "lc_reader lc = create_chain_reader nd" "ti_txHash i = Some h"
  shows "resolve_broadcast_intent lc latest pending i \<noteq> Inr re"
  using assms by (simp add: resolve_broadcast_intent_def create_chain_reader_def get_receipt_status_def)


definition ex_node :: node where
  "ex_node = \<lparr>nd_code = \<lambda>_. Inr None, nd_receipt = \<lambda>_. Inl (RpcFailure ''503''), nd_transaction = \<lambda>_. Inl (TxAbsent ''gone''),
     nd_transactionCount = \<lambda>_ _. Inr 9, nd_blockNumber = Inr 100, nd_logs = \<lambda>_ _. Inr []\<rparr>"


text \<open>The same node without the outage frees the row: the nonce is past it.\<close>

lemma absent_receipt_frees_row:
  assumes "nd_receipt nd h = Inl (ReceiptAbsent m)" "lc_reader lc = create_chain_reader nd"
    and "ti_txHash i = Some h" "ti_nonce i = Some n" "n < latest"
  shows "resolve_broadcast_intent lc latest pending i
    = Inr (failed_as (Some h) ''dropped/replaced (reconciled)'')"
  using assms by (simp add: resolve_broadcast_intent_def create_chain_reader_def get_receipt_status_def)

text \<open>A Safe execution whose receipt cannot be read is not a verdict either: it reads as still pending.\<close>

lemma safe_outage_pending:
  "nd_receipt nd txHash = Inl e \<Longrightarrow> get_safe_execution nd txHash safe h = Inr None"
  by (simp add: get_safe_execution_def judge_safe_receipt_def)

text \<open>A transport makes as many attempts as the retry policy asks for: the client retries
  \<open>retryCount\<close> times after the first attempt.\<close>

lemma transport_attempts: "1 \<le> ry_maxAttempts r \<Longrightarrow> tp_retryCount (to_transport_policy r t) + 1 = ry_maxAttempts r"
  by (simp add: to_transport_policy_def)

end
