(* ===== verification/Secrets.thy ===== *)
theory Secrets
  imports Config
begin

text \<open>
  Resolving secrets, \<open>packages/secrets/src\<close>: what a reference may look like (\<open>ref.ts\<close>), the environment
  adapter (\<open>index.ts\<close>) and the AWS adapter (\<open>aws.ts\<close>). The AWS client and the JSON parser are parameters.
  A resolution comes with the ids it sent to AWS, as those are recorded outside the process. In messages an
  em dash is written \<open>--\<close>.
\<close>

section \<open>References\<close>

definition is_letter :: "char \<Rightarrow> bool" where
  "is_letter c \<longleftrightarrow> c \<in> set ''ABCDEFGHIJKLMNOPQRSTUVWXYZabcdefghijklmnopqrstuvwxyz''"

definition is_small_letter :: "char \<Rightarrow> bool" where
  "is_small_letter c \<longleftrightarrow> c \<in> set ''abcdefghijklmnopqrstuvwxyz''"

definition is_digit :: "char \<Rightarrow> bool" where
  "is_digit c \<longleftrightarrow> c \<in> set ''0123456789''"

definition ref_chars :: "string \<Rightarrow> bool" where
  "ref_chars s = (case s of [] \<Rightarrow> False
     | c # cs \<Rightarrow> (is_letter c \<or> c = CHR ''_'')
         \<and> length cs \<le> 127 \<and> list_all (\<lambda>x. is_letter x \<or> is_digit x \<or> x \<in> set ''_./+=@-'') cs)"

text \<open>\<open>SECRET_ARN\<close>: seven parts between colons, which none of them can contain.\<close>

definition arn_partition :: "string \<Rightarrow> bool" where
  "arn_partition s = (case split_at (CHR ''-'') s of [] \<Rightarrow> False
     | p # ps \<Rightarrow> p = ''aws'' \<and> list_all (\<lambda>q. q \<noteq> [] \<and> list_all is_small_letter q) ps)"

definition secret_arn :: "string \<Rightarrow> bool" where
  "secret_arn s = (case split_at (CHR '':'') s of
     [a, p, service, region, account, kind, name] \<Rightarrow>
       a = ''arn'' \<and> arn_partition p \<and> service = ''secretsmanager''
       \<and> region \<noteq> [] \<and> list_all (\<lambda>c. is_small_letter c \<or> is_digit c \<or> c = CHR ''-'') region
       \<and> length account = 12 \<and> list_all is_digit account
       \<and> kind = ''secret''
       \<and> name \<noteq> [] \<and> length name \<le> 512
       \<and> list_all (\<lambda>c. is_letter c \<or> is_digit c \<or> c \<in> set ''/_+=.@-'') name
   | _ \<Rightarrow> False)"

definition hex_secret :: "string \<Rightarrow> bool" where
  "hex_secret s \<longleftrightarrow> (let body = (if take 2 s = ''0x'' then drop 2 s else s)
     in 32 \<le> length body \<and> list_all is_hex_char body)"

definition word_char :: "char \<Rightarrow> bool" where
  "word_char c \<longleftrightarrow> is_letter c \<or> is_digit c \<or> c = CHR ''_'' \<or> c = CHR ''-''"

definition after_dot :: "string \<Rightarrow> string option" where
  "after_dot s = (case dropWhile word_char s of [] \<Rightarrow> None | c # cs \<Rightarrow> if c = CHR ''.'' then Some cs else None)"

definition jwt_secret :: "string \<Rightarrow> bool" where
  "jwt_secret s \<longleftrightarrow> take 3 s = ''eyJ'' \<and> Option.bind (after_dot (drop 3 s)) after_dot \<noteq> None"

definition secret_shape :: "string \<Rightarrow> bool" where
  "secret_shape s \<longleftrightarrow> hex_secret s \<or> jwt_secret s"

definition is_usable_ref :: "string \<Rightarrow> bool" where
  "is_usable_ref ref \<longleftrightarrow> (ref_chars ref \<or> secret_arn ref) \<and> \<not> secret_shape ref"

definition describe_ref :: "string \<Rightarrow> string" where
  "describe_ref ref = ''<'' @ show_nat (length ref) @ '' chars>''"

definition assert_usable_ref :: "string \<Rightarrow> string \<Rightarrow> unit outcome" where
  "assert_usable_ref ref label =
     (if is_usable_ref ref then Inr ()
      else Inl (label @ '' is not the name of a secret ('' @ describe_ref ref
        @ '') -- it looks like a secret value. Set it to the NAME of the environment variable or AWS secret that holds the value, not to the value itself.''))"

section \<open>The environment adapter\<close>

definition env_get :: "env \<Rightarrow> string \<Rightarrow> string \<Rightarrow> string outcome" where
  "env_get env ref label = await (assert_usable_ref ref label) (\<lambda>_. case env ref of
     Some value \<Rightarrow> if value = [] then Inl (label @ '': no environment variable named '' @ describe_ref ref @ '' is set'')
                 else Inr value
   | None \<Rightarrow> Inl (label @ '': no environment variable named '' @ describe_ref ref @ '' is set''))"

section \<open>The AWS adapter\<close>

definition hash_index :: "string \<Rightarrow> nat" where
  "hash_index ref = length (takeWhile (\<lambda>c. c \<noteq> CHR ''#'') ref)"

definition secret_id :: "string \<Rightarrow> string" where
  "secret_id ref = takeWhile (\<lambda>c. c \<noteq> CHR ''#'') ref"

definition json_key :: "string \<Rightarrow> string option" where
  "json_key ref = (if CHR ''#'' \<in> set ref then Some (drop (Suc (hash_index ref)) ref) else None)"

text \<open>A parsed document: an object with its own properties in order, each with the text the adapter
  returns for it (a string itself, anything else as JSON prints it), or something else.\<close>

datatype json_doc = JsonObject "(string \<times> string) list" | JsonOther

text \<open>What every object inherits; printed as JSON a function is \<open>undefined\<close>.\<close>

definition OBJECT_MEMBERS :: "string list" where
  "OBJECT_MEMBERS = [''constructor'', ''__defineGetter__'', ''__defineSetter__'', ''hasOwnProperty'',
     ''__lookupGetter__'', ''__lookupSetter__'', ''isPrototypeOf'', ''propertyIsEnumerable'', ''toString'',
     ''valueOf'', ''toLocaleString'']"

text \<open>\<open>JSON.stringify(parsed[jsonKey])\<close>, or the text: \<open>None\<close> if the property is \<open>undefined\<close>, \<open>Some None\<close> if it
  prints as \<open>undefined\<close>.\<close>

definition json_property :: "(string \<times> string) list \<Rightarrow> string \<Rightarrow> string option option" where
  "json_property props k = (case map_of (rev props) k of
     Some v \<Rightarrow> Some (Some v)
   | None \<Rightarrow> if k = ''__proto__'' then Some (Some ''{}'') else if k \<in> set OBJECT_MEMBERS then Some None else None)"

record secret_answer =
  sa_SecretString :: "string option"
  sa_SecretBinary :: "string option"

text \<open>The resolved text (\<open>None\<close> for \<open>undefined\<close>) and the ids sent.\<close>

definition aws_get ::
  "(string \<Rightarrow> secret_answer outcome) \<Rightarrow> (string \<Rightarrow> json_doc option) \<Rightarrow> string \<Rightarrow> string
     \<Rightarrow> string option outcome \<times> string list" where
  "aws_get send parse ref label =
     (let sid = secret_id ref; jsonKey = json_key ref in
      case await (assert_usable_ref sid label) (\<lambda>_. case jsonKey of None \<Rightarrow> Inr ()
             | Some k \<Rightarrow> assert_usable_ref k (label @ '' (JSON key)'')) of
        Inl e \<Rightarrow> (Inl e, [])
      | Inr _ \<Rightarrow>
          ((case send sid of
              Inl m \<Rightarrow> Inl (label @ '': failed to fetch secret '' @ describe_ref sid @ '' from AWS Secrets Manager: '' @ m)
            | Inr out \<Rightarrow>
                (case or_else (sa_SecretString out) (sa_SecretBinary out) of
                   None \<Rightarrow> Inl (label @ '': secret '' @ describe_ref sid @ '' has no value'')
                 | Some raw \<Rightarrow>
                     (case jsonKey of
                        None \<Rightarrow> Inr (Some raw)
                      | Some k \<Rightarrow>
                          (case parse raw of
                             None \<Rightarrow> Inl (label @ '': secret '' @ describe_ref sid @ '' is not valid JSON (needed to read key ''
                               @ describe_ref k @ '')'')
                           | Some JsonOther \<Rightarrow> Inl (label @ '': secret '' @ describe_ref sid
                               @ '' is not a JSON object (needed to read key '' @ describe_ref k @ '')'')
                           | Some (JsonObject props) \<Rightarrow>
                               (case json_property props k of
                                  None \<Rightarrow> Inl (label @ '': secret '' @ describe_ref sid @ '' has no JSON key '' @ describe_ref k)
                                | Some v \<Rightarrow> Inr v))))), [sid]))"

datatype secrets_source = EnvSecrets | AwsSecrets

definition secrets_get ::
  "secrets_source \<Rightarrow> env \<Rightarrow> (string \<Rightarrow> secret_answer outcome) \<Rightarrow> (string \<Rightarrow> json_doc option) \<Rightarrow> string \<Rightarrow> string
     \<Rightarrow> string option outcome \<times> string list" where
  "secrets_get source env send parse ref label = (case source of
     EnvSecrets \<Rightarrow> (await (env_get env ref label) (\<lambda>v. Inr (Some v)), [])
   | AwsSecrets \<Rightarrow> aws_get send parse ref label)"

section \<open>A reference never leaves\<close>

text \<open>Every error there can be, built from the label, the lengths and the service's own message: the text of
  the reference, of its key and of the value are not among the arguments.\<close>

definition ref_errors :: "string \<Rightarrow> nat \<Rightarrow> nat \<Rightarrow> string \<Rightarrow> string list" where
  "ref_errors label n m service =
     (let d = (\<lambda>k. ''<'' @ show_nat k @ '' chars>'');
          unusable = (\<lambda>l k. l @ '' is not the name of a secret ('' @ d k
            @ '') -- it looks like a secret value. Set it to the NAME of the environment variable or AWS secret that holds the value, not to the value itself.'')
      in [unusable label n, unusable (label @ '' (JSON key)'') m,
          label @ '': no environment variable named '' @ d n @ '' is set'',
          label @ '': failed to fetch secret '' @ d n @ '' from AWS Secrets Manager: '' @ service,
          label @ '': secret '' @ d n @ '' has no value'',
          label @ '': secret '' @ d n @ '' is not valid JSON (needed to read key '' @ d m @ '')'',
          label @ '': secret '' @ d n @ '' is not a JSON object (needed to read key '' @ d m @ '')'',
          label @ '': secret '' @ d n @ '' has no JSON key '' @ d m])"

definition service_message :: "(string \<Rightarrow> secret_answer outcome) \<Rightarrow> string \<Rightarrow> string" where
  "service_message send ref = (case send (secret_id ref) of Inl m \<Rightarrow> m | Inr _ \<Rightarrow> [])"

text \<open>The part of a reference that names the secret.\<close>

definition ref_name :: "secrets_source \<Rightarrow> string \<Rightarrow> string" where
  "ref_name source ref = (case source of EnvSecrets \<Rightarrow> ref | AwsSecrets \<Rightarrow> secret_id ref)"

lemma env_get_Inl:
  assumes "env_get env ref label = Inl e"
  shows "e \<in> set (ref_errors label (length ref) m service)"
  using assms
  by (auto simp: env_get_def assert_usable_ref_def ref_errors_def describe_ref_def Let_def
      split: if_splits option.splits)

lemma aws_get_Inl:
  assumes "fst (aws_get send parse ref label) = Inl e"
  shows "e \<in> set (ref_errors label (length (secret_id ref)) (length (or_default (json_key ref) []))
    (service_message send ref))"
proof (cases "json_key ref")
  case None
  with assms show ?thesis
    by (auto simp: aws_get_def assert_usable_ref_def ref_errors_def describe_ref_def Let_def service_message_def
        split: if_splits option.splits sum.splits)
next
  case (Some k)
  with assms show ?thesis
    by (auto simp: aws_get_def assert_usable_ref_def ref_errors_def describe_ref_def Let_def service_message_def
        split: if_splits option.splits sum.splits json_doc.splits)
qed

lemma aws_get_sends:
  "set (snd (aws_get send parse ref label)) \<subseteq> {secret_id ref}
   \<and> (snd (aws_get send parse ref label) \<noteq> [] \<longrightarrow> is_usable_ref (secret_id ref)
       \<and> (\<forall>k. json_key ref = Some k \<longrightarrow> is_usable_ref k))"
  by (auto simp: aws_get_def assert_usable_ref_def Let_def split: if_splits option.splits sum.splits)


definition pasted_key :: string where
  "pasted_key = ''0x'' @ replicate 64 (CHR ''a'')"


text \<open>A selector that names a member every object inherits is not "absent": the lookup resolves to
  \<open>undefined\<close> where it documents that it throws.\<close>

lemma inherited_selector_undefined:
  "aws_get (\<lambda>_. Inr \<lparr>sa_SecretString = Some ''{}'', sa_SecretBinary = None\<rparr>) (\<lambda>_. Some (JsonObject []))
     ''prod/bot#toString'' ''TEST_REF'' = (Inr None, [''prod/bot''])"
  by code_simp

text \<open>A secret in the environment is returned verbatim, and an empty variable counts as unset.\<close>

lemma env_get_Inr: "env_get env ref label = Inr v \<longleftrightarrow> is_usable_ref ref \<and> env ref = Some v \<and> v \<noteq> []"
  by (auto simp: env_get_def assert_usable_ref_def split: if_splits option.splits)

end
