(* ===== verification/Signers.thy ===== *)
theory Signers
  imports Secrets
begin

text \<open>
  Key custody, \<open>packages/signer/src\<close>: the local key and the selectors (\<open>index.ts\<close>) and the AWS KMS signer
  (\<open>aws.ts\<close>). The curve library, the wallet library's hashing and the KMS client are a record of
  functions; what the code relies on of the curve is \<open>curve_laws\<close>. A signature keeps \<open>r\<close> and \<open>s\<close> as
  integers; their fixed-width hex is the wallet's rendering.
\<close>

section \<open>Selecting a signer\<close>

datatype signer_config = LocalKey string "address option" | KmsKey string "address option" "string option"

datatype resolved_signer = ResolvedLocal string "address option" | ResolvedKms string "address option" "string option"

definition build_signer_config ::
  "string \<Rightarrow> string option \<Rightarrow> string \<Rightarrow> string option \<Rightarrow> address option \<Rightarrow> string option \<Rightarrow> signer_config outcome" where
  "build_signer_config source keyRef defaultKeyRef kmsKeyId addr region =
     (if source = ''aws''
      then (case kmsKeyId of
          None \<Rightarrow> Inl ''SIGNER_SOURCE=aws requires KMS_KEY_ID to be set''
        | Some k \<Rightarrow> if k = [] then Inl ''SIGNER_SOURCE=aws requires KMS_KEY_ID to be set'' else Inr (KmsKey k addr region))
      else Inr (LocalKey (or_default keyRef defaultKeyRef) addr))"

section \<open>The libraries\<close>

record signature =
  sn_r :: int
  sn_s :: int
  sn_yParity :: nat
  sn_v :: int

record key_info =
  ki_PublicKey :: "nat list option"
  ki_KeySpec :: "string option"
  ki_KeyUsage :: "string option"
  ki_SigningAlgorithms :: "string list option"

text \<open>The key as text gives an address (\<open>privateKeyToAccount\<close>); a point gives an address; DER bytes give
  \<open>(r, s)\<close>; \<open>sl_normalizeS\<close> takes \<open>s\<close> to the lower half; a signature over a hash recovers to an address.\<close>

record 'tx signing_lib =
  sl_addressOfKey :: "string \<Rightarrow> address"
  sl_addressOfPoint :: "nat list \<Rightarrow> address"
  sl_fromDER :: "nat list \<Rightarrow> (int \<times> int) outcome"
  sl_hasHighS :: "int \<Rightarrow> bool"
  sl_normalizeS :: "int \<Rightarrow> int"
  sl_recover :: "hex \<Rightarrow> signature \<Rightarrow> address outcome"
  sl_serialize :: "'tx \<Rightarrow> signature option \<Rightarrow> hex outcome"
  sl_keccak :: "hex \<Rightarrow> hex"

record kms =
  km_getPublicKey :: "string \<Rightarrow> key_info outcome"
  km_sign :: "string \<Rightarrow> hex \<Rightarrow> nat list option outcome"

section \<open>The local signer\<close>

definition private_key_re :: "string \<Rightarrow> bool" where
  "private_key_re = hex_of_length 64"

text \<open>The address of the account; the key stays inside it.\<close>

definition create_local_signer :: "'tx signing_lib \<Rightarrow> string \<Rightarrow> address option \<Rightarrow> address outcome" where
  "create_local_signer lib privateKey expected =
     (if \<not> private_key_re privateKey
      then Inl ''invalid private key: expected 0x-prefixed 32-byte hex (66 chars)''
      else let addr = sl_addressOfKey lib privateKey in
        case expected of
          Some want \<Rightarrow> if want \<noteq> [] \<and> \<not> same_address want addr
            then Inl (''the configured signing key derives address '' @ addr @ '', not the configured '' @ want)
            else Inr addr
        | None \<Rightarrow> Inr addr)"

section \<open>The KMS signer\<close>

text \<open>\<open>subarray(length - 65)\<close>: a start below zero counts from the end, and stops at the first byte.\<close>

definition trailing_point :: "nat list \<Rightarrow> nat list" where
  "trailing_point der = (let n = int (length der); from_index = n - 65 in
     drop (nat (if from_index < 0 then max 0 (n + from_index) else from_index)) der)"

definition derive_address :: "'tx signing_lib \<Rightarrow> kms \<Rightarrow> string \<Rightarrow> address outcome" where
  "derive_address lib client keyId = await (km_getPublicKey client keyId) (\<lambda>out.
     case ki_PublicKey out of
       None \<Rightarrow> Inl (''KMS GetPublicKey returned no key for '' @ keyId)
     | Some der \<Rightarrow>
         if is_text (ki_KeySpec out) \<and> ki_KeySpec out \<noteq> Some ''ECC_SECG_P256K1''
         then Inl (''KMS key '' @ keyId @ '' has KeySpec '' @ the (ki_KeySpec out) @ '', expected ECC_SECG_P256K1'')
         else if is_text (ki_KeyUsage out) \<and> ki_KeyUsage out \<noteq> Some ''SIGN_VERIFY''
         then Inl (''KMS key '' @ keyId @ '' has KeyUsage '' @ the (ki_KeyUsage out) @ '', expected SIGN_VERIFY'')
         else if (case ki_SigningAlgorithms out of None \<Rightarrow> False | Some algs \<Rightarrow> ''ECDSA_SHA_256'' \<notin> set algs)
         then Inl (''KMS key '' @ keyId @ '' does not support ECDSA_SHA_256 (has ''
                @ join '', '' (the (ki_SigningAlgorithms out)) @ '')'')
         else let point = trailing_point der in
           if point = [] \<or> hd point \<noteq> 4
           then Inl (''KMS key '' @ keyId @ '' is not an uncompressed secp256k1 public key'')
           else Inr (sl_addressOfPoint lib point))"

definition create_aws_signer :: "'tx signing_lib \<Rightarrow> kms \<Rightarrow> string \<Rightarrow> address option \<Rightarrow> address outcome" where
  "create_aws_signer lib client keyId configured = await (derive_address lib client keyId) (\<lambda>addr.
     case configured of
       Some want \<Rightarrow> if want \<noteq> [] \<and> \<not> same_address want addr
         then Inl (''KMS key '' @ keyId @ '' derives address '' @ addr @ '', not the configured '' @ want)
         else Inr addr
     | None \<Rightarrow> Inr addr)"

definition candidate_signature :: "int \<Rightarrow> int \<Rightarrow> nat \<Rightarrow> signature" where
  "candidate_signature r s yParity = \<lparr>sn_r = r, sn_s = s, sn_yParity = yParity, sn_v = 27 + int yParity\<rparr>"

text \<open>The loop over the two parities.\<close>

fun first_recovering ::
  "'tx signing_lib \<Rightarrow> address \<Rightarrow> hex \<Rightarrow> int \<Rightarrow> int \<Rightarrow> nat list \<Rightarrow> signature option outcome" where
  "first_recovering lib addr h r s [] = Inr None"
| "first_recovering lib addr h r s (y # ys) =
     await (sl_recover lib h (candidate_signature r s y)) (\<lambda>a.
       if same_address a addr then Inr (Some (candidate_signature r s y))
       else first_recovering lib addr h r s ys)"

definition sign_hash :: "'tx signing_lib \<Rightarrow> kms \<Rightarrow> string \<Rightarrow> address \<Rightarrow> hex \<Rightarrow> signature outcome" where
  "sign_hash lib client keyId addr h = await (km_sign client keyId h) (\<lambda>out. case out of
     None \<Rightarrow> Inl (''KMS Sign returned no signature for key '' @ keyId)
   | Some der \<Rightarrow> await (sl_fromDER lib der) (\<lambda>(r, s0).
       let s = (if sl_hasHighS lib s0 then sl_normalizeS lib s0 else s0) in
       await (first_recovering lib addr h r s [0, 1]) (\<lambda>found. case found of
         Some candidate \<Rightarrow> Inr candidate
       | None \<Rightarrow> Inl (''KMS signature for key '' @ keyId @ '' does not recover to '' @ addr))))"

definition sign_transaction :: "'tx signing_lib \<Rightarrow> kms \<Rightarrow> string \<Rightarrow> address \<Rightarrow> 'tx \<Rightarrow> hex outcome" where
  "sign_transaction lib client keyId addr tx = await (sl_serialize lib tx None) (\<lambda>unsigned.
     await (sign_hash lib client keyId addr (sl_keccak lib unsigned)) (\<lambda>sg.
       sl_serialize lib tx (Some sg)))"

section \<open>Composition\<close>

definition create_signer :: "'tx signing_lib \<Rightarrow> kms \<Rightarrow> resolved_signer \<Rightarrow> address outcome" where
  "create_signer lib client cfg = (case cfg of
     ResolvedLocal key addr \<Rightarrow> create_local_signer lib key addr
   | ResolvedKms keyId addr region \<Rightarrow> create_aws_signer lib client keyId addr)"

definition resolve_signer ::
  "'tx signing_lib \<Rightarrow> kms \<Rightarrow> (string \<Rightarrow> string outcome) \<Rightarrow> signer_config \<Rightarrow> address outcome" where
  "resolve_signer lib client resolveRef cfg = (case cfg of
     LocalKey keyRef addr \<Rightarrow> await (resolveRef keyRef) (\<lambda>key. create_signer lib client (ResolvedLocal key addr))
   | KmsKey keyId addr region \<Rightarrow> create_signer lib client (ResolvedKms keyId addr region))"

section \<open>Every signature is the account's and is low\<close>

text \<open>Normalizing a high \<open>s\<close> gives a low one.\<close>

definition curve_laws :: "'tx signing_lib \<Rightarrow> bool" where
  "curve_laws lib \<longleftrightarrow> (\<forall>s. sl_hasHighS lib s \<longrightarrow> \<not> sl_hasHighS lib (sl_normalizeS lib s))"

lemma first_recovering_Some:
  assumes "first_recovering lib addr h r s ys = Inr (Some sg)"
  shows "\<exists>y \<in> set ys. sg = candidate_signature r s y \<and> (\<exists>a. sl_recover lib h sg = Inr a \<and> same_address a addr)"
  using assms by (induction ys) (auto simp: await_eq_Inr split: if_splits)

lemma sign_hash_sound:
  assumes "curve_laws lib" "sign_hash lib client keyId addr h = Inr sg"
  shows "(\<exists>a. sl_recover lib h sg = Inr a \<and> same_address a addr) \<and> \<not> sl_hasHighS lib (sn_s sg)
    \<and> sn_yParity sg \<le> 1 \<and> sn_v sg = 27 + int (sn_yParity sg)"
proof -
  obtain der r s0 where s: "sl_fromDER lib der = Inr (r, s0)"
    and f: "first_recovering lib addr h r (if sl_hasHighS lib s0 then sl_normalizeS lib s0 else s0) [0, 1] = Inr (Some sg)"
    using assms(2) by (auto simp: sign_hash_def await_eq_Inr Let_def split: option.splits prod.splits)
  have "\<not> sl_hasHighS lib (if sl_hasHighS lib s0 then sl_normalizeS lib s0 else s0)"
    using assms(1) by (simp add: curve_laws_def)
  with first_recovering_Some [OF f] show ?thesis by (auto simp: candidate_signature_def)
qed

lemma signer_address:
  assumes "resolve_signer lib client resolveRef cfg = Inr addr"
  shows "(case cfg of LocalKey _ want \<Rightarrow> want = None \<or> want = Some [] \<or> same_address (the want) addr
     | KmsKey _ want _ \<Rightarrow> want = None \<or> want = Some [] \<or> same_address (the want) addr)"
  using assms
  by (auto simp: resolve_signer_def create_signer_def create_local_signer_def create_aws_signer_def await_eq_Inr
      Let_def split: signer_config.splits option.splits if_splits)

text \<open>C36: a KMS-backed account sends only transactions the chain can accept as its own. If the boot gives
  the account an address, that is the configured one when one is configured; and whatever bytes KMS
  returns, a transaction that comes out signed carries, over the hash of its unsigned form, a signature that recovers
  to that address, has its \<open>s\<close> in the lower half and a \<open>v\<close> of 27 or 28.\<close>

theorem kms_transactions_recover:
  assumes "curve_laws lib"
    and "resolve_signer lib client resolveRef (KmsKey keyId (Some want) region) = Inr addr" "want \<noteq> []"
    and "sign_transaction lib client keyId addr tx = Inr raw"
  shows "to_lower addr = to_lower want
    \<and> (\<exists>unsigned sg a. sl_serialize lib tx None = Inr unsigned \<and> sl_serialize lib tx (Some sg) = Inr raw
        \<and> sl_recover lib (sl_keccak lib unsigned) sg = Inr a \<and> to_lower a = to_lower want
        \<and> \<not> sl_hasHighS lib (sn_s sg) \<and> sn_v sg \<in> {27, 28})"
proof -
  have "same_address want addr" using signer_address [OF assms(2)] assms(3) by simp
  then have w: "to_lower addr = to_lower want" by (simp add: same_address_def)
  obtain unsigned sg where u: "sl_serialize lib tx None = Inr unsigned" "sl_serialize lib tx (Some sg) = Inr raw"
    "sign_hash lib client keyId addr (sl_keccak lib unsigned) = Inr sg"
    using assms(4) by (auto simp: sign_transaction_def await_eq_Inr)
  from sign_hash_sound [OF assms(1) u(3)] obtain a where a: "sl_recover lib (sl_keccak lib unsigned) sg = Inr a"
    "same_address a addr" "\<not> sl_hasHighS lib (sn_s sg)" "sn_yParity sg \<le> 1" "sn_v sg = 27 + int (sn_yParity sg)" by blast
  have "sn_v sg \<in> {27, 28}" using a(4,5) by (cases "sn_yParity sg") auto
  with w u a show ?thesis by (auto simp: same_address_def)
qed

text \<open>A toy curve of order 100 whose signatures recover by parity.\<close>

definition toy_lib :: "string signing_lib" where
  "toy_lib = \<lparr>sl_addressOfKey = \<lambda>_. ''0xA'', sl_addressOfPoint = \<lambda>_. ''0xA'',
     sl_fromDER = \<lambda>der. (case der of [r, s] \<Rightarrow> Inr (int r, int s) | _ \<Rightarrow> Inl ''invalid DER''),
     sl_hasHighS = \<lambda>s. s > 50, sl_normalizeS = \<lambda>s. if s > 50 then min 50 (100 - s) else s,
     sl_recover = \<lambda>h sg. Inr (if sn_yParity sg = 1 then ''0xa'' else ''0xB''),
     sl_serialize = \<lambda>tx sg. Inr (case sg of None \<Rightarrow> tx | Some g \<Rightarrow> tx @ show_int (sn_s g)), sl_keccak = id\<rparr>"

definition toy_kms :: kms where
  "toy_kms = \<lparr>km_getPublicKey = \<lambda>_. Inr \<lparr>ki_PublicKey = Some (4 # replicate 64 0), ki_KeySpec = Some ''ECC_SECG_P256K1'',
     ki_KeyUsage = Some ''SIGN_VERIFY'', ki_SigningAlgorithms = Some [''ECDSA_SHA_256'']\<rparr>,
     km_sign = \<lambda>_ _. Inr (Some [7, 80])\<rparr>"

theorem kms_transactions_recover_witness:
  "sign_transaction toy_lib toy_kms ''key'' ''0xA'' ''tx'' = Inr ''tx20'' \<and> to_lower ''0xA'' = to_lower ''0xa''"
proof -
  have l: "curve_laws toy_lib" by (simp add: curve_laws_def toy_lib_def)
  have b: "resolve_signer toy_lib toy_kms (\<lambda>_. Inl '''') (KmsKey ''key'' (Some ''0xa'') None) = Inr ''0xA''" by code_simp
  have s: "sign_transaction toy_lib toy_kms ''key'' ''0xA'' ''tx'' = Inr ''tx20''" by code_simp
  from kms_transactions_recover [OF l b _ s] s show ?thesis by simp
qed

text \<open>A local key that is not 32 bytes of hex is refused without being echoed.\<close>

lemma bad_key_not_echoed:
  "\<not> private_key_re k \<Longrightarrow> create_local_signer lib k want
     = Inl ''invalid private key: expected 0x-prefixed 32-byte hex (66 chars)''"
  by (simp add: create_local_signer_def)

end
