(* ===== verification/ServiceConfig.thy ===== *)
theory ServiceConfig
  imports Config Signers ArbFunding Indexer
begin

text \<open>
  The configuration of the two services: the flash funding parameters
  (\<open>packages/engine/src/liquidation/funding/config.ts\<close>), the indexer's fields
  (\<open>packages/config/src/indexer.ts\<close>), and \<open>loadConfig\<close> of \<open>services/liquidator/src/config.ts\<close> and
  \<open>services/arbitrageur/src/config.ts\<close>. \<open>cs\<close> checksums an address; \<open>keyPresent\<close> tells whether the named
  variable holds a signing key. An error text is the first part of the code's.
\<close>

section \<open>Flash funding\<close>

definition ZERO_BYTES32 :: hex where
  "ZERO_BYTES32 = ''0x'' @ replicate 64 (CHR ''0'')"

text \<open>Destructuring: a part that is not there is \<open>undefined\<close>.\<close>

definition part :: "string list \<Rightarrow> nat \<Rightarrow> string option" where
  "part ps i = (if i < length ps then Some (ps ! i) else None)"

definition parse_pool_entry :: "address \<Rightarrow> string \<Rightarrow> flash_swap_venue outcome" where
  "parse_pool_entry venueAddress entry =
     (let ps = split_at (CHR '':'') entry in
      case (part ps 0, part ps 1, part ps 2, part ps 3, part ps 4) of
        (Some token, Some currency0, Some currency1, Some fee, Some tickSpacing) \<Rightarrow>
          if token = [] \<or> currency0 = [] \<or> currency1 = [] \<or> fee = [] \<or> tickSpacing = []
          then Inl (''FLASH_SWAP_POOLS entry '' @ entry @ '' must be token:currency0:currency1:fee:tickSpacing[:hooks]'')
          else Inr \<lparr>fv_token = token, fv_venueAddress = venueAddress,
            fv_poolKey = \<lparr>pk_currency0 = currency0, pk_currency1 = currency1, pk_fee = parse_int fee,
              pk_tickSpacing = parse_int tickSpacing, pk_hooks = or_default (part ps 5) ZERO_ADDRESS\<rparr>\<rparr>
      | _ \<Rightarrow> Inl (''FLASH_SWAP_POOLS entry '' @ entry @ '' must be token:currency0:currency1:fee:tickSpacing[:hooks]''))"

definition parse_flash_swap_pools :: "string \<Rightarrow> address \<Rightarrow> flash_swap_venue list outcome" where
  "parse_flash_swap_pools spec venueAddress =
     await_all (parse_pool_entry venueAddress) (filter (\<lambda>e. e \<noteq> []) (map trim (split_at (CHR '','') spec)))"

record flash_env =
  fe_LIQUIDATION_FUNDING :: string
  fe_LIQUIDATION_ROUTER_ADDRESS :: "string option"
  fe_FLASH_SWAP_VENUE_ADDRESS :: "string option"
  fe_FLASH_SWAP_POOLS :: "string option"
  fe_WBTC_FLASH_LOAN_ADDRESS :: "string option"
  fe_WBTC_FLASH_LOAN_VENUE :: string
  fe_FLASH_MAX_SLIPPAGE_BPS :: string
  fe_WBTC_ADDRESS :: string
  fe_IS_DIRECT_REDEMPTION :: "string option"

datatype liq_funding = FromInventory | FromFlash address venue_registry int

definition flash_only :: "flash_env \<Rightarrow> (string \<times> string option) list" where
  "flash_only env = [(''LIQUIDATION_ROUTER_ADDRESS'', fe_LIQUIDATION_ROUTER_ADDRESS env),
     (''FLASH_SWAP_VENUE_ADDRESS'', fe_FLASH_SWAP_VENUE_ADDRESS env),
     (''FLASH_SWAP_POOLS'', fe_FLASH_SWAP_POOLS env),
     (''WBTC_FLASH_LOAN_ADDRESS'', fe_WBTC_FLASH_LOAN_ADDRESS env)]"

fun venue_message :: "venue_error \<Rightarrow> string" where
  "venue_message (I1 m) = m"
| "venue_message (I2 m) = m"
| "venue_message (I3 m) = m"
| "venue_message (I4 m) = m"

definition build_funding_params :: "(address \<Rightarrow> address) \<Rightarrow> flash_env \<Rightarrow> liq_funding outcome" where
  "build_funding_params cs env =
     (let only = flash_only env in
      if fe_LIQUIDATION_FUNDING env \<noteq> ''flash''
      then (let stray = map fst (filter (\<lambda>(_, v). is_set v) only) in
        if stray \<noteq> []
        then Inl (join '', '' stray @ (if length stray = 1 then '' is'' else '' are'')
               @ '' set but LIQUIDATION_FUNDING is '' @ fe_LIQUIDATION_FUNDING env)
        else Inr FromInventory)
      else let missing = map fst (filter (\<lambda>(_, v). \<not> is_set v) only) in
        if missing \<noteq> [] then Inl (''LIQUIDATION_FUNDING=flash requires '' @ join '', '' missing)
        else if fe_IS_DIRECT_REDEMPTION env = Some ''true''
        then Inl ''IS_DIRECT_REDEMPTION=true cannot be used with LIQUIDATION_FUNDING=flash: LiquidationRouter always settles through the LLP. Unset IS_DIRECT_REDEMPTION, or use LIQUIDATION_FUNDING=inventory.''
        else await (parse_flash_swap_pools (the (fe_FLASH_SWAP_POOLS env)) (the (fe_FLASH_SWAP_VENUE_ADDRESS env))) (\<lambda>swaps.
          let venues = \<lparr>vr_wbtc = fe_WBTC_ADDRESS env, vr_flashSwaps = swaps,
                vr_loanType = (if fe_WBTC_FLASH_LOAN_VENUE env = ''aavev3'' then AaveV3 else Morpho),
                vr_loanAddress = the (fe_WBTC_FLASH_LOAN_ADDRESS env)\<rparr>
          in case assert_registry_valid cs venues of
               Inl e \<Rightarrow> Inl (venue_message e)
             | Inr _ \<Rightarrow> Inr (FromFlash (the (fe_LIQUIDATION_ROUTER_ADDRESS env)) venues
                 (number_of (fe_FLASH_MAX_SLIPPAGE_BPS env)))))"

text \<open>The fields both services read.\<close>

definition parse_flash_env :: "env \<Rightarrow> string \<Rightarrow> string option \<Rightarrow> flash_env outcome" where
  "parse_flash_env env wbtc direct =
     await (defaulted (one_of [''inventory'', ''flash'']) ''inventory'' env ''LIQUIDATION_FUNDING'') (\<lambda>funding.
     await (optional address_schema env ''LIQUIDATION_ROUTER_ADDRESS'') (\<lambda>rt.
     await (optional address_schema env ''FLASH_SWAP_VENUE_ADDRESS'') (\<lambda>venue.
     await (optional (\<lambda>_. True) env ''FLASH_SWAP_POOLS'') (\<lambda>pools.
     await (optional address_schema env ''WBTC_FLASH_LOAN_ADDRESS'') (\<lambda>loan.
     await (defaulted (one_of [''morpho'', ''aavev3'']) ''morpho'' env ''WBTC_FLASH_LOAN_VENUE'') (\<lambda>loanVenue.
     await (defaulted bps_schema ''2000'' env ''FLASH_MAX_SLIPPAGE_BPS'') (\<lambda>slippage.
       Inr \<lparr>fe_LIQUIDATION_FUNDING = funding, fe_LIQUIDATION_ROUTER_ADDRESS = rt,
         fe_FLASH_SWAP_VENUE_ADDRESS = venue, fe_FLASH_SWAP_POOLS = pools, fe_WBTC_FLASH_LOAN_ADDRESS = loan,
         fe_WBTC_FLASH_LOAN_VENUE = loanVenue, fe_FLASH_MAX_SLIPPAGE_BPS = slippage,
         fe_WBTC_ADDRESS = wbtc, fe_IS_DIRECT_REDEMPTION = direct\<rparr>)))))))"

section \<open>What every service reads\<close>

definition parse_indexer_config :: "env \<Rightarrow> indexer_config outcome" where
  "parse_indexer_config env =
     await (optional positive_big_int_schema env ''INDEXER_MAX_LAG_BLOCKS'') (\<lambda>maxLag.
     await (defaulted positive_int_schema ''60000'' env ''INDEXER_MAX_LAG_HALT_MS'') (\<lambda>haltMs.
     await (optional positive_int_schema env ''INDEXER_READY_TIMEOUT_MS'') (\<lambda>readyMs.
       build_indexer_config maxLag haltMs readyMs)))"

definition parse_retry_config :: "env \<Rightarrow> string \<Rightarrow> retry_config outcome" where
  "parse_retry_config env maxDelayDefault =
     await (defaulted positive_int_schema ''3'' env ''RETRY_MAX_ATTEMPTS'') (\<lambda>attempts.
     await (defaulted positive_int_schema ''1000'' env ''RETRY_INITIAL_DELAY_MS'') (\<lambda>initial.
     await (defaulted positive_int_schema maxDelayDefault env ''RETRY_MAX_DELAY_MS'') (\<lambda>maxDelay.
       Inr \<lparr>ry_maxAttempts = number_of attempts, ry_initialDelayMs = of_int (number_of initial),
         ry_maxDelayMs = of_int (number_of maxDelay), ry_backoffMultiplier = 2,
         ry_timeoutMs = ry_timeoutMs DEFAULT_RETRY_CONFIG\<rparr>)))"

record liquidation_params =
  lp_adapterAddress :: address
  lp_lensAddress :: address
  lp_wbtcAddress :: address
  lp_btcRedeemKey :: hex
  lp_isDirectRedemption :: bool
  lp_llpAddress :: address
  lp_funding :: liq_funding
  lp_txReceiptTimeoutMs :: int
  lp_pollingIntervalMs :: int

text \<open>The part of a configuration that does not depend on the engines.\<close>

record common_config =
  cc_risk :: risk_settings
  cc_indexer :: indexer_config
  cc_ponderUrl :: string
  cc_rpcUrl :: string
  cc_metricsPort :: int
  cc_metricsHost :: "string option"
  cc_retryConfig :: retry_config
  cc_secrets :: "string \<times> string option"
  cc_persistence :: "(string \<times> string option) option"
  cc_notifier :: "string \<times> string option"
  cc_execution :: execution_settings
  cc_signer :: signer_config

definition build_common ::
  "(string \<Rightarrow> string option) \<Rightarrow> string \<Rightarrow> bool \<Rightarrow> runtime_env \<Rightarrow> risk_settings \<Rightarrow> indexer_config \<Rightarrow> retry_config
     \<Rightarrow> string \<Rightarrow> string \<Rightarrow> string \<Rightarrow> string option \<Rightarrow> common_config outcome" where
  "build_common origin defaultKeyRef keyPresent ev risk indexer retry ponderUrl rpcUrl port host =
     await (build_notifier_config ev) (\<lambda>notifier.
     await (build_execution_config origin ev keyPresent) (\<lambda>execution.
     await (build_signer_config (ev_SIGNER_SOURCE ev) (ev_SIGNER_KEY_REF ev) defaultKeyRef (ev_KMS_KEY_ID ev)
              (ev_SIGNER_ADDRESS ev) (ev_AWS_REGION ev)) (\<lambda>signer.
       Inr \<lparr>cc_risk = risk, cc_indexer = indexer, cc_ponderUrl = ponderUrl, cc_rpcUrl = rpcUrl,
         cc_metricsPort = number_of port, cc_metricsHost = host, cc_retryConfig = retry,
         cc_secrets = build_secrets_config ev, cc_persistence = build_persistence_config ev,
         cc_notifier = notifier, cc_execution = execution, cc_signer = signer\<rparr>)))"

definition key_present :: "env \<Rightarrow> runtime_env \<Rightarrow> string \<Rightarrow> bool" where
  "key_present processEnv ev defaultKeyRef = is_text (processEnv (or_default (ev_SIGNER_KEY_REF ev) defaultKeyRef))"

section \<open>The liquidator\<close>

definition liquidator_config ::
  "(string \<Rightarrow> bool) \<Rightarrow> (string \<Rightarrow> string option) \<Rightarrow> (address \<Rightarrow> address) \<Rightarrow> env
     \<Rightarrow> (common_config \<times> liquidation_params) outcome" where
  "liquidator_config is_url origin cs env =
     await (parse_runtime_env is_url env) (\<lambda>ev.
     await (parse_risk_env env) (\<lambda>riskEnv.
     await (parse_indexer_config env) (\<lambda>indexer.
     await (required is_url env ''PONDER_URL'') (\<lambda>ponderUrl.
     await (required is_url env ''CLIENT_RPC_URL'') (\<lambda>rpcUrl.
     await (required address_schema env ''ADAPTER_ADDRESS'') (\<lambda>adapter.
     await (required address_schema env ''LENS_ADDRESS'') (\<lambda>lens.
     await (required address_schema env ''WBTC_ADDRESS'') (\<lambda>wbtc.
     await (defaulted bytes32_schema ZERO_BYTES32 env ''BTC_REDEEM_KEY'') (\<lambda>redeemKey.
     await (optional (\<lambda>_. True) env ''IS_DIRECT_REDEMPTION'') (\<lambda>direct.
     await (defaulted address_schema ZERO_ADDRESS env ''LLP_ADDRESS'') (\<lambda>llp.
     await (defaulted positive_int_schema ''12000'' env ''POLLING_INTERVAL_MS'') (\<lambda>polling.
     await (parse_retry_config env ''5000'') (\<lambda>retry.
     await (defaulted port_schema ''9090'' env ''METRICS_PORT'') (\<lambda>port.
     await (optional nonempty_schema env ''METRICS_HOST'') (\<lambda>host.
     await (defaulted positive_int_schema ''120000'' env ''TX_RECEIPT_TIMEOUT_MS'') (\<lambda>receiptMs.
     await (parse_flash_env env wbtc direct) (\<lambda>flashEnv.
     await (build_funding_params cs flashEnv) (\<lambda>funding.
     await (build_risk_config riskEnv) (\<lambda>risk.
     await (assert_profit_floor_enforceable risk (funding = FromInventory)) (\<lambda>_.
     await (build_common origin ''LIQUIDATOR_PRIVATE_KEY'' (key_present env ev ''LIQUIDATOR_PRIVATE_KEY'')
              ev risk indexer retry ponderUrl rpcUrl port host) (\<lambda>common.
       Inr (common, \<lparr>lp_adapterAddress = adapter, lp_lensAddress = lens, lp_wbtcAddress = wbtc,
         lp_btcRedeemKey = redeemKey, lp_isDirectRedemption = (direct = Some ''true''), lp_llpAddress = llp,
         lp_funding = funding, lp_txReceiptTimeoutMs = number_of receiptMs,
         lp_pollingIntervalMs = number_of polling\<rparr>))))))))))))))))))))))"

section \<open>The arbitrageur\<close>

record arbitrage_params =
  aq_vaultSwapAddress :: address
  aq_wbtcAddress :: address
  aq_vaultKeeperAddress :: "address option"
  aq_funding :: funding_params
  aq_pollingIntervalMs :: int
  aq_vaultProcessingDelayMs :: int
  aq_maxSlippageBps :: int
  aq_btcRedemptionCostSats :: int
  aq_txReceiptTimeoutMs :: int

definition build_liquidation ::
  "string option \<Rightarrow> string option \<Rightarrow> string \<Rightarrow> hex \<Rightarrow> string option \<Rightarrow> address \<Rightarrow> liq_funding \<Rightarrow> int \<Rightarrow> string
     \<Rightarrow> liquidation_params option" where
  "build_liquidation adapter lens wbtc redeemKey direct llp funding receiptMs polling =
     (if is_text adapter \<and> is_text lens
      then Some \<lparr>lp_adapterAddress = the adapter, lp_lensAddress = the lens, lp_wbtcAddress = wbtc,
         lp_btcRedeemKey = redeemKey, lp_isDirectRedemption = (direct = Some ''true''), lp_llpAddress = llp,
         lp_funding = funding, lp_txReceiptTimeoutMs = receiptMs, lp_pollingIntervalMs = number_of polling\<rparr>
      else None)"

definition arbitrageur_config ::
  "(string \<Rightarrow> bool) \<Rightarrow> (string \<Rightarrow> string option) \<Rightarrow> (address \<Rightarrow> address) \<Rightarrow> env
     \<Rightarrow> (common_config \<times> arbitrage_params \<times> liquidation_params option) outcome" where
  "arbitrageur_config is_url origin cs env =
     await (parse_runtime_env is_url env) (\<lambda>ev.
     await (parse_risk_env env) (\<lambda>riskEnv.
     await (parse_indexer_config env) (\<lambda>indexer.
     await (required is_url env ''PONDER_URL'') (\<lambda>ponderUrl.
     await (required is_url env ''CLIENT_RPC_URL'') (\<lambda>rpcUrl.
     await (required address_schema env ''VAULT_SWAP_ADDRESS'') (\<lambda>vaultSwap.
     await (required address_schema env ''WBTC_ADDRESS'') (\<lambda>wbtc.
     await (optional address_schema env ''VAULT_KEEPER_ADDRESS'') (\<lambda>keeper.
     await (defaulted (one_of [''inventory'', ''router'']) ''inventory'' env ''ARBITRAGE_FUNDING'') (\<lambda>arbFunding.
     await (optional address_schema env ''ARBITRAGE_ROUTER_ADDRESS'') (\<lambda>arbRouter.
     await (defaulted positive_int_schema ''120'' env ''ARBITRAGE_RELAY_DEADLINE_SECONDS'') (\<lambda>deadline.
     await (defaulted positive_int_schema ''30000'' env ''POLLING_INTERVAL_MS'') (\<lambda>polling.
     await (defaulted non_negative_int_schema ''0'' env ''VAULT_PROCESSING_DELAY_MS'') (\<lambda>delay.
     await (defaulted bps_schema ''100'' env ''MAX_SLIPPAGE_BPS'') (\<lambda>slippage.
     await (defaulted non_negative_big_int_schema ''0'' env ''BTC_REDEMPTION_COST_SATS'') (\<lambda>cost.
     await (defaulted port_schema ''9091'' env ''METRICS_PORT'') (\<lambda>port.
     await (optional nonempty_schema env ''METRICS_HOST'') (\<lambda>host.
     await (parse_retry_config env ''30000'') (\<lambda>retry.
     await (defaulted positive_int_schema ''120000'' env ''TX_RECEIPT_TIMEOUT_MS'') (\<lambda>receiptMs.
     await (optional address_schema env ''ADAPTER_ADDRESS'') (\<lambda>adapter.
     await (optional address_schema env ''LENS_ADDRESS'') (\<lambda>lens.
     await (defaulted bytes32_schema ZERO_BYTES32 env ''BTC_REDEEM_KEY'') (\<lambda>redeemKey.
     await (optional (\<lambda>_. True) env ''IS_DIRECT_REDEMPTION'') (\<lambda>direct.
     await (defaulted address_schema ZERO_ADDRESS env ''LLP_ADDRESS'') (\<lambda>llp.
     await (defaulted positive_int_schema ''12000'' env ''LIQUIDATION_POLLING_INTERVAL_MS'') (\<lambda>liqPolling.
     await (parse_flash_env env wbtc direct) (\<lambda>flashEnv.
       if is_text adapter \<noteq> is_text lens
       then Inl ''Arbitrageur liquidation mode requires BOTH ADAPTER_ADDRESS and LENS_ADDRESS (set both or neither).''
       else await (build_funding_params cs flashEnv) (\<lambda>funding.
         if funding \<noteq> FromInventory \<and> \<not> is_text adapter
         then Inl ''LIQUIDATION_FUNDING=flash has no effect without the liquidation engine -- set ADAPTER_ADDRESS + LENS_ADDRESS to enable it, or drop the flash configuration.''
         else
           let liquidation = build_liquidation adapter lens wbtc redeemKey direct llp funding
                 (number_of receiptMs) liqPolling in
           await (build_risk_config riskEnv) (\<lambda>risk.
           await (assert_profit_floor_enforceable risk (liquidation \<noteq> None \<and> funding = FromInventory)) (\<lambda>_.
           await (build_arbitrage_funding_params arbFunding arbRouter deadline) (\<lambda>fundingParams.
           await (big_int cost) (\<lambda>costSats.
           await (build_common origin ''ARBITRAGEUR_PRIVATE_KEY'' (key_present env ev ''ARBITRAGEUR_PRIVATE_KEY'')
                    ev risk indexer retry ponderUrl rpcUrl port host) (\<lambda>common.
             Inr (common, \<lparr>aq_vaultSwapAddress = vaultSwap, aq_wbtcAddress = wbtc, aq_vaultKeeperAddress = keeper,
               aq_funding = fundingParams, aq_pollingIntervalMs = number_of polling,
               aq_vaultProcessingDelayMs = number_of delay, aq_maxSlippageBps = number_of slippage,
               aq_btcRedemptionCostSats = costSats, aq_txReceiptTimeoutMs = number_of receiptMs\<rparr>,
               liquidation)))))))))))))))))))))))))))))))))"

section \<open>Funding is what the environment says\<close>

definition FLASH_VARS :: "string list" where
  "FLASH_VARS = [''LIQUIDATION_ROUTER_ADDRESS'', ''FLASH_SWAP_VENUE_ADDRESS'', ''FLASH_SWAP_POOLS'',
     ''WBTC_FLASH_LOAN_ADDRESS'']"

lemma cleaned_not_Nil: "cleaned env k \<noteq> Some []"
  by (auto simp: cleaned_def split: option.splits)

lemma optional_cleaned: "optional schema env k = Inr v \<Longrightarrow> v = cleaned env k"
  by (auto simp: optional_def split: option.splits if_splits)

lemma defaulted_cleaned: "defaulted schema d env k = Inr v \<Longrightarrow> v = or_default (cleaned env k) d"
  by (auto simp: defaulted_def await_eq_Inr dest: optional_cleaned)

lemma is_set_cleaned [simp]: "is_set (cleaned env k) \<longleftrightarrow> cleaned env k \<noteq> None"
  by (simp add: is_set_def cleaned_not_Nil)

lemma is_text_cleaned [simp]: "is_text (cleaned env k) \<longleftrightarrow> cleaned env k \<noteq> None"
  by (simp add: is_text_def cleaned_not_Nil)

lemma parse_flash_env_fields:
  assumes "parse_flash_env env wbtc direct = Inr fe"
  shows "fe_LIQUIDATION_FUNDING fe = or_default (cleaned env ''LIQUIDATION_FUNDING'') ''inventory''"
    "fe_LIQUIDATION_ROUTER_ADDRESS fe = cleaned env ''LIQUIDATION_ROUTER_ADDRESS''"
    "fe_FLASH_SWAP_VENUE_ADDRESS fe = cleaned env ''FLASH_SWAP_VENUE_ADDRESS''"
    "fe_FLASH_SWAP_POOLS fe = cleaned env ''FLASH_SWAP_POOLS''"
    "fe_WBTC_FLASH_LOAN_ADDRESS fe = cleaned env ''WBTC_FLASH_LOAN_ADDRESS''"
    "fe_WBTC_ADDRESS fe = wbtc" "fe_IS_DIRECT_REDEMPTION fe = direct"
    "bps_schema (fe_FLASH_MAX_SLIPPAGE_BPS fe)"
proof -
  have d: "bps_schema ''2000''" by code_simp
  from assms have "\<exists>v. defaulted bps_schema ''2000'' env ''FLASH_MAX_SLIPPAGE_BPS'' = Inr v \<and> fe_FLASH_MAX_SLIPPAGE_BPS fe = v"
    by (auto simp: parse_flash_env_def await_eq_Inr)
  then show "bps_schema (fe_FLASH_MAX_SLIPPAGE_BPS fe)" using defaulted_InrD d by blast
qed (use assms in \<open>auto simp: parse_flash_env_def await_eq_Inr dest!: optional_cleaned defaulted_cleaned\<close>)

lemma unit_result: "(\<forall>e. r \<noteq> Inl e) \<longleftrightarrow> r = Inr ()"
  by (cases r) auto

lemma build_funding_inventory:
  assumes "build_funding_params cs fe = Inr FromInventory"
  shows "fe_LIQUIDATION_FUNDING fe \<noteq> ''flash''" "list_all (\<lambda>(_, v). \<not> is_set v) (flash_only fe)"
  using assms
  by (auto simp: build_funding_params_def Let_def await_eq_Inr filter_empty_conv list_all_iff
      unit_result split: if_splits sum.splits)

lemma build_funding_flash:
  assumes "build_funding_params cs fe = Inr (FromFlash r reg bps)"
  shows "fe_LIQUIDATION_FUNDING fe = ''flash''" "fe_LIQUIDATION_ROUTER_ADDRESS fe = Some r"
    "fe_IS_DIRECT_REDEMPTION fe \<noteq> Some ''true''" "assert_registry_valid cs reg = Inr ()"
    "vr_wbtc reg = fe_WBTC_ADDRESS fe" "fe_WBTC_FLASH_LOAN_ADDRESS fe = Some (vr_loanAddress reg)"
    "bps = number_of (fe_FLASH_MAX_SLIPPAGE_BPS fe)"
  using assms
  by (auto simp: build_funding_params_def Let_def await_eq_Inr flash_only_def is_set_def unit_result
      split: if_splits sum.splits)

text \<open>What a funding choice is, given the environment it was read from.\<close>

definition funding_as_asked :: "(address \<Rightarrow> address) \<Rightarrow> env \<Rightarrow> address \<Rightarrow> string option \<Rightarrow> liq_funding \<Rightarrow> bool" where
  "funding_as_asked cs env wbtc direct funding = (case funding of
     FromInventory \<Rightarrow> cleaned env ''LIQUIDATION_FUNDING'' \<noteq> Some ''flash''
       \<and> list_all (\<lambda>k. cleaned env k = None) FLASH_VARS
   | FromFlash r reg bps \<Rightarrow> cleaned env ''LIQUIDATION_FUNDING'' = Some ''flash''
       \<and> cleaned env ''LIQUIDATION_ROUTER_ADDRESS'' = Some r
       \<and> cleaned env ''WBTC_FLASH_LOAN_ADDRESS'' = Some (vr_loanAddress reg) \<and> vr_wbtc reg = wbtc
       \<and> direct \<noteq> Some ''true'' \<and> 0 \<le> bps \<and> bps \<le> 10000 \<and> assert_registry_valid cs reg = Inr ())"

lemma built_funding_as_asked:
  assumes "parse_flash_env env wbtc direct = Inr fe" "build_funding_params cs fe = Inr funding"
  shows "funding_as_asked cs env wbtc direct funding"
proof (cases funding)
  case FromInventory
  note i = build_funding_inventory [OF assms(2) [unfolded FromInventory]]
  show ?thesis using i parse_flash_env_fields [OF assms(1)]
    by (auto simp: funding_as_asked_def FromInventory flash_only_def FLASH_VARS_def)
next
  case (FromFlash r reg bps)
  note f = build_funding_flash [OF assms(2) [unfolded FromFlash]]
  have "0 \<le> bps \<and> bps \<le> 10000"
    using schema_bounds(3) parse_flash_env_fields(8) [OF assms(1)] f(7) by (simp add: bps_schema_def)
  with f parse_flash_env_fields [OF assms(1)] show ?thesis
    by (auto simp: funding_as_asked_def FromFlash or_default_def split: option.splits)
qed

lemma profit_floor_needs_price:
  "assert_profit_floor_enforceable risk True = Inr () \<Longrightarrow> rc_minProfit (rs_risk risk) = None"
  by (simp add: assert_profit_floor_enforceable_def split: if_splits)

lemma build_common_risk:
  "build_common origin d kp ev risk ix retry pu ru port host = Inr c \<Longrightarrow> cc_risk c = risk \<and> cc_execution c \<in>
     {s. build_execution_config origin ev kp = Inr s}"
  by (auto simp: build_common_def await_eq_Inr)

lemma liquidator_config_parts:
  assumes "liquidator_config is_url origin cs env = Inr (c, lp)"
  obtains fe where "parse_flash_env env (lp_wbtcAddress lp) (cleaned env ''IS_DIRECT_REDEMPTION'') = Inr fe"
    "build_funding_params cs fe = Inr (lp_funding lp)"
    "assert_profit_floor_enforceable (cc_risk c) (lp_funding lp = FromInventory) = Inr ()"
    "lp_isDirectRedemption lp \<longleftrightarrow> cleaned env ''IS_DIRECT_REDEMPTION'' = Some ''true''"
  using assms that
  by (auto simp: liquidator_config_def await_eq_Inr dest!: build_common_risk optional_cleaned)



definition ex_address :: "char \<Rightarrow> address" where
  "ex_address c = ''0x'' @ replicate 40 c"

definition ex_liquidator_env :: env where
  "ex_liquidator_env = map_of [(''PONDER_URL'', ''http://p''), (''CLIENT_RPC_URL'', ''http://r''),
     (''ADAPTER_ADDRESS'', ex_address (CHR ''1'')), (''LENS_ADDRESS'', ex_address (CHR ''2'')),
     (''WBTC_ADDRESS'', ex_address (CHR ''3'')), (''LIQUIDATION_FUNDING'', ''flash''),
     (''LIQUIDATION_ROUTER_ADDRESS'', ex_address (CHR ''4'')), (''FLASH_SWAP_VENUE_ADDRESS'', ex_address (CHR ''5'')),
     (''FLASH_SWAP_POOLS'', join '':'' [ex_address (CHR ''6''), ex_address (CHR ''3''), ex_address (CHR ''6''), ''3000'', ''60'']),
     (''WBTC_FLASH_LOAN_ADDRESS'', ex_address (CHR ''7''))]"

definition ex_liquidator_registry :: venue_registry where
  "ex_liquidator_registry = \<lparr>vr_wbtc = ex_address (CHR ''3''),
     vr_flashSwaps = [\<lparr>fv_token = ex_address (CHR ''6''), fv_venueAddress = ex_address (CHR ''5''),
       fv_poolKey = \<lparr>pk_currency0 = ex_address (CHR ''3''), pk_currency1 = ex_address (CHR ''6''), pk_fee = Some 3000,
         pk_tickSpacing = Some 60, pk_hooks = ZERO_ADDRESS\<rparr>\<rparr>],
     vr_loanType = Morpho, vr_loanAddress = ex_address (CHR ''7'')\<rparr>"

lemma ex_liquidator_loads:
  "(case liquidator_config (\<lambda>_. True) Some to_lower ex_liquidator_env of
     Inl _ \<Rightarrow> False
   | Inr (c, lp) \<Rightarrow> lp_funding lp = FromFlash (ex_address (CHR ''4'')) ex_liquidator_registry 2000)"
  by code_simp

text \<open>The boot check compares tokens only: a pool whose fee is no number loads, with the fee \<open>NaN\<close>.\<close>

lemma nan_fee_accepted:
  "(case liquidator_config (\<lambda>_. True) Some to_lower
       (ex_liquidator_env(''FLASH_SWAP_POOLS'' \<mapsto> join '':'' [ex_address (CHR ''6''), ex_address (CHR ''3''),
          ex_address (CHR ''6''), ''low'', ''60''])) of
     Inl _ \<Rightarrow> False
   | Inr (c, lp) \<Rightarrow> (case lp_funding lp of FromInventory \<Rightarrow> False
       | FromFlash r reg bps \<Rightarrow> map (pk_fee \<circ> fv_poolKey) (vr_flashSwaps reg) = [None]))"
  by code_simp



lemma arbitrageur_config_parts:
  assumes "arbitrageur_config is_url origin cs env = Inr (c, aq, lq)"
  shows "\<exists>fe funding d. parse_flash_env env (aq_wbtcAddress aq) (cleaned env ''IS_DIRECT_REDEMPTION'') = Inr fe
    \<and> build_funding_params cs fe = Inr funding
    \<and> (cleaned env ''ADAPTER_ADDRESS'' \<noteq> None \<longleftrightarrow> cleaned env ''LENS_ADDRESS'' \<noteq> None)
    \<and> (funding = FromInventory \<or> cleaned env ''ADAPTER_ADDRESS'' \<noteq> None)
    \<and> (case lq of None \<Rightarrow> cleaned env ''ADAPTER_ADDRESS'' = None
       | Some lp \<Rightarrow> lp_funding lp = funding \<and> cleaned env ''ADAPTER_ADDRESS'' = Some (lp_adapterAddress lp)
           \<and> cleaned env ''LENS_ADDRESS'' = Some (lp_lensAddress lp))
    \<and> assert_profit_floor_enforceable (cc_risk c) (lq \<noteq> None \<and> funding = FromInventory) = Inr ()
    \<and> build_arbitrage_funding_params (or_default (cleaned env ''ARBITRAGE_FUNDING'') ''inventory'')
         (cleaned env ''ARBITRAGE_ROUTER_ADDRESS'') d = Inr (aq_funding aq)"
  using assms
  by (fastforce simp: arbitrageur_config_def await_eq_Inr build_liquidation_def Let_def split: if_splits
      dest!: build_common_risk optional_cleaned defaulted_cleaned)

lemma built_arbitrage_funding:
  assumes "build_arbitrage_funding_params f rt d = Inr p"
  shows "p = InventoryParams \<and> f \<noteq> ''router'' \<and> \<not> is_set rt
    \<or> (\<exists>r n. p = RouterParams r n \<and> f = ''router'' \<and> rt = Some r \<and> 1 \<le> n \<and> n \<le> 300)"
  using assms
  by (auto simp: build_arbitrage_funding_params_def is_set_def split: if_splits option.splits)

text \<open>An arbitrageur runs exactly the engines its environment names. If its configuration loads, the
  liquidation engine is present when the adapter is set, and then so is the lens, with those two
  addresses; flash funding is never configured without that engine; a profit floor is never set beside an
  inventory-funded liquidation engine; and the arbitrage router is used when it was chosen, at the
  configured address, with a relay deadline of one to 300 seconds.\<close>

theorem arbitrageur_runs_what_is_named:
  assumes "arbitrageur_config is_url origin cs env = Inr (c, aq, lq)"
  shows "(case lq of
      None \<Rightarrow> cleaned env ''ADAPTER_ADDRESS'' = None \<and> cleaned env ''LENS_ADDRESS'' = None
        \<and> list_all (\<lambda>k. cleaned env k = None) FLASH_VARS
    | Some lp \<Rightarrow> cleaned env ''ADAPTER_ADDRESS'' = Some (lp_adapterAddress lp)
        \<and> cleaned env ''LENS_ADDRESS'' = Some (lp_lensAddress lp)
        \<and> (lp_funding lp \<noteq> FromInventory \<or> rc_minProfit (rs_risk (cc_risk c)) = None))
    \<and> (case aq_funding aq of
      InventoryParams \<Rightarrow> cleaned env ''ARBITRAGE_FUNDING'' \<noteq> Some ''router'' \<and> cleaned env ''ARBITRAGE_ROUTER_ADDRESS'' = None
    | RouterParams r n \<Rightarrow> cleaned env ''ARBITRAGE_FUNDING'' = Some ''router''
        \<and> cleaned env ''ARBITRAGE_ROUTER_ADDRESS'' = Some r \<and> 1 \<le> n \<and> n \<le> 300)"
proof -
  obtain fe funding d where
    p: "parse_flash_env env (aq_wbtcAddress aq) (cleaned env ''IS_DIRECT_REDEMPTION'') = Inr fe"
    "build_funding_params cs fe = Inr funding"
    and a: "cleaned env ''ADAPTER_ADDRESS'' \<noteq> None \<longleftrightarrow> cleaned env ''LENS_ADDRESS'' \<noteq> None"
    "funding = FromInventory \<or> cleaned env ''ADAPTER_ADDRESS'' \<noteq> None"
    "case lq of None \<Rightarrow> cleaned env ''ADAPTER_ADDRESS'' = None
       | Some lp \<Rightarrow> lp_funding lp = funding \<and> cleaned env ''ADAPTER_ADDRESS'' = Some (lp_adapterAddress lp)
           \<and> cleaned env ''LENS_ADDRESS'' = Some (lp_lensAddress lp)"
    "assert_profit_floor_enforceable (cc_risk c) (lq \<noteq> None \<and> funding = FromInventory) = Inr ()"
    and r: "build_arbitrage_funding_params (or_default (cleaned env ''ARBITRAGE_FUNDING'') ''inventory'')
         (cleaned env ''ARBITRAGE_ROUTER_ADDRESS'') d = Inr (aq_funding aq)"
    using arbitrageur_config_parts [OF assms] by blast
  note asked = built_funding_as_asked [OF p]
  have "case lq of
      None \<Rightarrow> cleaned env ''ADAPTER_ADDRESS'' = None \<and> cleaned env ''LENS_ADDRESS'' = None
        \<and> list_all (\<lambda>k. cleaned env k = None) FLASH_VARS
    | Some lp \<Rightarrow> cleaned env ''ADAPTER_ADDRESS'' = Some (lp_adapterAddress lp)
        \<and> cleaned env ''LENS_ADDRESS'' = Some (lp_lensAddress lp)
        \<and> (lp_funding lp \<noteq> FromInventory \<or> rc_minProfit (rs_risk (cc_risk c)) = None)"
    using a asked profit_floor_needs_price
    by (cases lq; cases "funding = FromInventory") (auto simp: funding_as_asked_def)
  moreover have "case aq_funding aq of
      InventoryParams \<Rightarrow> cleaned env ''ARBITRAGE_FUNDING'' \<noteq> Some ''router'' \<and> cleaned env ''ARBITRAGE_ROUTER_ADDRESS'' = None
    | RouterParams r n \<Rightarrow> cleaned env ''ARBITRAGE_FUNDING'' = Some ''router''
        \<and> cleaned env ''ARBITRAGE_ROUTER_ADDRESS'' = Some r \<and> 1 \<le> n \<and> n \<le> 300"
    using built_arbitrage_funding [OF r] by (auto simp: or_default_def is_set_cleaned split: option.splits)
  ultimately show ?thesis by (rule conjI)
qed


definition ex_arbitrageur_env :: env where
  "ex_arbitrageur_env = map_of [(''PONDER_URL'', ''http://p''), (''CLIENT_RPC_URL'', ''http://r''),
     (''VAULT_SWAP_ADDRESS'', ex_address (CHR ''8'')), (''WBTC_ADDRESS'', ex_address (CHR ''3'')),
     (''VAULT_KEEPER_ADDRESS'', ex_address (CHR ''9'')), (''ARBITRAGE_FUNDING'', ''router''),
     (''ARBITRAGE_ROUTER_ADDRESS'', ex_address (CHR ''a'')),
     (''ADAPTER_ADDRESS'', ex_address (CHR ''1'')), (''LENS_ADDRESS'', ex_address (CHR ''2''))]"

lemma ex_arbitrageur_loads:
  "(case arbitrageur_config (\<lambda>_. True) Some to_lower ex_arbitrageur_env of
     Inl _ \<Rightarrow> False
   | Inr (c, aq, lq) \<Rightarrow> aq_funding aq = RouterParams (ex_address (CHR ''a'')) 120
       \<and> lq \<noteq> None \<and> lp_funding (the lq) = FromInventory)"
  by code_simp

theorem arbitrageur_runs_what_is_named_witness:
  "\<exists>c aq lp. arbitrageur_config (\<lambda>_. True) Some to_lower ex_arbitrageur_env = Inr (c, aq, Some lp)
     \<and> lp_lensAddress lp = ex_address (CHR ''2'') \<and> rc_minProfit (rs_risk (cc_risk c)) = None"
proof -
  obtain c aq lp where r: "arbitrageur_config (\<lambda>_. True) Some to_lower ex_arbitrageur_env = Inr (c, aq, Some lp)"
    "lp_funding lp = FromInventory"
    using ex_arbitrageur_loads by (auto split: sum.splits prod.splits)
  have "cleaned ex_arbitrageur_env ''LENS_ADDRESS'' = Some (ex_address (CHR ''2''))" by code_simp
  with conjunct1 [OF arbitrageur_runs_what_is_named [OF r(1)]] r show ?thesis by auto
qed

end
