(* ===== verification/Alerts.thy ===== *)
theory Alerts
  imports Executor Config
begin

text \<open>
  Outbound alerts: the logger (\<open>packages/logger/src/logger.ts\<close>) and \<open>packages/notifications/src\<close>, that is the
  events (\<open>types.ts\<close>), the Slack adapter (\<open>slack.ts\<close>), the notifier that logs first and never throws, and the sink of the
  risk gate's events (\<open>index.ts\<close>). The state \<open>'w\<close> is whatever a logger and an adapter act on; the console and
  the webhook make it a journal. An em dash in a message is written \<open>--\<close>.
\<close>

section \<open>The logger\<close>

datatype log_level = Debug | Info | Warn | LogError

fun level_rank :: "log_level \<Rightarrow> nat" where
  "level_rank Debug = 10"
| "level_rank Info = 20"
| "level_rank Warn = 30"
| "level_rank LogError = 40"

definition resolve_level :: "log_level option \<Rightarrow> string option \<Rightarrow> log_level" where
  "resolve_level explicit LOG_LEVEL = (case explicit of Some l \<Rightarrow> l
     | None \<Rightarrow> (case map_option to_lower LOG_LEVEL of None \<Rightarrow> Info
         | Some v \<Rightarrow> if v = ''debug'' then Debug else if v = ''info'' then Info else if v = ''warn'' then Warn
             else if v = ''error'' then LogError else Info))"

record slack_message =
  sm_text :: string
  sm_color :: string
  sm_fields :: "(string \<times> string \<times> bool) list"

record journal =
  jn_lines :: "(log_level \<times> string) list"
  jn_posts :: "(string \<times> slack_message) list"

text \<open>What one call of the logger does to the state; a logger that throws answers \<^const>\<open>Inl\<close>.\<close>

type_synonym 'w logger = "log_level \<Rightarrow> string \<Rightarrow> 'w \<Rightarrow> unit outcome \<times> 'w"

definition create_logger :: "string \<Rightarrow> log_level \<Rightarrow> journal logger" where
  "create_logger prefix threshold level message w =
     (Inr (), if level_rank level \<ge> level_rank threshold
              then w\<lparr>jn_lines := jn_lines w @ [(level, prefix @ message)]\<rparr> else w)"

section \<open>Events\<close>

datatype notification_event =
    ManualIntentEvent string string string address hex "millis option"
  | RiskHaltedEvent string
  | RiskResumedEvent
  | IntentStuckEvent string string int

fun event_kind :: "notification_event \<Rightarrow> string" where
  "event_kind (ManualIntentEvent _ _ _ _ _ _) = ''manual-intent''"
| "event_kind (RiskHaltedEvent _) = ''risk-halted''"
| "event_kind RiskResumedEvent = ''risk-resumed''"
| "event_kind (IntentStuckEvent _ _ _) = ''intent-stuck''"

fun severity_of :: "notification_event \<Rightarrow> log_level" where
  "severity_of (RiskHaltedEvent _) = Warn"
| "severity_of (IntentStuckEvent _ _ _) = Warn"
| "severity_of (ManualIntentEvent _ _ _ _ _ _) = Info"
| "severity_of RiskResumedEvent = Info"

text \<open>\<open>Math.round(ageMs / 1000)\<close>: halves go up.\<close>

definition rounded_seconds :: "int \<Rightarrow> string" where
  "rounded_seconds ageMs = show_int ((ageMs + 500) div 1000) @ ''s''"

fun describe_event :: "notification_event \<Rightarrow> string" where
  "describe_event (ManualIntentEvent i action subject target payloadHash expiresAt) =
     ''Action awaiting signature: '' @ action @ '' on '' @ subject @ '' (target '' @ target
       @ '', payload '' @ payloadHash @ '', intent '' @ i @ '')''"
| "describe_event (RiskHaltedEvent reason) = ''Risk gate HALTED -- trading stopped: '' @ reason"
| "describe_event RiskResumedEvent = ''Risk gate resumed -- trading enabled''"
| "describe_event (IntentStuckEvent i subject ageMs) =
     ''Intent stuck in flight for '' @ rounded_seconds ageMs @ '': '' @ subject @ '' (intent '' @ i @ '')''"

section \<open>Instants\<close>

text \<open>\<open>new Date(ms).toISOString()\<close>: the proleptic Gregorian date of a day counted from 1970, where years
  run from March so that the leap day is the last of its year.\<close>

definition civil_of_day :: "int \<Rightarrow> int \<times> int \<times> int" where
  "civil_of_day n =
     (let z = n + 719468; era = z div 146097; doe = z mod 146097;
          yoe = (doe - doe div 1460 + doe div 36524 - doe div 146096) div 365;
          doy = doe - (365 * yoe + yoe div 4 - yoe div 100);
          mp = (5 * doy + 2) div 153;
          month = (if mp < 10 then mp + 3 else mp - 9)
      in (era * 400 + yoe + (if month \<le> 2 then 1 else 0), month, doy - (153 * mp + 2) div 5 + 1))"

definition padded :: "nat \<Rightarrow> int \<Rightarrow> string" where
  "padded w n = (let s = show_int n in replicate (w - length s) (CHR ''0'') @ s)"

definition MAX_TIME_MS :: int where "MAX_TIME_MS = 8640000000000000"

definition iso_year :: "int \<Rightarrow> string" where
  "iso_year y = (if 0 \<le> y \<and> y \<le> 9999 then padded 4 y
     else (if y < 0 then ''-'' else ''+'') @ padded 6 \<bar>y\<bar>)"

definition iso_instant :: "int \<Rightarrow> string outcome" where
  "iso_instant ms =
     (if \<bar>ms\<bar> > MAX_TIME_MS then Inl ''Invalid time value''
      else (case civil_of_day (ms div 86400000) of (y, m, d) \<Rightarrow>
        let t = ms mod 86400000 in
        Inr (iso_year y @ ''-'' @ padded 2 m @ ''-'' @ padded 2 d @ ''T'' @ padded 2 (t div 3600000)
          @ '':'' @ padded 2 (t div 60000 mod 60) @ '':'' @ padded 2 (t div 1000 mod 60)
          @ ''.'' @ padded 3 (t mod 1000) @ ''Z'')))"

section \<open>The Slack adapter\<close>

definition DEFAULT_TIMEOUT_MS :: int where "DEFAULT_TIMEOUT_MS = 5000"

definition COLOR :: "log_level \<Rightarrow> string" where
  "COLOR l = (if l = Warn then ''#daa038'' else ''#2eb886'')"

fun fields_of :: "notification_event \<Rightarrow> (string \<times> string \<times> bool) list outcome" where
  "fields_of (ManualIntentEvent i action subject target payloadHash expiresAt) =
     await (case expiresAt of None \<Rightarrow> Inr []
            | Some t \<Rightarrow> await (iso_instant t) (\<lambda>s. Inr [(''Expires'', s, True)])) (\<lambda>expires.
       Inr ([(''Action'', action, True), (''Subject'', subject, True), (''Target'', target, True),
             (''Payload hash'', payloadHash, False)] @ expires))"
| "fields_of (IntentStuckEvent i subject ageMs) =
     Inr [(''Subject'', subject, True), (''Age'', rounded_seconds ageMs, True)]"
| "fields_of (RiskHaltedEvent _) = Inr []"
| "fields_of RiskResumedEvent = Inr []"

definition slack_message :: "notification_event \<Rightarrow> slack_message outcome" where
  "slack_message e = await (fields_of e) (\<lambda>fs.
     Inr \<lparr>sm_text = describe_event e, sm_color = COLOR (severity_of e), sm_fields = fs\<rparr>)"

text \<open>A webhook answers a post (the message and the timeout it may take) with a status and a body.\<close>

record slack_response =
  sr_ok :: bool
  sr_status :: int
  sr_text :: "string outcome"

definition safe_text :: "slack_response \<Rightarrow> string" where
  "safe_text r = (case sr_text r of Inl _ \<Rightarrow> ''<unreadable body>'' | Inr t \<Rightarrow> t)"

type_synonym 'w adapter = "notification_event \<Rightarrow> 'w \<Rightarrow> unit outcome \<times> 'w"

definition slack_notify ::
  "(string \<Rightarrow> slack_message \<Rightarrow> int \<Rightarrow> slack_response outcome) \<Rightarrow> string \<Rightarrow> int option \<Rightarrow> journal adapter" where
  "slack_notify post webhookUrl timeoutMs e w =
     (case slack_message e of
        Inl err \<Rightarrow> (Inl err, w)
      | Inr m \<Rightarrow>
          (let w' = w\<lparr>jn_posts := jn_posts w @ [(webhookUrl, m)]\<rparr> in
           case post webhookUrl m (or_default timeoutMs DEFAULT_TIMEOUT_MS) of
             Inl err \<Rightarrow> (Inl err, w')
           | Inr r \<Rightarrow> if sr_ok r then (Inr (), w')
               else (Inl (''Slack webhook failed: '' @ show_int (sr_status r) @ '' '' @ safe_text r), w')))"

section \<open>The notifier\<close>

text \<open>The body of \<open>notify\<close>, with the two handlers around it.\<close>

definition guarded_notify :: "'w logger \<Rightarrow> 'w adapter option \<Rightarrow> 'w adapter" where
  "guarded_notify logger delivery e w =
     (let (r, w') = (case logger (severity_of e) (describe_event e) w of
            (Inl err, w1) \<Rightarrow> (Inl err, w1)
          | (Inr _, w1) \<Rightarrow> (case delivery of None \<Rightarrow> (Inr (), w1) | Some deliver \<Rightarrow> deliver e w1)) in
      case r of
        Inr _ \<Rightarrow> (Inr (), w')
      | Inl err \<Rightarrow> (Inr (), snd (logger LogError
          (''Failed to deliver notification ('' @ event_kind e @ ''): '' @ err) w')))"

definition select_adapter ::
  "(string \<Rightarrow> slack_message \<Rightarrow> int \<Rightarrow> slack_response outcome) \<Rightarrow> string \<Rightarrow> string option
     \<Rightarrow> journal adapter option outcome" where
  "select_adapter post source' webhookUrl =
     (if source' = ''none'' then Inr None
      else if source' = ''slack'' then (if is_text webhookUrl
        then Inr (Some (slack_notify post (the webhookUrl) None))
        else Inl ''notifier source is 'slack' but no webhook URL was resolved'')
      else Inl (''unknown notifier source: '' @ source'))"

definition create_notifier ::
  "(string \<Rightarrow> slack_message \<Rightarrow> int \<Rightarrow> slack_response outcome) \<Rightarrow> string \<Rightarrow> string option \<Rightarrow> journal logger
     \<Rightarrow> journal adapter outcome" where
  "create_notifier post source' webhookUrl logger =
     await (select_adapter post source' webhookUrl) (\<lambda>delivery. Inr (guarded_notify logger delivery))"

definition build_notifier ::
  "(string \<Rightarrow> slack_message \<Rightarrow> int \<Rightarrow> slack_response outcome) \<Rightarrow> string \<times> string option \<Rightarrow> journal logger
     \<Rightarrow> (string \<Rightarrow> string outcome) \<Rightarrow> journal adapter outcome" where
  "build_notifier post settings logger getSecret =
     (case settings of (source', webhookRef) \<Rightarrow>
        await (if source' = ''slack'' \<and> is_text webhookRef
               then await (getSecret (the webhookRef)) (\<lambda>u. Inr (Some u)) else Inr None) (\<lambda>webhookUrl.
          create_notifier post source' webhookUrl logger))"

definition risk_event_sink :: "'w adapter \<Rightarrow> risk_event \<Rightarrow> 'w \<Rightarrow> 'w" where
  "risk_event_sink notify ev w = snd (notify (case ev of
     EvHalted reason \<Rightarrow> RiskHaltedEvent reason | EvResumed \<Rightarrow> RiskResumedEvent) w)"

text \<open>The notices of the MANUAL executor, as the events its calls of \<open>notify\<close> pass.\<close>

fun event_of_notice :: "notice \<Rightarrow> notification_event" where
  "event_of_notice (ManualIntent i action subject target h expiresAt) = ManualIntentEvent i action subject target h expiresAt"
| "event_of_notice (IntentStuck i subject ageMs) = IntentStuckEvent i subject ageMs"


text \<open>The executor awaits one notice after the other; a rejection would abort the cycle that reports.\<close>

fun deliver :: "'w adapter \<Rightarrow> notice list \<Rightarrow> 'w \<Rightarrow> unit outcome \<times> 'w" where
  "deliver notify [] w = (Inr (), w)"
| "deliver notify (n # ns) w = (case notify (event_of_notice n) w of
     (Inl e, w') \<Rightarrow> (Inl e, w') | (Inr _, w') \<Rightarrow> deliver notify ns w')"

text \<open>What every caller relies on: a notifier that never rejects, so that reporting cannot fail a cycle.\<close>

locale quiet_notifier =
  fixes notify :: "notification_event \<Rightarrow> 'w \<Rightarrow> unit outcome \<times> 'w"
  assumes never_rejects: "fst (notify e w) = Inr ()"
begin

lemma deliver_steps: "deliver notify ns w = (Inr (), fold (\<lambda>n w. snd (notify (event_of_notice n) w)) ns w)"
proof (induction ns arbitrary: w)
  case (Cons n ns)
  then show ?case using never_rejects [of "event_of_notice n" w] by (cases "notify (event_of_notice n) w") auto
qed simp

lemma deliver_never_fails: "fst (deliver notify ns w) = Inr ()"
  by (simp add: deliver_steps)

end

section \<open>An alert is logged, attempted once, and never felt by the caller\<close>

lemma console_logs:
  "fst (create_logger prefix threshold level message w) = Inr ()"
  "jn_posts (snd (create_logger prefix threshold level message w)) = jn_posts w"
  "jn_lines (snd (create_logger prefix threshold level message w)) = jn_lines w @
     (if level_rank threshold \<le> level_rank level then [(level, prefix @ message)] else [])"
  by (simp_all add: create_logger_def)

lemma slack_posts:
  "jn_lines (snd (slack_notify post url t e w)) = jn_lines w"
  "slack_message e = Inr m \<Longrightarrow> jn_posts (snd (slack_notify post url t e w)) = jn_posts w @ [(url, m)]"
  "slack_message e = Inl err \<Longrightarrow> jn_posts (snd (slack_notify post url t e w)) = jn_posts w"
  by (auto simp: slack_notify_def Let_def split: sum.splits)

interpretation guarded: quiet_notifier "guarded_notify logger delivery" for logger delivery
  by unfold_locales (simp add: guarded_notify_def split: prod.splits sum.splits)

lemma select_adapter_Inr:
  "select_adapter post source' url = Inr d \<longleftrightarrow> source' = ''none'' \<and> d = None
     \<or> source' = ''slack'' \<and> is_text url \<and> d = Some (slack_notify post (the url) None)"
  by (auto simp: select_adapter_def)

lemma build_notifier_cases:
  assumes "build_notifier post settings logger getSecret = Inr notify"
  shows "fst settings = ''none'' \<and> notify = guarded_notify logger None
    \<or> (\<exists>url. fst settings = ''slack'' \<and> getSecret (the (snd settings)) = Inr url \<and> is_text (Some url)
        \<and> notify = guarded_notify logger (Some (slack_notify post url None)))"
proof -
  have "\<not> is_text None" by (simp add: is_text_def)
  with assms show ?thesis
    by (cases settings)
      (auto simp: build_notifier_def create_notifier_def select_adapter_Inr await_eq_Inr split: if_splits)
qed

lemma every_level_ranked: "level_rank l \<le> level_rank LogError"
  by (cases l) auto

lemma guarded_console:
  "guarded_notify (create_logger prefix threshold) delivery e w =
     (let w1 = snd (create_logger prefix threshold (severity_of e) (describe_event e) w) in
      case delivery of None \<Rightarrow> (Inr (), w1)
      | Some d \<Rightarrow> (case d e w1 of (Inr _, w2) \<Rightarrow> (Inr (), w2)
          | (Inl err, w2) \<Rightarrow> (Inr (), snd (create_logger prefix threshold LogError
              (''Failed to deliver notification ('' @ event_kind e @ ''): '' @ err) w2))))"
  by (simp add: guarded_notify_def create_logger_def Let_def split: option.splits sum.splits prod.splits)

lemma guarded_posts:
  assumes "slack_message e = Inr m"
  shows "jn_posts (snd (guarded_notify (create_logger prefix threshold) (Some (slack_notify post url t)) e w))
    = jn_posts w @ [(url, m)]"
  using slack_posts(2) [OF assms, of post url t]
  by (simp add: guarded_console Let_def console_logs split: prod.splits sum.splits) (metis console_logs(2) snd_conv)

lemma guarded_journal:
  assumes "delivery = None \<or> (\<exists>url t. delivery = Some (slack_notify post url t))"
  shows "\<exists>late. jn_lines (snd (guarded_notify (create_logger prefix threshold) delivery e w)) = jn_lines w
      @ (if level_rank threshold \<le> level_rank (severity_of e) then [(severity_of e, prefix @ describe_event e)] else [])
      @ late \<and> (late = [] \<or> (\<exists>err. late = [(LogError, prefix @ ''Failed to deliver notification (''
          @ event_kind e @ ''): '' @ err)]))"
proof (cases delivery)
  case None
  then show ?thesis by (simp add: guarded_console console_logs)
next
  case (Some d)
  with assms obtain url t where d: "d = slack_notify post url t" by auto
  let ?w1 = "snd (create_logger prefix threshold (severity_of e) (describe_event e) w)"
  obtain r w2 where run: "d e ?w1 = (r, w2)" by (metis surj_pair)
  with slack_posts(1) [of post url t e ?w1] have "jn_lines w2 = jn_lines ?w1" by (simp add: d)
  with run every_level_ranked [of threshold] show ?thesis
    by (cases r) (auto simp: guarded_console Some console_logs Let_def)
qed


text \<open>An alert reaches the journal first and never fails its caller. Whatever the webhook answers, a
  notifier the boot built resolves; it has written the summary, at the severity of the event, unless the
  log level filters it; only then does it post, at most once and to the resolved webhook; and a delivery
  that fails adds one line that says so. The risk gate's halts and resumes pass through it unchanged.\<close>

theorem alert_is_logged_and_never_thrown:
  assumes "build_notifier post settings (create_logger prefix threshold) getSecret = Inr notify"
  shows "fst (notify e w) = Inr ()" "fst (deliver notify ns w) = Inr ()"
    "\<exists>late. jn_lines (snd (notify e w)) = jn_lines w
      @ (if level_rank threshold \<le> level_rank (severity_of e) then [(severity_of e, prefix @ describe_event e)] else [])
      @ late \<and> (late = [] \<or> (\<exists>err. late = [(LogError, prefix @ ''Failed to deliver notification (''
          @ event_kind e @ ''): '' @ err)]))"
    "fst settings = ''none'' \<Longrightarrow> jn_posts (snd (notify e w)) = jn_posts w"
    "fst settings \<noteq> ''none'' \<Longrightarrow> slack_message e = Inr m \<Longrightarrow>
       \<exists>url. getSecret (the (snd settings)) = Inr url \<and> jn_posts (snd (notify e w)) = jn_posts w @ [(url, m)]"
    "risk_event_sink notify (EvHalted reason) w = snd (notify (RiskHaltedEvent reason) w)"
proof -
  note c = build_notifier_cases [OF assms]
  show "fst (notify e w) = Inr ()" using c guarded.never_rejects by auto
  show "fst (deliver notify ns w) = Inr ()" using c guarded.deliver_never_fails by auto
  show "\<exists>late. jn_lines (snd (notify e w)) = jn_lines w
      @ (if level_rank threshold \<le> level_rank (severity_of e) then [(severity_of e, prefix @ describe_event e)] else [])
      @ late \<and> (late = [] \<or> (\<exists>err. late = [(LogError, prefix @ ''Failed to deliver notification (''
          @ event_kind e @ ''): '' @ err)]))"
    using c guarded_journal [of None post] guarded_journal [of _ post] by blast
  show "fst settings = ''none'' \<Longrightarrow> jn_posts (snd (notify e w)) = jn_posts w"
    using c by (auto simp: guarded_console console_logs)
  show "fst settings \<noteq> ''none'' \<Longrightarrow> slack_message e = Inr m \<Longrightarrow>
       \<exists>url. getSecret (the (snd settings)) = Inr url \<and> jn_posts (snd (notify e w)) = jn_posts w @ [(url, m)]"
    using c guarded_posts by blast
  show "risk_event_sink notify (EvHalted reason) w = snd (notify (RiskHaltedEvent reason) w)"
    by (simp add: risk_event_sink_def)
qed

text \<open>The log is not the guaranteed channel under every level: with \<open>LOG_LEVEL=error\<close> and no other channel, a
  halt leaves no trace.\<close>

lemma filtered_halt_unseen:
  "risk_event_sink (guarded_notify (create_logger prefix (resolve_level None (Some ''error''))) None)
     (EvHalted reason) w = w"
proof -
  have "resolve_level None (Some ''error'') = LogError" by code_simp
  then show ?thesis by (simp add: risk_event_sink_def guarded_console create_logger_def)
qed

section \<open>The operator is told the hash that is stored\<close>

lemma instant_in_range: "\<bar>t\<bar> \<le> MAX_TIME_MS \<Longrightarrow> \<exists>s. iso_instant t = Inr s"
  by (simp add: iso_instant_def Let_def split: prod.split)

lemma manual_message:
  assumes "case expiresAt of None \<Rightarrow> True | Some t \<Rightarrow> \<bar>t\<bar> \<le> MAX_TIME_MS"
  shows "\<exists>m. slack_message (ManualIntentEvent i action subject target h expiresAt) = Inr m
    \<and> (''Payload hash'', h, False) \<in> set (sm_fields m) \<and> (''Target'', target, True) \<in> set (sm_fields m)
    \<and> (''Subject'', subject, True) \<in> set (sm_fields m)"
  using assms by (auto simp: slack_message_def await_eq_Inr dest!: instant_in_range split: option.splits)



definition ex_post :: "string \<Rightarrow> slack_message \<Rightarrow> int \<Rightarrow> slack_response outcome" where
  "ex_post url m t = Inr \<lparr>sr_ok = False, sr_status = 404, sr_text = Inr ''no_service''\<rparr>"

lemma ex_proposed_notice:
  "fst (manual_propose pg_ops (\<lambda>p. ''0xnew'') 1 60000 9 ex_call (ex_intent ''0xPos'') ex_desk) = Inr (ProposedAs ex_id)"
  by code_simp


theorem alert_is_logged_and_never_thrown_witness:
  "fst (guarded_notify (create_logger ''[bot] '' Info) (Some (slack_notify ex_post ''u'' None))
      (RiskHaltedEvent ''breaker'') \<lparr>jn_lines = [], jn_posts = []\<rparr>) = Inr ()"
proof -
  have "build_notifier ex_post (''slack'', Some ''REF'') (create_logger ''[bot] '' Info) (\<lambda>_. Inr ''u'') =
      Inr (guarded_notify (create_logger ''[bot] '' Info) (Some (slack_notify ex_post ''u'' None)))"
    by (simp add: build_notifier_def create_notifier_def select_adapter_def is_text_def)
  from alert_is_logged_and_never_thrown(1) [OF this] show ?thesis .
qed

lemma ex_instants:
  "iso_instant 0 = Inr ''1970-01-01T00:00:00.000Z''" "iso_instant 951782400000 = Inr ''2000-02-29T00:00:00.000Z''"
  "iso_instant (- 1) = Inr ''1969-12-31T23:59:59.999Z''"
  "iso_instant 1735689599123 = Inr ''2024-12-31T23:59:59.123Z''"
  by code_simp+

end
