(* ===== verification/Health.thy ===== *)
theory Health
  imports Alerts
begin

text \<open>
  The health probes and the metrics server, \<open>packages/observability/src\<close>: \<open>health.ts\<close>, and the request
  handler of \<open>server.ts\<close>. The indexer's and the node's answers, the URL parser and the registry of
  metrics are arguments, as is the clock; binding the socket is left out.
\<close>

section \<open>Probes\<close>

datatype health_status = Healthy | Degraded | Unhealthy

record health_result =
  hr_status :: health_status
  hr_uptime :: int
  hr_lastPollAt :: "string option"
  hr_ponderReachable :: bool
  hr_rpcReachable :: bool
  hr_latestBlockNumber :: "string option"

record health_deps =
  hd_ponderUrl :: string
  hd_ponderHealthEndpoint :: string
  hd_publicClient :: "int outcome option"

text \<open>What the process remembers between requests: when it started and when it last polled.\<close>

record health_clock =
  hc_startTime :: millis
  hc_lastPollTime :: "millis option"

definition update_last_poll_time :: "millis \<Rightarrow> health_clock \<Rightarrow> health_clock" where
  "update_last_poll_time now c = c\<lparr>hc_lastPollTime := Some now\<rparr>"

text \<open>\<open>fetch\<close> answers \<open>response.ok\<close>, or rejects, an abort after five seconds included.\<close>

definition check_ponder_health :: "(string \<Rightarrow> bool outcome) \<Rightarrow> string \<Rightarrow> string \<Rightarrow> bool" where
  "check_ponder_health fetch ponderUrl healthEndpoint =
     (case fetch (ponderUrl @ healthEndpoint) of Inl _ \<Rightarrow> False | Inr ok \<Rightarrow> ok)"

definition check_rpc_health :: "int outcome option \<Rightarrow> bool \<times> int option" where
  "check_rpc_health publicClient = (case publicClient of
     None \<Rightarrow> (False, None)
   | Some (Inl _) \<Rightarrow> (False, None)
   | Some (Inr blockNumber) \<Rightarrow> (True, Some blockNumber))"

definition run_health_checks ::
  "(string \<Rightarrow> bool outcome) \<Rightarrow> health_deps \<Rightarrow> health_clock \<Rightarrow> millis \<Rightarrow> health_result outcome" where
  "run_health_checks fetch deps c now =
     (let ponderReachable = check_ponder_health fetch (hd_ponderUrl deps) (hd_ponderHealthEndpoint deps);
          (rpcReachable, blockNumber) = check_rpc_health (hd_publicClient deps);
          status = (if ponderReachable \<and> rpcReachable then Healthy
                    else if ponderReachable \<or> rpcReachable then Degraded else Unhealthy) in
      await (case hc_lastPollTime c of None \<Rightarrow> Inr None | Some t \<Rightarrow> await (iso_instant t) (\<lambda>s. Inr (Some s))) (\<lambda>lastPollAt.
        Inr \<lparr>hr_status = status, hr_uptime = (now - hc_startTime c) div 1000, hr_lastPollAt = lastPollAt,
          hr_ponderReachable = ponderReachable, hr_rpcReachable = rpcReachable,
          hr_latestBlockNumber = map_option show_int blockNumber\<rparr>))"

section \<open>The server\<close>

datatype health_body =
    HealthBody health_result
  | MetricsBody string
  | ReadyBody
  | NotReadyBody health_result
  | ErrorBody string

definition JSON_TYPE :: string where "JSON_TYPE = ''application/json''"

text \<open>The handler of one request: status, content type and body. \<open>pathname\<close> is the URL parser's, \<open>None\<close> when it
  throws; the request target may be absent.\<close>

definition observability_serve ::
  "(string \<Rightarrow> string option) \<Rightarrow> (string \<Rightarrow> bool outcome) \<Rightarrow> health_deps \<Rightarrow> string outcome \<Rightarrow> string \<Rightarrow> health_clock \<Rightarrow> millis
     \<Rightarrow> string option \<Rightarrow> int \<times> string \<times> health_body" where
  "observability_serve pathname fetch deps getMetrics metricsType c now reqUrl =
     (case pathname (if or_default reqUrl [] = [] then ''/'' else the reqUrl) of
        None \<Rightarrow> (400, JSON_TYPE, ErrorBody ''Bad request'')
      | Some url \<Rightarrow>
          (let answer =
             (if url = ''/health'' \<or> url = ''/healthz'' then
                await (run_health_checks fetch deps c now) (\<lambda>h.
                  Inr (if hr_status h = Healthy then 200 else if hr_status h = Degraded then 200 else 503,
                       JSON_TYPE, HealthBody h))
              else if url = ''/metrics'' then
                await getMetrics (\<lambda>m. Inr (200, metricsType, MetricsBody m))
              else if url = ''/ready'' \<or> url = ''/readyz'' then
                await (run_health_checks fetch deps c now) (\<lambda>h.
                  Inr (if hr_ponderReachable h \<and> hr_rpcReachable h then (200, JSON_TYPE, ReadyBody)
                       else (503, JSON_TYPE, NotReadyBody h)))
              else Inr (404, JSON_TYPE, ErrorBody ''Not found'')) in
           case answer of
             Inl _ \<Rightarrow> (500, JSON_TYPE, ErrorBody ''Internal server error'')
           | Inr r \<Rightarrow> r))"

section \<open>What a probe may conclude\<close>

lemma health_flags:
  assumes "run_health_checks fetch deps c now = Inr h"
  shows "hr_ponderReachable h \<longleftrightarrow> fetch (hd_ponderUrl deps @ hd_ponderHealthEndpoint deps) = Inr True"
    "hr_rpcReachable h \<longleftrightarrow> (\<exists>n. hd_publicClient deps = Some (Inr n))"
    "hr_status h = Healthy \<longleftrightarrow> hr_ponderReachable h \<and> hr_rpcReachable h"
    "hr_status h = Unhealthy \<longleftrightarrow> \<not> hr_ponderReachable h \<and> \<not> hr_rpcReachable h"
    "hr_latestBlockNumber h \<noteq> None \<longleftrightarrow> hr_rpcReachable h"
  using assms
  by (auto simp: run_health_checks_def check_ponder_health_def check_rpc_health_def Let_def await_eq_Inr
      split: sum.splits option.splits if_splits)

lemma health_always_answers:
  "case hc_lastPollTime c of None \<Rightarrow> True | Some t \<Rightarrow> \<bar>t\<bar> \<le> MAX_TIME_MS \<Longrightarrow>
     \<exists>h. run_health_checks fetch deps c now = Inr h"
  by (auto simp: run_health_checks_def Let_def await_def split: option.splits prod.splits sum.splits
      dest!: instant_in_range)

text \<open>A readiness probe answers 200 exactly when the indexer and the node both answer, a health probe 503 exactly
  when neither does, and no request ends the process.\<close>

lemma probe_codes:
  assumes "case hc_lastPollTime c of None \<Rightarrow> True | Some t \<Rightarrow> \<bar>t\<bar> \<le> MAX_TIME_MS"
    and "pathname reqUrl = Some url" "reqUrl \<noteq> []"
  shows "url \<in> {''/ready'', ''/readyz''} \<Longrightarrow>
      fst (observability_serve pathname fetch deps m mt c now (Some reqUrl)) =
        (if fetch (hd_ponderUrl deps @ hd_ponderHealthEndpoint deps) = Inr True \<and> (\<exists>n. hd_publicClient deps = Some (Inr n))
         then 200 else 503)"
    "url \<in> {''/health'', ''/healthz''} \<Longrightarrow>
      fst (observability_serve pathname fetch deps m mt c now (Some reqUrl)) =
        (if fetch (hd_ponderUrl deps @ hd_ponderHealthEndpoint deps) \<noteq> Inr True \<and> (\<nexists>n. hd_publicClient deps = Some (Inr n))
         then 503 else 200)"
proof -
  obtain h where h: "run_health_checks fetch deps c now = Inr h"
    using health_always_answers [OF assms(1)] by blast
  note f = health_flags [OF h]
  have status: "(hr_status h = Healthy \<or> hr_status h = Degraded) \<longleftrightarrow> hr_ponderReachable h \<or> hr_rpcReachable h"
    using f(4) by (cases "hr_status h") auto
  show "fst (observability_serve pathname fetch deps m mt c now (Some reqUrl)) =
      (if fetch (hd_ponderUrl deps @ hd_ponderHealthEndpoint deps) = Inr True \<and> (\<exists>n. hd_publicClient deps = Some (Inr n))
       then 200 else 503)" if "url \<in> {''/ready'', ''/readyz''}"
    using that h assms(2,3) by (auto simp: observability_serve_def f(1,2))
  show "fst (observability_serve pathname fetch deps m mt c now (Some reqUrl)) =
      (if fetch (hd_ponderUrl deps @ hd_ponderHealthEndpoint deps) \<noteq> Inr True \<and> (\<nexists>n. hd_publicClient deps = Some (Inr n))
       then 503 else 200)" if "url \<in> {''/health'', ''/healthz''}"
    using that h assms(2,3) status by (auto simp: observability_serve_def f(1,2))
qed

end
