(* ===== verification/Cli.thy ===== *)
theory Cli
  imports Operator Config
begin

text \<open>
  The command line of the operator, \<open>services/operator-cli/src\<close>: its configuration (\<open>config.ts\<close>), the choice of
  a signer, the arguments, the dispatch to the commands of \<open>Operator\<close> and the process around them
  (\<open>index.ts\<close>). Turning a private key into an account is the wallet library's, a parameter; so are the secrets
  provider and the chain. The result is what is printed and the exit code. An arrow in a line is written
  \<open>->\<close> or \<open><-\<close>.
\<close>

section \<open>Configuration\<close>

definition ref_list :: "string option \<Rightarrow> string list" where
  "ref_list v = filter (\<lambda>s. s \<noteq> []) (map trim (split_at (CHR '','') (or_default v [])))"

record cli_config =
  cl_rpcUrl :: string
  cl_persistence :: "string \<times> string option"
  cl_secrets :: "string \<times> string option"
  cl_executorAddress :: address
  cl_executorKind :: executor_kind
  cl_operatorKeyRef :: "string option"
  cl_safeOwnerKeyRefs :: "string list"

definition cli_load_config :: "(string \<Rightarrow> bool) \<Rightarrow> env \<Rightarrow> cli_config outcome" where
  "cli_load_config is_url env =
     await (required is_url env ''CLIENT_RPC_URL'') (\<lambda>rpcUrl.
     await (required nonempty_schema env ''DATABASE_URL'') (\<lambda>db.
     await (optional nonempty_schema env ''PERSISTENCE_SCHEMA'') (\<lambda>schema.
     await (defaulted (one_of [''env'', ''aws'']) ''env'' env ''SECRETS_PROVIDER'') (\<lambda>secrets.
     await (optional nonempty_schema env ''AWS_REGION'') (\<lambda>region.
     await (required address_schema env ''MANUAL_EXECUTOR_ADDRESS'') (\<lambda>executor.
     await (required (one_of [''eoa'', ''safe'']) env ''MANUAL_EXECUTOR_KIND'') (\<lambda>kind.
     await (optional nonempty_schema env ''OPERATOR_KEY_REF'') (\<lambda>keyRef.
     await (optional (\<lambda>_. True) env ''SAFE_OWNER_KEY_REFS'') (\<lambda>owners.
       Inr \<lparr>cl_rpcUrl = rpcUrl, cl_persistence = (db, schema), cl_secrets = (secrets, region),
         cl_executorAddress = executor, cl_executorKind = (if kind = ''safe'' then SafeCustody else Eoa),
         cl_operatorKeyRef = keyRef, cl_safeOwnerKeyRefs = ref_list owners\<rparr>)))))))))"

section \<open>The signer\<close>

text \<open>An account: its address, how its wallet puts a call on the wire, how it signs a Safe transaction.\<close>

record wallet_account =
  wa_address :: address
  wa_send :: "address \<Rightarrow> hex \<Rightarrow> int \<Rightarrow> hex outcome"
  wa_signTypedData :: "safe_typed_data \<Rightarrow> hex outcome"

definition keyless_signer :: "address \<Rightarrow> operator_signer" where
  "keyless_signer executor = \<lparr>os_address = executor, os_buildEnvelope = (\<lambda>_. Inr None),
     os_send = (\<lambda>_ _. Inl ''no OPERATOR_KEY_REF configured -- sign externally and record with `confirm --tx`'')\<rparr>"

definition build_signer ::
  "abi_lib \<Rightarrow> safe_signer_deps \<Rightarrow> (string \<Rightarrow> wallet_account outcome) \<Rightarrow> (string \<Rightarrow> string \<Rightarrow> string outcome) \<Rightarrow> int
     \<Rightarrow> cli_config \<Rightarrow> operator_signer outcome" where
  "build_signer lib chain privateKeyToAccount secret chainId cl =
     (let account = (\<lambda>label ref. await (secret ref label) privateKeyToAccount) in
      case cl_executorKind cl of
        Eoa \<Rightarrow> (case cl_operatorKeyRef cl of
            None \<Rightarrow> Inr (keyless_signer (cl_executorAddress cl))
          | Some ref \<Rightarrow> await (account ''OPERATOR_KEY_REF'' ref) (\<lambda>a. Inr (eoa_signer (wa_address a) (wa_send a))))
      | SafeCustody \<Rightarrow> await (await_all (account ''SAFE_OWNER_KEY_REFS'') (cl_safeOwnerKeyRefs cl)) (\<lambda>owners.
          Inr (safe_signer lib (chain\<lparr>sd_safe := cl_executorAddress cl,
            sd_owners := map (\<lambda>a. (wa_address a, wa_signTypedData a)) owners,
            sd_relayer := (case owners of [] \<Rightarrow> None | a # _ \<Rightarrow> Some (wa_send a)), sd_chainId := chainId\<rparr>))))"

section \<open>Arguments\<close>

definition USAGE :: string where
  "USAGE = ''usage: operator-cli <command> [id] [flags]''"

fun cli_flag :: "string list \<Rightarrow> string \<Rightarrow> string option" where
  "cli_flag [] name = None"
| "cli_flag (a # args) name = (if a = name then (case args of [] \<Rightarrow> None | v # _ \<Rightarrow> Some v) else cli_flag args name)"

definition require_id :: "string list \<Rightarrow> string outcome" where
  "require_id args = (case find (\<lambda>a. take 2 a \<noteq> ''--'') args of
     None \<Rightarrow> Inl ''this command requires an <id>''
   | Some i \<Rightarrow> if i = [] then Inl ''this command requires an <id>'' else Inr i)"

section \<open>Dispatch\<close>

datatype cli_line = OutLine string | OutView proposal_view | ErrLine string

definition list_line :: "tx_intent \<Rightarrow> cli_line" where
  "list_line r = OutLine (ti_id r @ ''  ['' @ status_word (ti_status r) @ '']  '' @ ii_action r
     @ ''  subject='' @ ii_subject r @ ''  hash='' @ or_default (ti_payloadHash r) ''null'')"

definition claim_reason :: "claim_failure \<Rightarrow> string" where
  "claim_reason r = (case r of NotFound \<Rightarrow> ''not-found'' | NotProposed \<Rightarrow> ''not-proposed'' | HashMismatch \<Rightarrow> ''hash-mismatch'')"

definition claimed_line :: "tx_intent \<Rightarrow> cli_line" where
  "claimed_line r = OutLine (''claimed '' @ ti_id r @ (case ti_safeEnvelope r of None \<Rightarrow> ''''
     | Some e \<Rightarrow> '' -- sign safeTxHash '' @ se_safeTxHash e @ '' at Safe nonce '' @ show_int (sp_safeNonce e)))"

text \<open>What a command prints and its exit code, or the error it throws; with what the signer was asked to
  send, and the store it leaves.\<close>

type_synonym 'db cli_result = "(cli_line list \<times> int) outcome \<times> sends \<times> 'db"

definition with_id :: "string list \<Rightarrow> 'db \<Rightarrow> (string \<Rightarrow> 'db cli_result) \<Rightarrow> 'db cli_result" where
  "with_id args db f = (case require_id args of Inl e \<Rightarrow> (Inl e, [], db) | Inr i \<Rightarrow> f i)"

definition reported :: "(cli_line \<times> int) outcome \<times> 'db \<Rightarrow> 'db cli_result" where
  "reported r = (await (fst r) (\<lambda>(line, code). Inr ([line], code)), [], snd r)"

definition dispatch ::
  "'db operator_context \<Rightarrow> op_env \<Rightarrow> string \<Rightarrow> string list \<Rightarrow> 'db \<Rightarrow> 'db cli_result" where
  "dispatch ctx env command args db =
     (if command = ''list'' then
        (let rows = list_proposals ctx (cli_flag args ''--action'') db in
         (Inr (if rows = [] then [OutLine ''No proposals awaiting an operator.''] else map list_line rows, 0), [], db))
      else if command = ''show'' then with_id args db (\<lambda>i.
        reported (await (show_proposal ctx (oe_clock env 0) i db) (\<lambda>v. Inr (OutView v, 0)), db))
      else if command = ''claim'' then with_id args db (\<lambda>i.
        case claim_command ctx env i db of (r, db') \<Rightarrow>
          reported (await r (\<lambda>c. Inr (case c of Inl reason \<Rightarrow> (ErrLine (''claim refused: '' @ claim_reason reason), 1)
            | Inr row \<Rightarrow> (claimed_line row, 0))), db'))
      else if command = ''broadcast'' then with_id args db (\<lambda>i.
        case broadcast_command ctx env i db of (r, sent, db') \<Rightarrow>
          (await r (\<lambda>tx. Inr ([OutLine (''broadcast -> '' @ tx)], 0)), sent, db'))
      else if command = ''confirm'' then
        (case cli_flag args ''--tx'' of
           None \<Rightarrow> (Inl ''confirm requires --tx <hash>'', [], db)
         | Some tx \<Rightarrow> if tx = [] then (Inl ''confirm requires --tx <hash>'', [], db)
             else with_id args db (\<lambda>i. case confirm_command ctx env i tx db of (r, db') \<Rightarrow>
               reported (await r (\<lambda>_. Inr (OutLine (''confirmed <- '' @ tx), 0)), db')))
      else if command = ''release'' then with_id args db (\<lambda>i.
        case release_command ctx env i db of (r, db') \<Rightarrow>
          reported (await r (\<lambda>_. Inr (OutLine ''released'', 0)), db'))
      else if command = ''fail'' then with_id args db (\<lambda>i.
        case fail_command ctx env i (cli_flag args ''--reason'') db of (r, db') \<Rightarrow>
          reported (await r (\<lambda>_. Inr (OutLine ''failed'', 0)), db'))
      else (Inr ([ErrLine USAGE], 1), [], db))"

section \<open>The process\<close>

definition cli_context ::
  "'db store_ops \<Rightarrow> abi_lib \<Rightarrow> chain_view \<Rightarrow> int \<Rightarrow> cli_config \<Rightarrow> operator_signer \<Rightarrow> 'db operator_context" where
  "cli_context ops lib view chainId cl signer = \<lparr>oc_store = ops, oc_lib = lib, oc_signer = signer,
     oc_chain = view, oc_executor = cl_executorAddress cl, oc_kind = cl_executorKind cl, oc_chainId = chainId\<rparr>"

text \<open>\<open>main\<close> and the handler of its rejection: an error is printed, and the exit code is one. The store is
  closed on every path once it was opened.\<close>

record 'db cli_exit =
  cx_lines :: "cli_line list"
  cx_code :: int
  cx_sent :: sends
  cx_db :: 'db
  cx_opened :: nat
  cx_closed :: nat

definition cli_main ::
  "'db store_ops \<Rightarrow> abi_lib \<Rightarrow> (string \<Rightarrow> bool) \<Rightarrow> env \<Rightarrow> int outcome \<Rightarrow> chain_view \<Rightarrow> safe_signer_deps
     \<Rightarrow> (string \<Rightarrow> wallet_account outcome) \<Rightarrow> (string \<Rightarrow> string \<Rightarrow> string outcome) \<Rightarrow> op_env \<Rightarrow> string list \<Rightarrow> 'db
     \<Rightarrow> 'db cli_exit" where
  "cli_main ops lib is_url env chainId view chain toAccount secret cmdEnv argv db =
     (let failed = (\<lambda>e n. \<lparr>cx_lines = [ErrLine e], cx_code = 1, cx_sent = [], cx_db = db, cx_opened = n, cx_closed = n\<rparr>) in
      case argv of
        [] \<Rightarrow> failed USAGE 0
      | command # args \<Rightarrow>
          if command = [] then failed USAGE 0
          else (case await (cli_load_config is_url env) (\<lambda>cl. await chainId (\<lambda>n. Inr (cl, n))) of
            Inl e \<Rightarrow> failed e 0
          | Inr (cl, n) \<Rightarrow>
              (case build_signer lib chain toAccount secret n cl of
                 Inl e \<Rightarrow> failed e 1
               | Inr signer \<Rightarrow>
                   (case dispatch (cli_context ops lib view n cl signer) cmdEnv command args db of
                      (Inl e, sent, db') \<Rightarrow> \<lparr>cx_lines = [ErrLine e], cx_code = 1, cx_sent = sent, cx_db = db',
                        cx_opened = 1, cx_closed = 1\<rparr>
                    | (Inr (lines, code), sent, db') \<Rightarrow> \<lparr>cx_lines = lines, cx_code = code, cx_sent = sent, cx_db = db',
                        cx_opened = 1, cx_closed = 1\<rparr>))))"


section \<open>A command that succeeds has done what it says\<close>

lemma send_and_record_okE:
  assumes "send_and_record ctx env i p h r db = (Inr tx, sent, db')"
  shows "os_send (oc_signer ctx) p (ti_safeEnvelope r) = Inr tx
    \<and> so_markBroadcast (oc_store ctx) (oe_clock env 4) i tx h (store_run (oc_store ctx) (oe_others env 4) db) = (True, db')"
  using assms by (simp add: send_and_record_def Let_def split: sum.splits prod.splits bool.splits)

lemma broadcast_ok:
  assumes "broadcast_command ctx env i db = (Inr tx, sent, db')"
  shows "\<exists>p e e' h row dbc. os_send (oc_signer ctx) p e = Inr tx
    \<and> so_claimProposal (oc_store ctx) (oe_clock env 3) i h e' (at_claim ctx env db) = (ClaimOk row, dbc)
    \<and> so_markBroadcast (oc_store ctx) (oe_clock env 4) i tx h
       (store_run (oc_store ctx) (oe_others env 4) dbc) = (True, db')"
proof -
  obtain p h e row dbc where "so_claimProposal (oc_store ctx) (oe_clock env 3) i h e (at_claim ctx env db) = (ClaimOk row, dbc)"
    and "send_and_record ctx env i p h row dbc = (Inr tx, sent, db')"
    using assms unfolding broadcast_command_def by (auto split: sum.splits prod.splits claim_result.splits)
  from this(1) send_and_record_okE [OF this(2)] show ?thesis by auto
qed

lemma claim_keeps_wf:
  assumes "pg_wf db" "so_claimProposal pg_ops now i h e db = (r, db')"
  shows "pg_wf db'"
proof -
  have "snd (store_apply pg_ops now (DoClaim i h e) db) = db'" using assms(2) by simp
  with pg.wf_apply [OF assms(1), of now "DoClaim i h e"] show ?thesis by simp
qed

lemma marked_row:
  assumes "pg_wf db" "so_markBroadcast pg_ops now i tx h db = (True, db')"
  shows "\<exists>row. pg_lookup db' i = Some row \<and> ti_status row = Submitted \<and> ti_txHash row = Some tx"
  using pg.mark_ok [OF assms, unfolded pg_lookup_ops] by (metis tx_intent.select_convs(2,4) tx_intent.surjective
      tx_intent.update_convs(2,4,11))

lemma broadcast_recorded:
  assumes "oc_store ctx = pg_ops" "pg_wf db" "broadcast_command ctx env i db = (Inr tx, sent, db')"
  shows "\<exists>row. pg_lookup db' i = Some row \<and> ti_status row = Submitted \<and> ti_txHash row = Some tx"
proof -
  obtain e' h row dbc where
    c: "so_claimProposal pg_ops (oe_clock env 3) i h e' (at_claim ctx env db) = (ClaimOk row, dbc)"
    and m: "so_markBroadcast pg_ops (oe_clock env 4) i tx h (store_run pg_ops (oe_others env 4) dbc) = (True, db')"
    using broadcast_ok [OF assms(3)] assms(1) by auto
  have "pg_wf (store_run pg_ops (oe_others env 4) dbc)"
    by (intro pg.run_wf claim_keeps_wf [OF at_claim_wf [OF assms(1,2)] c])
  from marked_row [OF this m] show ?thesis .
qed

lemma confirm_recorded:
  assumes "oc_store ctx = pg_ops" "pg_wf db" "confirm_command ctx env i tx db = (Inr u, db')"
  shows "\<exists>row. pg_lookup db' i = Some row \<and> ti_status row = Submitted \<and> ti_txHash row = Some tx"
proof (rule confirm_okE [OF assms(3)])
  fix row p h t
  assume m: "so_markBroadcast (oc_store ctx) (oe_clock env 1) i tx h (store_run (oc_store ctx) (oe_others env 1) db) = (True, db')"
  have "pg_wf (store_run pg_ops (oe_others env 1) db)" by (rule pg.run_wf [OF assms(2)])
  from marked_row [OF this m [unfolded assms(1)]] show ?thesis .
qed

text \<open>Only a signer with keys sends.\<close>

definition holds_key :: "cli_config \<Rightarrow> bool" where
  "holds_key cl \<longleftrightarrow> (case cl_executorKind cl of Eoa \<Rightarrow> cl_operatorKeyRef cl \<noteq> None | SafeCustody \<Rightarrow> cl_safeOwnerKeyRefs cl \<noteq> [])"

lemma sending_needs_key:
  assumes "build_signer lib chain toAccount secret n cl = Inr signer" "os_send signer p e = Inr tx"
  shows "holds_key cl"
proof (cases "cl_executorKind cl")
  case Eoa
  with assms show ?thesis
    by (auto simp: build_signer_def holds_key_def keyless_signer_def split: option.splits)
next
  case SafeCustody
  show ?thesis
  proof (rule ccontr)
    assume "\<not> ?thesis"
    with SafeCustody have "cl_safeOwnerKeyRefs cl = []" by (simp add: holds_key_def)
    with assms SafeCustody show False
      by (auto simp: build_signer_def safe_signer_def safe_send_def split: option.splits)
  qed
qed

lemma with_id_Inr: "with_id args db f = (Inr x, y) \<longleftrightarrow> (\<exists>i. require_id args = Inr i \<and> f i = (Inr x, y))"
  by (auto simp: with_id_def split: sum.splits)

lemma reported_Inr:
  "reported r = (Inr (lines, code), sent, db') \<longleftrightarrow> (\<exists>l. fst r = Inr (l, code) \<and> lines = [l]) \<and> sent = [] \<and> db' = snd r"
  by (auto simp: reported_def await_eq_Inr)

lemma dispatch_broadcast:
  assumes "dispatch ctx env ''broadcast'' args db = (Inr (lines, code), sent, db')"
  shows "\<exists>i tx. require_id args = Inr i \<and> broadcast_command ctx env i db = (Inr tx, sent, db')
    \<and> lines = [OutLine (''broadcast -> '' @ tx)] \<and> code = 0"
proof -
  obtain i where i: "require_id args = Inr i" and r: "(case broadcast_command ctx env i db of (r, sent, db') \<Rightarrow>
      (await r (\<lambda>tx. Inr ([OutLine (''broadcast -> '' @ tx)], 0)), sent, db')) = (Inr (lines, code), sent, db')"
    using assms by (simp add: dispatch_def with_id_Inr) blast
  obtain x y z where "broadcast_command ctx env i db = (x, y, z)" by (metis prod_cases3)
  with i r show ?thesis by (auto simp: await_eq_Inr)
qed

lemma dispatch_confirm:
  assumes "dispatch ctx env ''confirm'' args db = (Inr (lines, code), sent, db')"
  shows "\<exists>i tx. require_id args = Inr i \<and> cli_flag args ''--tx'' = Some tx \<and> confirm_command ctx env i tx db = (Inr (), db')
    \<and> lines = [OutLine (''confirmed <- '' @ tx)] \<and> code = 0 \<and> sent = []"
proof -
  obtain i tx where i: "require_id args = Inr i" "cli_flag args ''--tx'' = Some tx"
    and r: "(case confirm_command ctx env i tx db of (r, db') \<Rightarrow>
      reported (await r (\<lambda>_. Inr (OutLine (''confirmed <- '' @ tx), 0)), db')) = (Inr (lines, code), sent, db')"
    using assms by (simp add: dispatch_def with_id_Inr split: option.splits if_splits) blast
  obtain x y where "confirm_command ctx env i tx db = (x, y)" by (metis surj_pair)
  with i r show ?thesis by (auto simp: await_eq_Inr reported_Inr)
qed

lemma dispatch_sends:
  assumes "dispatch ctx env command args db = (Inr (lines, code), sent, db')" "command \<noteq> ''broadcast''"
  shows "sent = []"
  using assms
  by (auto simp: dispatch_def with_id_Inr reported_Inr await_eq_Inr Let_def split_beta split: option.splits if_splits)

lemma cli_main_ok:
  assumes "cx_code (cli_main ops lib is_url env chainId view chain toAccount secret cmdEnv argv db) = 0"
  shows "\<exists>command args cl n signer lines sent db'. argv = command # args \<and> cli_load_config is_url env = Inr cl
    \<and> build_signer lib chain toAccount secret n cl = Inr signer
    \<and> dispatch (cli_context ops lib view n cl signer) cmdEnv command args db = (Inr (lines, 0), sent, db')
    \<and> cli_main ops lib is_url env chainId view chain toAccount secret cmdEnv argv db =
        \<lparr>cx_lines = lines, cx_code = 0, cx_sent = sent, cx_db = db', cx_opened = 1, cx_closed = 1\<rparr>"
  using assms
  by (cases argv) (fastforce simp: cli_main_def Let_def await_eq_Inr split: sum.splits prod.splits if_splits)+

lemma context_parts [simp]:
  "oc_store (cli_context ops lib view n cl signer) = ops" "oc_signer (cli_context ops lib view n cl signer) = signer"
  by (simp_all add: cli_context_def)

lemma cli_run:
  assumes "cli_main ops lib is_url env chainId view chain toAccount secret cmdEnv (command # args) db = x" "cx_code x = 0"
  shows "\<exists>cl n signer. cli_load_config is_url env = Inr cl \<and> build_signer lib chain toAccount secret n cl = Inr signer
    \<and> dispatch (cli_context ops lib view n cl signer) cmdEnv command args db = (Inr (cx_lines x, 0), cx_sent x, cx_db x)"
  using cli_main_ok [OF assms(2) [folded assms(1)]] unfolding assms(1) by auto blast

text \<open>The operator's tool reports what happened. It exits zero after \<open>broadcast\<close> or \<open>confirm\<close> only when the
  row it names is recorded as submitted under exactly the hash it printed; only \<open>broadcast\<close> puts anything
  on the wire, and succeeds only when the configuration names a key for the custody it serves; and the
  store it opened is closed, whatever happened.\<close>

theorem cli_reports_what_happened:
  assumes "cli_main pg_ops lib is_url env chainId view chain toAccount secret cmdEnv (command # args)
      (store_run pg_ops before pg_empty) = x"
  shows "cx_closed x = cx_opened x
    \<and> (cx_code x = 0 \<and> command = ''broadcast'' \<longrightarrow> (\<exists>i tx row cl. require_id args = Inr i
       \<and> cx_lines x = [OutLine (''broadcast -> '' @ tx)] \<and> pg_lookup (cx_db x) i = Some row
       \<and> ti_status row = Submitted \<and> ti_txHash row = Some tx \<and> cli_load_config is_url env = Inr cl \<and> holds_key cl))
    \<and> (cx_code x = 0 \<and> command = ''confirm'' \<longrightarrow> (\<exists>i tx row. require_id args = Inr i
       \<and> cx_lines x = [OutLine (''confirmed <- '' @ tx)] \<and> cli_flag args ''--tx'' = Some tx
       \<and> pg_lookup (cx_db x) i = Some row \<and> ti_status row = Submitted \<and> ti_txHash row = Some tx))
    \<and> (cx_code x = 0 \<and> command \<noteq> ''broadcast'' \<longrightarrow> cx_sent x = [])"
proof -
  let ?db = "store_run pg_ops before pg_empty"
  have wf: "pg_wf ?db" by (rule pg_run_wf)
  have closed: "cx_closed x = cx_opened x"
    unfolding assms [symmetric] by (simp add: cli_main_def Let_def split: sum.splits prod.splits)
  note run = cli_run [OF assms]
  have broadcast: "\<exists>i tx row cl. require_id args = Inr i
       \<and> cx_lines x = [OutLine (''broadcast -> '' @ tx)] \<and> pg_lookup (cx_db x) i = Some row
       \<and> ti_status row = Submitted \<and> ti_txHash row = Some tx \<and> cli_load_config is_url env = Inr cl \<and> holds_key cl"
    if ok: "cx_code x = 0" and c: "command = ''broadcast''"
  proof -
    obtain cl n signer where s: "cli_load_config is_url env = Inr cl" "build_signer lib chain toAccount secret n cl = Inr signer"
      and d: "dispatch (cli_context pg_ops lib view n cl signer) cmdEnv ''broadcast'' args ?db = (Inr (cx_lines x, 0), cx_sent x, cx_db x)"
      using run [OF ok] c by auto
    obtain i tx where b: "require_id args = Inr i" "cx_lines x = [OutLine (''broadcast -> '' @ tx)]"
      "broadcast_command (cli_context pg_ops lib view n cl signer) cmdEnv i ?db = (Inr tx, cx_sent x, cx_db x)"
      using dispatch_broadcast [OF d] by auto
    have "holds_key cl" using broadcast_ok [OF b(3)] sending_needs_key [OF s(2)] by auto
    with s(1) b broadcast_recorded [OF _ wf b(3)] show ?thesis by auto
  qed
  have confirm: "\<exists>i tx row. require_id args = Inr i
       \<and> cx_lines x = [OutLine (''confirmed <- '' @ tx)] \<and> cli_flag args ''--tx'' = Some tx
       \<and> pg_lookup (cx_db x) i = Some row \<and> ti_status row = Submitted \<and> ti_txHash row = Some tx"
    if ok: "cx_code x = 0" and c: "command = ''confirm''"
  proof -
    obtain cl n signer where d: "dispatch (cli_context pg_ops lib view n cl signer) cmdEnv ''confirm'' args ?db =
        (Inr (cx_lines x, 0), cx_sent x, cx_db x)"
      using run [OF ok] c by auto
    obtain i tx where b: "require_id args = Inr i" "cli_flag args ''--tx'' = Some tx"
      "cx_lines x = [OutLine (''confirmed <- '' @ tx)]"
      "confirm_command (cli_context pg_ops lib view n cl signer) cmdEnv i tx ?db = (Inr (), cx_db x)"
      using dispatch_confirm [OF d] by auto
    from b confirm_recorded [OF _ wf b(4)] show ?thesis by auto
  qed
  have quiet: "cx_sent x = []" if ok: "cx_code x = 0" and c: "command \<noteq> ''broadcast''"
  proof -
    obtain cl n signer where "dispatch (cli_context pg_ops lib view n cl signer) cmdEnv command args ?db =
        (Inr (cx_lines x, 0), cx_sent x, cx_db x)"
      using run [OF ok] by auto
    from dispatch_sends [OF this c] show ?thesis .
  qed
  show ?thesis using closed broadcast confirm quiet by blast
qed

definition ex_cli_env :: env where
  "ex_cli_env = map_of [(''CLIENT_RPC_URL'', ''http://r''), (''DATABASE_URL'', ''postgres://d''),
     (''MANUAL_EXECUTOR_ADDRESS'', ''0x'' @ replicate 40 (CHR ''a'')), (''MANUAL_EXECUTOR_KIND'', ''eoa''),
     (''OPERATOR_KEY_REF'', ''OPERATOR_KEY'')]"

definition ex_cli_run :: "env \<Rightarrow> string list \<Rightarrow> pg_db cli_exit" where
  "ex_cli_run env argv = cli_main pg_ops ex_lib (\<lambda>_. True) env (Inr 1) (oc_chain ex_ctx) ex_deps_safe
     (\<lambda>_. Inr \<lparr>wa_address = ''0x'' @ replicate 40 (CHR ''A''), wa_send = (\<lambda>_ _ _. Inr ''0xsent''), wa_signTypedData = (\<lambda>_. Inl ''no key'')\<rparr>)
     (\<lambda>_ _. Inr ''0xkey'') ex_env argv (store_run pg_ops ex_proposed pg_empty)"

lemma ex_cli_broadcasts:
  "cx_code (ex_cli_run ex_cli_env [''broadcast'', ex_id]) = 0"
  by code_simp

theorem cli_reports_what_happened_witness:
  "\<exists>i tx row. pg_lookup (cx_db (ex_cli_run ex_cli_env [''broadcast'', ex_id])) i = Some row
     \<and> ti_status row = Submitted \<and> ti_txHash row = Some tx"
  using cli_reports_what_happened [OF ex_cli_run_def [symmetric]] ex_cli_broadcasts by blast

text \<open>Without a key \<open>broadcast\<close> still takes the claim before it finds out that it cannot send: the row is left
  claimed and needs a \<open>confirm\<close> or a \<open>release\<close>.\<close>

lemma keyless_broadcast_claims:
  "cx_code (ex_cli_run (ex_cli_env(''OPERATOR_KEY_REF'' := None)) [''broadcast'', ex_id]) = 1"
  "map_option ti_status (pg_lookup (cx_db (ex_cli_run (ex_cli_env(''OPERATOR_KEY_REF'' := None)) [''broadcast'', ex_id])) ex_id)
     = Some Claimed"
  by code_simp+

text \<open>A flag's value is taken for the id when the flag comes first.\<close>

lemma flag_value_taken_for_id: "require_id [''--reason'', ''stale'', ex_id] = Inr ''stale''"
  by code_simp

end
