(* ===== verification/Approvals.thy ===== *)
theory Approvals
  imports LiqEngine ChainReads
begin

text \<open>
  What a liquidation engine sets up and takes back: reading the Spoke's reserves with their names for the log
  (\<open>reserves.ts\<close>, \<open>discoverReserves\<close> of \<open>engine.ts\<close>), checking the Lens at boot (\<open>prepare\<close>), and the
  adapter's allowances (\<open>funding/inventory.ts\<close>). The executor's \<open>ensureAllowance\<close> and \<open>revokeAllowance\<close> act on
  a world \<open>'w\<close>; contract reads are arguments. The token cache is shared by the engine and its funding mode.
\<close>

type_synonym topology = "address \<times> spoke_reserve list"

type_synonym meta_cache = "address \<rightharpoonup> token_meta"

section \<open>Reading the reserves\<close>

definition same_reserves :: "topology option \<Rightarrow> topology \<Rightarrow> bool" where
  "same_reserves a b = (case a of None \<Rightarrow> False | Some (spoke, rs) \<Rightarrow> spoke = fst b
     \<and> list_all2 (\<lambda>r r'. sr_token r = sr_token r' \<and> sr_borrowable r = sr_borrowable r'
         \<and> sr_repayable r = sr_repayable r') rs (snd b))"

text \<open>The names are read one after the other for the log; a read that fails is the caller's error.\<close>

fun read_symbols :: "(address \<Rightarrow> token_meta outcome) \<Rightarrow> address list \<Rightarrow> meta_cache \<Rightarrow> unit outcome \<times> meta_cache" where
  "read_symbols read [] cache = (Inr (), cache)"
| "read_symbols read (t # ts) cache = (case token_cache_get read t cache of
     (Inl e, cache') \<Rightarrow> (Inl e, cache') | (Inr _, cache') \<Rightarrow> read_symbols read ts cache')"

definition discover_reserves ::
  "topology outcome \<Rightarrow> (address \<Rightarrow> token_meta outcome) \<Rightarrow> topology option \<Rightarrow> meta_cache
     \<Rightarrow> topology outcome \<times> topology option \<times> meta_cache" where
  "discover_reserves discovered read previous cache = (case discovered of
     Inl e \<Rightarrow> (Inl e, previous, cache)
   | Inr topology \<Rightarrow>
       if same_reserves previous topology then (Inr topology, Some topology, cache)
       else (case read_symbols read (map sr_token (snd topology)) cache of
           (Inl e, cache') \<Rightarrow> (Inl e, previous, cache')
         | (Inr _, cache') \<Rightarrow> (Inr topology, Some topology, cache')))"

section \<open>Boot\<close>

definition assert_lens_wiring ::
  "address outcome \<Rightarrow> address outcome \<Rightarrow> address \<Rightarrow> address \<Rightarrow> address \<Rightarrow> unit outcome" where
  "assert_lens_wiring lensAdapter lensSpoke lens adapterAddress topologySpoke =
     await lensAdapter (\<lambda>adapter. await lensSpoke (\<lambda>spoke.
       if to_lower adapter \<noteq> to_lower adapterAddress
       then Inl (''Lens '' @ lens @ '' estimates for adapter '' @ adapter @ '', but ADAPTER_ADDRESS is '' @ adapterAddress)
       else if to_lower spoke \<noteq> to_lower topologySpoke
       then Inl (''Lens '' @ lens @ '' reads Spoke '' @ spoke @ '', but the adapter's is '' @ topologySpoke)
       else Inr ()))"

text \<open>\<open>prepare\<close>; neither funding mode has anything of its own to do there.\<close>

definition liq_prepare ::
  "topology outcome \<Rightarrow> (address \<Rightarrow> token_meta outcome) \<Rightarrow> address outcome \<Rightarrow> address outcome \<Rightarrow> address \<Rightarrow> address
     \<Rightarrow> meta_cache \<Rightarrow> unit outcome \<times> topology option \<times> meta_cache" where
  "liq_prepare discovered read lensAdapter lensSpoke lens adapterAddress cache =
     (case discover_reserves discovered read None cache of
        (Inl e, t, cache') \<Rightarrow> (Inl e, t, cache')
      | (Inr topology, t, cache') \<Rightarrow>
          (assert_lens_wiring lensAdapter lensSpoke lens adapterAddress (fst topology), t, cache'))"

section \<open>Allowances\<close>

type_synonym 'w allowance_call = "address \<Rightarrow> 'w \<Rightarrow> allowance_result outcome \<times> 'w"

fun approve_adapter ::
  "(address \<Rightarrow> token_meta outcome) \<Rightarrow> 'w allowance_call \<Rightarrow> address list \<Rightarrow> meta_cache \<times> 'w
     \<Rightarrow> unit outcome \<times> meta_cache \<times> 'w" where
  "approve_adapter read ensure [] (cache, w) = (Inr (), cache, w)"
| "approve_adapter read ensure (t # ts) (cache, w) = (case token_cache_get read t cache of
     (Inl e, cache') \<Rightarrow> (Inl e, cache', w)
   | (Inr _, cache') \<Rightarrow> (case ensure t w of
         (Inl e, w') \<Rightarrow> (Inl e, cache', w')
       | (Inr _, w') \<Rightarrow> approve_adapter read ensure ts (cache', w')))"

text \<open>A \<open>Set\<close> of the reserve tokens and WBTC, in order.\<close>

definition revocable_tokens :: "spoke_reserve list \<Rightarrow> address \<Rightarrow> address list" where
  "revocable_tokens reserves wbtc =
     (let ts = reserve_tokens reserves in if wbtc \<in> set ts then ts else ts @ [wbtc])"

text \<open>The metadata is read outside the handler, so its failure ends the loop; a revocation that fails does
  not.\<close>

fun revoke_loop ::
  "(address \<Rightarrow> token_meta outcome) \<Rightarrow> 'w allowance_call \<Rightarrow> address list \<Rightarrow> meta_cache \<times> 'w
     \<Rightarrow> unit outcome \<times> meta_cache \<times> 'w" where
  "revoke_loop read revoke [] (cache, w) = (Inr (), cache, w)"
| "revoke_loop read revoke (t # ts) (cache, w) = (case token_cache_get read t cache of
     (Inl e, cache') \<Rightarrow> (Inl e, cache', w)
   | (Inr _, cache') \<Rightarrow> revoke_loop read revoke ts (cache', snd (revoke t w)))"

definition revoke_approvals ::
  "(address \<Rightarrow> token_meta outcome) \<Rightarrow> 'w allowance_call \<Rightarrow> spoke_reserve list option \<Rightarrow> spoke_reserve list outcome
     \<Rightarrow> address \<Rightarrow> meta_cache \<times> 'w \<Rightarrow> unit outcome \<times> meta_cache \<times> 'w" where
  "revoke_approvals read revoke cached reserves wbtc st =
     (case (case cached of Some rs \<Rightarrow> Inr rs | None \<Rightarrow> reserves) of
        Inl e \<Rightarrow> (Inl e, st)
      | Inr rs \<Rightarrow> revoke_loop read revoke (revocable_tokens rs wbtc) st)"

text \<open>The stage the halted branch of the cycle runs.\<close>

definition revoke_stage ::
  "(address \<Rightarrow> token_meta outcome) \<Rightarrow> 'w allowance_call \<Rightarrow> spoke_reserve list option \<Rightarrow> spoke_reserve list outcome
     \<Rightarrow> address \<Rightarrow> (meta_cache \<times> 'w) stage" where
  "revoke_stage read revoke cached reserves wbtc = (\<lambda>(g, st).
     case revoke_approvals read revoke cached reserves wbtc st of (r, st') \<Rightarrow> (r, g, st'))"

section \<open>Boot wiring\<close>

lemma assert_lens_wiring_Inr:
  "assert_lens_wiring la ls lens adapter spoke = Inr u \<longleftrightarrow>
     (\<exists>a s. la = Inr a \<and> ls = Inr s \<and> to_lower a = to_lower adapter \<and> to_lower s = to_lower spoke)"
  by (auto simp: assert_lens_wiring_def await_eq_Inr)

lemma prepared_wiring:
  assumes "liq_prepare discovered read la ls lens adapter cache = (Inr (), t, cache')"
  shows "\<exists>topology a s. discovered = Inr topology \<and> t = Some topology \<and> la = Inr a \<and> ls = Inr s
    \<and> to_lower a = to_lower adapter \<and> to_lower s = to_lower (fst topology)"
  using assms
  by (auto simp: liq_prepare_def discover_reserves_def same_reserves_def assert_lens_wiring_Inr
      split: sum.splits prod.splits if_splits)

section \<open>Revocation\<close>

lemma cached_or_readable: "fst (token_cache_get read t cache) = Inr m \<longleftrightarrow>
  (cache t = Some m \<or> cache t = None \<and> read t = Inr m)"
  by (auto simp: token_cache_get_def split: option.splits sum.splits)

lemma readable_stays:
  assumes "\<exists>m. cache t = Some m \<or> read t = Inr m"
  shows "\<exists>m. snd (token_cache_get read t' cache) t = Some m \<or> read t = Inr m"
  using assms by (auto simp: token_cache_get_def split: option.splits sum.splits)

lemma revoke_loop_all:
  assumes "\<forall>t \<in> set ts. \<exists>m. cache t = Some m \<or> read t = Inr m"
  shows "\<exists>cache'. revoke_loop read revoke ts (cache, w) = (Inr (), cache', fold (\<lambda>t w. snd (revoke t w)) ts w)"
  using assms
proof (induction ts arbitrary: cache w)
  case (Cons t ts)
  obtain r cache' where g: "token_cache_get read t cache = (r, cache')" by (metis surj_pair)
  from Cons.prems have "\<exists>m. r = Inr m"
    using cached_or_readable [of read t cache] g by (cases "cache t") auto
  moreover have "\<forall>x \<in> set ts. \<exists>m. cache' x = Some m \<or> read x = Inr m"
    using Cons.prems readable_stays [of cache _ read t] g by (metis list.set_intros(2) snd_conv)
  ultimately show ?case using g Cons.IH [of cache' "snd (revoke t w)"] by auto
qed simp

lemma distinct_tokens_cover:
  "r \<in> set rs \<Longrightarrow> to_lower (sr_token r) \<in> seen \<or> to_lower (sr_token r) \<in> to_lower ` set (distinct_tokens seen rs)"
  by (induction seen rs rule: distinct_tokens.induct) auto

lemma distinct_tokens_fresh:
  "distinct (map to_lower (distinct_tokens seen rs)) \<and> to_lower ` set (distinct_tokens seen rs) \<inter> seen = {}"
  by (induction seen rs rule: distinct_tokens.induct) auto

lemma revocable_cover:
  "wbtc \<in> set (revocable_tokens rs wbtc)"
  "r \<in> set rs \<Longrightarrow> \<exists>t \<in> set (revocable_tokens rs wbtc). to_lower t = to_lower (sr_token r)"
  "distinct (revocable_tokens rs wbtc)"
proof -
  show "wbtc \<in> set (revocable_tokens rs wbtc)" by (simp add: revocable_tokens_def Let_def)
  show "\<exists>t \<in> set (revocable_tokens rs wbtc). to_lower t = to_lower (sr_token r)" if "r \<in> set rs"
    using distinct_tokens_cover [OF that, of "{}"]
    by (auto simp: revocable_tokens_def reserve_tokens_def Let_def)
  show "distinct (revocable_tokens rs wbtc)"
    using distinct_tokens_fresh [of "{}" rs]
    by (auto simp: revocable_tokens_def reserve_tokens_def Let_def distinct_map)
qed

text \<open>C39: a bytecode halt takes back every allowance and does nothing else. In a cycle that finds the gate halted
  by a code-hash mismatch, if the reserves are known or readable and so are the tokens' names, the
  adapter's allowance on each reserve token and on WBTC is revoked once, in order, whatever any single
  revocation answers; no candidate is fetched, no slot opened, and the gate stays as it was.\<close>

theorem code_hash_halt_revokes_all:
  assumes "reconcile st0 = (Inr (), st1)" "resyncNonces st1 = (Inr (), g, cache, w)"
    and "g_state g = HALTED" "g_codeHashHalt g"
    and "cached = Some rs \<or> cached = None \<and> reserves = Inr rs"
    and "\<forall>t \<in> set (revocable_tokens rs wbtc). \<exists>m. cache t = Some m \<or> read t = Inr m"
  shows "\<exists>cache'. engine_run cfg reconcile resyncNonces (revoke_stage read revoke cached reserves wbtc) indexerOk poll st0
      = (None, g, cache', fold (\<lambda>t w. snd (revoke t w)) (revocable_tokens rs wbtc) w)
    \<and> distinct (revocable_tokens rs wbtc) \<and> wbtc \<in> set (revocable_tokens rs wbtc)
    \<and> to_lower ` sr_token ` set rs \<subseteq> to_lower ` set (revocable_tokens rs wbtc)"
proof -
  obtain cache' where "revoke_loop read revoke (revocable_tokens rs wbtc) (cache, w) =
      (Inr (), cache', fold (\<lambda>t w. snd (revoke t w)) (revocable_tokens rs wbtc) w)"
    using revoke_loop_all [OF assms(6), of revoke w] by (elim exE)
  then have "revoke_stage read revoke cached reserves wbtc (g, cache, w) =
      (Inr (), g, cache', fold (\<lambda>t w. snd (revoke t w)) (revocable_tokens rs wbtc) w)"
    using assms(5) by (auto simp: revoke_stage_def revoke_approvals_def)
  with assms(1-4) have "engine_run cfg reconcile resyncNonces (revoke_stage read revoke cached reserves wbtc) indexerOk poll st0
      = (None, g, cache', fold (\<lambda>t w. snd (revoke t w)) (revocable_tokens rs wbtc) w)"
    by (simp add: engine_run_def)
  moreover have "to_lower (sr_token r) \<in> to_lower ` set (revocable_tokens rs wbtc)" if "r \<in> set rs" for r
    using revocable_cover(2) [OF that, of wbtc] by (metis imageI)
  then have "to_lower ` sr_token ` set rs \<subseteq> to_lower ` set (revocable_tokens rs wbtc)" by blast
  ultimately show ?thesis by (auto simp: revocable_cover)
qed

definition ex_reads :: "address \<Rightarrow> token_meta outcome" where
  "ex_reads t = (if t = ''0xdead'' then Inl ''no symbol'' else Inr \<lparr>tk_symbol = t, tk_decimals = 8\<rparr>)"

definition ex_halted :: gate where
  "ex_halted = halt_with ''mismatch'' True (create_gate ex_cfg)"

definition ex_revoke :: "address list allowance_call" where
  "ex_revoke t w = ((if t = ''0xusdc'' then Inl ''reverted'' else Inr Satisfied), w @ [t])"

definition ex_listed :: "spoke_reserve list" where
  "ex_listed = [\<lparr>sr_id = 0, sr_token = ''0xusdc'', sr_borrowable = True, sr_repayable = True\<rparr>,
     \<lparr>sr_id = 1, sr_token = ''0xdai'', sr_borrowable = False, sr_repayable = False\<rparr>]"

theorem code_hash_halt_revokes_all_witness:
  "\<exists>cache'. engine_run ex_cfg (\<lambda>st. (Inr (), st)) (\<lambda>st. (Inr (), st))
      (revoke_stage ex_reads ex_revoke (Some ex_listed) (Inl ''down'') ''0xwbtc'') (\<lambda>st. (Inr True, st))
      (\<lambda>g w. (None, [], g, w)) (ex_halted, Map.empty, [])
    = (None, ex_halted, cache', [''0xusdc'', ''0xdai'', ''0xwbtc''])"
proof -
  have h: "g_state ex_halted = HALTED" "g_codeHashHalt ex_halted"
    by (simp_all add: ex_halted_def halt_with_def emit_def Let_def)
  have ts: "revocable_tokens ex_listed ''0xwbtc'' = [''0xusdc'', ''0xdai'', ''0xwbtc'']" by code_simp
  have "\<forall>t \<in> set (revocable_tokens ex_listed ''0xwbtc''). \<exists>m. Map.empty t = Some m \<or> ex_reads t = Inr m"
    by (simp add: ts ex_reads_def)
  from code_hash_halt_revokes_all [where reconcile = "\<lambda>st. (Inr (), st)" and resyncNonces = "\<lambda>st. (Inr (), st)"
      and cached = "Some ex_listed" and reserves = "Inl ''down''" and w = "[]" and revoke = ex_revoke
      and ?st0.0 = "(ex_halted, Map.empty, [])" and cfg = ex_cfg and indexerOk = "\<lambda>st. (Inr True, st)"
      and poll = "\<lambda>g w. (None, [], g, w)", OF refl refl h _ this]
  show ?thesis by (simp add: ts ex_revoke_def)
qed

text \<open>A token whose name cannot be read stops the loop: the allowances after it stay granted in this cycle.\<close>

lemma unreadable_name_stops_revocation:
  "snd (snd (revoke_loop ex_reads ex_revoke [''0xdead'', ''0xwbtc''] (Map.empty, []))) = []"
  by (simp add: token_cache_get_def ex_reads_def)

end
