(* ===== verification/Services.thy ===== *)
theory Services
  imports Prelude
begin

text \<open>
  The entry points of the two services, \<open>services/liquidator/src/index.ts\<close> and
  \<open>services/arbitrageur/src/index.ts\<close>: what each starts, in which order, and the loops that poll. A stage is one
  call into the parts modelled elsewhere; what it answers is a function of the stages before it, so a run is the
  trace of its stages. The loops never end, so a run is observed for a number of cycles (the arbitrageur's two
  loops: for a schedule of their turns, a turn taken as one step).
\<close>

datatype engine_name = LiquidationLoop | ArbitrageLoop

datatype service_stage =
    LoadConfig
  | StartRuntime
  | WaitReady
  | Prepare engine_name
  | LogBalances engine_name
  | ReconcileAtBoot engine_name
  | RunCycle engine_name
  | SleepInterval engine_name

record service_world =
  sw_answer :: "service_stage list \<Rightarrow> service_stage \<Rightarrow> unit outcome"
  sw_ready :: "service_stage list \<Rightarrow> bool outcome"

datatype service_exit = Exited nat | Polling

text \<open>\<open>waitUntilReady\<close> answers a boolean, and not being ready is an error.\<close>

definition stage_answer :: "service_world \<Rightarrow> service_stage list \<Rightarrow> service_stage \<Rightarrow> unit outcome" where
  "stage_answer w tr s = (if s = WaitReady
     then await (sw_ready w tr) (\<lambda>ready. if ready then Inr ()
       else Inl ''the indexer was not ready -- refusing to trade on partially indexed history'')
     else sw_answer w tr s)"

text \<open>Awaiting one stage after the other, up to the first that throws.\<close>

fun run_stages :: "service_world \<Rightarrow> service_stage list \<Rightarrow> service_stage list \<Rightarrow> unit outcome \<times> service_stage list" where
  "run_stages w [] tr = (Inr (), tr)"
| "run_stages w (s # ss) tr = (case stage_answer w tr s of
     Inl e \<Rightarrow> (Inl e, tr @ [s]) | Inr _ \<Rightarrow> run_stages w ss (tr @ [s]))"

text \<open>\<open>createBot\<close> of both services; without a configured timeout nothing is waited for.\<close>

definition create_bot_stages :: "int option \<Rightarrow> service_stage list" where
  "create_bot_stages readyTimeoutMs = [StartRuntime] @ (if readyTimeoutMs = None then [] else [WaitReady])"

text \<open>One turn of a loop: a throw is logged, and the next turn is scheduled all the same.\<close>

definition poll_turn :: "service_world \<Rightarrow> engine_name \<Rightarrow> service_stage list \<Rightarrow> service_stage list" where
  "poll_turn w e tr = snd (run_stages w [RunCycle e, LogBalances e] tr) @ [SleepInterval e]"

fun poll_turns :: "service_world \<Rightarrow> engine_name list \<Rightarrow> service_stage list \<Rightarrow> service_stage list" where
  "poll_turns w [] tr = tr"
| "poll_turns w (e # es) tr = poll_turns w es (poll_turn w e tr)"

section \<open>The liquidator\<close>

definition liquidator_boot :: "int option \<Rightarrow> service_stage list" where
  "liquidator_boot readyTimeoutMs = [LoadConfig] @ create_bot_stages readyTimeoutMs
     @ [Prepare LiquidationLoop, LogBalances LiquidationLoop, ReconcileAtBoot LiquidationLoop]"

definition liquidator_main ::
  "service_world \<Rightarrow> int option \<Rightarrow> string option \<Rightarrow> nat \<Rightarrow> service_exit \<times> service_stage list" where
  "liquidator_main w readyTimeoutMs arg cycles =
     (let command = (if arg = None \<or> arg = Some [] then ''poll'' else the arg) in
      if command = ''poll'' then
        (case run_stages w (liquidator_boot readyTimeoutMs) [] of
           (Inl _, tr) \<Rightarrow> (Exited 1, tr)
         | (Inr _, tr) \<Rightarrow> (Polling, poll_turns w (replicate cycles LiquidationLoop) tr))
      else (Exited 1, snd (run_stages w [LoadConfig] [])))"

section \<open>The arbitrageur\<close>

definition arbitrageur_boot :: "int option \<Rightarrow> bool \<Rightarrow> service_stage list" where
  "arbitrageur_boot readyTimeoutMs liquidation = [LoadConfig] @ create_bot_stages readyTimeoutMs
     @ [Prepare ArbitrageLoop]
     @ (if liquidation then [Prepare LiquidationLoop, LogBalances LiquidationLoop] else [])"

text \<open>The liquidation loop is started without awaiting its first cycle: \<open>early\<close> is the number of its turns
  before the arbitrage side has logged its balance.\<close>

definition arbitrageur_poll ::
  "service_world \<Rightarrow> int option \<Rightarrow> bool \<Rightarrow> nat \<Rightarrow> engine_name list \<Rightarrow> service_exit \<times> service_stage list" where
  "arbitrageur_poll w readyTimeoutMs liquidation early schedule =
     (case run_stages w (arbitrageur_boot readyTimeoutMs liquidation) [] of
        (Inl _, tr) \<Rightarrow> (Exited 1, tr)
      | (Inr _, tr) \<Rightarrow>
          (case run_stages w [LogBalances ArbitrageLoop]
                  (poll_turns w (if liquidation then replicate early LiquidationLoop else []) tr) of
             (Inl _, tr') \<Rightarrow> (Exited 1, tr')
           | (Inr _, tr') \<Rightarrow> (Polling, poll_turns w
               (filter (\<lambda>e. e = ArbitrageLoop \<or> liquidation) schedule) tr')))"

definition arbitrageur_main ::
  "service_world \<Rightarrow> int option \<Rightarrow> bool \<Rightarrow> string option \<Rightarrow> nat \<Rightarrow> engine_name list \<Rightarrow> service_exit \<times> service_stage list" where
  "arbitrageur_main w readyTimeoutMs liquidation arg early schedule =
     (let command = (if arg = None \<or> arg = Some [] then ''poll'' else the arg) in
      if command \<in> {''help'', ''--help'', ''-h''} then (Exited 0, [])
      else if command \<in> {''poll'', ''start''} then arbitrageur_poll w readyTimeoutMs liquidation early schedule
      else (Exited 1, snd (run_stages w [LoadConfig] [])))"

section \<open>Nothing trades before the boot is done\<close>

text \<open>Every stage of a sequence, run one after the other from the start of the process, returned.\<close>

definition all_returned :: "service_world \<Rightarrow> service_stage list \<Rightarrow> bool" where
  "all_returned w ss \<longleftrightarrow> list_all (\<lambda>i. stage_answer w (take i ss) (ss ! i) = Inr ()) [0..<length ss]"

fun is_cycle :: "service_stage \<Rightarrow> bool" where
  "is_cycle (RunCycle e) = True"
| "is_cycle _ = False"

lemma run_stages_Inr:
  "fst (run_stages w ss tr) = Inr () \<Longrightarrow> snd (run_stages w ss tr) = tr @ ss
     \<and> (\<forall>i < length ss. stage_answer w (tr @ take i ss) (ss ! i) = Inr ())"
proof (induction ss arbitrary: tr)
  case (Cons s ss)
  then have "stage_answer w tr s = Inr ()" and ok: "fst (run_stages w ss (tr @ [s])) = Inr ()"
    by (auto split: sum.splits)
  moreover note Cons.IH [OF ok]
  ultimately show ?case by (auto simp: nth_Cons take_Cons split: nat.split)
qed simp

lemma run_stages_prefix: "\<exists>xs ys. snd (run_stages w ss tr) = tr @ xs \<and> ss = xs @ ys"
proof (induction ss arbitrary: tr)
  case (Cons s ss)
  show ?case
  proof (cases "stage_answer w tr s")
    case (Inr u)
    from Cons.IH [of "tr @ [s]"] obtain xs ys where "snd (run_stages w ss (tr @ [s])) = tr @ [s] @ xs" "ss = xs @ ys"
      by auto
    with Inr show ?thesis by (intro exI [of _ "s # xs"] exI [of _ ys]) simp
  qed auto
qed simp

lemma boot_returned: "run_stages w ss [] = (Inr u, tr) \<Longrightarrow> tr = ss \<and> all_returned w ss"
  using run_stages_Inr [of w ss "[]"] by (auto simp: all_returned_def list_all_iff)

lemma failed_boot_trades_nothing:
  assumes "run_stages w ss [] = (r, tr)" "list_all (\<lambda>s. \<not> is_cycle s) ss"
  shows "\<not> is_cycle s \<or> s \<notin> set tr"
  using run_stages_prefix [of w ss "[]"] assms by (auto simp: list_all_iff)

lemma boot_has_no_cycle:
  "list_all (\<lambda>s. \<not> is_cycle s) (liquidator_boot t)" "list_all (\<lambda>s. \<not> is_cycle s) (arbitrageur_boot t b)"
  by (auto simp: liquidator_boot_def arbitrageur_boot_def create_bot_stages_def)

lemma poll_turn_extends: "\<exists>xs. poll_turn w e tr = tr @ xs \<and> length (filter is_cycle xs) = 1"
  by (auto simp: poll_turn_def stage_answer_def split: sum.splits)

lemma poll_turns_extend: "\<exists>xs. poll_turns w es tr = tr @ xs \<and> length (filter is_cycle xs) = length es"
proof (induction es arbitrary: tr)
  case (Cons e es)
  obtain xs where xs: "poll_turn w e tr = tr @ xs" "length (filter is_cycle xs) = 1" using poll_turn_extends by blast
  moreover obtain ys where "poll_turns w es (poll_turn w e tr) = poll_turn w e tr @ ys"
    "length (filter is_cycle ys) = length es" using Cons.IH by blast
  ultimately show ?case by (intro exI [of _ "xs @ ys"]) simp
qed simp


text \<open>Both engines, one turn of the liquidation loop before the arbitrage loop starts, and a first arbitrage cycle
  that throws.\<close>

definition flaky_world :: service_world where
  "flaky_world = \<lparr> sw_answer = (\<lambda>_ s. if s = RunCycle ArbitrageLoop then Inl ''cycle'' else Inr ()),
     sw_ready = (\<lambda>_. Inr True) \<rparr>"


text \<open>The liquidator likewise, and a cycle needs the in-flight intents of the previous run to have been
  reconciled.\<close>

lemma liquidator_reconciles_before_trading:
  assumes "liquidator_main w readyTimeoutMs arg cycles = (ex, tr)" "is_cycle s" "s \<in> set tr"
  shows "\<exists>rest. tr = liquidator_boot readyTimeoutMs @ rest \<and> all_returned w (liquidator_boot readyTimeoutMs)
    \<and> ReconcileAtBoot LiquidationLoop \<in> set (liquidator_boot readyTimeoutMs)
    \<and> ex = Polling \<and> length (filter is_cycle rest) = cycles"
proof -
  let ?boot = "liquidator_boot readyTimeoutMs"
  have "s \<notin> set (snd (run_stages w [LoadConfig] []))"
    using failed_boot_trades_nothing [of w "[LoadConfig]"] assms(2) by (cases "run_stages w [LoadConfig] []") auto
  with assms obtain u where u: "run_stages w ?boot [] = (Inr u, ?boot)" "all_returned w ?boot"
    and p: "(Polling, poll_turns w (replicate cycles LiquidationLoop) ?boot) = (ex, tr)"
    using failed_boot_trades_nothing [OF _ boot_has_no_cycle(1)] boot_returned
    by (fastforce simp: liquidator_main_def Let_def split: if_splits prod.splits sum.splits)
  obtain xs where "poll_turns w (replicate cycles LiquidationLoop) ?boot = ?boot @ xs"
    "length (filter is_cycle xs) = cycles"
    using poll_turns_extend by (metis length_replicate)
  with p u(2) show ?thesis by (auto simp: liquidator_boot_def)
qed

end
