(* ===== verification/PgRows.thy ===== *)
theory PgRows
  imports PgStore JsNumbers "HOL-Library.Multiset"
begin

text \<open>
  The edges of \<open>packages/persistence/src/postgres.ts\<close> around its statements (\<open>PgStore\<close>): the schema name that is
  spliced into them, the lazy creation of the schema shared by concurrent operations, and the reading of a row,
  whose BIGINT columns the driver hands over as decimal text.
\<close>

section \<open>The schema's name\<close>

definition ident_start :: "char \<Rightarrow> bool" where
  "ident_start c = (c \<in> set ''abcdefghijklmnopqrstuvwxyzABCDEFGHIJKLMNOPQRSTUVWXYZ_'')"

definition ident_char :: "char \<Rightarrow> bool" where
  "ident_char c = (ident_start c \<or> c \<in> set ''0123456789'')"

definition schema_re :: "string \<Rightarrow> bool" where
  "schema_re s = (case s of [] \<Rightarrow> False | c # cs \<Rightarrow> ident_start c \<and> list_all ident_char cs)"

text \<open>The qualified names of the two tables, or the refusal to open the store.\<close>

definition table_names :: "string option \<Rightarrow> (string \<times> string) outcome" where
  "table_names configured = (let schema = or_default configured ''bot'' in
     if \<not> schema_re schema then Inl (''invalid persistence schema name: '' @ schema)
     else Inr (schema @ ''.tx_intents'', schema @ ''.execution_owner''))"

text \<open>A name that is accepted can end no identifier and open no string or comment: nothing of a statement
  comes from it but the name itself.\<close>

lemma table_names_inert:
  assumes "table_names configured = Inr (intents, owner)"
  shows "set intents \<union> set owner \<subseteq> Collect ident_char \<union> {CHR ''.''} \<and> ident_start (hd intents)
    \<and> set intents \<inter> {CHR '' '', CHR '';'', CHR ''-'', CHR ''('', CHR 0x22, CHR 0x27} = {}"
proof -
  have s: "schema_re (or_default configured ''bot'')"
    and n: "intents = or_default configured ''bot'' @ ''.tx_intents''"
      "owner = or_default configured ''bot'' @ ''.execution_owner''"
    using assms by (auto simp: table_names_def Let_def split: if_splits)
  have name: "set (or_default configured ''bot'') \<subseteq> Collect ident_char"
    using s by (auto simp: schema_re_def list_all_iff ident_char_def split: list.splits)
  have tables: "set ''.tx_intents'' \<union> set ''.execution_owner'' \<subseteq> Collect ident_char \<union> {CHR ''.''}"
    by (simp add: ident_char_def ident_start_def)
  have "hd intents = hd (or_default configured ''bot'')" "ident_start (hd (or_default configured ''bot''))"
    using s n by (auto simp: schema_re_def split: list.splits)
  moreover have "set intents \<union> set owner \<subseteq> Collect ident_char \<union> {CHR ''.''}"
    using name tables unfolding n by auto
  moreover have "c \<notin> Collect ident_char \<union> {CHR ''.''}"
    if "c \<in> {CHR '' '', CHR '';'', CHR ''-'', CHR ''('', CHR 0x22, CHR 0x27}" for c
    using that by (auto simp: ident_char_def ident_start_def)
  ultimately show ?thesis by auto
qed

section \<open>Creating the schema\<close>

record pg_error =
  pe_code :: "string option"
  pe_message :: string

definition CONCURRENT_CREATE_CODES :: "string list" where
  "CONCURRENT_CREATE_CODES = [''23505'', ''42P06'', ''42P07'']"

text \<open>\<open>runInit\<close>, over the answers of the database to the script, in turn; how many times it was sent.\<close>

definition run_init :: "(nat \<Rightarrow> pg_error + unit) \<Rightarrow> (pg_error + unit) \<times> nat" where
  "run_init ddl = (case ddl 0 of
     Inr _ \<Rightarrow> (Inr (), 1)
   | Inl err \<Rightarrow>
       if or_default (pe_code err) '''' \<in> set CONCURRENT_CREATE_CODES then (ddl 1, 2) else (Inl err, 1))"

text \<open>Losing the race for the creation is tolerated once, any other failure never.\<close>

lemma run_init_outcome:
  "fst (run_init ddl) = Inr () \<longleftrightarrow> ddl 0 = Inr ()
     \<or> (\<exists>err code. ddl 0 = Inl err \<and> pe_code err = Some code \<and> code \<in> set CONCURRENT_CREATE_CODES \<and> ddl 1 = Inr ())"
  "snd (run_init ddl) \<le> 2"
  by (auto simp: run_init_def CONCURRENT_CREATE_CODES_def or_default_def split: sum.splits option.splits)

text \<open>\<open>ensureReady\<close>: the promise of the creation is kept while it runs and once it succeeded, and forgotten when it
  fails. An operation calls it first and goes on when the promise is fulfilled; \<open>ps_started\<close> and \<open>ps_failed\<close> count
  the runs of \<open>runInit\<close>.\<close>

datatype ready_promise = NotAsked | Running | Ready

record 'op pg_session =
  ps_ready :: ready_promise
  ps_waiting :: "'op list"
  ps_answered :: "('op \<times> (pg_error + unit)) list"
  ps_started :: nat
  ps_failed :: nat

definition new_session :: "'op pg_session" where
  "new_session = \<lparr> ps_ready = NotAsked, ps_waiting = [], ps_answered = [], ps_started = 0, ps_failed = 0 \<rparr>"

definition ensure_ready :: "'op \<Rightarrow> 'op pg_session \<Rightarrow> 'op pg_session" where
  "ensure_ready x s = (case ps_ready s of
     NotAsked \<Rightarrow> s\<lparr>ps_ready := Running, ps_waiting := ps_waiting s @ [x], ps_started := ps_started s + 1\<rparr>
   | Running \<Rightarrow> s\<lparr>ps_waiting := ps_waiting s @ [x]\<rparr>
   | Ready \<Rightarrow> s\<lparr>ps_answered := ps_answered s @ [(x, Inr ())]\<rparr>)"

definition init_settles :: "pg_error + unit \<Rightarrow> 'op pg_session \<Rightarrow> 'op pg_session" where
  "init_settles r s = (let s' = s\<lparr>ps_waiting := [], ps_answered := ps_answered s @ map (\<lambda>x. (x, r)) (ps_waiting s)\<rparr> in
     case r of Inr _ \<Rightarrow> s'\<lparr>ps_ready := Ready\<rparr>
     | Inl _ \<Rightarrow> s'\<lparr>ps_ready := NotAsked, ps_failed := ps_failed s + 1\<rparr>)"

text \<open>Any interleaving of operations that start and of the run in flight that settles.\<close>

inductive session_run :: "'op list \<Rightarrow> 'op pg_session \<Rightarrow> bool" where
  start: "session_run [] new_session"
| ask: "session_run xs s \<Longrightarrow> session_run (xs @ [x]) (ensure_ready x s)"
| settle: "session_run xs s \<Longrightarrow> ps_ready s = Running \<Longrightarrow> session_run xs (init_settles (fst (run_init ddl)) s)"

text \<open>However they interleave, one run is in flight at most and none starts after a success; an operation
  goes on only when the schema is there, and each is answered once or still waits for the run in flight.\<close>

theorem schema_created_once:
  "session_run xs s \<Longrightarrow>
     ps_started s = ps_failed s + (if ps_ready s = NotAsked then 0 else 1)
   \<and> (\<forall>x. (x, Inr ()) \<in> set (ps_answered s) \<longrightarrow> ps_ready s = Ready)
   \<and> (ps_waiting s \<noteq> [] \<longrightarrow> ps_ready s = Running)
   \<and> mset xs = mset (map fst (ps_answered s)) + mset (ps_waiting s)"
proof (induction rule: session_run.induct)
  case (settle xs s ddl)
  then show ?case
    by (cases "fst (run_init ddl)") (auto simp: init_settles_def Let_def comp_def)
qed (auto simp: new_session_def ensure_ready_def split: ready_promise.splits)

section \<open>Reading a row\<close>

record intent_row =
  ir_id :: string
  ir_chain_id :: string
  ir_relay_max_block :: "string option"
  ir_target :: string
  ir_action :: string
  ir_subject :: string
  ir_status :: intent_status
  ir_nonce :: "string option"
  ir_tx_hash :: "string option"
  ir_error :: "string option"
  ir_payload :: "proposed_tx option"
  ir_payload_hash :: "string option"
  ir_safe_envelope :: "safe_envelope option"
  ir_created_at :: string
  ir_updated_at :: string

definition nullable_number :: "string option \<Rightarrow> int option option" where
  "nullable_number v = (case v of None \<Rightarrow> Some None | Some t \<Rightarrow> map_option Some (number_integer t))"

text \<open>\<open>mapIntent\<close>; \<open>None\<close> stands for a row with \<open>NaN\<close> in it, which no BIGINT column gives.\<close>

definition map_intent :: "intent_row \<Rightarrow> tx_intent option" where
  "map_intent r = (case (number_integer (ir_chain_id r), nullable_number (ir_relay_max_block r),
       nullable_number (ir_nonce r), number_integer (ir_created_at r), number_integer (ir_updated_at r)) of
     (Some chainId, Some relayMaxBlock, Some nonce, Some createdAt, Some updatedAt) \<Rightarrow>
       Some \<lparr>ii_chainId = chainId, ii_target = ir_target r, ii_action = ir_action r, ii_subject = ir_subject r,
         ti_id = ir_id r, ti_status = ir_status r, ti_nonce = nonce, ti_txHash = ir_tx_hash r,
         ti_error = ir_error r, ti_relayMaxBlock = relayMaxBlock, ti_payload = ir_payload r,
         ti_payloadHash = ir_payload_hash r, ti_safeEnvelope = ir_safe_envelope r,
         ti_createdAt = createdAt, ti_updatedAt = updatedAt\<rparr>
   | _ \<Rightarrow> None)"

text \<open>The row as the driver returns it: a BIGINT as its decimal text.\<close>

definition row_of :: "tx_intent \<Rightarrow> intent_row" where
  "row_of i = \<lparr>ir_id = ti_id i, ir_chain_id = show_int (ii_chainId i),
     ir_relay_max_block = map_option show_int (ti_relayMaxBlock i), ir_target = ii_target i,
     ir_action = ii_action i, ir_subject = ii_subject i, ir_status = ti_status i,
     ir_nonce = map_option show_int (ti_nonce i), ir_tx_hash = ti_txHash i, ir_error = ti_error i,
     ir_payload = ti_payload i, ir_payload_hash = ti_payloadHash i, ir_safe_envelope = ti_safeEnvelope i,
     ir_created_at = show_int (ti_createdAt i), ir_updated_at = show_int (ti_updatedAt i)\<rparr>"

definition safe_integer :: "int \<Rightarrow> bool" where
  "safe_integer n \<longleftrightarrow> \<bar>n\<bar> \<le> 2 ^ 53 - 1"

lemma safe_number_reads_back: "safe_integer n \<Longrightarrow> number_integer (show_int n) = Some n"
  by (rule number_integer_show_int) (simp add: safe_integer_def)

text \<open>What a statement stored is what the store's caller reads, column by column, while the numbers are safe
  integers.\<close>

lemma row_read_back:
  assumes "safe_integer (ii_chainId i)" "safe_integer (ti_createdAt i)" "safe_integer (ti_updatedAt i)"
    "\<And>n. ti_nonce i = Some n \<or> ti_relayMaxBlock i = Some n \<Longrightarrow> safe_integer n"
  shows "map_intent (row_of i) = Some i"
  using assms by (cases "ti_nonce i"; cases "ti_relayMaxBlock i")
    (auto simp: map_intent_def row_of_def nullable_number_def safe_number_reads_back)

end
