(* ===== verification/RelayClient.thy ===== *)
theory RelayClient
  imports Liveness
begin

text \<open>
  The HTTP side of \<open>packages/execution/src/submission/flashbots.ts\<close>: a request within its budget, the status query
  and what a log may show of an endpoint. The network's answer is an argument; what the answers mean is in
  \<open>TxSender\<close> (parsing) and \<open>Liveness\<close> (what they are evidence of).
\<close>

section \<open>A request within a budget\<close>

datatype fetch_failure = TimeoutError | AbortError | OtherFailure string

definition fetch_within :: "nat \<Rightarrow> string \<Rightarrow> (fetch_failure + 'r) \<Rightarrow> 'r outcome" where
  "fetch_within timeoutMs label answer = (case answer of
     Inr r \<Rightarrow> Inr r
   | Inl (OtherFailure e) \<Rightarrow> Inl e
   | Inl _ \<Rightarrow> Inl (''flashbots '' @ label @ '' timed out after '' @ show_nat timeoutMs @ ''ms''))"

record http_response =
  hr_status :: nat
  hr_json :: "json outcome"

definition hr_ok :: "http_response \<Rightarrow> bool" where
  "hr_ok r \<longleftrightarrow> 200 \<le> hr_status r \<and> hr_status r \<le> 299"

definition DEFAULT_SUBMIT_TIMEOUT_MS :: nat where
  "DEFAULT_SUBMIT_TIMEOUT_MS = 8000"

definition DEFAULT_STATUS_TIMEOUT_MS :: nat where
  "DEFAULT_STATUS_TIMEOUT_MS = 2000"

section \<open>Submitting\<close>

text \<open>Truth and text of a JSON value; \<open>render\<close> is JavaScript's text of a value that is none.\<close>

definition json_truthy :: "json \<Rightarrow> bool" where
  "json_truthy v = (v \<notin> {JNull, JBool False, JInt 0, JString []})"

definition rpc_text :: "(json \<Rightarrow> string) \<Rightarrow> json \<Rightarrow> string" where
  "rpc_text render v = (case v of JString t \<Rightarrow> t | _ \<Rightarrow> render v)"

text \<open>\<open>v.k\<close> when it is json_truthy.\<close>

definition truthy_field :: "json \<Rightarrow> string \<Rightarrow> json option" where
  "truthy_field v k = (case field v k of None \<Rightarrow> None | Some x \<Rightarrow> if json_truthy x then Some x else None)"

text \<open>The JSON-RPC body: its error, of which only the message is read, before its result. \<open>null\<close> has no fields to
  read, which throws.\<close>

definition relay_body :: "(json \<Rightarrow> string) \<Rightarrow> json \<Rightarrow> relay_answer" where
  "relay_body render body =
     (if body = JNull then NoAnswer ''TypeError: Cannot read properties of null''
      else RpcAnswer (map_option (rpc_text render) (truthy_field body ''result''))
        (map_option (\<lambda>err. case field err ''message'' of
             None \<Rightarrow> None | Some JNull \<Rightarrow> None | Some m \<Rightarrow> Some (rpc_text render m))
           (truthy_field body ''error'')))"

definition submit_answer ::
  "(json \<Rightarrow> string) \<Rightarrow> nat option \<Rightarrow> (fetch_failure + http_response) \<Rightarrow> relay_answer" where
  "submit_answer render submitTimeoutMs answer =
     (case fetch_within (or_default submitTimeoutMs DEFAULT_SUBMIT_TIMEOUT_MS) ''submit'' answer of
        Inl e \<Rightarrow> NoAnswer e
      | Inr r \<Rightarrow>
          if \<not> hr_ok r then HttpStatus (hr_status r)
          else (case hr_json r of Inl _ \<Rightarrow> MalformedBody | Inr body \<Rightarrow> relay_body render body))"

section \<open>The status query\<close>

definition relay_query ::
  "string \<Rightarrow> nat option \<Rightarrow> (string \<Rightarrow> fetch_failure + http_response) \<Rightarrow> hex \<Rightarrow> relay_status outcome" where
  "relay_query statusUrl statusTimeoutMs get h =
     await (fetch_within (or_default statusTimeoutMs DEFAULT_STATUS_TIMEOUT_MS) ''status''
              (get (statusUrl @ ''/tx/'' @ h))) (\<lambda>r.
       if \<not> hr_ok r then Inl (''flashbots status failed: HTTP '' @ show_nat (hr_status r))
       else await (hr_json r) parse_relay_status)"

text \<open>What may be logged of an endpoint: the origin the URL parser finds, or a fixed text.\<close>

definition describe_endpoint :: "(string \<Rightarrow> string option) \<Rightarrow> string \<Rightarrow> string" where
  "describe_endpoint origin url = or_default (origin url) ''<unparseable URL>''"

section \<open>Nothing but a plain answer counts\<close>

text \<open>A submission is a clean rejection, with nothing on the wire, only on an HTTP success whose JSON body has an
  error; no answer, a timeout, a status outside 2xx and an unreadable body leave the transaction in flight.\<close>

lemma clean_rejection_is_spelled_out:
  assumes "relay_submit (submit_answer render budget answer) = (BroadcastRejected why, c)"
  shows "c = Rejected \<and> (\<exists>r body err. answer = Inr r \<and> hr_ok r \<and> hr_json r = Inr body
    \<and> truthy_field body ''error'' = Some err \<and> \<not> not_clean why)"
  using assms by (auto simp: submit_answer_def fetch_within_def relay_body_def relay_submit_def Let_def
    split: sum.splits fetch_failure.splits if_splits option.splits)

lemma silence_is_ambiguous:
  "answer = Inl f \<or> answer = Inr r \<and> (\<not> hr_ok r \<or> hr_json r = Inl e) \<Longrightarrow>
     \<exists>why. relay_submit (submit_answer render budget answer) = (BroadcastError why, Ambiguous)"
  by (auto simp: submit_answer_def fetch_within_def relay_submit_def split: sum.splits fetch_failure.splits)

text \<open>A recorded deadline is repaired only from an HTTP success with a known status, never from a failed probe.\<close>

lemma deadline_needs_an_answer:
  assumes "repair_horizon head (relay_query statusUrl budget get h) = Inr (Some deadline)"
  shows "\<exists>r body st. get (statusUrl @ ''/tx/'' @ h) = Inr r \<and> hr_ok r \<and> hr_json r = Inr body
    \<and> parse_relay_status body = Inr st \<and> rs_status st \<noteq> RelUNKNOWN \<and> 0 < rs_maxBlockNumber st"
  using assms by (auto simp: repair_horizon_def relay_query_def fetch_within_def await_def
    split: sum.splits if_splits fetch_failure.splits)

end
