(* ===== verification/Trading.thy ===== *)
theory Trading
  imports LiqEngine
begin

text \<open>
  The liquidation engine on the executor it is given: \<open>liquidation/engine.ts\<close> over \<open>shared/executor.ts\<close>, one gate
  and one process. What \<open>LiqEngine\<close> leaves open, the executor, is the AUTO executor here, so a batch acts on the
  store, the nonces and the wire of \<open>Executor\<close>, and on the gate of \<open>RiskGate\<close>. The other engine, the kill switch
  and the guards act on the gate meanwhile; the other engine settles its own slots and no transaction of ours.
  The store answers every call here; what a commit that throws costs is \<open>thrown_commit_drops_hold\<close> of \<open>LiqEngine\<close>.
\<close>

section \<open>The engine's port on the AUTO executor\<close>

record trading =
  tr_now :: "funded \<Rightarrow> millis"
  tr_call :: "funded \<Rightarrow> contract_call"
  tr_send :: "funded \<Rightarrow> send_env"
  tr_beside :: "funded \<Rightarrow> gate_op list"
  tr_receipt :: "hex \<Rightarrow> (receipt_status \<times> int) outcome"
  tr_meanwhile :: "hex \<Rightarrow> gate_op list"
  tr_position :: "address \<Rightarrow> (int \<times> hex list) outcome"
  tr_recordAt :: "hex \<Rightarrow> millis"

text \<open>The intent a candidate is committed under; the executor fills in the chain.\<close>

definition liq_claim :: "contract_call \<Rightarrow> funded \<Rightarrow> intent_input" where
  "liq_claim call f = \<lparr>ii_chainId = 0, ii_target = cc_address call, ii_action = ''liquidation'',
     ii_subject = ca_proxyAddress (fu_candidate f)\<rparr>"

definition commit_candidate ::
  "'db store_ops option \<Rightarrow> address \<Rightarrow> int \<Rightarrow> trading \<Rightarrow> funded \<Rightarrow> 'db process \<Rightarrow> commit_result \<times> 'db process" where
  "commit_candidate store signer chainId t f pr =
     auto_commit store signer chainId (tr_send t f) (tr_call t f) (liq_claim (tr_call t f) f) pr"

definition executor_port ::
  "'db store_ops option \<Rightarrow> address \<Rightarrow> int \<Rightarrow> trading \<Rightarrow> 'db process engine_port" where
  "executor_port store signer chainId t = \<lparr>
     ep_now = tr_now t,
     ep_commit = (\<lambda>f pr. let (r, pr') = commit_candidate store signer chainId t f pr in (Inr r, tr_beside t f, pr')),
     ep_receipt = tr_receipt t, ep_meanwhile = tr_meanwhile t, ep_position = tr_position t,
     ep_recordOutcome = (\<lambda>i h failure pr. auto_record_outcome store (tr_recordAt t h) i h failure pr) \<rparr>"

section \<open>What the others may do to the gate\<close>

text \<open>Hashes the signer can make for a candidate, and for a batch; different candidates never share one.\<close>

definition hashes_of :: "trading \<Rightarrow> funded \<Rightarrow> hex set" where
  "hashes_of t f = {sg_hash tx |tx. signed_for (tr_send t f) (tr_call t f) tx}"

definition batch_hashes :: "trading \<Rightarrow> funded list \<Rightarrow> hex set" where
  "batch_hashes t fs = (\<Union>f \<in> set fs. hashes_of t f)"

fun apart :: "trading \<Rightarrow> funded list \<Rightarrow> bool" where
  "apart t [] = True"
| "apart t (f # fs) = (hashes_of t f \<inter> batch_hashes t fs = {} \<and> apart t fs)"

text \<open>Whatever is not this batch's: another slot, another transaction.\<close>

fun bystander :: "nat set \<Rightarrow> hex set \<Rightarrow> gate_op \<Rightarrow> bool" where
  "bystander S H (OpSettle i oc) = (i \<notin> S \<and> (\<forall>h. ao_txHash oc = Some h \<longrightarrow> h \<notin> H))"
| "bystander S H (OpSnapshot bs b txs) = (set txs \<inter> H = {})"
| "bystander S H _ = True"

definition open_with :: "gate \<Rightarrow> nat \<Rightarrow> token_spend list \<Rightarrow> bool" where
  "open_with g i sps \<longleftrightarrow> i < length (g_slots g) \<and> g_slots g ! i = \<lparr>sl_spend = sps, sl_settled = False\<rparr>"

definition unheld :: "gate \<Rightarrow> hex \<Rightarrow> bool" where
  "unheld g h \<longleftrightarrow> map_of (g_holds g) h = None"

text \<open>A stretch that leaves the slots \<open>S\<close>, the absence of holds on \<open>U\<close> and the holds on \<open>H\<close> as they are.\<close>

definition keeps :: "nat set \<Rightarrow> hex set \<Rightarrow> hex set \<Rightarrow> gate \<Rightarrow> gate \<Rightarrow> bool" where
  "keeps S U H g g' \<longleftrightarrow> ledger_ok g'
     \<and> (\<forall>i \<in> S. \<forall>sps. open_with g i sps \<longrightarrow> open_with g' i sps)
     \<and> (\<forall>h \<in> U. unheld g h \<longrightarrow> unheld g' h)
     \<and> (\<forall>h \<in> H. \<forall>e. holds_entry g h e \<longrightarrow> holds_entry g' h e)
     \<and> length (g_slots g) \<le> length (g_slots g')"

lemma keeps_refl: "ledger_ok g \<Longrightarrow> keeps S U H g g"
  by (simp add: keeps_def)

lemma keeps_trans: "keeps S U H g g' \<Longrightarrow> keeps S U H g' g'' \<Longrightarrow> keeps S U H g g''"
  by (auto simp: keeps_def)

lemma keeps_mono: "keeps S U H g g' \<Longrightarrow> S' \<subseteq> S \<Longrightarrow> U' \<subseteq> U \<Longrightarrow> H' \<subseteq> H \<Longrightarrow> keeps S' U' H' g g'"
  by (fastforce simp: keeps_def)

lemma keepsD:
  assumes "keeps S U H g g'"
  shows "ledger_ok g'" "i \<in> S \<Longrightarrow> open_with g i sps \<Longrightarrow> open_with g' i sps"
    "h \<in> U \<Longrightarrow> unheld g h \<Longrightarrow> unheld g' h" "h \<in> H \<Longrightarrow> holds_entry g h e \<Longrightarrow> holds_entry g' h e"
    "length (g_slots g) \<le> length (g_slots g')"
  using assms unfolding keeps_def by blast+

lemma open_with_settle: "i \<noteq> j \<Longrightarrow> open_with g i sps \<Longrightarrow> open_with (settle cfg j oc g) i sps"
  by (simp add: open_with_def settle_slots)

lemma unheld_settle:
  assumes "unheld g h" "\<forall>h'. hold_hash oc = Some h' \<longrightarrow> h' \<noteq> h"
  shows "unheld (settle cfg j oc g) h"
proof -
  obtain es where "g_holds (settle cfg j oc g) = g_holds g \<or>
      g_holds (settle cfg j oc g) = g_holds (add_hold oc es g)" using settle_holds by blast
  with assms show ?thesis by (auto simp: unheld_def add_hold_def row_simps split: option.splits if_splits)
qed

lemma keeps_settle:
  assumes "ledger_ok g" "j \<notin> S" "\<forall>h. hold_hash oc = Some h \<longrightarrow> h \<notin> U"
  shows "keeps S U H g (settle cfg j oc g)"
  unfolding keeps_def
proof (intro conjI ballI allI impI)
  show "ledger_ok (settle cfg j oc g)" by (rule ledger_ok_settle [OF assms(1)])
  show "open_with g i sps \<Longrightarrow> i \<in> S \<Longrightarrow> open_with (settle cfg j oc g) i sps" for i sps
    using assms(2) by (intro open_with_settle) auto
  show "unheld g h \<Longrightarrow> h \<in> U \<Longrightarrow> unheld (settle cfg j oc g) h" for h
    using assms(3) by (intro unheld_settle) auto
  show "holds_entry g h e \<Longrightarrow> holds_entry (settle cfg j oc g) h e" for h e
    using holds_entry_step [OF assms(1), of h e "OpSettle j oc" cfg] by simp
qed (simp add: settle_length)

lemma hold_hash_txHash: "hold_hash oc = Some h \<Longrightarrow> ao_txHash oc = Some h"
  by (simp add: hold_hash_def split: if_splits)

lemma keeps_step:
  assumes "ledger_ok g" "bystander S H op" "U \<subseteq> H"
  shows "keeps S U H g (gate_step cfg op g)"
proof (cases op)
  case (OpSettle i oc)
  with assms show ?thesis by (auto intro!: keeps_settle dest: hold_hash_txHash)
next
  case (OpOpen now action)
  then show ?thesis
    using assms(1) ledger_ok_open [OF assms(1)]
    by (auto simp: keeps_def open_with_def unheld_def holds_entry_def open_slot_def nth_append split: option.splits)
next
  case (OpSnapshot bs b txs)
  have "holds_entry g h e \<Longrightarrow> h \<in> H \<Longrightarrow> holds_entry (gate_step cfg op g) h e" for h e
    using assms by (intro holds_entry_step) (auto simp: OpSnapshot)
  then show ?thesis
    using assms ledger_ok_step [OF assms(1), of cfg op]
    by (auto simp: keeps_def OpSnapshot gate_frame open_with_def unheld_def map_of_retire_holds ledger_okD(3))
qed (use assms ledger_ok_step [OF assms(1), of cfg op] in
    \<open>simp_all add: keeps_def gate_frame open_with_def unheld_def holds_entry_def\<close>)

lemma keeps_run:
  assumes "ledger_ok g" "list_all (bystander S H) ops" "U \<subseteq> H"
  shows "keeps S U H g (gate_run cfg ops g)"
  using assms(1,2)
proof (induction ops arbitrary: g)
  case (Cons op ops)
  from Cons.prems have s: "keeps S U H g (gate_step cfg op g)" using keeps_step [OF _ _ assms(3)] by simp
  from Cons.IH [OF keepsD(1) [OF s]] Cons.prems s show ?case by (auto intro: keeps_trans)
qed (simp add: keeps_refl)

text \<open>Settling an open slot whose outflow counts holds what it declared, under the hash.\<close>

lemma settle_holds_spend:
  assumes "open_with g i sps" "unheld g h" "hold_hash oc = Some h" "e \<in> set (gate_entries sps)"
  shows "holds_entry (settle cfg i oc g) h e"
proof -
  let ?g0 = "g\<lparr>g_slots := (g_slots g)[i := (g_slots g ! i)\<lparr>sl_settled := True\<rparr>]\<rparr>"
  have c: "counts_as_spent oc" using assms(3) by (simp add: hold_hash_def split: if_splits)
  obtain r s where "settle_entries oc sps (?g0, []) =
      (?g0\<lparr>g_reserved := r, g_spentSinceRefresh := s\<rparr>, gate_entries sps)"
    using settle_entries_eq [of oc sps ?g0 "[]"] c assms(3) by auto
  with assms show ?thesis
    by (cases "gate_entries sps = []")
      (auto simp: open_with_def unheld_def settle_def Let_def gate_frame holds_entry_def add_hold_def row_simps)
qed

section \<open>A batch on the wire\<close>

definition spend_of :: "funded \<Rightarrow> token_spend list" where
  "spend_of f = or_default (fu_spend f) []"

lemma spend_of_action: "action_spend (liq_action stamp f) = spend_of f"
  by (simp add: action_spend_def liq_action_def spend_of_def)

lemma commit_candidate_verdict:
  assumes "commit_candidate store signer chainId t f pr = (res, pr')"
  shows "case res of
     Broadcast h i \<Rightarrow> \<exists>tx. sg_hash tx = h \<and> on_wire pr pr' tx \<and> signed_for (tr_send t f) (tr_call t f) tx
   | AbortedAmbiguous h e \<Rightarrow> \<exists>tx. sg_hash tx = h \<and> on_wire pr pr' tx \<and> signed_for (tr_send t f) (tr_call t f) tx
   | AbortedClean e \<Rightarrow> pr_wire pr' = pr_wire pr
       \<or> (\<exists>tx. on_wire pr pr' tx \<and> signed_for (tr_send t f) (tr_call t f) tx
            \<and> refused_outright (tr_send t f) (sv_broadcast (tr_send t f) (sg_serialized tx)))
   | Duplicate r \<Rightarrow> pr_wire pr' = pr_wire pr
   | ProposedAs i \<Rightarrow> False"
  using commit_verdict [OF assms [unfolded commit_candidate_def]] by (cases res; simp; blast)

text \<open>A transaction that went out: refused outright, waiting for its receipt with its slot still open, or held.\<close>

definition accounted :: "trading \<Rightarrow> gate \<Rightarrow> sent_tx list \<Rightarrow> funded \<Rightarrow> signed_tx \<Rightarrow> bool" where
  "accounted t g sent f tx \<longleftrightarrow>
     refused_outright (tr_send t f) (sv_broadcast (tr_send t f) (sg_serialized tx))
   \<or> (\<exists>s \<in> set sent. st_hash s = sg_hash tx \<and> open_with g (st_slot s) (spend_of f))
   \<or> (\<forall>e \<in> set (gate_entries (spend_of f)). holds_entry g (sg_hash tx) e)"

definition covered :: "trading \<Rightarrow> gate \<Rightarrow> funded list \<Rightarrow> sent_tx list \<Rightarrow> hex list \<Rightarrow> bool" where
  "covered t g fs sent news \<longleftrightarrow> (\<forall>raw \<in> set news. \<exists>f \<in> set fs. \<exists>tx.
     signed_for (tr_send t f) (tr_call t f) tx \<and> sg_serialized tx = raw \<and> accounted t g sent f tx)"

definition sent_ok :: "trading \<Rightarrow> funded list \<Rightarrow> nat list \<Rightarrow> gate \<Rightarrow> sent_tx list \<Rightarrow> bool" where
  "sent_ok t fs slots g sent \<longleftrightarrow>
     (\<forall>s \<in> set sent. st_slot s \<in> set slots \<and> st_hash s \<in> batch_hashes t fs \<and> unheld g (st_hash s))
   \<and> distinct (map st_slot sent) \<and> distinct (map st_hash sent)"

lemma accounted_more: "accounted t g sent f tx \<Longrightarrow> set sent \<subseteq> set sent' \<Longrightarrow> accounted t g sent' f tx"
  unfolding accounted_def by fast

lemma covered_more:
  assumes "covered t g fs sent news" "set fs \<subseteq> set fs'" "set sent \<subseteq> set sent'"
  shows "covered t g fs' sent' news"
  unfolding covered_def
proof
  fix raw assume "raw \<in> set news"
  then obtain f tx where f: "f \<in> set fs" "signed_for (tr_send t f) (tr_call t f) tx" "sg_serialized tx = raw"
    "accounted t g sent f tx" using assms(1) unfolding covered_def by blast
  have "accounted t g sent' f tx" by (rule accounted_more [OF f(4) assms(3)])
  with f assms(2) show "\<exists>f \<in> set fs'. \<exists>tx. signed_for (tr_send t f) (tr_call t f) tx \<and> sg_serialized tx = raw
      \<and> accounted t g sent' f tx" by (intro bexI [of _ f] exI [of _ tx]) auto
qed

lemma covered_append: "covered t g fs sent (news @ raws) \<longleftrightarrow> covered t g fs sent news \<and> covered t g fs sent raws"
  by (simp add: covered_def ball_Un)

lemma open_slot_keeps:
  assumes "open_slot cfg now action g = (SlotOpen i, g1)" "ledger_ok g"
  shows "keeps S U H g g1" "open_with g1 i (action_spend action)" "i = length (g_slots g)"
proof -
  have g1: "g1 = gate_step cfg (OpOpen now action) g" using assms(1) by simp
  show "keeps S U H g g1"
    unfolding g1 by (rule keeps_mono [OF keeps_step [where H = "U \<union> H", OF assms(2)]]) auto
  show "open_with g1 i (action_spend action)" "i = length (g_slots g)"
    using assms(1) by (auto simp: open_slot_def open_with_def split: option.splits)
qed

lemma hold_hash_simps [simp]: "hold_hash abandoned = None" "hold_hash (unresolved h) = Some h"
  by (simp_all add: hold_hash_def counts_as_spent_def abandoned_def unresolved_def outcome_def)

definition loop_post ::
  "trading \<Rightarrow> nat set \<Rightarrow> hex set \<Rightarrow> funded list \<Rightarrow> gate \<Rightarrow> 'db process
     \<Rightarrow> string option \<times> sent_tx list \<times> nat list \<times> gate \<times> 'db process \<Rightarrow> bool" where
  "loop_post t S H fs g pr = (\<lambda>(e, sent, slots, g', pr').
     e = None \<and> keeps (S - set slots) (H - batch_hashes t fs) H g g'
   \<and> (\<forall>i \<in> set slots. length (g_slots g) \<le> i) \<and> sent_ok t fs slots g' sent
   \<and> (\<exists>news. pr_wire pr' = news @ pr_wire pr \<and> length news \<le> length slots \<and> covered t g' fs sent news))"

lemma batch_hashes_Cons: "batch_hashes t (f # fs) = hashes_of t f \<union> batch_hashes t fs"
  by (simp add: batch_hashes_def)

lemma sent_ok_more: "sent_ok t fs ls g sent \<Longrightarrow> set ls \<subseteq> set slots \<Longrightarrow> sent_ok t (f # fs) slots g sent"
  by (auto simp: sent_ok_def batch_hashes_Cons)

lemma loop_post_more: "loop_post t S H fs g pr x \<Longrightarrow> loop_post t S H (f # fs) g pr x"
proof (cases x)
  case (fields e sent slots g' pr')
  assume "loop_post t S H fs g pr x"
  note p = this [unfolded fields loop_post_def prod.case]
  then obtain news where news: "pr_wire pr' = news @ pr_wire pr" "length news \<le> length slots" "covered t g' fs sent news"
    by blast
  have "H - batch_hashes t (f # fs) \<subseteq> H - batch_hashes t fs" by (auto simp: batch_hashes_Cons)
  from keeps_mono [OF conjunct1 [OF conjunct2 [OF p]] subset_refl this subset_refl]
  have "keeps (S - set slots) (H - batch_hashes t (f # fs)) H g g'" .
  moreover have "covered t g' (f # fs) sent news" by (rule covered_more [OF news(3)]) auto
  moreover have "sent_ok t (f # fs) slots g' sent" using p by (intro sent_ok_more [OF _ subset_refl]) simp
  ultimately show ?thesis
    using p news(1,2) unfolding fields loop_post_def prod.case by (intro conjI exI [of _ news]) simp_all
qed

lemma loop_post_next:
  assumes "loop_post t S H fs g2 pr1 (e, sent, ls, g', pr')"
    and "keeps (S - {i}) H H g g2" "i = length (g_slots g)"
    and "pr_wire pr1 = raws @ pr_wire pr" "length raws \<le> 1" "covered t g' (f # fs) sent' raws"
    and "set sent \<subseteq> set sent'" "sent_ok t (f # fs) (i # ls) g' sent'"
  shows "loop_post t S H (f # fs) g pr (e, sent', i # ls, g', pr')"
proof -
  note p = assms(1) [unfolded loop_post_def prod.case]
  obtain news where news: "pr_wire pr' = news @ pr_wire pr1" "length news \<le> length ls" "covered t g' fs sent news"
    using p by blast
  have "S - set (i # ls) \<subseteq> S - {i}" by auto
  then have "keeps (S - set (i # ls)) (H - batch_hashes t (f # fs)) H g g2"
    by (intro keeps_mono [OF assms(2)]) blast+
  moreover have "keeps (S - set ls) (H - batch_hashes t fs) H g2 g'" using p by simp
  then have "keeps (S - set (i # ls)) (H - batch_hashes t (f # fs)) H g2 g'"
    by (rule keeps_mono) (auto simp: batch_hashes_Cons)
  ultimately have "keeps (S - set (i # ls)) (H - batch_hashes t (f # fs)) H g g'" by (rule keeps_trans)
  moreover have "covered t g' (f # fs) sent' (news @ raws)"
    using covered_more [OF news(3) _ assms(7), of "f # fs"] assms(6) unfolding covered_append by auto
  moreover have "\<forall>j \<in> set (i # ls). length (g_slots g) \<le> j"
  proof
    have ge: "\<forall>j \<in> set ls. length (g_slots g2) \<le> j" using p by simp
    fix j assume "j \<in> set (i # ls)"
    then show "length (g_slots g) \<le> j" using bspec [OF ge, of j] keepsD(5) [OF assms(2)] assms(3) by auto
  qed
  moreover have "pr_wire pr' = (news @ raws) @ pr_wire pr" "length (news @ raws) \<le> length (i # ls)"
    using news(1,2) assms(4,5) by simp_all
  ultimately show ?thesis
    using p assms(8) unfolding loop_post_def prod.case by (intro conjI exI [of _ "news @ raws"]) simp_all
qed

lemma loop_post_stop:
  assumes "keeps (S - {i}) (H - hashes_of t f) H g g'" "i = length (g_slots g)"
    and "pr_wire pr' = raws @ pr_wire pr" "length raws \<le> 1" "covered t g' (f # fs) [] raws"
  shows "loop_post t S H (f # fs) g pr (None, [], [i], g', pr')"
proof -
  have "keeps (S - set [i]) (H - batch_hashes t (f # fs)) H g g'"
    by (rule keeps_mono [OF assms(1)]) (auto simp: batch_hashes_Cons)
  moreover have "\<exists>news. pr_wire pr' = news @ pr_wire pr \<and> length news \<le> length [i] \<and> covered t g' (f # fs) [] news"
    using assms(3-5) by (intro exI [of _ raws]) simp
  moreover have "sent_ok t (f # fs) [i] g' []" by (simp add: sent_ok_def)
  ultimately show ?thesis using assms(2) unfolding loop_post_def prod.case by simp
qed

lemma executor_port_simps [simp]:
  "ep_now (executor_port store signer chainId t) = tr_now t"
  "ep_commit (executor_port store signer chainId t) f pr = (Inr (fst (commit_candidate store signer chainId t f pr)),
     tr_beside t f, snd (commit_candidate store signer chainId t f pr))"
  "ep_receipt (executor_port store signer chainId t) = tr_receipt t"
  "ep_meanwhile (executor_port store signer chainId t) = tr_meanwhile t"
  "ep_position (executor_port store signer chainId t) = tr_position t"
  "ep_recordOutcome (executor_port store signer chainId t) i h failure pr
     = auto_record_outcome store (tr_recordAt t h) i h failure pr"
  by (simp_all add: executor_port_def split_beta)

lemma coveredI:
  "signed_for (tr_send t f) (tr_call t f) tx \<Longrightarrow> accounted t g sent f tx \<Longrightarrow> covered t g (f # fs) sent [sg_serialized tx]"
  by (auto simp: covered_def)

lemma hashes_ofI: "signed_for (tr_send t f) (tr_call t f) tx \<Longrightarrow> sg_hash tx \<in> hashes_of t f"
  by (auto simp: hashes_of_def)

text \<open>What the loop relies on before a candidate, and still does before the next.\<close>

definition loop_pre :: "trading \<Rightarrow> nat set \<Rightarrow> hex set \<Rightarrow> funded list \<Rightarrow> gate \<Rightarrow> bool" where
  "loop_pre t S H fs g \<longleftrightarrow> ledger_ok g \<and> (\<forall>h \<in> batch_hashes t fs. unheld g h) \<and> apart t fs
     \<and> batch_hashes t fs \<subseteq> H \<and> (\<forall>f \<in> set fs. list_all (bystander S H) (tr_beside t f))"

lemma loop_pre_next:
  assumes "loop_pre t S H (f # fs) g" "keeps T H H g g2"
  shows "loop_pre t S H fs g2"
proof -
  have "batch_hashes t fs \<subseteq> H" "\<forall>h \<in> batch_hashes t fs. unheld g h"
    using assms(1) by (auto simp: loop_pre_def batch_hashes_Cons)
  then have "\<forall>h \<in> batch_hashes t fs. unheld g2 h" using keepsD(3) [OF assms(2)] by blast
  with assms(1) keepsD(1) [OF assms(2)] show ?thesis by (simp add: loop_pre_def batch_hashes_Cons)
qed

lemma send_loop_covered:
  assumes "send_loop cfg (executor_port store signer chainId t) stamp fs g pr = (e, sent, slots, g', pr')"
    and "loop_pre t S H fs g" "set slots \<subseteq> S"
  shows "loop_post t S H fs g pr (e, sent, slots, g', pr')"
  using assms
proof (induction fs arbitrary: g pr e sent slots)
  case Nil
  then show ?case by (simp add: loop_post_def keeps_refl sent_ok_def covered_def loop_pre_def)
next
  case (Cons f fs)
  let ?port = "executor_port store signer chainId t"
  obtain r g1 where o': "open_slot cfg (tr_now t f) (liq_action stamp f) g = (r, g1)" by force
  show ?case
  proof (cases r)
    case (SlotBlocked b)
    with o' open_slot_blocked_same have "g1 = g" by metis
    with Cons.prems(1) o' SlotBlocked have "send_loop cfg ?port stamp fs g pr = (e, sent, slots, g', pr')" by simp
    from Cons.IH [OF this loop_pre_next [OF Cons.prems(2) keeps_refl] Cons.prems(3)] Cons.prems(2)
    show ?thesis by (auto simp: loop_pre_def intro: loop_post_more)
  next
    case (SlotOpen i)
    obtain res pr1 where c: "commit_candidate store signer chainId t f pr = (res, pr1)" by force
    let ?g2 = "gate_run cfg (tr_beside t f) g1"
    have ok: "ledger_ok g" and bys: "list_all (bystander S H) (tr_beside t f)" and hf: "hashes_of t f \<subseteq> H"
      and un: "\<forall>h \<in> hashes_of t f. unheld g h"
      using Cons.prems(2) by (auto simp: loop_pre_def batch_hashes_Cons)
    note os = open_slot_keeps [OF o' [unfolded SlotOpen] ok, unfolded spend_of_action]
    have k12: "keeps S H H g1 ?g2" by (rule keeps_run [OF keepsD(1) [OF os(1)] bys subset_refl])
    have k: "keeps S H H g ?g2" by (rule keeps_trans [OF os(1) k12])
    have op2: "i \<in> S \<Longrightarrow> open_with ?g2 i (spend_of f)" using keepsD(2) [OF k12 _ os(2)] .
    have un2: "\<forall>h \<in> hashes_of t f. unheld ?g2 h" using un hf keepsD(3) [OF k] by blast
    have kab: "keeps (S - {i}) H H g (settle cfg i abandoned ?g2)"
      by (rule keeps_trans [OF keeps_mono [OF k] keeps_settle]) (auto intro: keepsD(1) [OF k])
    note run = Cons.prems(1) [unfolded send_loop.simps executor_port_simps o' SlotOpen prod.case slot_ref.case c
      Let_def sum.case fst_conv snd_conv]
    note verdict = commit_candidate_verdict [OF c]
    show ?thesis
    proof (cases res)
      case (Broadcast h intentId)
      with verdict obtain tx where tx: "sg_hash tx = h" "on_wire pr pr1 tx" "signed_for (tr_send t f) (tr_call t f) tx"
        by auto
      obtain ss ls where rest: "send_loop cfg ?port stamp fs ?g2 pr1 = (e, ss, ls, g', pr')"
        and eqs: "slots = i # ls" "sent = \<lparr>st_hash = h, st_intentId = intentId, st_slot = i, st_candidate = fu_candidate f\<rparr> # ss"
        using run Broadcast by (auto split: prod.splits)
      have "set ls \<subseteq> S" and iS: "i \<in> S" using Cons.prems(3) eqs(1) by auto
      from Cons.IH [OF rest loop_pre_next [OF Cons.prems(2) k] this(1)]
      have post: "loop_post t S H fs ?g2 pr1 (e, ss, ls, g', pr')" .
      note p = post [unfolded loop_post_def prod.case]
      have kp: "keeps (S - set ls) (H - batch_hashes t fs) H ?g2 g'" using p by simp
      have "i < length (g_slots ?g2)" using op2 [OF iS] by (simp add: open_with_def)
      then have fresh: "i \<notin> set ls" using p by (meson not_le)
      have opn: "open_with g' i (spend_of f)" using keepsD(2) [OF kp _ op2 [OF iS]] iS fresh by simp
      have hh: "h \<in> hashes_of t f" using hashes_ofI [OF tx(3)] tx(1) by simp
      have "h \<notin> batch_hashes t fs" using Cons.prems(2) hh by (auto simp: loop_pre_def)
      then have unh: "unheld g' h" using keepsD(3) [OF kp] un2 hh hf by blast
      have so: "sent_ok t fs ls g' ss" using p by simp
      have "sent_ok t (f # fs) (i # ls) g' sent"
        using sent_ok_more [OF so, of "i # ls" f] so unh hh fresh \<open>h \<notin> batch_hashes t fs\<close>
        by (auto simp: eqs(2) sent_ok_def batch_hashes_Cons)
      moreover have "accounted t g' sent f tx"
        using opn tx(1) by (auto simp: accounted_def eqs(2))
      from coveredI [OF tx(3) this] have "covered t g' (f # fs) sent [sg_serialized tx]" .
      ultimately show ?thesis unfolding eqs(1)
        using tx(2) eqs(2) by (intro loop_post_next [OF post keeps_mono [OF k] os(3), of "[sg_serialized tx]"])
          (auto simp: on_wire_def)
    next
      case (ProposedAs x)
      with verdict show ?thesis by simp
    next
      case (Duplicate x)
      obtain ls where rest: "send_loop cfg ?port stamp fs (settle cfg i abandoned ?g2) pr1 = (e, sent, ls, g', pr')"
        and eqs: "slots = i # ls" using run Duplicate by (auto split: prod.splits)
      have "set ls \<subseteq> S" using Cons.prems(3) eqs by auto
      from Cons.IH [OF rest loop_pre_next [OF Cons.prems(2) kab] this]
      have post: "loop_post t S H fs (settle cfg i abandoned ?g2) pr1 (e, sent, ls, g', pr')" .
      then have so: "sent_ok t fs ls g' sent" by (simp add: loop_post_def)
      show ?thesis unfolding eqs
        using verdict Duplicate sent_ok_more [OF so, of "i # ls" f]
        by (intro loop_post_next [OF post kab os(3), of "[]"]) (auto simp: covered_def)
    next
      case (AbortedClean x)
      with run have eqs: "e = None" "sent = []" "slots = [i]" "g' = settle cfg i abandoned ?g2" "pr' = pr1" by auto
      obtain raws where "pr_wire pr1 = raws @ pr_wire pr" "length raws \<le> 1" "covered t g' (f # fs) [] raws"
      proof (cases "pr_wire pr1 = pr_wire pr")
        case True
        then show thesis by (intro that [of "[]"]) (simp_all add: covered_def)
      next
        case False
        with verdict AbortedClean obtain tx where tx: "on_wire pr pr1 tx" "signed_for (tr_send t f) (tr_call t f) tx"
          "refused_outright (tr_send t f) (sv_broadcast (tr_send t f) (sg_serialized tx))" by auto
        then have "covered t g' (f # fs) [] [sg_serialized tx]" by (intro coveredI) (simp_all add: accounted_def)
        then show thesis using tx(1) by (intro that [of "[sg_serialized tx]"]) (simp_all add: on_wire_def)
      qed
      then show ?thesis unfolding eqs by (intro loop_post_stop [OF keeps_mono [OF kab] os(3)]) auto
    next
      case (AbortedAmbiguous h x)
      with run have eqs: "e = None" "sent = []" "slots = [i]" "g' = settle cfg i (unresolved h) ?g2" "pr' = pr1" by auto
      from verdict AbortedAmbiguous obtain tx where tx: "sg_hash tx = h" "on_wire pr pr1 tx"
        "signed_for (tr_send t f) (tr_call t f) tx" by auto
      have hh: "h \<in> hashes_of t f" using hashes_ofI [OF tx(3)] tx(1) by simp
      have "i \<in> S" using Cons.prems(3) eqs(3) by simp
      then have "accounted t g' [] f tx"
        using settle_holds_spend [OF op2 bspec [OF un2 hh]] tx(1) by (auto simp: accounted_def eqs(4))
      from coveredI [OF tx(3) this] have cov: "covered t g' (f # fs) [] [sg_serialized tx]" .
      have "keeps (S - {i}) (H - hashes_of t f) H g g'"
        unfolding eqs(4) using hh
        by (intro keeps_trans [OF keeps_mono [OF k] keeps_settle]) (auto intro: keepsD(1) [OF k])
      then show ?thesis unfolding eqs(1-3,5)
        using tx(2) by (intro loop_post_stop [OF _ os(3) _ _ cov]) (auto simp: on_wire_def)
    qed
  qed
qed

section \<open>The receipts\<close>

lemma hold_hash_receipt:
  "hold_hash (receipt_outcome h raceLost r) = (if \<exists>b. r = Inr (RcReverted, b) then None else Some h)"
  by (auto simp: receipt_outcome_def hold_hash_def counts_as_spent_def unresolved_def outcome_def
      split: sum.splits receipt_status.splits)

lemma receipts_covered:
  assumes "ledger_ok g" "\<forall>s \<in> set sent. st_slot s \<in> S \<and> st_hash s \<in> H \<and> unheld g (st_hash s)"
    and "distinct (map st_slot sent)" "distinct (map st_hash sent)" "\<forall>h. list_all (bystander S H) (tr_meanwhile t h)"
  shows "keeps {} {} H g (fst (settle_receipts cfg (executor_port store signer chainId t) sent g pr))
    \<and> (\<forall>s \<in> set sent. \<forall>sps. open_with g (st_slot s) sps \<longrightarrow> (\<exists>b. tr_receipt t (st_hash s) = Inr (RcReverted, b))
         \<or> (\<forall>e \<in> set (gate_entries sps). holds_entry
              (fst (settle_receipts cfg (executor_port store signer chainId t) sent g pr)) (st_hash s) e))"
  using assms(1-4)
proof (induction sent arbitrary: g pr)
  case Nil
  then show ?case by (simp add: keeps_refl)
next
  case (Cons s rest)
  let ?h = "st_hash s" and ?i = "st_slot s" and ?c = "st_candidate s"
  let ?oc = "receipt_outcome ?h (was_position_taken (tr_position t (ca_borrower ?c)) (ca_vaultId ?c)) (tr_receipt t ?h)"
  let ?g1 = "gate_run cfg (tr_meanwhile t ?h) g"
  let ?g2 = "settle cfg ?i ?oc ?g1"
  obtain pr2 where step: "settle_receipts cfg (executor_port store signer chainId t) (s # rest) g pr =
      settle_receipts cfg (executor_port store signer chainId t) rest ?g2 pr2"
    by (simp add: Let_def)
  let ?g' = "fst (settle_receipts cfg (executor_port store signer chainId t) rest ?g2 pr2)"
  have k1: "keeps S H H g ?g1" using assms(5) by (intro keeps_run [OF Cons.prems(1) _ subset_refl]) simp
  have k2: "keeps (S - {?i}) (H - {?h}) H ?g1 ?g2"
    by (rule keeps_settle) (auto simp: keepsD(1) [OF k1] hold_hash_receipt)
  have k: "keeps (S - {?i}) (H - {?h}) H g ?g2" by (rule keeps_trans [OF keeps_mono [OF k1] k2]) auto
  have others: "st_slot r \<in> S - {?i}" "st_hash r \<in> H - {?h}" if r: "r \<in> set rest" for r
  proof -
    have "st_slot r \<in> st_slot ` set rest" "st_hash r \<in> st_hash ` set rest" using r by simp_all
    moreover have "?i \<notin> st_slot ` set rest" "?h \<notin> st_hash ` set rest" using Cons.prems(3,4) by simp_all
    ultimately have "st_slot r \<noteq> ?i" "st_hash r \<noteq> ?h" by metis+
    then show "st_slot r \<in> S - {?i}" "st_hash r \<in> H - {?h}" using r Cons.prems(2) by simp_all
  qed
  have "\<forall>r \<in> set rest. st_slot r \<in> S \<and> st_hash r \<in> H \<and> unheld ?g2 (st_hash r)"
    using others keepsD(3) [OF k] Cons.prems(2) by auto
  note IH = Cons.IH [OF keepsD(1) [OF k] this, of pr2]
  have keep: "keeps {} {} H ?g2 ?g'" and later: "\<forall>r \<in> set rest. \<forall>sps. open_with ?g2 (st_slot r) sps \<longrightarrow>
      (\<exists>b. tr_receipt t (st_hash r) = Inr (RcReverted, b)) \<or> (\<forall>e \<in> set (gate_entries sps). holds_entry ?g' (st_hash r) e)"
    using IH Cons.prems(3,4) by simp_all
  have "(\<exists>b. tr_receipt t ?h = Inr (RcReverted, b)) \<or> (\<forall>e \<in> set (gate_entries sps). holds_entry ?g' ?h e)"
    if "open_with g ?i sps" for sps
  proof (cases "\<exists>b. tr_receipt t ?h = Inr (RcReverted, b)")
    case False
    have "?i \<in> S" "?h \<in> H" "unheld g ?h" using Cons.prems(2) by auto
    with that keepsD(2,3) [OF k1] have "open_with ?g1 ?i sps" "unheld ?g1 ?h" by auto
    from settle_holds_spend [OF this, of ?oc] False have "\<forall>e \<in> set (gate_entries sps). holds_entry ?g2 ?h e"
      by (simp add: hold_hash_receipt)
    then show ?thesis using keepsD(4) [OF keep \<open>?h \<in> H\<close>] by blast
  qed simp
  moreover have "(\<exists>b. tr_receipt t (st_hash r) = Inr (RcReverted, b)) \<or> (\<forall>e \<in> set (gate_entries sps). holds_entry ?g' (st_hash r) e)"
    if "r \<in> set rest" "open_with g (st_slot r) sps" for r sps
    using later that keepsD(2) [OF k others(1) [OF that(1)]] by blast
  ultimately show ?case
    unfolding step using keeps_trans [OF keeps_mono [OF k] keep] by auto
qed

lemma settle_unfinished_keeps: "ledger_ok g \<Longrightarrow> keeps {} {} H g (settle_unfinished cfg (map SlotOpen is) g)"
proof (induction "is" arbitrary: g)
  case (Cons i "is")
  have k: "keeps {} {} H g (settle cfg i ((outcome False)\<lparr>ao_abandoned := True\<rparr>) g)"
    by (rule keeps_settle [OF Cons.prems]) auto
  from keeps_trans [OF k Cons.IH [OF keepsD(1) [OF k]]] show ?case by (simp add: settle_ref_def)
qed (simp add: keeps_refl)

lemma record_outcomes_wire:
  "pr_wire (snd (settle_receipts cfg (executor_port store signer chainId t) sent g pr)) = pr_wire pr"
  by (induction sent arbitrary: g pr)
    (auto simp: Let_def auto_record_outcome_def split: sum.splits option.splits receipt_status.splits)

section \<open>No transaction in flight is uncounted\<close>


text \<open>A send that times out at the relay, while the kill switch is hit.\<close>

definition ex_trading :: trading where
  "ex_trading = \<lparr>tr_now = (\<lambda>f. 5100), tr_call = (\<lambda>f. ex_call), tr_send = (\<lambda>f. ex_env),
     tr_beside = (\<lambda>f. [OpHalt ''manual'']), tr_receipt = (\<lambda>h. Inl ''timeout''), tr_meanwhile = (\<lambda>h. []),
     tr_position = (\<lambda>a. Inl ''rpc''), tr_recordAt = (\<lambda>h. 9)\<rparr>"

definition ex_target :: funded where
  "ex_target = (ex_funded 6)\<lparr>fu_candidate := make_candidate ''0xPos'' ''0xb'' 1 20 5 8 ''0xv''\<rparr>"

lemma ex_trading_simps [simp]:
  "tr_now ex_trading f = 5100" "tr_send ex_trading f = ex_env" "tr_call ex_trading f = ex_call"
  "tr_beside ex_trading f = [OpHalt ''manual'']" "tr_receipt ex_trading h = Inl ''timeout''" "tr_meanwhile ex_trading h = []"
  by (simp_all add: ex_trading_def)

lemma commit_fills_chain:
  "auto_commit store signer chainId env call (claim\<lparr>ii_chainId := x\<rparr>) pr = auto_commit store signer chainId env call claim pr"
proof -
  have "(claim\<lparr>ii_chainId := x\<rparr>)\<lparr>ii_chainId := chainId\<rparr> = claim\<lparr>ii_chainId := chainId\<rparr>"
    "ii_action (claim\<lparr>ii_chainId := x\<rparr>) = ii_action claim" by (cases claim; simp)+
  then show ?thesis unfolding auto_commit_def by presburger
qed

lemma ex_commit: "commit_candidate store signer 1 ex_trading ex_target pr =
    auto_commit store signer 1 ex_env ex_call (ex_intent ''0xPos'') pr"
proof -
  have "liq_claim ex_call ex_target = (ex_intent ''0xPos'')\<lparr>ii_chainId := 0\<rparr>"
    by (simp add: liq_claim_def ex_target_def ex_intent_def ex_call_def make_candidate_def)
  then show ?thesis by (simp add: commit_candidate_def commit_fills_chain)
qed

lemma ex_opens: "fst (open_slot ex_cfg 5100 (liq_action (Some (WireInt 5000)) ex_target) ex_gate10) = SlotOpen 0"
  by code_simp

lemma ex_spend_entries: "gate_entries (spend_of ex_target) = [(ex_key, 6)]"
  by code_simp


end
