(* ===== verification/Abis.thy ===== *)
theory Abis
  imports Probes LiqFlash "HOL-Library.List_Lexorder" "HOL-Library.Char_ord"
begin

text \<open>
  The contract interfaces of \<open>packages/abis\<close>, and what the indexer reads off a revert decoded through
  them. An ABI is the list the source writes, item by item; a spread is an append. The selector of a
  signature is a hash and a parameter, decoding a revert is viem's and a parameter too; of both only
  what the package's comments and its test rely on is assumed. The file ends with the EIP-712 schema of
  the router's message and the string the contract hashes for it.
\<close>

section \<open>Interface descriptions\<close>

text \<open>\<open>indexed\<close> is given for the inputs of events only, \<open>components\<close> for tuples only. \<open>anonymous: false\<close>,
  which some events spell out, is the default.\<close>

datatype abi_param = AbiParam string string "bool option" "abi_param list"

datatype mutability = View | Nonpayable | Payable

datatype abi_item =
    AbiFunction string "abi_param list" "abi_param list" mutability
  | AbiEvent string "abi_param list"
  | AbiError string "abi_param list"

abbreviation par :: "string \<Rightarrow> string \<Rightarrow> abi_param" where
  "par name type \<equiv> AbiParam name type None []"

abbreviation indexed :: "string \<Rightarrow> string \<Rightarrow> abi_param" where
  "indexed name type \<equiv> AbiParam name type (Some True) []"

abbreviation unindexed :: "string \<Rightarrow> string \<Rightarrow> abi_param" where
  "unindexed name type \<equiv> AbiParam name type (Some False) []"

abbreviation tup :: "string \<Rightarrow> string \<Rightarrow> abi_param list \<Rightarrow> abi_param" where
  "tup name type components \<equiv> AbiParam name type None components"

fun item_name :: "abi_item \<Rightarrow> string" where
  "item_name (AbiFunction n _ _ _) = n"
| "item_name (AbiEvent n _) = n"
| "item_name (AbiError n _) = n"

fun item_inputs :: "abi_item \<Rightarrow> abi_param list" where
  "item_inputs (AbiFunction _ ps _ _) = ps"
| "item_inputs (AbiEvent _ ps) = ps"
| "item_inputs (AbiError _ ps) = ps"

fun is_error :: "abi_item \<Rightarrow> bool" where
  "is_error (AbiError _ _) = True"
| "is_error _ = False"

text \<open>The canonical signature, whose hash starts with the selector.\<close>

fun param_type :: "abi_param \<Rightarrow> string" where
  "param_type (AbiParam _ t _ components) =
     (if take 5 t = ''tuple''
      then CHR ''('' # join '','' (map param_type components) @ CHR '')'' # drop 5 t
      else t)"

definition item_signature :: "abi_item \<Rightarrow> string" where
  "item_signature i = item_name i @ CHR ''('' # join '','' (map param_type (item_inputs i)) @ '')''"

section \<open>The contracts\<close>

text \<open>Every custom error of the contracts the bots call, directly or through another contract.\<close>

definition protocolErrorsAbi :: "abi_item list" where
  "protocolErrorsAbi = [
     AbiError ''AccessManagedInvalidAuthority'' [par ''authority'' ''address''],
     AbiError ''AccessManagedRequiredDelay'' [par ''caller'' ''address'', par ''delay'' ''uint32''],
     AbiError ''AccessManagedUnauthorized'' [par ''caller'' ''address''],
     AbiError ''ActivationCapExceeded'' [],
     AbiError ''ActivationDeadlineExpired'' [],
     AbiError ''ActivationDelayNotElapsed'' [],
     AbiError ''AddressEmptyCode'' [par ''target'' ''address''],
     AbiError ''AlreadyFrozen'' [],
     AbiError ''AlreadyPaused'' [],
     AbiError ''ApplicationAlreadyRegistered'' [],
     AbiError ''ApplicationNotActive'' [],
     AbiError ''ApplicationNotRegistered'' [],
     AbiError ''AssetNotListed'' [],
     AbiError ''BelovedError'' [par ''netWbtcBeforePayment'' ''uint256'',
       tup ''debts'' ''tuple[]'' [par ''token'' ''address'', par ''venue'' ''address'', par ''amount'' ''uint256'']],
     AbiError ''BlocklistedVaultKeeper'' [],
     AbiError ''BtcKeyAlreadyRegistered'' [],
     AbiError ''BTCVaultNotFound'' [],
     AbiError ''CannotReceiveShares'' [],
     AbiError ''DelegateeNotVerified'' [],
     AbiError ''DepositorWotsPkHashAlreadyUsed'' [],
     AbiError ''DuplicateHashlock'' [],
     AbiError ''DuplicateParticipant'' [],
     AbiError ''DynamicConfigKeyUninitialized'' [],
     AbiError ''ECDSAInvalidSignature'' [],
     AbiError ''ECDSAInvalidSignatureLength'' [par ''length'' ''uint256''],
     AbiError ''ECDSAInvalidSignatureS'' [par ''s'' ''bytes32''],
     AbiError ''EmptyArray'' [],
     AbiError ''EmptyPayoutAddress'' [],
     AbiError ''EmptyVaultKeepers'' [],
     AbiError ''EnforcedFreeze'' [],
     AbiError ''EnforcedPause'' [],
     AbiError ''ERC1967InvalidImplementation'' [par ''implementation'' ''address''],
     AbiError ''ERC1967NonPayable'' [],
     AbiError ''EthKeyAlreadyRegistered'' [],
     AbiError ''ExcessiveExitBtcPayment'' [],
     AbiError ''FailedCall'' [],
     AbiError ''HealthFactorBelowThreshold'' [],
     AbiError ''HealthFactorNotBelowThreshold'' [],
     AbiError ''IncompleteWithdrawal'' [par ''expected'' ''uint256'', par ''actual'' ''uint256''],
     AbiError ''InsufficientBorrowAllowance'' [],
     AbiError ''InsufficientSettlementAmount'' [],
     AbiError ''InvalidAccountNonce'' [par ''account'' ''address'', par ''currentNonce'' ''uint256''],
     AbiError ''InvalidAddress'' [],
     AbiError ''InvalidAmount'' [],
     AbiError ''InvalidApplicationStatus'' [],
     AbiError ''InvalidAssetDecimals'' [],
     AbiError ''InvalidAssetId'' [],
     AbiError ''InvalidBase'' [par ''base'' ''uint256'', par ''modulus'' ''uint256''],
     AbiError ''InvalidBTCProofOfPossession'' [],
     AbiError ''InvalidBTCPublicKey'' [],
     AbiError ''InvalidBTCVaultStatus'' [],
     AbiError ''InvalidBTCVaultUsageStatus'' [],
     AbiError ''InvalidCollateralFactor'' [],
     AbiError ''InvalidCollateralFactorAndMaxLiquidationBonus'' [],
     AbiError ''InvalidCollateralRisk'' [],
     AbiError ''InvalidDebtToCover'' [],
     AbiError ''InvalidEscrowedVaultStatus'' [],
     AbiError ''InvalidEthProofOfPossession'' [],
     AbiError ''InvalidFeeConfiguration'' [],
     AbiError ''InvalidHashlock'' [],
     AbiError ''InvalidInitialization'' [],
     AbiError ''InvalidLiquidationConfig'' [],
     AbiError ''InvalidLiquidationFee'' [],
     AbiError ''InvalidMaxUserReservesLimit'' [],
     AbiError ''InvalidOracleDecimals'' [],
     AbiError ''InvalidOraclePrice'' [],
     AbiError ''InvalidPeginFee'' [par ''provided'' ''uint256'', par ''required'' ''uint256''],
     AbiError ''InvalidPoint'' [par ''x'' ''uint256'', par ''y'' ''uint256''],
     AbiError ''InvalidPositionAccount'' [],
     AbiError ''InvalidPositionResolver'' [],
     AbiError ''InvalidPositionSizes'' [],
     AbiError ''InvalidPostLiquidationState'' [],
     AbiError ''InvalidProxyContract'' [],
     AbiError ''InvalidReceiver'' [],
     AbiError ''InvalidSecret'' [],
     AbiError ''InvalidShortString'' [],
     AbiError ''InvalidSignature'' [],
     AbiError ''InvalidVaultsArray'' [],
     AbiError ''InvalidXOnlyKey'' [par ''xOnly'' ''bytes32''],
     AbiError ''LLPDisabled'' [],
     AbiError ''MaxDataSizeExceeded'' [],
     AbiError ''MaximumDynamicConfigKeyReached'' [],
     AbiError ''MaximumUserReservesExceeded'' [],
     AbiError ''MustNotLeaveDust'' [],
     AbiError ''NoCollateralizedVaults'' [],
     AbiError ''NotFrozen'' [],
     AbiError ''NotInitializing'' [],
     AbiError ''NotPaused'' [],
     AbiError ''OnlyAdapter'' [],
     AbiError ''OperationKeyVersionOverflow'' [],
     AbiError ''PayoutAddressTooLong'' [],
     AbiError ''PositionNotHealthy'' [],
     AbiError ''PositionNotLiquidatable'' [],
     AbiError ''ReentrancyGuardReentrantCall'' [],
     AbiError ''RepaymentWouldRestoreZeroShares'' [],
     AbiError ''ReserveExists'' [],
     AbiError ''ReserveFrozen'' [],
     AbiError ''ReserveNotBorrowable'' [],
     AbiError ''ReserveNotBorrowed'' [],
     AbiError ''ReserveNotEnabledAsCollateral'' [],
     AbiError ''ReserveNotListed'' [],
     AbiError ''ReserveNotSupplied'' [],
     AbiError ''ReservePaused'' [],
     AbiError ''SafeCastOverflowedIntDowncast'' [par ''bits'' ''uint8'', par ''value'' ''int256''],
     AbiError ''SafeCastOverflowedIntToUint'' [par ''value'' ''int256''],
     AbiError ''SafeCastOverflowedUintDowncast'' [par ''bits'' ''uint8'', par ''value'' ''uint256''],
     AbiError ''SafeCastOverflowedUintToInt'' [par ''value'' ''uint256''],
     AbiError ''SafeERC20FailedOperation'' [par ''token'' ''address''],
     AbiError ''SelfLiquidation'' [],
     AbiError ''SlippageExceeded'' [par ''minOut'' ''uint256'', par ''actualOut'' ''uint256''],
     AbiError ''SpokeLiquidationManagerNotSetProperly'' [],
     AbiError ''StringTooLong'' [par ''str'' ''string''],
     AbiError ''TBV_AlreadyFrozen'' [],
     AbiError ''TBV_AlreadyPaused'' [],
     AbiError ''TBV_CannotUnfreezeWhilePaused'' [],
     AbiError ''TBV_CannotUnpauseWhileFrozen'' [],
     AbiError ''TBV_Frozen'' [],
     AbiError ''TBV_NotFrozen'' [],
     AbiError ''TBV_NotPaused'' [],
     AbiError ''TBV_Paused'' [],
     AbiError ''TBV_Unauthorized'' [],
     AbiError ''Unauthorized'' [],
     AbiError ''UnauthorizedVaultKeeper'' [],
     AbiError ''UnsupportedSettlementToken'' [],
     AbiError ''UUPSUnauthorizedCallContext'' [],
     AbiError ''UUPSUnsupportedProxiableUUID'' [par ''slot'' ''bytes32''],
     AbiError ''VaultBTCSharesAssetsMismatch'' [],
     AbiError ''VaultDebtRepaymentExceeded'' [],
     AbiError ''VaultNotAcquirable'' [],
     AbiError ''VersionAlreadyExists'' [],
     AbiError ''ZeroAddress'' [],
     AbiError ''ZeroAmount'' []]"

definition lensAbi :: "abi_item list" where
  "lensAbi = [
     AbiFunction ''estimateLiquidation'' [par ''borrowerProxy'' ''address''] [par ''debtReserveId'' ''uint256'',
       par ''debtToCover'' ''uint256'', par ''exitBtcFee'' ''uint256'', par ''exitBtcFairnessPayment'' ''uint256'',
       par ''vaultId'' ''bytes32'', par ''amountCollateralToSeize'' ''uint256''] View,
     AbiFunction ''adapter'' [] [par '''' ''address''] View,
     AbiFunction ''spoke'' [] [par '''' ''address''] View]
   @ protocolErrorsAbi"

definition vaultSwapAbi :: "abi_item list" where
  "vaultSwapAbi = [
     AbiFunction ''swapExitBtcForVault'' [par ''vaultId'' ''bytes32'',
       par ''maxExitBtcIn'' ''uint256''] [par ''exitBtcPaid'' ''uint256''] Nonpayable,
     AbiFunction ''swapExitBtcForVaultOnBehalf'' [par ''vaultId'' ''bytes32'', par ''maxExitBtcIn'' ''uint256'',
       par ''onBehalfOf'' ''address''] [par ''exitBtcPaid'' ''uint256''] Nonpayable,
     AbiFunction ''isVaultAcquirable'' [par ''vaultId'' ''bytes32''] [par '''' ''bool''] View,
     AbiFunction ''EXIT_BTC'' [] [par '''' ''address''] View,
     AbiFunction ''previewEscrowedVaults'' [par ''_escrowedVaults'' ''bytes32[]''] [tup ''vaults'' ''tuple[]'' [par ''vaultId'' ''bytes32'',
       par ''amountVault'' ''uint256'', par ''amountDebt'' ''uint256'', par ''amountInterest'' ''uint256'',
       par ''amountExitBtcEquivalent'' ''uint256'', par ''amountExitBtcToAcquire'' ''uint256'',
       par ''amountProfitEst'' ''uint256'', par ''amountDeficitEst'' ''uint256'']] View,
     AbiEvent ''AddedVault'' [indexed ''vaultId'' ''bytes32''],
     AbiEvent ''RemovedVault'' [indexed ''vaultId'' ''bytes32'']]
   @ protocolErrorsAbi"

definition adapterAbi :: "abi_item list" where
  "adapterAbi = [
     AbiFunction ''BTC_VAULT_CORE_SPOKE'' [] [par '''' ''address''] View,
     AbiFunction ''liquidate'' [par ''borrower'' ''address'', par ''debtReserveId'' ''uint256'',
       par ''debtToCover'' ''uint256'', par ''maxExitBtcPayment'' ''uint256'',
       par ''directBtcRedeemKey'' ''bytes32''] [par ''vaultIdLiquidated'' ''bytes32'',
       par ''amountCollateralLiquidated'' ''uint256''] Nonpayable,
     AbiFunction ''liquidateWithLLP'' [par ''borrower'' ''address'', par ''llp'' ''address'',
       par ''debtReserveId'' ''uint256'', par ''debtToCover'' ''uint256'', par ''maxExitBtcPayment'' ''uint256'',
       tup ''requestedTokens'' ''tuple[]'' [par ''token'' ''address'',
       par ''amount'' ''uint256'']] [par ''vaultIdLiquidated'' ''bytes32'',
       par ''amountCollateralLiquidated'' ''uint256'', tup ''payouts'' ''tuple[]'' [par ''token'' ''address'',
       par ''amount'' ''uint256'']] Nonpayable,
     AbiEvent ''VaultOwnershipChanged'' [indexed ''vaultId'' ''bytes32'', indexed ''newOwner'' ''address''],
     AbiEvent ''UserProxyCreated'' [indexed ''user'' ''address'', indexed ''proxy'' ''address''],
     AbiFunction ''getPosition'' [par ''user'' ''address''] [tup ''position'' ''tuple'' [par ''vaultIds'' ''bytes32[]'',
       par ''totalCollateralBTC'' ''uint256'', par ''proxyContract'' ''address'']] View]
   @ protocolErrorsAbi"

definition spokeAbi :: "abi_item list" where
  "spokeAbi = [
     AbiFunction ''getReserveCount'' [] [par '''' ''uint256''] View,
     AbiFunction ''getReserve'' [par ''reserveId'' ''uint256''] [tup '''' ''tuple'' [par ''underlying'' ''address'',
       par ''hub'' ''address'', par ''assetId'' ''uint16'', par ''decimals'' ''uint8'',
       par ''collateralRisk'' ''uint24'', par ''flags'' ''uint8'', par ''dynamicConfigKey'' ''uint32'']] View,
     AbiFunction ''getReserveTotalDebt'' [par ''reserveId'' ''uint256''] [par '''' ''uint256''] View,
     AbiEvent ''Supply'' [indexed ''reserveId'' ''uint256'', indexed ''caller'' ''address'',
       indexed ''user'' ''address'', unindexed ''suppliedShares'' ''uint256'',
       unindexed ''suppliedAmount'' ''uint256''],
     AbiEvent ''Withdraw'' [indexed ''reserveId'' ''uint256'', indexed ''caller'' ''address'',
       indexed ''user'' ''address'', unindexed ''withdrawnShares'' ''uint256'',
       unindexed ''withdrawnAmount'' ''uint256''],
     AbiEvent ''LiquidationCall'' [indexed ''collateralReserveId'' ''uint256'',
       indexed ''debtReserveId'' ''uint256'', indexed ''user'' ''address'', unindexed ''liquidator'' ''address'',
       unindexed ''receiveShares'' ''bool'', unindexed ''debtAmountRestored'' ''uint256'',
       unindexed ''drawnSharesLiquidated'' ''uint256'',
       AbiParam ''premiumDelta'' ''tuple'' (Some False) [par ''sharesDelta'' ''int256'',
       par ''offsetRayDelta'' ''int256'', par ''restoredPremiumRay'' ''uint256''],
       unindexed ''collateralAmountRemoved'' ''uint256'', unindexed ''collateralSharesLiquidated'' ''uint256'',
       unindexed ''collateralSharesToLiquidator'' ''uint256'']]
   @ protocolErrorsAbi"

definition liquidationRouterAbi :: "abi_item list" where
  "liquidationRouterAbi = [
     AbiFunction ''liquidate'' [tup ''liquidationData'' ''tuple'' [par ''borrower'' ''address'',
       par ''minWbtcProfit'' ''uint256''], tup ''flashDatas'' ''tuple[]'' [par ''venueType'' ''uint8'',
       par ''venueAddress'' ''address'', par ''token'' ''address'', par ''swapData'' ''bytes''],
       tup ''swapDatas'' ''tuple[]'' [par ''dexAggRouter'' ''address'',
       par ''callData'' ''bytes'']] [par ''wbtcProfit'' ''uint256''] Nonpayable,
     AbiFunction ''owner'' [] [par '''' ''address''] View,
     AbiFunction ''wbtc'' [] [par '''' ''address''] View,
     AbiError ''BelovedError'' [par ''netWbtcBeforePayment'' ''uint256'',
       tup ''debts'' ''tuple[]'' [par ''token'' ''address'', par ''venue'' ''address'', par ''amount'' ''uint256'']]]
   @ protocolErrorsAbi"

definition arbitrageRouterAbi :: "abi_item list" where
  "arbitrageRouterAbi = [
     AbiFunction ''relay'' [tup ''message'' ''tuple'' [tup ''calls'' ''tuple[]'' [par ''data'' ''bytes'',
       par ''value'' ''uint256''], par ''deadline'' ''uint256''], par ''signature'' ''bytes''] [] Payable,
     AbiFunction ''swapWbtcToVault'' [par ''vaultSwap'' ''address'', par ''vaultId'' ''bytes32'',
       par ''onBehalfOf'' ''address'', par ''minProfit'' ''uint256'', par ''maxWbtcIn'' ''uint256''] [] Nonpayable,
     AbiFunction ''signer'' [] [par '''' ''address''] View,
     AbiFunction ''payer'' [] [par '''' ''address''] View,
     AbiFunction ''wbtc'' [] [par '''' ''address''] View,
     AbiEvent ''SwapWbtcToVault'' [indexed ''vaultSwap'' ''address'', indexed ''vaultId'' ''bytes32'',
       indexed ''onBehalfOf'' ''address'', unindexed ''amountWbtcToAcquire'' ''uint256'',
       unindexed ''amountVault'' ''uint256'']]
   @ protocolErrorsAbi"

definition erc20Abi :: "abi_item list" where
  "erc20Abi = [
     AbiFunction ''approve'' [par ''spender'' ''address'',
       par ''amount'' ''uint256''] [par '''' ''bool''] Nonpayable,
     AbiFunction ''allowance'' [par ''owner'' ''address'', par ''spender'' ''address''] [par '''' ''uint256''] View,
     AbiFunction ''balanceOf'' [par ''account'' ''address''] [par '''' ''uint256''] View,
     AbiFunction ''symbol'' [] [par '''' ''string''] View,
     AbiFunction ''decimals'' [] [par '''' ''uint8''] View]"

definition safeExecutionEvents :: "abi_item list" where
  "safeExecutionEvents = [
     AbiEvent ''ExecutionSuccess'' [unindexed ''txHash'' ''bytes32'', unindexed ''payment'' ''uint256''],
     AbiEvent ''ExecutionFailure'' [unindexed ''txHash'' ''bytes32'', unindexed ''payment'' ''uint256'']]"

definition safeAbi :: "abi_item list" where
  "safeAbi = safeExecutionEvents
   @ [
     AbiFunction ''execTransaction'' [par ''to'' ''address'', par ''value'' ''uint256'', par ''data'' ''bytes'',
       par ''operation'' ''uint8'', par ''safeTxGas'' ''uint256'', par ''baseGas'' ''uint256'',
       par ''gasPrice'' ''uint256'', par ''gasToken'' ''address'', par ''refundReceiver'' ''address'',
       par ''signatures'' ''bytes''] [par ''success'' ''bool''] Payable,
     AbiFunction ''getTransactionHash'' [par ''to'' ''address'', par ''value'' ''uint256'', par ''data'' ''bytes'',
       par ''operation'' ''uint8'', par ''safeTxGas'' ''uint256'', par ''baseGas'' ''uint256'',
       par ''gasPrice'' ''uint256'', par ''gasToken'' ''address'', par ''refundReceiver'' ''address'',
       par ''_nonce'' ''uint256''] [par '''' ''bytes32''] View,
     AbiFunction ''nonce'' [] [par '''' ''uint256''] View,
     AbiFunction ''getThreshold'' [] [par '''' ''uint256''] View,
     AbiFunction ''getOwners'' [] [par '''' ''address[]''] View,
     AbiFunction ''VERSION'' [] [par '''' ''string''] View]"

section \<open>Decoding a revert\<close>

text \<open>The interfaces the bots call the protocol through.\<close>

definition bot_abis :: "abi_item list list" where
  "bot_abis = [vaultSwapAbi, adapterAbi, lensAbi, spokeAbi, liquidationRouterAbi, arbitrageRouterAbi]"

text \<open>Decoding matches on the selector and takes the first item that has it.\<close>

definition declared_error :: "(string \<Rightarrow> hex) \<Rightarrow> abi_item list \<Rightarrow> hex \<Rightarrow> abi_item option" where
  "declared_error sel abi d = List.find (\<lambda>i. is_error i \<and> sel (item_signature i) = d) abi"

definition decodes_first :: "(string \<Rightarrow> hex) \<Rightarrow> (abi_item list \<Rightarrow> hex \<Rightarrow> abi_item option) \<Rightarrow> bool" where
  "decodes_first sel dec \<longleftrightarrow> (\<forall>abi d i. declared_error sel abi d = Some i \<longrightarrow> dec abi d = Some i)"

text \<open>A call through \<open>abi\<close> that a contract reverted with the selector \<open>d\<close>: the rejection carries a revert
  whose name is that of the decoded error, if there is one.\<close>

definition rejected_with :: "(abi_item list \<Rightarrow> hex \<Rightarrow> abi_item option) \<Rightarrow> abi_item list \<Rightarrow> hex \<Rightarrow> thrown \<Rightarrow> bool" where
  "rejected_with dec abi d e \<longleftrightarrow>
     (\<exists>r. as_revert e = Some r \<and> rv_errorName r = map_option item_name (dec abi d))"

text \<open>The catalogue holds errors only, none spelt with a parenthesis, none called like Solidity's own two.\<close>

lemma catalogue_entries:
  "list_all (\<lambda>i. is_error i \<and> CHR ''('' \<notin> set (item_name i) \<and> item_name i \<noteq> ''Error'' \<and> item_name i \<noteq> ''Panic'')
     protocolErrorsAbi"
  by (simp add: protocolErrorsAbi_def)

lemma catalogue_entryD:
  assumes "i \<in> set protocolErrorsAbi"
  shows "is_error i" "CHR ''('' \<notin> set (item_name i)" "item_name i \<noteq> ''Error''" "item_name i \<noteq> ''Panic''"
  using catalogue_entries assms by (auto simp: list_all_iff)

lemma beloved_in_catalogue:
  "AbiError ''BelovedError'' [par ''netWbtcBeforePayment'' ''uint256'',
     tup ''debts'' ''tuple[]'' [par ''token'' ''address'', par ''venue'' ''address'', par ''amount'' ''uint256'']]
   \<in> set protocolErrorsAbi"
  by (simp add: protocolErrorsAbi_def)

text \<open>Each interface declares the errors of the catalogue and no other.\<close>

lemma own_before_catalogue:
  assumes "list_all (\<lambda>i. is_error i \<longrightarrow> i \<in> set protocolErrorsAbi) own"
  shows "{i \<in> set (own @ protocolErrorsAbi). is_error i} = set protocolErrorsAbi"
  using assms catalogue_entryD(1) by (auto simp: list_all_iff)

lemma declares_each:
  "{i \<in> set vaultSwapAbi. is_error i} = set protocolErrorsAbi"
  "{i \<in> set adapterAbi. is_error i} = set protocolErrorsAbi"
  "{i \<in> set lensAbi. is_error i} = set protocolErrorsAbi"
  "{i \<in> set spokeAbi. is_error i} = set protocolErrorsAbi"
  "{i \<in> set liquidationRouterAbi. is_error i} = set protocolErrorsAbi"
  "{i \<in> set arbitrageRouterAbi. is_error i} = set protocolErrorsAbi"
  unfolding vaultSwapAbi_def adapterAbi_def lensAbi_def spokeAbi_def liquidationRouterAbi_def
    arbitrageRouterAbi_def
  by (rule own_before_catalogue; simp add: beloved_in_catalogue)+

lemma declares_catalogue: "abi \<in> set bot_abis \<Longrightarrow> {i \<in> set abi. is_error i} = set protocolErrorsAbi"
  unfolding bot_abis_def list.set insert_iff empty_iff by (elim disjE FalseE) (simp_all only: declares_each)

lemma signature_name:
  "CHR ''('' \<notin> set (item_name i) \<Longrightarrow> takeWhile (\<lambda>c. c \<noteq> CHR ''('') (item_signature i) = item_name i"
  unfolding item_signature_def by (subst takeWhile_append2) auto

lemma same_signature_same_name:
  assumes "i \<in> set protocolErrorsAbi" "j \<in> set protocolErrorsAbi" "item_signature i = item_signature j"
  shows "item_name i = item_name j"
  using signature_name [OF catalogue_entryD(2) [OF assms(1)]] signature_name [OF catalogue_entryD(2) [OF assms(2)]]
    assms(3) by simp

lemma raised_error_declared:
  assumes "inj_on sel (item_signature ` set protocolErrorsAbi)" "abi \<in> set bot_abis" "err \<in> set protocolErrorsAbi"
  obtains i where "declared_error sel abi (sel (item_signature err)) = Some i" "item_name i = item_name err"
proof (cases "declared_error sel abi (sel (item_signature err))")
  case None
  from declares_catalogue [OF assms(2)] assms(3) have "err \<in> set abi" "is_error err" by blast+
  with None show thesis unfolding declared_error_def find_None_iff by blast
next
  case (Some i)
  then have i: "i \<in> set abi" "is_error i" "sel (item_signature i) = sel (item_signature err)"
    unfolding declared_error_def find_Some_iff by (auto intro: nth_mem)
  with declares_catalogue [OF assms(2)] have c: "i \<in> set protocolErrorsAbi" by blast
  with i(3) assms(1,3) have "item_signature i = item_signature err" by (blast dest: inj_onD)
  with c assms(3) have "item_name i = item_name err" by (intro same_signature_same_name)
  with Some show thesis by (rule that)
qed

text \<open>C32: a revert is read as the error the contract raised, through every interface. If no two errors of
  the catalogue share a selector and decoding takes the first item with the selector, a call through any
  interface of the bots that reverted with an error of the catalogue, wherever in the call graph it was
  raised, is reported under that error's name; it counts as a healthy position exactly for
  \<open>PositionNotLiquidatable\<close> and as a vault that is gone exactly for \<open>VaultNotAcquirable\<close> and
  \<open>InvalidEscrowedVaultStatus\<close>. So a fault is never taken for an answer.\<close>

theorem revert_read_as_raised:
  assumes "decodes_first sel dec" "inj_on sel (item_signature ` set protocolErrorsAbi)"
    "abi \<in> set bot_abis" "err \<in> set protocolErrorsAbi" "rejected_with dec abi (sel (item_signature err)) e"
  shows "describe_revert e = item_name err
    \<and> (is_healthy_position_revert e \<longleftrightarrow> item_name err = ''PositionNotLiquidatable'')
    \<and> (is_vault_gone_revert e \<longleftrightarrow> item_name err \<in> {''VaultNotAcquirable'', ''InvalidEscrowedVaultStatus''})"
proof -
  obtain i where i: "declared_error sel abi (sel (item_signature err)) = Some i" "item_name i = item_name err"
    using raised_error_declared [OF assms(2-4)] .
  with assms(1) have "dec abi (sel (item_signature err)) = Some i" unfolding decodes_first_def by blast
  with assms(5) i(2) obtain r where r: "as_revert e = Some r" "rv_errorName r = Some (item_name err)"
    unfolding rejected_with_def by auto
  from r catalogue_entryD(3,4) [OF assms(4)] show ?thesis
    by (simp add: describe_revert_def is_healthy_position_revert_def is_vault_gone_revert_def
        LENS_HEALTHY_POSITION_ERROR_def VAULT_GONE_ERRORS_def)
qed

text \<open>The error of an unregistered keeper, which only the registry behind the swap declares.\<close>

theorem revert_read_as_raised_witness:
  "describe_revert (BaseErr ''reverted'' (Some \<lparr>rv_errorName = Some ''UnauthorizedVaultKeeper'', rv_reason = None\<rparr>))
     = ''UnauthorizedVaultKeeper''"
proof -
  let ?err = "AbiError ''UnauthorizedVaultKeeper'' []"
  have c: "?err \<in> set protocolErrorsAbi" by (simp add: protocolErrorsAbi_def)
  have f: "decodes_first (\<lambda>s. s) (declared_error (\<lambda>s. s))" by (simp add: decodes_first_def)
  have s: "vaultSwapAbi \<in> set bot_abis" by (simp add: bot_abis_def)
  have j: "inj_on (\<lambda>s. s) (item_signature ` set protocolErrorsAbi)" by (simp add: inj_on_def)
  obtain i where i: "declared_error (\<lambda>s. s) vaultSwapAbi (item_signature ?err) = Some i" "item_name i = item_name ?err"
    using raised_error_declared [OF j s c] .
  show ?thesis
    using revert_read_as_raised [OF f j s c,
        of "BaseErr ''reverted'' (Some \<lparr>rv_errorName = Some ''UnauthorizedVaultKeeper'', rv_reason = None\<rparr>)"] i
    by (simp add: rejected_with_def)
qed

section \<open>The arguments of the flash router\<close>

text \<open>The router's enumeration, of which the call carries the ordinal, and the sentinel profit that turns
  \<open>liquidate\<close> into a probe.\<close>

fun venue_type_value :: "venue_type \<Rightarrow> nat" where
  "venue_type_value AaveV3 = 0"
| "venue_type_value Morpho = 1"
| "venue_type_value UniswapV4FlashSwap = 2"
| "venue_type_value UniswapV4FlashLoan = 3"

definition MIN_PROFIT_REVERT_TAG :: int where
  "MIN_PROFIT_REVERT_TAG = 2 ^ 256 - 1"

definition poolKeyAbiParameters :: "abi_param list" where
  "poolKeyAbiParameters = [tup '''' ''tuple'' [par ''currency0'' ''address'', par ''currency1'' ''address'',
     par ''fee'' ''uint24'', par ''tickSpacing'' ''int24'', par ''hooks'' ''address'']]"

text \<open>The encoder is viem's; it rejects a number that is none or does not fit.\<close>

definition encode_pool_key :: "(abi_param list \<Rightarrow> pool_key \<Rightarrow> hex outcome) \<Rightarrow> pool_key \<Rightarrow> hex outcome" where
  "encode_pool_key encode poolKey = encode poolKeyAbiParameters poolKey"

text \<open>An entry as the call carries it: ordinal, venue, token and \<open>swapData\<close>.\<close>

definition flash_data_args ::
  "(abi_param list \<Rightarrow> pool_key \<Rightarrow> hex outcome) \<Rightarrow> flash_data \<Rightarrow> (nat \<times> address \<times> address \<times> hex) outcome" where
  "flash_data_args encode fd =
     await (case fd_swapData fd of None \<Rightarrow> Inr ''0x'' | Some k \<Rightarrow> encode_pool_key encode k) (\<lambda>swapData.
       Inr (venue_type_value (fd_venueType fd), fd_venueAddress fd, fd_token fd, swapData))"

definition probe_args :: "address \<Rightarrow> flash_data list \<Rightarrow> router_call" where
  "probe_args borrower flashDatas =
     \<lparr>rc_borrower = borrower, rc_minWbtcProfit = MIN_PROFIT_REVERT_TAG, rc_flashDatas = flashDatas\<rparr>"

text \<open>Two entries that differ in venue kind differ on the wire.\<close>

lemma venue_type_value_inj: "venue_type_value a = venue_type_value b \<Longrightarrow> a = b"
  by (cases a; cases b) simp_all

text \<open>What is sent is never the probe: on amounts below the sentinel, with an operator's minimum below it,
  the floor of a vetted call is below it too.\<close>

lemma vetted_is_no_probe:
  assumes "flash_vet_one cs reg wbtc bps minProfit before simulate c = Funded c' call profit"
    and amounts: "\<And>fds net debts. simulate (ca_borrower c) fds = RevertBeloved net debts
      \<Longrightarrow> net < MIN_PROFIT_REVERT_TAG \<and> (\<forall>d \<in> set debts. 0 \<le> vd_amount d)"
    and "0 \<le> before" and "\<And>m. minProfit = Some m \<Longrightarrow> m < MIN_PROFIT_REVERT_TAG"
  shows "rc_minWbtcProfit call < rc_minWbtcProfit (probe_args (ca_borrower c) (rc_flashDatas call))"
proof -
  obtain fds net debts q where
    p: "probe_liquidation cs (simulate (ca_borrower c) fds) = Inr (Quote net debts)"
    and q: "quote_profit cs net debts wbtc before = Inr q" "0 < pq_expectedProfit q"
    and f: "min_wbtc_profit_floor (pq_expectedProfit q) bps minProfit = Inr (rc_minWbtcProfit call)"
    using assms(1) by (auto simp: flash_vet_one_def split: sum.splits probe_result.splits if_splits)
  from p obtain ds where ds: "simulate (ca_borrower c) fds = RevertBeloved net ds"
    "debts = map (\<lambda>d. d\<lparr>vd_token := cs (vd_token d), vd_venue := cs (vd_venue d)\<rparr>) ds"
    by (auto simp: probe_liquidation_def split: simulation.splits)
  from amounts [OF ds(1)] have "0 \<le> sum_list (map vd_amount debts)"
    by (auto simp: ds(2) comp_def intro!: sum_list_nonneg)
  with q(1) amounts [OF ds(1)] assms(3) have small: "pq_expectedProfit q < MIN_PROFIT_REVERT_TAG"
    by (auto simp: quote_profit_def Let_def split: if_splits)
  let ?s = "(pq_expectedProfit q * (10000 - bps)) div 10000"
  have fl: "rc_minWbtcProfit call = (case minProfit of None \<Rightarrow> ?s | Some m \<Rightarrow> max m ?s)" "0 \<le> bps"
    using f q(2) by (auto simp: min_wbtc_profit_floor_def Let_def max_def split: if_splits option.splits)
  have "pq_expectedProfit q * (10000 - bps) \<le> pq_expectedProfit q * 10000"
    using q(2) fl(2) by (intro mult_left_mono) auto
  then have "?s \<le> pq_expectedProfit q * 10000 div 10000" by (rule zdiv_mono1) simp
  then have "?s < MIN_PROFIT_REVERT_TAG" using small by simp
  with fl(1) assms(4) show ?thesis by (auto simp: probe_args_def split: option.splits)
qed

section \<open>The message a router verifies\<close>

text \<open>A struct type is a name with its fields, each a name and a type; the order is the source's.\<close>

type_synonym schema = "(string \<times> (string \<times> string) list) list"

definition RELAYER_MESSAGE_TYPES :: schema where
  "RELAYER_MESSAGE_TYPES =
     [(''RelayerMessage'', [(''calls'', ''Call[]''), (''deadline'', ''uint256'')]),
      (''Call'', [(''data'', ''bytes''), (''value'', ''uint256'')])]"

definition ARBITRAGE_ROUTER_EIP712_NAME :: string where
  "ARBITRAGE_ROUTER_EIP712_NAME = ''ArbitrageRouter''"

definition ARBITRAGE_ROUTER_EIP712_VERSION :: string where
  "ARBITRAGE_ROUTER_EIP712_VERSION = ''1.0.0''"

record router_domain =
  dm_name :: string
  dm_version :: string
  dm_chainId :: int
  dm_verifyingContract :: address

definition arbitrage_router_domain :: "int \<Rightarrow> address \<Rightarrow> router_domain" where
  "arbitrage_router_domain chainId verifyingContract =
     \<lparr>dm_name = ARBITRAGE_ROUTER_EIP712_NAME, dm_version = ARBITRAGE_ROUTER_EIP712_VERSION,
      dm_chainId = chainId, dm_verifyingContract = verifyingContract\<rparr>"

text \<open>\<open>encodeType\<close>, as the package's test writes it: the primary type, then the types it refers to,
  transitively, in alphabetical order. Every nested visit adds a type, so as many levels as the schema
  has types are enough.\<close>

definition base_type :: "string \<Rightarrow> string" where
  "base_type t = (case rev t of
     [] \<Rightarrow> t
   | c # r \<Rightarrow> if c \<noteq> CHR '']'' then t
       else (case dropWhile (\<lambda>c. c \<in> set ''0123456789'') r of
          [] \<Rightarrow> t | b # s \<Rightarrow> if b = CHR ''['' then rev s else t))"

fun referenced :: "nat \<Rightarrow> schema \<Rightarrow> string \<Rightarrow> string \<Rightarrow> string list \<Rightarrow> string list" where
  "referenced 0 ts primary name seen = seen"
| "referenced (Suc n) ts primary name seen =
     fold (\<lambda>f seen. let base = base_type (snd f) in
       if map_of ts base \<noteq> None \<and> base \<notin> set seen \<and> base \<noteq> primary
       then referenced n ts primary base (seen @ [base]) else seen)
     (or_default (map_of ts name) []) seen"

definition render_type :: "schema \<Rightarrow> string \<Rightarrow> string" where
  "render_type ts name = name @ ''('' @ join '','' (map (\<lambda>f. snd f @ '' '' @ fst f) (or_default (map_of ts name) [])) @ '')''"

definition encode_type :: "schema \<Rightarrow> string \<Rightarrow> string" where
  "encode_type ts primary =
     concat (map (render_type ts) (primary # sort (referenced (length ts) ts primary primary [])))"

text \<open>The literals of \<open>SelfCallRelayer.sol\<close> and \<open>ArbitrageRouter.sol\<close>.\<close>

definition RELAYER_MESSAGE_TYPE :: string where
  "RELAYER_MESSAGE_TYPE = ''RelayerMessage(Call[] calls,uint256 deadline)Call(bytes data,uint256 value)''"

definition CALL_TYPE :: string where
  "CALL_TYPE = ''Call(bytes data,uint256 value)''"

text \<open>The schema the bot signs under is the one the contract verifies.\<close>

lemma relayer_schema_is_the_contracts:
  "encode_type RELAYER_MESSAGE_TYPES ''RelayerMessage'' = RELAYER_MESSAGE_TYPE"
  "encode_type RELAYER_MESSAGE_TYPES ''Call'' = CALL_TYPE"
  by code_simp+

end
