(* ===== verification/PonderConfig.thy ===== *)
theory PonderConfig
  imports DbAuth Secrets Abis
begin

text \<open>
  The indexer's configuration (\<open>services/ponder/ponder.config.ts\<close>): its secrets, the database
  authentication it installs first, the contracts of each index mode with the interface they are decoded by;
  and the handlers the mode registers. \<open>Number(text)\<close> is an option, \<^const>\<open>None\<close> for a value that is no
  integer; Ponder's own checks of its configuration are not modelled.
\<close>

section \<open>Configuration\<close>

definition index_env_of :: "environment \<Rightarrow> index_env" where
  "index_env_of env = \<lparr>ie_SPOKE_ADDRESS = env ''SPOKE_ADDRESS'', ie_ADAPTER_ADDRESS = env ''ADAPTER_ADDRESS'',
     ie_VAULT_SWAP_ADDRESS = env ''VAULT_SWAP_ADDRESS''\<rparr>"

text \<open>What the process can reach: Secrets Manager, the URL parser, the files and the signer of tokens, and
  Ponder's driver.\<close>

record ponder_world =
  pw_send :: "string \<Rightarrow> secret_answer outcome"
  pw_parse :: "string \<Rightarrow> json_doc option"
  pw_url :: "string \<Rightarrow> db_url option"
  pw_decode :: "string \<Rightarrow> string outcome"
  pw_exists :: "string \<Rightarrow> bool"
  pw_sign :: "iam_target \<Rightarrow> string outcome"
  pw_pg :: "nat option"

text \<open>The environment first; then, if a secret is named, its field of that name. The ids sent come along.\<close>

definition resolve_secret :: "ponder_world \<Rightarrow> environment \<Rightarrow> string \<Rightarrow> string option outcome \<times> string list" where
  "resolve_secret w env name =
     (if truthy (env name) then (Inr (env name), [])
      else if truthy (env ''CONFIG_SECRET_ID'')
      then aws_get (pw_send w) (pw_parse w) (the (env ''CONFIG_SECRET_ID'') @ ''#'' @ name) ''CONFIG_SECRET_ID''
      else (Inr None, []))"

text \<open>\<open>Number(process.env[name] || d)\<close>.\<close>

definition number_env :: "environment \<Rightarrow> string \<Rightarrow> int \<Rightarrow> int option" where
  "number_env env name d = (if truthy (env name) then number_integer (the (env name)) else Some d)"

record contract_source =
  cs_name :: string
  cs_abi :: "abi_item list"
  cs_address :: "string option"
  cs_startBlock :: "int option"

definition liquidation_contracts :: "bool \<Rightarrow> environment \<Rightarrow> contract_source list" where
  "liquidation_contracts indexLiquidation env =
     (let START_BLOCK = number_env env ''START_BLOCK'' 0 in
      if indexLiquidation
      then [\<lparr>cs_name = ''Spoke'', cs_abi = spokeAbi, cs_address = env ''SPOKE_ADDRESS'', cs_startBlock = START_BLOCK\<rparr>,
            \<lparr>cs_name = ''Adapter'', cs_abi = adapterAbi, cs_address = env ''ADAPTER_ADDRESS'', cs_startBlock = START_BLOCK\<rparr>]
      else [])"

definition arbitrage_contracts :: "bool \<Rightarrow> environment \<Rightarrow> contract_source list" where
  "arbitrage_contracts indexArbitrage env =
     (if indexArbitrage
      then [\<lparr>cs_name = ''VaultSwap'', cs_abi = vaultSwapAbi, cs_address = env ''VAULT_SWAP_ADDRESS'',
             cs_startBlock = number_env env ''START_BLOCK'' 0\<rparr>]
      else [])"

record ponder_config =
  po_chainId :: "int option"
  po_rpc :: string
  po_pollingInterval :: "int option"
  po_contracts :: "contract_source list"
  po_database :: "string option"

text \<open>The modes are resolved when the module is imported, so before anything else. A database that is
  \<^const>\<open>None\<close> is Ponder's local one. The result names the modes and what was hooked, too.\<close>

definition create_ponder_config ::
  "ponder_world \<Rightarrow> environment
     \<Rightarrow> (indexing_modes \<times> (db_auth_mode \<times> (iam_target \<times> nat list) option) \<times> ponder_config) outcome" where
  "create_ponder_config w env =
     await (resolve_indexing_modes (index_env_of env)) (\<lambda>modes.
     await (fst (resolve_secret w env ''PONDER_RPC_URL'')) (\<lambda>rpcUrl.
     await (fst (resolve_secret w env ''DATABASE_URL'')) (\<lambda>databaseUrl.
     await (install_database_auth (pw_decode w) (pw_exists w) (pw_sign w) None (pw_pg w) databaseUrl
              (Option.bind databaseUrl (pw_url w)) env) (\<lambda>auth.
       if \<not> truthy rpcUrl then Inl ''PONDER_RPC_URL environment variable is required''
       else Inr (modes, auth, \<lparr>po_chainId = number_env env ''CHAIN_ID'' 1, po_rpc = the rpcUrl,
         po_pollingInterval = number_env env ''PONDER_POLLING_INTERVAL'' 4000,
         po_contracts = liquidation_contracts (im_liquidation modes) env
           @ arbitrage_contracts (im_arbitrage modes) env,
         po_database = (if truthy databaseUrl then databaseUrl else None)\<rparr>)))))"

section \<open>Handlers\<close>

text \<open>The handlers a mode registers: contract, event, and the arguments the handler reads.\<close>

definition liquidation_handlers :: "bool \<Rightarrow> (string \<times> string \<times> string list) list" where
  "liquidation_handlers indexLiquidation = (if indexLiquidation
     then [(''Spoke'', ''Supply'', [''user'', ''suppliedShares'']),
           (''Spoke'', ''Withdraw'', [''user'', ''withdrawnShares'']),
           (''Spoke'', ''LiquidationCall'', [''user'', ''collateralSharesLiquidated'']),
           (''Adapter'', ''UserProxyCreated'', [''user'', ''proxy''])]
     else [])"

definition arbitrage_handlers :: "bool \<Rightarrow> (string \<times> string \<times> string list) list" where
  "arbitrage_handlers indexArbitrage = (if indexArbitrage
     then [(''VaultSwap'', ''AddedVault'', [''vaultId'']), (''VaultSwap'', ''RemovedVault'', [''vaultId''])] else [])"

definition handlers :: "indexing_modes \<Rightarrow> (string \<times> string \<times> string list) list" where
  "handlers modes = liquidation_handlers (im_liquidation modes) @ arbitrage_handlers (im_arbitrage modes)"

fun param_name :: "abi_param \<Rightarrow> string" where
  "param_name (AbiParam n _ _ _) = n"

fun event_args :: "abi_item list \<Rightarrow> string \<Rightarrow> string list option" where
  "event_args [] name = None"
| "event_args (AbiEvent n ps # items) name = (if n = name then Some (map param_name ps) else event_args items name)"
| "event_args (_ # items) name = event_args items name"

section \<open>What a configured indexer listens to\<close>

text \<open>The events the handlers read are declared, with the arguments they read.\<close>

lemma declared_events:
  "event_args spokeAbi ''Supply'' = Some [''reserveId'', ''caller'', ''user'', ''suppliedShares'', ''suppliedAmount'']"
  "event_args spokeAbi ''Withdraw'' = Some [''reserveId'', ''caller'', ''user'', ''withdrawnShares'', ''withdrawnAmount'']"
  "event_args spokeAbi ''LiquidationCall'' = Some [''collateralReserveId'', ''debtReserveId'', ''user'', ''liquidator'',
     ''receiveShares'', ''debtAmountRestored'', ''drawnSharesLiquidated'', ''premiumDelta'', ''collateralAmountRemoved'',
     ''collateralSharesLiquidated'', ''collateralSharesToLiquidator'']"
  "event_args adapterAbi ''UserProxyCreated'' = Some [''user'', ''proxy'']"
  "event_args vaultSwapAbi ''AddedVault'' = Some [''vaultId'']"
  "event_args vaultSwapAbi ''RemovedVault'' = Some [''vaultId'']"
  by (simp_all add: spokeAbi_def adapterAbi_def vaultSwapAbi_def)

lemma create_ponder_config_InrE:
  assumes "create_ponder_config w env = Inr (modes, auth, c)"
  obtains databaseUrl where "resolve_indexing_modes (index_env_of env) = Inr modes"
    "install_database_auth (pw_decode w) (pw_exists w) (pw_sign w) None (pw_pg w) databaseUrl
       (Option.bind databaseUrl (pw_url w)) env = Inr auth"
    "po_contracts c = liquidation_contracts (im_liquidation modes) env @ arbitrage_contracts (im_arbitrage modes) env"
    "po_database c = (if truthy databaseUrl then databaseUrl else None)" "po_rpc c \<noteq> ''''"
proof -
  from assms obtain m r d a where
    f: "resolve_indexing_modes (index_env_of env) = Inr m"
      "install_database_auth (pw_decode w) (pw_exists w) (pw_sign w) None (pw_pg w) d (Option.bind d (pw_url w)) env = Inr a"
    and e: "(if \<not> truthy r then Inl ''PONDER_RPC_URL environment variable is required''
       else Inr (m, a, \<lparr>po_chainId = number_env env ''CHAIN_ID'' 1, po_rpc = the r,
         po_pollingInterval = number_env env ''PONDER_POLLING_INTERVAL'' 4000,
         po_contracts = liquidation_contracts (im_liquidation m) env @ arbitrage_contracts (im_arbitrage m) env,
         po_database = (if truthy d then d else None)\<rparr>)) = Inr (modes, auth, c)"
    unfolding create_ponder_config_def await_eq_Inr by (elim exE conjE)
  from e have "truthy r" by (auto split: if_splits)
  with e f show thesis by (intro that [of d]) (auto simp: truthy_def split: if_splits)
qed

lemma modes_need_addresses:
  assumes "resolve_indexing_modes (index_env_of env) = Inr modes"
  shows "im_liquidation modes \<longleftrightarrow> truthy (env ''SPOKE_ADDRESS'')"
    "im_liquidation modes \<longleftrightarrow> truthy (env ''ADAPTER_ADDRESS'')"
    "im_arbitrage modes \<longleftrightarrow> truthy (env ''VAULT_SWAP_ADDRESS'')"
    "im_liquidation modes \<or> im_arbitrage modes"
  using assms by (auto simp: resolve_indexing_modes_def index_env_of_def Let_def split: if_splits)

definition served :: "contract_source list \<Rightarrow> string \<times> string \<times> string list \<Rightarrow> bool" where
  "served cs h = (case h of (contract, event, args) \<Rightarrow>
     list_ex (\<lambda>k. cs_name k = contract \<and> truthy (cs_address k)
       \<and> (case event_args (cs_abi k) event of None \<Rightarrow> False | Some ps \<Rightarrow> set args \<subseteq> set ps)) cs)"

lemma served_append: "served (as @ bs) h \<longleftrightarrow> served as h \<or> served bs h"
  by (auto simp: served_def)

lemma liquidation_served:
  assumes "truthy (env ''SPOKE_ADDRESS'')" "truthy (env ''ADAPTER_ADDRESS'')" "h \<in> set (liquidation_handlers b)"
  shows "served (liquidation_contracts b env) h"
  using assms by (auto simp: liquidation_handlers_def liquidation_contracts_def served_def declared_events Let_def
      split: if_splits)

lemma arbitrage_served:
  assumes "truthy (env ''VAULT_SWAP_ADDRESS'')" "h \<in> set (arbitrage_handlers b)"
  shows "served (arbitrage_contracts b env) h"
  using assms by (auto simp: arbitrage_handlers_def arbitrage_contracts_def served_def declared_events split: if_splits)

text \<open>An indexer that starts listens to exactly what it handles, on the store it was told to use. If
  the configuration loads, at least one mode is on; every registered handler has its contract in the
  configuration, at a configured address, with an interface that declares the event and the arguments the
  handler reads; every contract of the configuration has a handler; and under IAM authentication the
  database is never Ponder's local one.\<close>

theorem indexer_listens_to_what_it_handles:
  assumes "create_ponder_config w env = Inr (modes, auth, c)"
  shows "handlers modes \<noteq> [] \<and> list_all (served (po_contracts c)) (handlers modes)
    \<and> set (map cs_name (po_contracts c)) = set (map fst (handlers modes))
    \<and> (fst auth = IamMode \<longrightarrow> po_database c \<noteq> None)"
proof -
  obtain databaseUrl where m: "resolve_indexing_modes (index_env_of env) = Inr modes"
    and a: "install_database_auth (pw_decode w) (pw_exists w) (pw_sign w) None (pw_pg w) databaseUrl
       (Option.bind databaseUrl (pw_url w)) env = Inr auth"
    and k: "po_contracts c = liquidation_contracts (im_liquidation modes) env
         @ arbitrage_contracts (im_arbitrage modes) env"
    and d: "po_database c = (if truthy databaseUrl then databaseUrl else None)"
    using assms by (rule create_ponder_config_InrE)
  note on = modes_need_addresses [OF m]
  have "handlers modes \<noteq> []" using on(4) by (auto simp: handlers_def liquidation_handlers_def arbitrage_handlers_def)
  moreover have "list_all (served (po_contracts c)) (handlers modes)"
    unfolding list_all_iff k served_append
  proof
    fix h assume "h \<in> set (handlers modes)"
    then consider "h \<in> set (liquidation_handlers (im_liquidation modes))"
      | "h \<in> set (arbitrage_handlers (im_arbitrage modes))" by (auto simp: handlers_def)
    then show "served (liquidation_contracts (im_liquidation modes) env) h
      \<or> served (arbitrage_contracts (im_arbitrage modes) env) h"
    proof cases
      case 1
      moreover from this have "im_liquidation modes" by (auto simp: liquidation_handlers_def split: if_splits)
      ultimately show ?thesis using liquidation_served on(1,2) by blast
    next
      case 2
      moreover from this have "im_arbitrage modes" by (auto simp: arbitrage_handlers_def split: if_splits)
      ultimately show ?thesis using arbitrage_served on(3) by blast
    qed
  qed
  moreover have "set (map cs_name (po_contracts c)) = set (map fst (handlers modes))"
    by (cases "im_liquidation modes"; cases "im_arbitrage modes")
      (simp_all add: k handlers_def liquidation_contracts_def arbitrage_contracts_def liquidation_handlers_def
        arbitrage_handlers_def Let_def)
  moreover have "fst auth = IamMode \<longrightarrow> po_database c \<noteq> None"
    using a d by (auto simp: install_database_auth_def truthy_def await_eq_Inr split: if_splits)
  ultimately show ?thesis by blast
qed

definition ex_ponder_env :: environment where
  "ex_ponder_env = map_of [(''PONDER_RPC_URL'', ''http://r''), (''SPOKE_ADDRESS'', ''0x1''), (''ADAPTER_ADDRESS'', ''0x2''),
     (''START_BLOCK'', ''17'')]"

definition ex_ponder_world :: ponder_world where
  "ex_ponder_world = \<lparr>pw_send = (\<lambda>_. Inl ''no secrets''), pw_parse = (\<lambda>_. None), pw_url = (\<lambda>_. None), pw_decode = Inr,
     pw_exists = (\<lambda>_. False), pw_sign = (\<lambda>_. Inl ''no signer''), pw_pg = None\<rparr>"

theorem indexer_listens_to_what_it_handles_witness:
  "\<exists>modes auth c. create_ponder_config ex_ponder_world ex_ponder_env = Inr (modes, auth, c)
    \<and> list_all (served (po_contracts c)) (handlers modes)"
proof -
  have "\<not> Option.is_none (case create_ponder_config ex_ponder_world ex_ponder_env of Inl _ \<Rightarrow> None | Inr x \<Rightarrow> Some ())"
    by code_simp
  then obtain modes auth c where "create_ponder_config ex_ponder_world ex_ponder_env = Inr (modes, auth, c)"
    by (auto split: sum.splits)
  with indexer_listens_to_what_it_handles [OF this] show ?thesis by blast
qed

end
