(* ===== verification/Spec2Isabelle.thy ===== *)
theory Spec2Isabelle
  imports RiskControl RiskHalting StoreProps Liveness LiqEngine ArbFunding Operator Indexer Config Boot Probes DbAuth
    ChainReads Secrets Signers ServiceConfig Alerts Health Cli Approvals Services PgRows RelayClient Trading Abis PonderConfig
begin

text \<open>
  Verification of the Aave v4 liquidation and arbitrage bots.

  \<^bold>\<open>The program.\<close> Two services, the liquidator and the arbitrageur, poll an indexer for work and spend
  real money on chain. A process holds one risk gate, one executor and one or two engines. An engine asks
  its funding mode for priced candidates, reserves each in the gate (a slot), and commits it through the
  executor. In AUTO mode the executor claims an intent row in the store, takes a nonce, signs, writes the hash
  down, broadcasts, and writes down what it learned; in MANUAL mode it writes a proposal that an operator
  later claims, signs and confirms with the command-line tool. At every boot and every poll, reconciliation
  compares the rows in flight with the chain. The indexer (a Ponder service) keeps positions and escrowed
  vaults and answers which are liquidatable. The gate, the store and the nonce counter are shared by
  everything in the process, and other processes use the same store.

  \<^bold>\<open>How the theories follow the code.\<close> Each theory names the files it models; a definition keeps the
  name of the function, in snake case, and stands in the order of the code.

  \<^item> \<open>Prelude\<close>, \<open>JsNumbers\<close>: values of the language (text, \<open>??\<close>, ordered maps, \<open>parseInt\<close>, \<open>BigInt\<close>), and
    errors as values: an operation that may throw is an \<open>outcome\<close>, chained by \<open>await\<close>.
  \<^item> \<open>RiskGate\<close>, \<open>RiskLedger\<close>, \<open>RiskRuns\<close>, \<open>RiskHalting\<close>, \<open>RiskControl\<close> (\<open>packages/risk\<close>): the gate as a
    record of its closure's variables, its operations, runs of them in any order, the halting rules, and the
    remote kill switch.
  \<^item> \<open>IntentStore\<close>, \<open>StoreRuns\<close>, \<open>PgStore\<close>, \<open>PgRows\<close>, \<open>StoreProps\<close> (\<open>packages/persistence\<close>): the row, the store
    port as a record of operations, the memory store, the SQL store with its schema creation and rows, and the contract
    both meet (\<open>intent_table\<close>).
  \<^item> \<open>Nonces\<close>, \<open>TxSender\<close>, \<open>RelayClient\<close>, \<open>SafeTx\<close> (\<open>packages/execution\<close>): the nonce authority, one send through
    the public pool or the private relay, the relay's HTTP side, and Safe transactions.
  \<^item> \<open>Liveness\<close>, \<open>Reconcile\<close>, \<open>CrashSafety\<close>, \<open>Executor\<close>, \<open>Outflows\<close> (\<open>packages/engine/src/shared\<close>): what may
    still be on the wire, the verdict on each row, the fencing of nonces, both executors, and which holds a
    balance read already contains.
  \<^item> \<open>LiqInventory\<close>, \<open>LiqFlash\<close>, \<open>LiqEngine\<close>, \<open>Approvals\<close> (\<open>packages/engine/src/liquidation\<close>) and \<open>ArbRouter\<close>,
    \<open>ArbEngine\<close>, \<open>ArbFunding\<close> (\<open>packages/engine/src/arbitrage\<close>): the domain rules, the funding modes and the poll of
    each engine over the shared gate; \<open>Trading\<close> joins the liquidation engine, the executor, the store and the gate.
  \<^item> \<open>Operator\<close>, \<open>Cli\<close> (\<open>services/operator-cli\<close>): the commands of the operator over the shared store, and the
    process around them, from the arguments to the exit code.
  \<^item> \<open>Alerts\<close>, \<open>Health\<close> (\<open>packages/logger\<close>, \<open>packages/notifications\<close>, \<open>packages/observability\<close>): what an operator
    is told, and what a probe answers.
  \<^item> \<open>Indexer\<close> (\<open>packages/chain/src/retry.ts\<close>, \<open>shared/indexer.ts\<close>): retries, the wait at boot, the lag guard.
  \<^item> \<open>ChainReads\<close>, \<open>Secrets\<close>, \<open>Signers\<close> (\<open>packages/chain\<close>, \<open>packages/secrets\<close>, \<open>packages/signer\<close>): queries of the
    node with absence told from failure, secret references, and key custody.
  \<^item> \<open>Config\<close>, \<open>ServiceConfig\<close>, \<open>Boot\<close>, \<open>Services\<close> (\<open>packages/config\<close>, the services' \<open>config.ts\<close> and \<open>index.ts\<close>,
    \<open>packages/runtime\<close>): from the environment to a configuration, from that to a process, and its loops.
  \<^item> \<open>PositionIndex\<close>, \<open>Probes\<close>, \<open>DbAuth\<close>, \<open>PonderConfig\<close> (\<open>services/ponder\<close>): the indexer's tables and handlers,
    its API, its database authentication, and which contracts it listens to.
  \<^item> \<open>Abis\<close> (\<open>packages/abis\<close>): the contracts' interfaces, the names reverts decode to, the router's message schema.

  \<^bold>\<open>Concurrency.\<close> JavaScript runs to the next \<open>await\<close>. A step of the model is such a stretch; whatever
  others do at an \<open>await\<close> is an argument: a list of gate operations, of store calls, or a change of an abstract
  world. Theorems quantify over it. The nonce lock makes a critical section one step.

  \<^bold>\<open>What the lemmas show.\<close> For the gate: the ledger invariant over every run, no overdraw, every slot settled
  once, halts that stay. For the store: one contract for both backends, refinement between them up to the
  spelling of an address, fenced updates. For sending: no nonce given twice, the hash written before the
  broadcast, no second broadcast while one may be alive, and rows freed only on evidence. For the engines:
  every opened slot is closed whatever throws, worst-case pricing, signed batches counted until they can take
  nothing more, no candidate starved; and over the executor, no transaction in flight that the gate does not
  count. For the operator: what is signed is the proposal, a Safe transaction is not given up while it is
  executable, the hash in the alert is the stored one, and a command that exits zero is recorded; a bytecode
  halt takes every allowance back. For secrets and keys: a failed lookup reveals lengths only, a signature
  recovers to the declared address. For boot and configuration: no engine trades before its whole boot
  returned, no broadcast before the contracts are verified, and funding, execution mode and engines as the
  environment names them, or no boot. For the indexer: tables mirror the chain's events, a revert is read as
  the error the contract raised, and an empty answer means an empty market.

  \<^bold>\<open>Interfaces.\<close> \<open>intent_table\<close> is the store's contract, interpreted by the memory and by the SQL store;
  \<open>nonce_source\<close> is what a sender relies on of the nonce authority, interpreted by the allocator; \<open>risk_slots\<close>
  is what an engine relies on of the gate, interpreted by the gate; \<open>quiet_notifier\<close> is what every caller relies
  on of an alert, interpreted by the notifier the boot builds.

  \<^bold>\<open>Parameters and their laws.\<close> Code outside the repository is an argument: the ABI and hashing library
  (\<open>abi_laws\<close>), the elliptic curve (\<open>curve_laws\<close>), KMS, Secrets Manager, the URL and JSON parsers, contract reads
  and simulations, the clock, the network. Each law used is a hypothesis of the theorem and is met by a
  concrete function in its witness. \<open>decodes_first\<close>, \<open>safe_wired\<close>, \<open>lens_truthful\<close>, \<open>preview_in_order\<close>, \<open>sleeps_honoured\<close> and
  \<open>pg_laws\<close> are of this kind.

  \<^bold>\<open>Termination and bounds.\<close> Everything is a total function. A loop over attempts counts them down; the wait at
  boot recurses on the time left; a loop over offsets that would not end (a batch size of zero) is \<^const>\<open>None\<close>,
  and the configured sizes are shown positive. Nonces, heights, stamps and amounts are unbounded integers, as
  \<open>bigint\<close> is; where a value is a \<open>number\<close>, the schemas' bounds keep it exact. An em dash in a message is
  written \<open>--\<close>.

  \<^bold>\<open>Not modelled.\<close> Metrics and their registries, sockets and timers (input and output), Ponder's handling of
  reorganisations, the SQL driver and the text of the schema script, the Solidity contracts and the scripts for
  end-to-end tests.
\<close>

end
